(* ===== verification/Prelude.thy ===== *)
theory Prelude
  imports Main "HOL-Library.AList"
begin

text \<open>
  The part of JavaScript the program rests on, as executable functions, with the
  lemmas the component theories share.

  Strings are \<^typ>\<open>string\<close>, one \<^typ>\<open>char\<close> per UTF-16 code unit below 256; code units
  above that do not occur in the model. Dates and time stamps are milliseconds since the
  epoch (\<^typ>\<open>int\<close>), \<open>null\<close> and \<open>undefined\<close> are \<open>None\<close>, an insertion-ordered
  \<open>Map\<close> is an association list with \<^const>\<open>AList.update\<close>, a \<open>Set\<close> made from an array is
  the array without its later duplicates (\<open>uniq\<close>), and \<open>Array.prototype.sort\<close> is the
  stable insertion sort \<open>js_sort\<close>: the language fixes the result of a consistent
  comparator up to stability, so any stable sort computes it.
\<close>

named_theorems js_defs \<open>definitions of the JavaScript library functions\<close>
named_theorems component_defs \<open>definitions a component's proofs unfold together\<close>

type_synonym millis = int

section \<open>Nullable values and Booleans\<close>

definition nullish :: "'a option \<Rightarrow> 'a \<Rightarrow> 'a" where
  \<comment> \<open>the operator \<open>??\<close>\<close>
  "nullish o' d = (case o' of None \<Rightarrow> d | Some x \<Rightarrow> x)"

lemma nullish_simps [simp]: "nullish None d = d" "nullish (Some x) d = x"
  by (simp_all add: nullish_def)

definition truthy :: "string option \<Rightarrow> bool" where
  \<comment> \<open>a nullable string as a condition: \<open>null\<close> and the empty string are false\<close>
  "truthy s = (case s of None \<Rightarrow> False | Some t \<Rightarrow> t \<noteq> [])"

lemma truthy_simps [simp]: "\<not> truthy None" "truthy (Some t) \<longleftrightarrow> t \<noteq> []"
  by (simp_all add: truthy_def)

section \<open>Strings\<close>

definition js_ws :: "char \<Rightarrow> bool" where
  \<comment> \<open>the class \<open>\s\<close> and what \<open>trim\<close> removes\<close>
  "js_ws c \<longleftrightarrow> of_char c \<in> {9, 10, 11, 12, 13, 32, 160 :: nat}"

definition js_trim :: "string \<Rightarrow> string" where
  "js_trim s = rev (dropWhile js_ws (rev (dropWhile js_ws s)))"

definition lower_char :: "char \<Rightarrow> char" where
  \<comment> \<open>\<open>toLowerCase\<close> on one code unit below 256\<close>
  "lower_char c = (let n = of_char c :: nat in
     if (65 \<le> n \<and> n \<le> 90) \<or> (192 \<le> n \<and> n \<le> 222 \<and> n \<noteq> 215) then char_of (n + 32) else c)"

definition js_lower :: "string \<Rightarrow> string" where
  "js_lower s = map lower_char s"

definition is_digit :: "char \<Rightarrow> bool" where
  "is_digit c \<longleftrightarrow> (let n = of_char c :: nat in 48 \<le> n \<and> n \<le> 57)"

definition is_lower_alpha :: "char \<Rightarrow> bool" where
  "is_lower_alpha c \<longleftrightarrow> (let n = of_char c :: nat in 97 \<le> n \<and> n \<le> 122)"

definition is_upper_alpha :: "char \<Rightarrow> bool" where
  "is_upper_alpha c \<longleftrightarrow> (let n = of_char c :: nat in 65 \<le> n \<and> n \<le> 90)"

definition is_lower_alnum :: "char \<Rightarrow> bool" where
  \<comment> \<open>the class \<open>[a-z0-9]\<close>\<close>
  "is_lower_alnum c \<longleftrightarrow> is_lower_alpha c \<or> is_digit c"

definition digit_value :: "char \<Rightarrow> nat" where
  "digit_value c = of_char c - 48"

definition digit_char :: "nat \<Rightarrow> char" where
  "digit_char d = char_of (d + 48)"

fun split_on :: "char \<Rightarrow> string \<Rightarrow> string list" where
  \<comment> \<open>\<open>s.split(c)\<close> for a one-character separator\<close>
  "split_on c [] = [[]]"
| "split_on c (x # xs) =
     (if x = c then [] # split_on c xs
      else (case split_on c xs of [] \<Rightarrow> [[x]] | w # ws \<Rightarrow> (x # w) # ws))"

function split_runs :: "(char \<Rightarrow> bool) \<Rightarrow> string \<Rightarrow> string list" where
  \<comment> \<open>\<open>s.split(/[class]+/)\<close>\<close>
  "split_runs P s =
     (case dropWhile (\<lambda>c. \<not> P c) s of
        [] \<Rightarrow> [takeWhile (\<lambda>c. \<not> P c) s]
      | r # rs \<Rightarrow> takeWhile (\<lambda>c. \<not> P c) s # split_runs P (dropWhile P rs))"
  by pat_completeness auto
termination
proof (relation "measure (\<lambda>(P, s). length s)", goal_cases)
  case 1
  show ?case by simp
next
  case (2 P s r rs)
  have "length (dropWhile P rs) \<le> length rs"
    by (rule length_dropWhile_le)
  also have "length rs < length (dropWhile (\<lambda>c. \<not> P c) s)"
    using 2 by simp
  also have "\<dots> \<le> length s"
    by (rule length_dropWhile_le)
  finally show ?case by simp
qed

declare split_runs.simps [simp del]

fun join_with :: "string \<Rightarrow> string list \<Rightarrow> string" where
  \<comment> \<open>\<open>xs.join(sep)\<close>\<close>
  "join_with sep [] = []"
| "join_with sep [x] = x"
| "join_with sep (x # y # ys) = x @ sep @ join_with sep (y # ys)"

definition starts_with :: "string \<Rightarrow> string \<Rightarrow> bool" where
  \<comment> \<open>\<open>s.startsWith(p)\<close>\<close>
  "starts_with s p \<longleftrightarrow> take (length p) s = p"

definition ends_with :: "string \<Rightarrow> string \<Rightarrow> bool" where
  "ends_with s p \<longleftrightarrow> starts_with (rev s) (rev p)"

fun includes_str :: "string \<Rightarrow> string \<Rightarrow> bool" where
  \<comment> \<open>\<open>s.includes(t)\<close>\<close>
  "includes_str [] t = (t = [])"
| "includes_str (x # xs) t = (starts_with (x # xs) t \<or> includes_str xs t)"

definition js_slice :: "nat \<Rightarrow> nat \<Rightarrow> 'a list \<Rightarrow> 'a list" where
  \<comment> \<open>\<open>s.slice(a, b)\<close> with non-negative bounds\<close>
  "js_slice a b s = take (b - a) (drop a s)"

fun index_of :: "char \<Rightarrow> string \<Rightarrow> nat option" where
  \<comment> \<open>\<open>s.indexOf(c)\<close>, \<open>None\<close> for -1\<close>
  "index_of c [] = None"
| "index_of c (x # xs) = (if x = c then Some 0 else map_option Suc (index_of c xs))"

definition last_index_of :: "char \<Rightarrow> string \<Rightarrow> nat option" where
  "last_index_of c s = map_option (\<lambda>k. length s - Suc k) (index_of c (rev s))"

section \<open>Numbers and text\<close>

fun show_nat :: "nat \<Rightarrow> string" where
  \<comment> \<open>\<open>String(n)\<close>\<close>
  "show_nat n = (if n < 10 then [digit_char n] else show_nat (n div 10) @ [digit_char (n mod 10)])"

declare show_nat.simps [simp del]

definition show_int :: "int \<Rightarrow> string" where
  "show_int i = (if i < 0 then ''-'' @ show_nat (nat (- i)) else show_nat (nat i))"

definition read_digits :: "string \<Rightarrow> nat" where
  \<comment> \<open>the value of a string of decimal digits\<close>
  "read_digits s = foldl (\<lambda>n c. 10 * n + digit_value c) 0 s"

text \<open>
  \<open>Number(s)\<close> on a string. A finite decimal literal is kept exactly, as a mantissa and a
  power of ten; rounding to a double is not modelled, so the functions that use it are
  exact up to \<open>2 ^ 53\<close>.
\<close>

datatype js_num = NaN | Infinite bool | Dec int int

definition digits_value :: "(char \<Rightarrow> nat option) \<Rightarrow> nat \<Rightarrow> string \<Rightarrow> nat option" where
  "digits_value val base s =
     (if s = [] then None
      else foldl (\<lambda>acc c. case (acc, val c) of (Some n, Some d) \<Rightarrow> Some (base * n + d) | _ \<Rightarrow> None)
             (Some 0) s)"

definition radix_digit :: "nat \<Rightarrow> char \<Rightarrow> nat option" where
  "radix_digit base c =
     (let n = of_char c :: nat;
          d = (if 48 \<le> n \<and> n \<le> 57 then Some (n - 48)
               else if 97 \<le> n \<and> n \<le> 102 then Some (n - 87)
               else if 65 \<le> n \<and> n \<le> 70 then Some (n - 55) else None)
      in case d of None \<Rightarrow> None | Some k \<Rightarrow> if k < base then Some k else None)"

definition parse_exponent :: "string \<Rightarrow> int option" where
  \<comment> \<open>what follows the mantissa: nothing, or \<open>e\<close> with an optionally signed integer\<close>
  "parse_exponent s = (case s of
       [] \<Rightarrow> Some 0
     | c # rest \<Rightarrow>
         if c \<in> {CHR ''e'', CHR ''E''} then
           (case rest of
              [] \<Rightarrow> None
            | d # ds \<Rightarrow>
                (let (neg, body) = (if d = CHR ''-'' then (True, ds)
                                    else if d = CHR ''+'' then (False, ds) else (False, d # ds))
                 in if body \<noteq> [] \<and> list_all is_digit body
                    then Some ((if neg then -1 else 1) * int (read_digits body)) else None))
         else None)"

definition parse_decimal :: "string \<Rightarrow> (int \<times> int) option" where
  \<comment> \<open>an unsigned decimal literal as mantissa and power of ten\<close>
  "parse_decimal s =
     (let ip = takeWhile is_digit s; r = dropWhile is_digit s;
          (fp, r2) = (case r of c # rest \<Rightarrow>
                         if c = CHR ''.'' then (takeWhile is_digit rest, dropWhile is_digit rest)
                         else ([], r)
                       | [] \<Rightarrow> ([], []))
      in if ip = [] \<and> fp = [] then None
         else map_option (\<lambda>e. (int (read_digits (ip @ fp)), e - int (length fp))) (parse_exponent r2))"

definition Number_of :: "string \<Rightarrow> js_num" where
  "Number_of raw =
     (let s = js_trim raw in
      if s = [] then Dec 0 0
      else if starts_with s ''0x'' \<or> starts_with s ''0X'' then
        (case digits_value (radix_digit 16) 16 (drop 2 s) of None \<Rightarrow> NaN | Some n \<Rightarrow> Dec (int n) 0)
      else if starts_with s ''0o'' \<or> starts_with s ''0O'' then
        (case digits_value (radix_digit 8) 8 (drop 2 s) of None \<Rightarrow> NaN | Some n \<Rightarrow> Dec (int n) 0)
      else if starts_with s ''0b'' \<or> starts_with s ''0B'' then
        (case digits_value (radix_digit 2) 2 (drop 2 s) of None \<Rightarrow> NaN | Some n \<Rightarrow> Dec (int n) 0)
      else
        (let (neg, body) = (if hd s = CHR ''-'' then (True, tl s)
                            else if hd s = CHR ''+'' then (False, tl s) else (False, s))
         in if body = ''Infinity'' then Infinite neg
            else (case parse_decimal body of None \<Rightarrow> NaN
                  | Some (m, e) \<Rightarrow> Dec (if neg then - m else m) e)))"

definition num_integer :: "js_num \<Rightarrow> int option" where
  \<comment> \<open>the value when \<open>Number.isInteger\<close> holds\<close>
  "num_integer x = (case x of
       Dec m e \<Rightarrow> if 0 \<le> e then Some (m * 10 ^ nat e)
                  else if m mod 10 ^ nat (- e) = 0 then Some (m div 10 ^ nat (- e)) else None
     | _ \<Rightarrow> None)"

definition num_floor :: "js_num \<Rightarrow> int option" where
  \<comment> \<open>\<open>Math.floor\<close> of a finite number\<close>
  "num_floor x = (case x of
       Dec m e \<Rightarrow> Some (if 0 \<le> e then m * 10 ^ nat e else m div 10 ^ nat (- e))
     | _ \<Rightarrow> None)"

definition max_safe_integer :: int where
  "max_safe_integer = 9007199254740991"

definition ceil_div :: "int \<Rightarrow> int \<Rightarrow> int" where
  \<comment> \<open>\<open>Math.ceil(a / b)\<close> for positive \<open>b\<close>\<close>
  "ceil_div a b = - ((- a) div b)"

definition round_div :: "int \<Rightarrow> int \<Rightarrow> int" where
  \<comment> \<open>\<open>Math.round(a / b)\<close> for positive \<open>b\<close>: halves go up\<close>
  "round_div a b = (2 * a + b) div (2 * b)"

section \<open>Arrays, sets and sorting\<close>

definition uniq :: "'a list \<Rightarrow> 'a list" where
  \<comment> \<open>\<open>[...new Set(xs)]\<close>: first occurrences, in order\<close>
  "uniq xs = rev (remdups (rev xs))"

fun insert_by :: "('a \<Rightarrow> 'a \<Rightarrow> int) \<Rightarrow> 'a \<Rightarrow> 'a list \<Rightarrow> 'a list" where
  "insert_by cmp x [] = [x]"
| "insert_by cmp x (y # ys) = (if cmp x y \<le> 0 then x # y # ys else y # insert_by cmp x ys)"

definition js_sort :: "('a \<Rightarrow> 'a \<Rightarrow> int) \<Rightarrow> 'a list \<Rightarrow> 'a list" where
  \<comment> \<open>\<open>[...xs].sort(cmp)\<close>\<close>
  "js_sort cmp xs = foldr (insert_by cmp) xs []"

definition cmp_or :: "int \<Rightarrow> int \<Rightarrow> int" where
  \<comment> \<open>\<open>a || b\<close> between comparator results\<close>
  "cmp_or a b = (if a \<noteq> 0 then a else b)"


fun code_unit_compare :: "string \<Rightarrow> string \<Rightarrow> int" where
  \<comment> \<open>the order of \<open><\<close> on strings, as a comparator\<close>
  "code_unit_compare [] [] = 0"
| "code_unit_compare [] (y # ys) = -1"
| "code_unit_compare (x # xs) [] = 1"
| "code_unit_compare (x # xs) (y # ys) =
     cmp_or (int (of_char x) - int (of_char y)) (code_unit_compare xs ys)"

definition slice_to :: "int \<Rightarrow> 'a list \<Rightarrow> 'a list" where
  \<comment> \<open>\<open>xs.slice(0, k)\<close>: a negative end counts from the back\<close>
  "slice_to k xs = (if 0 \<le> k then take (nat k) xs else take (length xs - nat (- k)) xs)"

section \<open>Lemmas the components share\<close>

subsection \<open>Sets made from arrays\<close>

lemma set_uniq [simp]: "set (uniq xs) = set xs"
  by (simp add: uniq_def)

lemma distinct_uniq [simp]: "distinct (uniq xs)"
  by (simp add: uniq_def)

lemma uniq_distinct: "distinct xs \<Longrightarrow> uniq xs = xs"
  by (simp add: uniq_def distinct_remdups_id)

subsection \<open>Insertion-ordered maps\<close>

lemma map_of_update [simp]: "map_of (AList.update k v m) = (map_of m)(k \<mapsto> v)"
  by (rule ext) (simp add: update_conv)

lemma dom_keys_update: "fst ` set (AList.update k v m) = insert k (fst ` set m)"
  by (simp add: dom_update)

subsection \<open>Finding and filtering\<close>

lemma find_SomeD: "find P xs = Some x \<Longrightarrow> P x \<and> x \<in> set xs"
  by (metis find_Some_iff nth_mem)

lemma find_NoneD: "find P xs = None \<Longrightarrow> x \<in> set xs \<Longrightarrow> \<not> P x"
  by (simp add: find_None_iff)

lemma find_eq_Some_unique:
  assumes "x \<in> set xs" and "P x" and "\<And>y. y \<in> set xs \<Longrightarrow> P y \<Longrightarrow> y = x"
  shows "find P xs = Some x"
proof (cases "find P xs")
  case None
  with assms(1,2) show ?thesis by (simp add: find_None_iff)
next
  case (Some y)
  then have "P y \<and> y \<in> set xs" by (rule find_SomeD)
  with assms(3) Some show ?thesis by simp
qed

lemma find_map_update_other:
  "(\<And>x. x \<in> set xs \<Longrightarrow> P (f x) = P x) \<Longrightarrow> find P (map f xs) = map_option f (find P xs)"
  by (induction xs) auto

lemma find_append: "find P (xs @ ys) = (case find P xs of None \<Rightarrow> find P ys | Some x \<Rightarrow> Some x)"
  by (induction xs) auto

lemma find_filter_conj: "find P (filter Q xs) = find (\<lambda>x. Q x \<and> P x) xs"
  by (induction xs) auto

lemma filter_map_id: "(\<And>x. x \<in> set xs \<Longrightarrow> P x \<Longrightarrow> f x = x) \<Longrightarrow> (\<And>x. x \<in> set xs \<Longrightarrow> P (f x) = P x)
    \<Longrightarrow> filter P (map f xs) = filter P xs"
  by (induction xs) auto

subsection \<open>Sorting\<close>

lemma set_insert_by [simp]: "set (insert_by cmp x xs) = insert x (set xs)"
  by (induction xs) auto

lemma length_insert_by [simp]: "length (insert_by cmp x xs) = Suc (length xs)"
  by (induction xs) auto

lemma js_sort_simps [simp]:
  "js_sort cmp [] = []"
  "js_sort cmp (x # xs) = insert_by cmp x (js_sort cmp xs)"
  by (simp_all add: js_sort_def)

lemma set_js_sort [simp]: "set (js_sort cmp xs) = set xs"
  by (induction xs) auto

lemma length_js_sort [simp]: "length (js_sort cmp xs) = length xs"
  by (induction xs) auto

lemma distinct_map_insert_by [simp]:
  "distinct (map f (insert_by cmp x xs)) \<longleftrightarrow> distinct (map f (x # xs))"
  by (induction xs) auto

lemma distinct_map_js_sort [simp]: "distinct (map f (js_sort cmp xs)) \<longleftrightarrow> distinct (map f xs)"
  by (induction xs) auto

lemma count_list_insert_by: "count_list (insert_by cmp x xs) y = count_list (x # xs) y"
  by (induction xs) auto

lemma count_list_js_sort [simp]: "count_list (js_sort cmp xs) y = count_list xs y"
  by (induction xs) (auto simp: count_list_insert_by)

text \<open>
  What a comparator must promise, and what a sort then promises its caller: the result is
  ordered, and elements the comparator does not separate keep their order.
\<close>

locale js_comparator =
  fixes cmp :: "'a \<Rightarrow> 'a \<Rightarrow> int"
  assumes cmp_total: "cmp x y \<le> 0 \<or> cmp y x \<le> 0"
    and cmp_trans: "cmp x y \<le> 0 \<Longrightarrow> cmp y z \<le> 0 \<Longrightarrow> cmp x z \<le> 0"
begin

lemma insert_by_sorted:
  "sorted_wrt (\<lambda>x y. cmp x y \<le> 0) xs \<Longrightarrow> sorted_wrt (\<lambda>x y. cmp x y \<le> 0) (insert_by cmp a xs)"
proof (induction xs)
  case Nil
  then show ?case by simp
next
  case (Cons y ys)
  then show ?case
    using cmp_total [of a y] cmp_trans [of a y] by auto
qed

lemma sort_sorted: "sorted_wrt (\<lambda>x y. cmp x y \<le> 0) (js_sort cmp xs)"
  by (induction xs) (auto intro: insert_by_sorted)

lemma cmp_refl: "cmp x x \<le> 0"
  using cmp_total [of x x] by simp

lemma find_sorted_least:
  "sorted_wrt (\<lambda>x y. cmp x y \<le> 0) xs \<Longrightarrow> find P xs = Some x \<Longrightarrow> y \<in> set xs \<Longrightarrow> P y \<Longrightarrow> cmp x y \<le> 0"
  by (induction xs) (auto simp: cmp_refl split: if_splits)

lemma find_sort_least:
  "find P (js_sort cmp xs) = Some x \<Longrightarrow> y \<in> set xs \<Longrightarrow> P y \<Longrightarrow> cmp x y \<le> 0"
  using find_sorted_least [OF sort_sorted] by simp

lemma take_sort_dominates:
  assumes "x \<in> set (take n (js_sort cmp xs))" and "y \<in> set (drop n (js_sort cmp xs))"
  shows "cmp x y \<le> 0"
proof -
  have "sorted_wrt (\<lambda>x y. cmp x y \<le> 0) (take n (js_sort cmp xs) @ drop n (js_sort cmp xs))"
    using sort_sorted by simp
  with assms show ?thesis
    unfolding sorted_wrt_append by blast
qed

end

interpretation int_order: js_comparator "\<lambda>x y :: int. x - y"
  by unfold_locales auto

lemma cmp_or_simps [simp]: "cmp_or 0 b = b" "a \<noteq> 0 \<Longrightarrow> cmp_or a b = a"
  by (simp_all add: cmp_or_def)

lemma code_unit_compare_total: "code_unit_compare x y \<le> 0 \<or> code_unit_compare y x \<le> 0"
  by (induction x y rule: code_unit_compare.induct) (auto simp: cmp_or_def)

lemma code_unit_compare_trans:
  "code_unit_compare x y \<le> 0 \<Longrightarrow> code_unit_compare y z \<le> 0 \<Longrightarrow> code_unit_compare x z \<le> 0"
proof (induction x y arbitrary: z rule: code_unit_compare.induct)
  case (1 z)
  then show ?case by (cases z) auto
next
  case (2 y ys)
  then show ?case by (cases z) auto
next
  case (3 x xs)
  then show ?case by simp
next
  case (4 x xs y ys)
  then show ?case by (cases z) (auto simp: cmp_or_def split: if_splits)
qed

interpretation code_units: js_comparator code_unit_compare
  by unfold_locales (rule code_unit_compare_total, rule code_unit_compare_trans)

text \<open>
  Comparators of the form \<open>key(a) - key(b) || cmp(a, b)\<close>: the difference of an integer key
  decides, ties go to another comparator.
\<close>

locale keyed_comparator = js_comparator cmp for cmp :: "'a \<Rightarrow> 'a \<Rightarrow> int" +
  fixes key :: "'a \<Rightarrow> int"

sublocale keyed_comparator \<subseteq> keyed: js_comparator "\<lambda>x y. cmp_or (key x - key y) (cmp x y)"
proof
  fix x y z
  show "cmp_or (key x - key y) (cmp x y) \<le> 0 \<or> cmp_or (key y - key x) (cmp y x) \<le> 0"
    using cmp_total [of x y] by (auto simp: cmp_or_def)
  show "cmp_or (key x - key y) (cmp x y) \<le> 0 \<Longrightarrow> cmp_or (key y - key z) (cmp y z) \<le> 0 \<Longrightarrow>
      cmp_or (key x - key z) (cmp x z) \<le> 0"
    using cmp_trans [of x y z] by (auto simp: cmp_or_def split: if_splits)
qed

context keyed_comparator
begin

lemma keyed_law: "js_comparator (\<lambda>x y. cmp_or (key x - key y) (cmp x y))"
  by (rule keyed.js_comparator_axioms)

end

lemma js_comparator_keyed:
  "js_comparator cmp \<Longrightarrow> js_comparator (\<lambda>x y. cmp_or (key x - key y) (cmp x y))"
  by (rule keyed_comparator.keyed_law) (rule keyed_comparator.intro)

lemma js_comparator_on: "js_comparator cmp \<Longrightarrow> js_comparator (\<lambda>x y. cmp (f x) (f y))"
  unfolding js_comparator_def by blast

subsection \<open>Decimal text\<close>

lemma digit_char_value: "d < 10 \<Longrightarrow> digit_value (digit_char d) = d"
  by (simp add: digit_value_def digit_char_def)

lemma is_digit_digit_char: "d < 10 \<Longrightarrow> is_digit (digit_char d)"
  by (simp add: is_digit_def digit_char_def Let_def)

lemma show_nat_nonempty [simp]: "show_nat n \<noteq> []"
  by (subst show_nat.simps) simp

lemma show_nat_digits: "list_all is_digit (show_nat n)"
proof (induction n rule: show_nat.induct)
  case (1 n)
  show ?case
  proof (cases "n < 10")
    case True
    then show ?thesis by (subst show_nat.simps) (simp add: is_digit_digit_char)
  next
    case False
    with "1.IH" have "list_all is_digit (show_nat (n div 10))" by simp
    moreover have "is_digit (digit_char (n mod 10))" by (rule is_digit_digit_char) simp
    ultimately show ?thesis using False by (subst show_nat.simps) simp
  qed
qed

lemma read_digits_snoc: "read_digits (s @ [c]) = 10 * read_digits s + digit_value c"
  by (simp add: read_digits_def)

lemma read_show_nat [simp]: "read_digits (show_nat n) = n"
proof (induction n rule: show_nat.induct)
  case (1 n)
  show ?case
  proof (cases "n < 10")
    case True
    then show ?thesis
      by (subst show_nat.simps) (simp add: read_digits_def digit_char_value)
  next
    case False
    with "1.IH" have "read_digits (show_nat (n div 10)) = n div 10" by simp
    with False show ?thesis
      by (subst show_nat.simps) (simp add: read_digits_snoc digit_char_value)
  qed
qed

lemma show_nat_inj: "show_nat m = show_nat n \<longleftrightarrow> m = n"
  by (metis read_show_nat)

lemma not_ws_digit: "is_digit c \<Longrightarrow> \<not> js_ws c"
  by (auto simp: is_digit_def js_ws_def Let_def)

lemma dropWhile_none: "list_all (\<lambda>c. \<not> P c) s \<Longrightarrow> dropWhile P s = s"
  by (cases s) auto

lemma takeWhile_all: "list_all P s \<Longrightarrow> takeWhile P s = s"
  by (simp add: list_all_iff takeWhile_eq_all_conv)

lemma js_trim_no_ws: "list_all (\<lambda>c. \<not> js_ws c) s \<Longrightarrow> js_trim s = s"
  by (simp add: js_trim_def dropWhile_none list_all_rev)

lemma js_trim_digits: "list_all is_digit s \<Longrightarrow> js_trim s = s"
  by (rule js_trim_no_ws) (auto simp: list_all_iff dest: not_ws_digit)

lemma dropWhile_all: "list_all P s \<Longrightarrow> dropWhile P s = []"
  by (simp add: list_all_iff dropWhile_eq_Nil_conv)

lemma parse_decimal_digits:
  assumes "s \<noteq> []" and "list_all is_digit s"
  shows "parse_decimal s = Some (int (read_digits s), 0)"
  using assms by (simp add: parse_decimal_def takeWhile_all dropWhile_all parse_exponent_def)

lemma digit_not_special:
  "is_digit c \<Longrightarrow> c \<noteq> CHR ''-'' \<and> c \<noteq> CHR ''+'' \<and> c \<noteq> CHR ''I'' \<and> c \<noteq> CHR ''x'' \<and> c \<noteq> CHR ''X''
     \<and> c \<noteq> CHR ''o'' \<and> c \<noteq> CHR ''O'' \<and> c \<noteq> CHR ''b'' \<and> c \<noteq> CHR ''B''"
  by (auto simp: is_digit_def Let_def)

lemma digits_no_radix:
  assumes "list_all is_digit s" and "c \<in> {CHR ''x'', CHR ''X'', CHR ''o'', CHR ''O'', CHR ''b'', CHR ''B''}"
  shows "\<not> starts_with s [CHR ''0'', c]"
proof
  assume "starts_with s [CHR ''0'', c]"
  then have "take 2 s = [CHR ''0'', c]" by (simp add: starts_with_def numeral_2_eq_2)
  then have "c \<in> set s" by (metis in_set_takeD list.set_intros)
  then have "is_digit c" using assms(1) by (simp add: list_all_iff)
  then show False using digit_not_special [of c] assms(2) by blast
qed

lemma Number_of_digits:
  assumes "s \<noteq> []" and "list_all is_digit s"
  shows "Number_of s = Dec (int (read_digits s)) 0"
proof -
  obtain c cs where s: "s = c # cs" using assms(1) by (cases s) auto
  have c: "is_digit c" using assms(2) s by simp
  have "s \<noteq> ''Infinity''" using digit_not_special [OF c] s by auto
  then show ?thesis
    using assms digits_no_radix [OF assms(2)] digit_not_special [OF c] s
    by (simp add: Number_of_def js_trim_digits parse_decimal_digits)
qed

lemma Number_of_show_nat: "num_integer (Number_of (show_nat n)) = Some (int n)"
  by (simp add: Number_of_digits show_nat_digits num_integer_def)

subsection \<open>Joining and splitting\<close>

lemma split_on_nonempty [simp]: "split_on c s \<noteq> []"
  by (cases s) (auto split: list.splits)

lemma split_on_no_sep: "w \<in> set (split_on c s) \<Longrightarrow> c \<notin> set w"
  by (induction s arbitrary: w) (auto split: if_splits list.splits)

lemma join_split_on: "join_with [c] (split_on c s) = s"
proof (induction s)
  case Nil
  then show ?case by simp
next
  case (Cons x xs)
  obtain w ws where sp: "split_on c xs = w # ws"
    by (cases "split_on c xs") auto
  with Cons show ?case by (cases ws) auto
qed

lemma split_on_atom: "c \<notin> set s \<Longrightarrow> split_on c s = [s]"
  by (induction s) auto

lemma split_on_cons: "c \<notin> set s \<Longrightarrow> split_on c (s @ c # t) = s # split_on c t"
  by (induction s) auto

lemma starts_with_append [simp]: "starts_with (p @ s) p"
  by (simp add: starts_with_def)

lemma starts_with_iff: "starts_with s p \<longleftrightarrow> (\<exists>t. s = p @ t)"
  by (metis append_eq_conv_conj append_take_drop_id starts_with_append starts_with_def)

lemma ends_with_iff: "ends_with s p \<longleftrightarrow> (\<exists>t. s = t @ p)"
proof
  assume "ends_with s p"
  then obtain t where "rev s = rev p @ t" by (auto simp: ends_with_def starts_with_iff)
  then have "s = rev t @ p" by (metis rev_append rev_rev_ident)
  then show "\<exists>t. s = t @ p" ..
next
  assume "\<exists>t. s = t @ p"
  then show "ends_with s p" by (auto simp: ends_with_def)
qed

lemma index_of_None_iff: "index_of c s = None \<longleftrightarrow> c \<notin> set s"
  by (induction s) auto

lemma index_of_SomeD: "index_of c s = Some k \<Longrightarrow> k < length s \<and> s ! k = c \<and> c \<notin> set (take k s)"
  by (induction s arbitrary: k) (auto split: if_splits)

subsection \<open>Invariants\<close>

text \<open>
  What every step of a system keeps, every run keeps.
\<close>

locale step_invariant =
  fixes step :: "'s \<Rightarrow> 's \<Rightarrow> bool"
    and inv :: "'s \<Rightarrow> bool"
  assumes preserved: "step s s' \<Longrightarrow> inv s \<Longrightarrow> inv s'"
begin

lemma along_run: "step\<^sup>*\<^sup>* s s' \<Longrightarrow> inv s \<Longrightarrow> inv s'"
  by (induction rule: rtranclp_induct) (auto intro: preserved)

end

subsection \<open>Encodings\<close>

text \<open>
  A printed form that a parser reads back: what the clients of a printer need is that two
  values with the same text are the same value.
\<close>

locale codec =
  fixes valid :: "'a \<Rightarrow> bool"
    and enc :: "'a \<Rightarrow> 'b"
    and dec :: "'b \<Rightarrow> 'a option"
  assumes decode_encode: "valid x \<Longrightarrow> dec (enc x) = Some x"
begin

lemma encode_inj: "valid x \<Longrightarrow> valid y \<Longrightarrow> enc x = enc y \<longleftrightarrow> x = y"
  by (metis decode_encode option.inject)

end

interpretation decimal: codec "\<lambda>n. True" show_nat "\<lambda>s. map_option nat (num_integer (Number_of s))"
  by (rule codec.intro) (simp only: Number_of_show_nat option.map nat_int)

subsection \<open>Arithmetic\<close>

lemma le_div_iff: "0 < (b::int) \<Longrightarrow> n \<le> a div b \<longleftrightarrow> n * b \<le> a"
proof
  assume b: "0 < b" and "n \<le> a div b"
  then have "n * b \<le> (a div b) * b" by simp
  also have "\<dots> \<le> a" using b by (simp add: minus_mod_eq_div_mult [symmetric])
  finally show "n * b \<le> a" .
next
  assume b: "0 < b" and "n * b \<le> a"
  then have "(n * b) div b \<le> a div b" using zdiv_mono1 [of "n * b" a b] by blast
  with b show "n \<le> a div b" by simp
qed

lemma ceil_div_le_iff: "0 < b \<Longrightarrow> ceil_div a b \<le> n \<longleftrightarrow> a \<le> n * b"
proof -
  assume b: "0 < b"
  have "ceil_div a b \<le> n \<longleftrightarrow> - n \<le> (- a) div b" by (auto simp: ceil_div_def)
  also have "\<dots> \<longleftrightarrow> - n * b \<le> - a" using b by (rule le_div_iff)
  finally show ?thesis by auto
qed

lemma ceil_div_pos: "0 < b \<Longrightarrow> 0 < ceil_div a b \<longleftrightarrow> 0 < a"
  using ceil_div_le_iff [of b a 0] by auto

end
