(* ===== verification/Schema.thy ===== *)
theory Schema
  imports Prelude
begin

text \<open>
  The database: one record type per table the modelled code reads or writes, with every
  column of the drizzle schema (\<open>web/src/db/\<close>), and the record \<open>db\<close> of all tables.
  A table is the list of its rows; \<open>findFirst\<close> is \<^const>\<open>find\<close>, \<open>findMany\<close> is
  \<^const>\<open>filter\<close>, an \<open>UPDATE\<close> maps over the rows, an \<open>INSERT\<close> appends a row. A \<open>text\<close>
  column with an \<open>enum\<close> is a datatype, a \<open>jsonb\<close> column a \<open>json\<close> value, a nullable
  column an option, a time stamp a number of milliseconds. Primary keys and unique
  indexes are hypotheses of the theorems that need them. A request runs its statements one after the
  other; statements of other requests may run between two operations of the model, never
  inside one.
\<close>

datatype json = JNull | JBool bool | JNum int | JStr string | JArr "json list" | JObj "(string \<times> json) list"

section \<open>Accounts and organizations\<close>

record user =
  u_id :: string
  u_name :: string
  u_email :: string
  u_emailVerified :: bool
  u_image :: "string option"
  u_createdAt :: millis
  u_updatedAt :: millis
  u_twoFactorEnabled :: "bool option"
  u_role :: "string option"
  u_banned :: "bool option"
  u_banReason :: "string option"
  u_banExpires :: "millis option"

record account =
  acc_id :: string
  acc_issuer :: string
  acc_accountId :: string
  acc_providerId :: string
  acc_userId :: string
  acc_accessToken :: "string option"
  acc_refreshToken :: "string option"
  acc_idToken :: "string option"
  acc_accessTokenExpiresAt :: "millis option"
  acc_refreshTokenExpiresAt :: "millis option"
  acc_scope :: "string option"
  acc_password :: "string option"
  acc_createdAt :: millis
  acc_updatedAt :: millis

record organization =
  org_id :: string
  org_name :: string
  org_slug :: string
  org_logo :: "string option"
  org_createdAt :: millis
  org_metadata :: "string option"

record org_member =
  mem_id :: string
  mem_organizationId :: string
  mem_userId :: string
  mem_role :: string
  mem_createdAt :: millis

record invitation =
  inv_id :: string
  inv_organizationId :: string
  inv_email :: string
  inv_role :: "string option"
  inv_status :: string
  inv_expiresAt :: millis
  inv_createdAt :: millis
  inv_inviterId :: string

section \<open>Repositories and their contents\<close>

datatype visibility = Public | Private

datatype severity_level = LCritical | LHigh | LMedium | LLow

datatype pull_block = BlockOff | BlockAt severity_level

record repository =
  repo_id :: string
  repo_organizationId :: string
  repo_name :: string
  repo_description :: string
  repo_visibility :: visibility
  repo_pullCount :: int
  repo_blockPullsAt :: "pull_block option"
  repo_blockUnrated :: "bool option"
  repo_readme :: "string option"
  repo_logo :: "string option"
  repo_requireSignature :: "bool option"
  repo_createdAt :: millis
  repo_updatedAt :: millis

record blob =
  blob_digest :: string
  blob_size :: int
  blob_mediaType :: "string option"
  blob_createdAt :: millis

record repository_blob =
  rb_repositoryId :: string
  rb_blobDigest :: string
  rb_createdAt :: millis

record manifest =
  man_repositoryId :: string
  man_digest :: string
  man_mediaType :: string
  man_artifactType :: "string option"
  man_size :: int
  man_payload :: string
  man_configDigest :: "string option"
  man_subjectDigest :: "string option"
  man_config :: "json option"
  man_pushedBy :: "string option"
  man_createdAt :: millis

record manifest_ref =
  mr_repositoryId :: string
  mr_manifestDigest :: string
  mr_refDigest :: string

record manifest_block =
  mb_repositoryId :: string
  mb_digest :: string
  mb_reason :: string
  mb_pushersExempt :: bool
  mb_createdAt :: millis

record tag =
  tag_repositoryId :: string
  tag_name :: string
  tag_manifestDigest :: string
  tag_createdAt :: millis
  tag_updatedAt :: millis
  tag_proxyCheckedAt :: "millis option"
  tag_lastPulledAt :: "millis option"

datatype scan_status = ScanPending | ScanIndexing | Scanned | ScanFailed

record vulnerability_scan =
  vs_digest :: string
  vs_repositoryId :: "string option"
  vs_status :: scan_status
  vs_summary :: "json option"
  vs_report :: "json option"
  vs_findings :: "json option"
  vs_scanner :: "string option"
  vs_scannerVersion :: "string option"
  vs_error :: "string option"
  vs_createdAt :: millis
  vs_updatedAt :: millis

section \<open>Teams, grants, credentials\<close>

record team =
  team_id :: string
  team_organizationId :: string
  team_slug :: string
  team_name :: string
  team_description :: string
  team_createdBy :: "string option"
  team_createdAt :: millis

record team_member =
  tm_teamId :: string
  tm_userId :: string
  tm_addedBy :: "string option"
  tm_createdAt :: millis

datatype subject_type = SubjUser | SubjTeam

datatype repo_permission = PPull | PPush | PAdmin

record repository_grant =
  gr_id :: string
  gr_repositoryId :: string
  gr_subjectType :: subject_type
  gr_subjectId :: string
  gr_permission :: repo_permission
  gr_createdBy :: "string option"
  gr_createdAt :: millis

record service_account =
  sa_id :: string
  sa_organizationId :: string
  sa_name :: string
  sa_description :: string
  sa_tokenHash :: string
  sa_tokenPrefix :: string
  sa_permission :: repo_permission
  sa_repositoryIds :: "string list option"
  sa_createdBy :: "string option"
  sa_createdAt :: millis
  sa_expiresAt :: "millis option"
  sa_lastUsedAt :: "millis option"
  sa_lastUsedIp :: "string option"

datatype pat_scope = ScopeRead | ScopeWrite

record access_token =
  pat_id :: string
  pat_userId :: string
  pat_name :: string
  pat_tokenHash :: string
  pat_tokenPrefix :: string
  pat_scope :: pat_scope
  pat_createdAt :: millis
  pat_expiresAt :: "millis option"
  pat_lastUsedAt :: "millis option"
  pat_lastUsedIp :: "string option"
  pat_description :: string
  pat_organizationId :: "string option"
  pat_repositoryIds :: "string list option"

record token_signing_key =
  key_kid :: string
  key_publicKeyPem :: string
  key_privateKeyEncrypted :: string
  key_algorithm :: string
  key_createdAt :: millis
  key_activatedAt :: "millis option"
  key_retiredAt :: "millis option"
  key_createdBy :: "string option"

record login_attempt =
  la_key :: string
  la_failures :: int
  la_windowStart :: millis
  la_lockedUntil :: "millis option"
  la_updatedAt :: millis

section \<open>Limits, settings, policies\<close>

record user_limit =
  ul_userId :: string
  ul_maxOrganizations :: "int option"
  ul_maxPublicRepos :: "int option"
  ul_maxPrivateRepos :: "int option"
  ul_maxStorageBytes :: "int option"
  ul_label :: string
  ul_note :: string
  ul_updatedAt :: millis
  ul_updatedBy :: "string option"

record organization_limit =
  ol_organizationId :: string
  ol_maxPublicRepos :: "int option"
  ol_maxPrivateRepos :: "int option"
  ol_maxStorageBytes :: "int option"
  ol_maxMembers :: "int option"
  ol_label :: string
  ol_note :: string
  ol_updatedAt :: millis
  ol_updatedBy :: "string option"

datatype quota_target_type = TargetOrganization | TargetUser

record quota_breach =
  qb_targetType :: quota_target_type
  qb_targetId :: string
  qb_firstOverAt :: millis
  qb_lastSeenAt :: millis
  qb_usedBytes :: int
  qb_limitBytes :: int
  qb_notifiedAt :: "millis option"
  qb_finalNoticeAt :: "millis option"
  qb_prunedAt :: "millis option"

record organization_setting =
  os_organizationId :: string
  os_defaultVisibility :: "visibility option"
  os_blockPullsAt :: "severity_level option"
  os_blockUnrated :: bool
  os_requireSignature :: bool
  os_trustMemberKeys :: bool
  os_updatedAt :: millis

datatype proxy_preset = PresetDockerhub | PresetGhcr | PresetQuay | PresetCustom

record organization_proxy =
  op_organizationId :: string
  op_upstreamUrl :: string
  op_preset :: proxy_preset
  op_auth :: "string option"
  op_allowedPatterns :: string
  op_tagTtlSeconds :: int
  op_enabled :: bool
  op_createdBy :: "string option"
  op_createdAt :: millis
  op_updatedAt :: millis
  op_lastError :: "string option"
  op_lastCheckedAt :: "millis option"

record tag_rule =
  rule_id :: string
  rule_organizationId :: string
  rule_repositoryId :: "string option"
  rule_pattern :: string
  rule_immutable :: bool
  rule_protected :: bool
  rule_createdBy :: "string option"
  rule_createdAt :: millis

record retention_policy =
  rp_id :: string
  rp_organizationId :: string
  rp_repositoryId :: "string option"
  rp_enabled :: bool
  rp_keepLast :: "int option"
  rp_keepMatching :: "string option"
  rp_deleteOlderThanDays :: "int option"
  rp_deleteUntaggedAfterDays :: "int option"
  rp_updatedBy :: "string option"
  rp_updatedAt :: millis

record repository_redirect =
  rr_id :: string
  rr_organizationSlug :: string
  rr_repositoryName :: string
  rr_repositoryId :: string
  rr_createdAt :: millis
  rr_createdBy :: "string option"

record organization_redirect =
  or_oldSlug :: string
  or_organizationId :: string
  or_createdAt :: millis
  or_createdBy :: "string option"

section \<open>Scanning\<close>

record vulnerability_exception =
  ve_id :: string
  ve_organizationId :: string
  ve_repositoryId :: "string option"
  ve_vulnerabilityId :: string
  ve_package :: "string option"
  ve_justification :: string
  ve_expiresAt :: "millis option"
  ve_createdBy :: "string option"
  ve_createdAt :: millis

datatype task_status = TaskQueued | TaskLeased | TaskDone | TaskFailed

record scan_task =
  st_id :: string
  st_digest :: string
  st_repositoryId :: "string option"
  st_repositoryPath :: string
  st_status :: task_status
  st_attempts :: int
  st_availableAt :: millis
  st_leasedBy :: "string option"
  st_leaseUntil :: "millis option"
  st_lastError :: "string option"
  st_createdAt :: millis
  st_updatedAt :: millis

record scan_worker =
  sw_name :: string
  sw_hostname :: "string option"
  sw_version :: "string option"
  sw_scannerVersion :: "string option"
  sw_startedAt :: millis
  sw_lastSeenAt :: millis
  sw_running :: int
  sw_completed :: int
  sw_failed :: int
  sw_lastError :: "string option"

datatype signature_kind = KindSignature | KindAttestation

datatype signature_status = SigVerified | SigUntrusted | SigInvalid | SigKeyless

record manifest_signature =
  ms_repositoryId :: string
  ms_manifestDigest :: string
  ms_signatureDigest :: string
  ms_kind :: signature_kind
  ms_status :: signature_status
  ms_keyId :: "string option"
  ms_userKeyId :: "string option"
  ms_identityId :: "string option"
  ms_identity :: "string option"
  ms_details :: "json option"
  ms_checkedAt :: millis

record scan_finding =
  \<comment> \<open>without the serial number of the row\<close>
  sf_digest :: string
  sf_vulnerabilityId :: string
  sf_package :: string
  sf_version :: string
  sf_fixedIn :: "string option"
  sf_severity :: string
  sf_type :: string

record ci_identity =
  ci_id :: string
  ci_organizationId :: string
  ci_name :: string
  ci_issuer :: string
  ci_subject :: string
  ci_permission :: repo_permission
  ci_repositoryIds :: "string list option"
  ci_createdBy :: "string option"
  ci_createdAt :: millis
  ci_lastUsedAt :: "millis option"
  ci_lastSubject :: "string option"

section \<open>Jobs, events, webhooks and counters\<close>

datatype job_status = JobRunning | JobSucceeded | JobFailed

record job_run =
  jr_id :: string
  jr_job :: string
  jr_status :: job_status
  jr_params :: "(string \<times> string) list"
  jr_result :: "json option"
  jr_error :: "string option"
  jr_triggeredBy :: string
  jr_startedAt :: millis
  jr_finishedAt :: "millis option"

record job_schedule =
  js_job :: string
  js_cron :: string
  js_params :: "(string \<times> string) list"
  js_enabled :: bool
  js_timezone :: string
  js_lastRunAt :: "millis option"
  js_nextRunAt :: "millis option"
  js_lastStatus :: "string option"
  js_updatedBy :: "string option"
  js_updatedAt :: millis

record outbox_event =
  oe_id :: nat
  oe_type :: string
  oe_repository :: string
  oe_digest :: "string option"
  oe_tag :: "string option"
  oe_tags :: "string list"
  oe_mediaType :: "string option"
  oe_actor :: "string option"
  oe_occurredAt :: millis
  oe_createdAt :: millis
  oe_attempts :: int
  oe_nextAttemptAt :: millis
  oe_claimedAt :: "millis option"
  oe_deliveredAt :: "millis option"
  oe_lastError :: "string option"

record webhook =
  wh_id :: string
  wh_repositoryId :: "string option"
  wh_organizationId :: "string option"
  wh_name :: string
  wh_url :: string
  wh_method :: string
  wh_headers :: "(string \<times> string) list"
  wh_authType :: string
  wh_authHeaderName :: "string option"
  wh_authSecret :: "string option"
  wh_signingSecret :: "string option"
  wh_format :: string
  wh_payloadTemplate :: "string option"
  wh_events :: "string list"
  wh_enabled :: bool
  wh_createdBy :: "string option"
  wh_createdAt :: millis
  wh_lastStatus :: "int option"
  wh_lastDeliveredAt :: "millis option"
  wh_lastError :: "string option"

record webhook_delivery =
  wd_id :: string
  wd_webhookId :: string
  wd_event :: string
  wd_payload :: json
  wd_statusCode :: "int option"
  wd_ok :: bool
  wd_attempts :: int
  wd_durationMs :: "int option"
  wd_error :: "string option"
  wd_responseSnippet :: "string option"
  wd_createdAt :: millis

record rate_limit_counter =
  rc_key :: string
  rc_windowStart :: millis
  rc_count :: int

record notification_preference =
  np_userId :: string
  np_event :: string
  np_email :: bool
  np_updatedAt :: millis

record notification_state =
  ns_key :: string
  ns_sentAt :: millis

section \<open>The tables\<close>

record db =
  db_users :: "user list"
  db_accounts :: "account list"
  db_organizations :: "organization list"
  db_members :: "org_member list"
  db_invitations :: "invitation list"
  db_repositories :: "repository list"
  db_blobs :: "blob list"
  db_repositoryBlobs :: "repository_blob list"
  db_manifests :: "manifest list"
  db_manifestRefs :: "manifest_ref list"
  db_manifestBlocks :: "manifest_block list"
  db_tags :: "tag list"
  db_scans :: "vulnerability_scan list"
  db_teams :: "team list"
  db_teamMembers :: "team_member list"
  db_grants :: "repository_grant list"
  db_serviceAccounts :: "service_account list"
  db_accessTokens :: "access_token list"
  db_signingKeys :: "token_signing_key list"
  db_loginAttempts :: "login_attempt list"
  db_userLimits :: "user_limit list"
  db_orgLimits :: "organization_limit list"
  db_quotaBreaches :: "quota_breach list"
  db_orgSettings :: "organization_setting list"
  db_proxies :: "organization_proxy list"
  db_tagRules :: "tag_rule list"
  db_retentionPolicies :: "retention_policy list"
  db_repoRedirects :: "repository_redirect list"
  db_orgRedirects :: "organization_redirect list"
  db_exceptions :: "vulnerability_exception list"
  db_scanTasks :: "scan_task list"
  db_scanWorkers :: "scan_worker list"
  db_signatures :: "manifest_signature list"
  db_ciIdentities :: "ci_identity list"
  db_scanFindings :: "scan_finding list"
  db_jobRuns :: "job_run list"
  db_jobSchedules :: "job_schedule list"
  db_outbox :: "outbox_event list"
  db_webhooks :: "webhook list"
  db_webhookDeliveries :: "webhook_delivery list"
  db_rateCounters :: "rate_limit_counter list"
  db_notificationPrefs :: "notification_preference list"
  db_notificationState :: "notification_state list"

definition empty_db :: db where
  "empty_db = \<lparr>db_users = [], db_accounts = [], db_organizations = [], db_members = [],
     db_invitations = [], db_repositories = [], db_blobs = [], db_repositoryBlobs = [],
     db_manifests = [], db_manifestRefs = [], db_manifestBlocks = [], db_tags = [],
     db_scans = [], db_teams = [], db_teamMembers = [], db_grants = [],
     db_serviceAccounts = [], db_accessTokens = [], db_signingKeys = [], db_loginAttempts = [],
     db_userLimits = [], db_orgLimits = [], db_quotaBreaches = [], db_orgSettings = [],
     db_proxies = [], db_tagRules = [], db_retentionPolicies = [], db_repoRedirects = [],
     db_orgRedirects = [], db_exceptions = [], db_scanTasks = [], db_scanWorkers = [],
     db_signatures = [], db_ciIdentities = [], db_scanFindings = [],
     db_jobRuns = [], db_jobSchedules = [], db_outbox = [], db_webhooks = [], db_webhookDeliveries = [], db_rateCounters = [],
     db_notificationPrefs = [], db_notificationState = []\<rparr>"

end
