(* ===== verification/Tag_Rules.thy ===== *)
theory Tag_Rules
  imports Schema
begin

text \<open>
  Tag rules (\<open>web/src/lib/tag-rules-shared.ts\<close>, \<open>tag-rules.ts\<close>): the glob matcher with one
  level of backtracking, the rule lookup behind immutable and protected tags, and the
  rules that apply to a repository. The matcher is proved to compute a declarative glob
  relation, \<open>glob_spec\<close>, and to return on every input.
\<close>

section \<open>Definitions\<close>

text \<open>
  The main loop of \<open>matchTagGlob\<close>. \<open>starP\<close> is \<open>None\<close> for the -1 of the source. The outer
  option is non-termination; the inner one is the early \<open>return false\<close> (\<open>None\<close>) or the
  value of \<open>p\<close> when the loop is left (\<open>Some p\<close>).
\<close>

partial_function (option) glob_loop ::
  "string \<Rightarrow> string \<Rightarrow> nat \<Rightarrow> nat \<Rightarrow> nat option \<Rightarrow> nat \<Rightarrow> nat option option" where
  "glob_loop pattern name p n starP starN =
     (if \<not> n < length name then Some (Some p)
      else if p < length pattern \<and> (pattern ! p = CHR ''?'' \<or> pattern ! p = name ! n)
        then glob_loop pattern name (p + 1) (n + 1) starP starN
      else if p < length pattern \<and> pattern ! p = CHR ''*''
        then glob_loop pattern name (p + 1) n (Some p) n
      else if starP \<noteq> None
        then glob_loop pattern name (the starP + 1) (starN + 1) starP (starN + 1)
      else Some None)"

declare glob_loop.simps [code]

function skip_stars :: "string \<Rightarrow> nat \<Rightarrow> nat" where
  \<comment> \<open>the trailing \<open>while\<close> of \<open>matchTagGlob\<close>\<close>
  "skip_stars pattern p =
     (if p < length pattern \<and> pattern ! p = CHR ''*'' then skip_stars pattern (p + 1) else p)"
  by pat_completeness auto
termination
  by (relation "measure (\<lambda>(pattern, p). length pattern - p)") auto

declare skip_stars.simps [simp del]

definition matchTagGlob :: "string \<Rightarrow> string \<Rightarrow> bool" where
  "matchTagGlob pattern name =
     (case glob_loop pattern name 0 0 None 0 of
        Some (Some p) \<Rightarrow> skip_stars pattern p = length pattern
      | _ \<Rightarrow> False)"

definition pattern_char :: "char \<Rightarrow> bool" where
  \<comment> \<open>the class of \<open>PATTERN_RE\<close>\<close>
  "pattern_char c \<longleftrightarrow> is_upper_alpha c \<or> is_lower_alpha c \<or> is_digit c \<or> c \<in> set ''_.*?-''"

definition validateTagPattern :: "string \<Rightarrow> string option" where
  "validateTagPattern pattern =
     (if pattern = [] then Some ''Enter a tag pattern.''
      else if \<not> (list_all pattern_char pattern \<and> 1 \<le> length pattern \<and> length pattern \<le> 128)
        then Some ''Patterns use tag characters (letters, digits, . _ -) plus * and ?.''
      else None)"

record tag_flags =
  flag_immutable :: "tag_rule option"
  flag_protected :: "tag_rule option"

fun tagFlags_loop :: "string \<Rightarrow> tag_rule list \<Rightarrow> tag_rule option \<Rightarrow> tag_rule option \<Rightarrow> tag_flags" where
  "tagFlags_loop tg [] immutable prot = \<lparr>flag_immutable = immutable, flag_protected = prot\<rparr>"
| "tagFlags_loop tg (r # rs) immutable prot =
     (if (immutable \<noteq> None \<or> \<not> rule_immutable r) \<and> (prot \<noteq> None \<or> \<not> rule_protected r)
        then tagFlags_loop tg rs immutable prot
      else if \<not> matchTagGlob (rule_pattern r) tg then tagFlags_loop tg rs immutable prot
      else tagFlags_loop tg rs
             (if rule_immutable r \<and> immutable = None then Some r else immutable)
             (if rule_protected r \<and> prot = None then Some r else prot))"

definition tagFlags :: "tag_rule list \<Rightarrow> string \<Rightarrow> tag_flags" where
  "tagFlags rules tg = tagFlags_loop tg rules None None"

definition describeTagRule :: "tag_rule \<Rightarrow> string" where
  "describeTagRule r =
     (let s = join_with '' + '' ((if rule_immutable r then [''immutable''] else []) @
                                 (if rule_protected r then [''protected''] else []))
      in if s = [] then ''no effect'' else s)"

text \<open>
  \<open>localeCompare\<close> depends on the collation of the host, so it is a parameter
  \<open>lc\<close> of the functions that sort by it.
\<close>

definition listTagRules :: "(string \<Rightarrow> string \<Rightarrow> int) \<Rightarrow> db \<Rightarrow> string \<Rightarrow> string option \<Rightarrow> tag_rule list" where
  \<comment> \<open>the database orders by pattern with its own collation \<open>asc\<close>\<close>
  "listTagRules asc d organizationId repositoryId =
     js_sort (\<lambda>a b. asc (rule_pattern a) (rule_pattern b))
       (filter (\<lambda>r. rule_organizationId r = organizationId \<and>
                    (if truthy repositoryId then rule_repositoryId r = repositoryId
                     else rule_repositoryId r = None))
          (db_tagRules d))"

definition rule_order :: "(string \<Rightarrow> string \<Rightarrow> int) \<Rightarrow> tag_rule \<Rightarrow> tag_rule \<Rightarrow> int" where
  "rule_order lc a b =
     cmp_or ((if rule_repositoryId a = None then 1 else 0) - (if rule_repositoryId b = None then 1 else 0))
            (lc (rule_pattern a) (rule_pattern b))"

definition effectiveTagRules :: "(string \<Rightarrow> string \<Rightarrow> int) \<Rightarrow> db \<Rightarrow> string \<Rightarrow> string \<Rightarrow> tag_rule list" where
  "effectiveTagRules lc d organizationId repositoryId =
     js_sort (rule_order lc)
       (filter (\<lambda>r. rule_organizationId r = organizationId \<and>
                    (rule_repositoryId r = None \<or> rule_repositoryId r = Some repositoryId))
          (db_tagRules d))"

definition protectedReason :: "tag_rule list \<Rightarrow> string \<Rightarrow> string option" where
  "protectedReason rules tg =
     map_option (\<lambda>r. ''Tag \"'' @ tg @ ''\" is protected by rule \"'' @ rule_pattern r @ ''\" and cannot be deleted.'')
       (flag_protected (tagFlags rules tg))"

text \<open>The reference relation: \<open>*\<close> is any run, \<open>?\<close> exactly one character, the rest literal.\<close>

fun glob_spec :: "string \<Rightarrow> string \<Rightarrow> bool" where
  "glob_spec [] ns = (ns = [])"
| "glob_spec (c # ps) [] = (c = CHR ''*'' \<and> glob_spec ps [])"
| "glob_spec (c # ps) (x # xs) =
     (if c = CHR ''*'' then glob_spec ps (x # xs) \<or> glob_spec (c # ps) xs
      else (c = CHR ''?'' \<or> c = x) \<and> glob_spec ps xs)"

section \<open>The matcher computes the reference relation\<close>

lemma glob_spec_star: "glob_spec (CHR ''*'' # ps) ns \<longleftrightarrow> (\<exists>k \<le> length ns. glob_spec ps (drop k ns))"
proof (induction ns)
  case Nil
  then show ?case by simp
next
  case (Cons x xs)
  have "(\<exists>k \<le> length (x # xs). glob_spec ps (drop k (x # xs)))
      \<longleftrightarrow> glob_spec ps (x # xs) \<or> (\<exists>k \<le> length xs. glob_spec ps (drop k xs))"
    (is "?L = ?R")
  proof
    assume ?L
    then obtain k where k: "k \<le> length (x # xs)" "glob_spec ps (drop k (x # xs))" by blast
    then show ?R by (cases k) auto
  next
    assume ?R
    then show ?L by (auto intro: exI [of _ 0] exI [of _ "Suc k" for k])
  qed
  with Cons show ?case by simp
qed

lemma glob_spec_star_mono:
  assumes "glob_spec (CHR ''*'' # ps) (drop j ns)" and "i \<le> j" and "j \<le> length ns"
  shows "glob_spec (CHR ''*'' # ps) (drop i ns)"
proof -
  obtain k where k: "k \<le> length ns - j" "glob_spec ps (drop (k + j) ns)"
    using assms(1) by (auto simp: glob_spec_star)
  have "(k + j - i) + i = k + j" using assms(2) by simp
  then have "glob_spec ps (drop (k + j - i) (drop i ns))" using k(2) by simp
  moreover have "k + j - i \<le> length (drop i ns)" using k(1) assms(2,3) by simp
  ultimately show ?thesis by (auto simp: glob_spec_star)
qed

lemma glob_spec_starless:
  "CHR ''*'' \<notin> set seg \<Longrightarrow> glob_spec (seg @ rest) ns \<Longrightarrow>
     length seg \<le> length ns \<and> glob_spec rest (drop (length seg) ns)"
  by (induction seg arbitrary: ns) (case_tac ns; auto)+

lemma glob_spec_Nil_iff: "glob_spec ps [] \<longleftrightarrow> set ps \<subseteq> {CHR ''*''}"
  by (induction ps) auto

lemma skip_stars_end: "p \<le> length pattern \<Longrightarrow>
    skip_stars pattern p = length pattern \<longleftrightarrow> glob_spec (drop p pattern) []"
proof (induction pattern p rule: skip_stars.induct)
  case (1 pattern p)
  show ?case
  proof (cases "p < length pattern \<and> pattern ! p = CHR ''*''")
    case True
    then have "drop p pattern = CHR ''*'' # drop (p + 1) pattern"
      by (simp add: Cons_nth_drop_Suc [symmetric])
    with "1.IH" [OF True] True show ?thesis
      by (simp add: skip_stars.simps [of pattern p])
  next
    case False
    then have s: "skip_stars pattern p = p" by (subst skip_stars.simps) auto
    show ?thesis
    proof (cases "p < length pattern")
      case True
      then have "drop p pattern = pattern ! p # drop (Suc p) pattern"
        by (simp add: Cons_nth_drop_Suc)
      with False True s show ?thesis by simp
    next
      case F: False
      with "1.prems" s show ?thesis by simp
    qed
  qed
qed

text \<open>
  The invariant of the loop: since the last star, the pattern has advanced over characters
  that are no stars, in step with the name.
\<close>

definition glob_inv :: "string \<Rightarrow> string \<Rightarrow> nat \<Rightarrow> nat \<Rightarrow> nat option \<Rightarrow> nat \<Rightarrow> bool" where
  "glob_inv pattern name p n starP starN \<longleftrightarrow>
     p \<le> length pattern \<and> n \<le> length name \<and>
     (case starP of None \<Rightarrow> True
      | Some sp \<Rightarrow> sp < p \<and> pattern ! sp = CHR ''*'' \<and> starN \<le> n \<and> p = sp + 1 + (n - starN) \<and>
          CHR ''*'' \<notin> set (take (n - starN) (drop (sp + 1) pattern)))"

definition glob_alt :: "string \<Rightarrow> string \<Rightarrow> nat option \<Rightarrow> nat \<Rightarrow> bool" where
  \<comment> \<open>what backtracking to the last star may still find\<close>
  "glob_alt pattern name starP starN \<longleftrightarrow>
     (\<exists>sp k. starP = Some sp \<and> starN < k \<and> k \<le> length name \<and>
        glob_spec (drop (sp + 1) pattern) (drop k name))"

lemma glob_alt_shift:
  assumes "glob_inv pattern name p n (Some sp) starN" and "glob_alt pattern name (Some sp) starN"
  shows "\<exists>k. n < k \<and> k \<le> length name \<and> glob_spec (drop p pattern) (drop k name)"
proof -
  obtain k where k: "starN < k" "k \<le> length name"
    "glob_spec (drop (sp + 1) pattern) (drop k name)"
    using assms(2) by (auto simp: glob_alt_def)
  let ?L = "n - starN"
  have inv: "p \<le> length pattern" "starN \<le> n" "p = sp + 1 + ?L"
    "CHR ''*'' \<notin> set (take ?L (drop (sp + 1) pattern))"
    using assms(1) by (auto simp: glob_inv_def)
  have len: "length (take ?L (drop (sp + 1) pattern)) = ?L" using inv(1,3) by simp
  have "drop (sp + 1) pattern = take ?L (drop (sp + 1) pattern) @ drop p pattern"
    using inv(3) by (metis append_take_drop_id drop_drop add.commute)
  with k(3) have "glob_spec (take ?L (drop (sp + 1) pattern) @ drop p pattern) (drop k name)"
    by simp
  from glob_spec_starless [OF inv(4) this] len
  have "?L \<le> length name - k" "glob_spec (drop p pattern) (drop (k + ?L) name)"
    by (simp_all add: add.commute)
  with k(1,2) inv(2) show ?thesis
    by (intro exI [of _ "k + ?L"]) auto
qed

lemma glob_alt_end:
  assumes "glob_inv pattern name p (length name) starP starN"
  shows "\<not> glob_alt pattern name starP starN"
proof
  assume alt: "glob_alt pattern name starP starN"
  then obtain sp where sp: "starP = Some sp" by (auto simp: glob_alt_def)
  from glob_alt_shift [of pattern name p "length name" sp starN] assms alt sp
  show False by auto
qed

lemma drop_nth_Cons: "i < length xs \<Longrightarrow> drop i xs = xs ! i # drop (i + 1) xs"
  by (simp add: Cons_nth_drop_Suc)

lemma glob_step_literal:
  assumes "glob_inv pattern name p n starP starN" and "n < length name" and "p < length pattern"
    and "pattern ! p = CHR ''?'' \<or> pattern ! p = name ! n" and "name ! n \<noteq> CHR ''*''"
  shows "glob_inv pattern name (p + 1) (n + 1) starP starN"
    and "glob_spec (drop p pattern) (drop n name) = glob_spec (drop (p + 1) pattern) (drop (n + 1) name)"
proof -
  have ns: "pattern ! p \<noteq> CHR ''*''" using assms(4,5) by auto
  then show "glob_inv pattern name (p + 1) (n + 1) starP starN"
    using assms(1-3)
    by (auto simp: glob_inv_def Suc_diff_le take_Suc_conv_app_nth split: option.splits)
  show "glob_spec (drop p pattern) (drop n name) = glob_spec (drop (p + 1) pattern) (drop (n + 1) name)"
    using assms(4) ns drop_nth_Cons [OF assms(2)] drop_nth_Cons [OF assms(3)] by simp
qed

lemma glob_star_unfold:
  assumes "p < length pattern" and "pattern ! p = CHR ''*''" and "n \<le> length name"
  shows "glob_spec (drop p pattern) (drop n name) \<longleftrightarrow>
    glob_spec (drop (p + 1) pattern) (drop n name) \<or> glob_alt pattern name (Some p) n"
    (is "?L \<longleftrightarrow> ?R")
proof
  assume ?L
  then obtain k where k: "k \<le> length name - n" "glob_spec (drop (p + 1) pattern) (drop (k + n) name)"
    using drop_nth_Cons [OF assms(1)] assms(2) by (auto simp: glob_spec_star)
  then show ?R
    using assms(3) by (cases k) (auto simp: glob_alt_def intro!: exI [of _ "k + n"])
next
  assume ?R
  then obtain k where k: "n \<le> k" "k \<le> length name" "glob_spec (drop (p + 1) pattern) (drop k name)"
    using assms(3) by (auto simp: glob_alt_def intro: less_imp_le)
  then have "glob_spec (drop (p + 1) pattern) (drop (k - n) (drop n name))" by simp
  moreover have "k - n \<le> length (drop n name)" using k by simp
  ultimately have "glob_spec (CHR ''*'' # drop (p + 1) pattern) (drop n name)"
    unfolding glob_spec_star by blast
  then show ?L using drop_nth_Cons [OF assms(1)] assms(2) by simp
qed

lemma glob_step_star:
  assumes "glob_inv pattern name p n starP starN" and "p < length pattern"
    and "pattern ! p = CHR ''*''"
  shows "glob_spec (drop p pattern) (drop n name) \<or> glob_alt pattern name starP starN \<longleftrightarrow>
    glob_spec (drop (p + 1) pattern) (drop n name) \<or> glob_alt pattern name (Some p) n"
proof -
  have n: "n \<le> length name" using assms(1) by (simp add: glob_inv_def)
  have "glob_spec (drop p pattern) (drop n name)" if alt: "glob_alt pattern name starP starN"
  proof -
    obtain sp where sp: "starP = Some sp" using alt by (auto simp: glob_alt_def)
    from glob_alt_shift [of pattern name p n sp starN] assms(1) alt sp
    obtain k where "n < k" "k \<le> length name" "glob_spec (drop p pattern) (drop k name)"
      by auto
    then show ?thesis
      using drop_nth_Cons [OF assms(2)] assms(3)
        glob_spec_star_mono [of "drop (p + 1) pattern" k name n] by simp
  qed
  then show ?thesis using glob_star_unfold [OF assms(2,3) n] by blast
qed

lemma glob_step_back:
  assumes "starN < length name"
  shows "glob_alt pattern name (Some sp) starN \<longleftrightarrow>
    glob_spec (drop (sp + 1) pattern) (drop (starN + 1) name) \<or>
    glob_alt pattern name (Some sp) (starN + 1)"
proof
  assume "glob_alt pattern name (Some sp) starN"
  then obtain k where k: "starN < k" "k \<le> length name"
      "glob_spec (drop (sp + 1) pattern) (drop k name)"
    by (auto simp: glob_alt_def)
  then show "glob_spec (drop (sp + 1) pattern) (drop (starN + 1) name) \<or>
      glob_alt pattern name (Some sp) (starN + 1)"
    by (cases "k = starN + 1") (auto simp: glob_alt_def)
next
  assume "glob_spec (drop (sp + 1) pattern) (drop (starN + 1) name) \<or>
    glob_alt pattern name (Some sp) (starN + 1)"
  then show "glob_alt pattern name (Some sp) starN"
    using assms by (auto simp: glob_alt_def intro: exI [of _ "Suc starN"] Suc_lessD)
qed

lemma glob_stuck:
  assumes "n < length name"
    and "\<not> (p < length pattern \<and> (pattern ! p = CHR ''?'' \<or> pattern ! p = name ! n))"
    and "\<not> (p < length pattern \<and> pattern ! p = CHR ''*'')"
  shows "\<not> glob_spec (drop p pattern) (drop n name)"
  using assms drop_nth_Cons [OF assms(1)] drop_nth_Cons [of p pattern]
  by (cases "p < length pattern") auto

definition glob_measure :: "string \<Rightarrow> string \<Rightarrow> nat \<Rightarrow> nat \<Rightarrow> nat option \<Rightarrow> nat \<Rightarrow> nat \<times> nat" where
  "glob_measure pattern name p n starP starN =
     ((case starP of None \<Rightarrow> length name + 1 | Some _ \<Rightarrow> length name - starN),
      (length name - n) + (length pattern - p))"

lemma glob_measure_decreases:
  assumes "n < length name" and "starP = None \<or> starN \<le> n"
  shows "p < length pattern \<Longrightarrow> (glob_measure pattern name (p + 1) (n + 1) starP starN,
       glob_measure pattern name p n starP starN) \<in> less_than <*lex*> less_than"
    and "p < length pattern \<Longrightarrow> (glob_measure pattern name (p + 1) n (Some p) n,
       glob_measure pattern name p n starP starN) \<in> less_than <*lex*> less_than"
    and "\<And>sp. starP = Some sp \<Longrightarrow> (glob_measure pattern name (sp + 1) (starN + 1) starP (starN + 1),
       glob_measure pattern name p n starP starN) \<in> less_than <*lex*> less_than"
proof -
  show "(glob_measure pattern name (p + 1) (n + 1) starP starN,
       glob_measure pattern name p n starP starN) \<in> less_than <*lex*> less_than" if "p < length pattern"
    using assms that by (cases starP) (auto simp: glob_measure_def)
  show "(glob_measure pattern name (p + 1) n (Some p) n,
       glob_measure pattern name p n starP starN) \<in> less_than <*lex*> less_than" if "p < length pattern"
    using assms that by (cases starP) (auto simp: glob_measure_def)
  show "(glob_measure pattern name (sp + 1) (starN + 1) starP (starN + 1),
       glob_measure pattern name p n starP starN) \<in> less_than <*lex*> less_than" if "starP = Some sp" for sp
    using assms that by (auto simp: glob_measure_def)
qed

text \<open>
  The loop returns, and its answer is the reference relation for what is left of pattern
  and name, or what backtracking to the last star would still find.
\<close>

definition glob_answers :: "string \<Rightarrow> string \<Rightarrow> nat \<Rightarrow> nat \<Rightarrow> nat option \<Rightarrow> nat \<Rightarrow> bool" where
  "glob_answers pattern name p n starP starN \<longleftrightarrow>
     (\<exists>r. glob_loop pattern name p n starP starN = Some r \<and>
       ((case r of None \<Rightarrow> False | Some q \<Rightarrow> skip_stars pattern q = length pattern) \<longleftrightarrow>
        glob_spec (drop p pattern) (drop n name) \<or> glob_alt pattern name starP starN))"

lemma glob_answers_step:
  assumes "glob_answers pattern name p' n' starP' starN'"
    and "glob_loop pattern name p n starP starN = glob_loop pattern name p' n' starP' starN'"
    and "glob_spec (drop p pattern) (drop n name) \<or> glob_alt pattern name starP starN \<longleftrightarrow>
         glob_spec (drop p' pattern) (drop n' name) \<or> glob_alt pattern name starP' starN'"
  shows "glob_answers pattern name p n starP starN"
  using assms by (simp add: glob_answers_def)

lemma glob_loop_correct:
  assumes "CHR ''*'' \<notin> set name" and "glob_inv pattern name p n starP starN"
  shows "glob_answers pattern name p n starP starN"
  using assms(2)
proof (induction "glob_measure pattern name p n starP starN" arbitrary: p n starP starN
      rule: wf_induct_rule [OF wf_lex_prod [OF wf_less_than wf_less_than]])
  case (1 p n starP starN)
  note IH = "1.hyps" and inv = "1.prems"
  note unfold = glob_loop.simps [of pattern name p n starP starN]
  have bounds: "p \<le> length pattern" "n \<le> length name" and star: "starP = None \<or> starN \<le> n"
    using inv by (auto simp: glob_inv_def split: option.splits)
  consider (fin) "n = length name"
    | (lit) "n < length name" "p < length pattern" "pattern ! p = CHR ''?'' \<or> pattern ! p = name ! n"
    | (star) "n < length name" "\<not> (p < length pattern \<and> (pattern ! p = CHR ''?'' \<or> pattern ! p = name ! n))"
        "p < length pattern" "pattern ! p = CHR ''*''"
    | (stuck) "n < length name" "\<not> (p < length pattern \<and> (pattern ! p = CHR ''?'' \<or> pattern ! p = name ! n))"
        "\<not> (p < length pattern \<and> pattern ! p = CHR ''*'')"
    using bounds(2) by linarith
  then show ?case
  proof cases
    case fin
    then show ?thesis
      using skip_stars_end [OF bounds(1)] glob_alt_end [of pattern name p starP starN] inv
      by (simp add: glob_answers_def glob_loop.simps [of pattern name p "length name"])
  next
    case lit
    then have "name ! n \<noteq> CHR ''*''" using assms(1) nth_mem by metis
    note step = glob_step_literal [OF inv lit this]
    show ?thesis
      by (rule glob_answers_step [OF IH [OF glob_measure_decreases(1) [OF lit(1) star lit(2)] step(1)]])
        (use lit step(2) in \<open>simp_all add: unfold\<close>)
  next
    case star': star
    then have inv': "glob_inv pattern name (p + 1) n (Some p) n" by (simp add: glob_inv_def)
    show ?thesis
      by (rule glob_answers_step [OF IH [OF glob_measure_decreases(2) [OF star'(1) star star'(3)] inv']])
        (use star' glob_step_star [OF inv star'(3,4)] in \<open>simp_all add: unfold\<close>)
  next
    case stuck
    note no = glob_stuck [OF stuck]
    show ?thesis
    proof (cases starP)
      case None
      then have "glob_loop pattern name p n starP starN = Some None" using stuck by (subst unfold) auto
      with None no show ?thesis by (simp add: glob_alt_def glob_answers_def)
    next
      case (Some sp)
      then have inv': "glob_inv pattern name (sp + 1) (starN + 1) starP (starN + 1)"
        using inv stuck(1) by (auto simp: glob_inv_def)
      have "starN < length name" using Some star stuck(1) by simp
      note again = glob_step_back [OF this, of pattern sp]
      have "glob_loop pattern name p n starP starN
          = glob_loop pattern name (sp + 1) (starN + 1) starP (starN + 1)"
        using stuck Some by (subst unfold) auto
      from glob_answers_step [OF IH [OF glob_measure_decreases(3) [OF stuck(1) star Some] inv'] this]
      show ?thesis using Some no again by simp
    qed
  qed
qed

lemma glob_loop_returns:
  "starP = None \<or> starN \<le> n \<Longrightarrow> \<exists>r. glob_loop pattern name p n starP starN = Some r"
proof (induction "glob_measure pattern name p n starP starN" arbitrary: p n starP starN
      rule: wf_induct_rule [OF wf_lex_prod [OF wf_less_than wf_less_than]])
  case (1 p n starP starN)
  note unfold = glob_loop.simps [of pattern name p n starP starN]
  show ?case
  proof (cases "n < length name")
    case False
    then show ?thesis by (simp add: unfold)
  next
    case True
    note dec = glob_measure_decreases [OF True "1.prems", where p = p and pattern = pattern]
    have step1: "p < length pattern \<Longrightarrow> \<exists>r. glob_loop pattern name (p + 1) (n + 1) starP starN = Some r"
      using "1.hyps" [OF dec(1)] "1.prems" by auto
    have step2: "p < length pattern \<Longrightarrow> \<exists>r. glob_loop pattern name (p + 1) n (Some p) n = Some r"
      using "1.hyps" [OF dec(2)] by auto
    have step3: "starP \<noteq> None \<Longrightarrow>
        \<exists>r. glob_loop pattern name (the starP + 1) (starN + 1) starP (starN + 1) = Some r"
      using "1.hyps" [OF dec(3) [of "the starP"]] by (cases starP) auto
    show ?thesis using step1 step2 step3 by (subst unfold) auto
  qed
qed

lemma matchTagGlob_correct:
  assumes "CHR ''*'' \<notin> set name"
  shows "(\<exists>r. glob_loop pattern name 0 0 None 0 = Some r) \<and>
    matchTagGlob pattern name = glob_spec pattern name"
proof -
  have "glob_inv pattern name 0 0 None 0" by (simp add: glob_inv_def)
  from glob_loop_correct [OF assms this] obtain r where
    "glob_loop pattern name 0 0 None 0 = Some r"
    "(case r of None \<Rightarrow> False | Some q \<Rightarrow> skip_stars pattern q = length pattern)
       \<longleftrightarrow> glob_spec pattern name"
    by (auto simp: glob_alt_def glob_answers_def)
  then show ?thesis by (simp add: matchTagGlob_def split: option.splits)
qed

lemma matchTagGlob_eval [simp]:
  "list_all (\<lambda>c. c \<noteq> CHR ''*'') name \<Longrightarrow> matchTagGlob pattern name = glob_spec pattern name"
  using matchTagGlob_correct [of name pattern] by (auto simp: list_all_iff)

section \<open>Rule lookup\<close>

lemma tagFlags_loop_find:
  "tagFlags_loop tg rules im pr =
     \<lparr>flag_immutable = (case im of None \<Rightarrow> find (\<lambda>r. rule_immutable r \<and> matchTagGlob (rule_pattern r) tg) rules
                        | Some r \<Rightarrow> Some r),
      flag_protected = (case pr of None \<Rightarrow> find (\<lambda>r. rule_protected r \<and> matchTagGlob (rule_pattern r) tg) rules
                        | Some r \<Rightarrow> Some r)\<rparr>"
  by (induction rules arbitrary: im pr) (auto split: option.splits)

lemma tagFlags_find:
  "flag_immutable (tagFlags rules tg) = find (\<lambda>r. rule_immutable r \<and> matchTagGlob (rule_pattern r) tg) rules"
  "flag_protected (tagFlags rules tg) = find (\<lambda>r. rule_protected r \<and> matchTagGlob (rule_pattern r) tg) rules"
  by (simp_all add: tagFlags_def tagFlags_loop_find)

definition protects_tag :: "db \<Rightarrow> string \<Rightarrow> string \<Rightarrow> string \<Rightarrow> tag_rule \<Rightarrow> bool" where
  \<comment> \<open>a stored rule that applies to the repository and protects the tag\<close>
  "protects_tag d org repo tg r \<longleftrightarrow> r \<in> set (db_tagRules d) \<and> rule_organizationId r = org \<and>
     (rule_repositoryId r = None \<or> rule_repositoryId r = Some repo) \<and>
     rule_protected r \<and> matchTagGlob (rule_pattern r) tg"

lemma js_comparator_rule_order: "js_comparator lc \<Longrightarrow> js_comparator (rule_order lc)"
  using js_comparator_keyed [OF js_comparator_on [of lc rule_pattern],
      of "\<lambda>r. if rule_repositoryId r = None then 1 else 0"]
  by (simp add: rule_order_def [abs_def])

interpretation rules_by_scope: keyed_comparator
  "\<lambda>a b. code_unit_compare (rule_pattern a) (rule_pattern b)"
  "\<lambda>r. if rule_repositoryId r = None then 1 else 0"
  by (rule keyed_comparator.intro) (rule js_comparator_on [OF code_units.js_comparator_axioms])

lemma set_effectiveTagRules:
  "r \<in> set (effectiveTagRules lc d org repo) \<longleftrightarrow>
     r \<in> set (db_tagRules d) \<and> rule_organizationId r = org \<and>
     (rule_repositoryId r = None \<or> rule_repositoryId r = Some repo)"
  by (auto simp: effectiveTagRules_def)

section \<open>Properties\<close>

text \<open>
  C5. On a name without a literal \<open>*\<close> (no valid tag has one) the two-pointer matcher
  returns and answers exactly the declarative glob relation: \<open>*\<close> is any run of
  characters, \<open>?\<close> exactly one, everything else literal.
\<close>

theorem matchTagGlob_spec:
  assumes "CHR ''*'' \<notin> set name"
  shows "(\<exists>r. glob_loop pattern name 0 0 None 0 = Some r) \<and>
    matchTagGlob pattern name = glob_spec pattern name"
  using assms by (rule matchTagGlob_correct)

theorem matchTagGlob_spec_witness:
  "matchTagGlob ''v*-rc?'' ''v1.2-rc3'' \<and> \<not> matchTagGlob ''v*-rc?'' ''v1.2-rc'' \<and>
   glob_spec ''v*-rc?'' ''v1.2-rc3''"
  using matchTagGlob_spec [of "''v1.2-rc3''" "''v*-rc?''"] matchTagGlob_spec [of "''v1.2-rc''" "''v*-rc?''"]
  by simp

text \<open>
  C6. The matcher's loop, with its one level of backtracking, returns on every pattern and
  every name.
\<close>

theorem matchTagGlob_terminates: "\<exists>r. glob_loop pattern name 0 0 None 0 = Some r"
  by (rule glob_loop_returns) simp

text \<open>
  For a collation \<open>lc\<close> that is a total preorder, the rules that apply to a repository
  are its own and the organization-wide ones, and the rule reported as locking a tag is the
  first protecting rule that matches in the order repository before organization: when any
  rule of the repository itself protects the tag, the reported rule is one of them; and a
  reason is reported exactly when some applicable protecting rule matches.
\<close>

theorem protectedReason_effective:
  assumes "js_comparator lc"
  shows "(protectedReason (effectiveTagRules lc d org repo) tg = None \<longleftrightarrow> (\<nexists>r. protects_tag d org repo tg r)) \<and>
    (\<forall>r. flag_protected (tagFlags (effectiveTagRules lc d org repo) tg) = Some r \<longrightarrow>
       protects_tag d org repo tg r \<and>
       (rule_repositoryId r = None \<longrightarrow>
          (\<nexists>r'. protects_tag d org repo tg r' \<and> rule_repositoryId r' = Some repo)))"
proof -
  let ?P = "\<lambda>r. rule_protected r \<and> matchTagGlob (rule_pattern r) tg"
  let ?rules = "effectiveTagRules lc d org repo"
  have flag: "flag_protected (tagFlags ?rules tg) = find ?P ?rules" by (rule tagFlags_find)
  have app: "protects_tag d org repo tg r \<longleftrightarrow> r \<in> set ?rules \<and> ?P r" for r
    by (auto simp: protects_tag_def set_effectiveTagRules)
  have least: "rule_order lc r r' \<le> 0" if "find ?P ?rules = Some r" "r' \<in> set ?rules" "?P r'" for r r'
    using js_comparator.find_sort_least [OF js_comparator_rule_order [OF assms]] that
    by (auto simp: effectiveTagRules_def)
  have "protectedReason ?rules tg = None \<longleftrightarrow> (\<nexists>r. protects_tag d org repo tg r)"
    by (auto simp: protectedReason_def flag app find_None_iff)
  moreover have "protects_tag d org repo tg r \<and> (rule_repositoryId r = None \<longrightarrow>
      (\<nexists>r'. protects_tag d org repo tg r' \<and> rule_repositoryId r' = Some repo))"
    if f: "find ?P ?rules = Some r" for r
    using find_SomeD [OF f] least [OF f] by (force simp: app rule_order_def)
  ultimately show ?thesis by (simp add: flag)
qed

definition example_rule :: tag_rule where
  "example_rule = \<lparr>rule_id = ''b'', rule_organizationId = ''o'', rule_repositoryId = Some ''r'',
     rule_pattern = ''v*'', rule_immutable = False, rule_protected = True,
     rule_createdBy = None, rule_createdAt = 0\<rparr>"

definition example_rules_db :: db where
  "example_rules_db = empty_db\<lparr>db_tagRules := [example_rule\<lparr>rule_repositoryId := None\<rparr>, example_rule]\<rparr>"

theorem protectedReason_effective_witness:
  "protectedReason (effectiveTagRules code_unit_compare example_rules_db ''o'' ''r'') ''v1'' \<noteq> None \<and>
   js_comparator code_unit_compare"
proof -
  have "protects_tag example_rules_db ''o'' ''r'' ''v1'' example_rule"
    by (simp add: protects_tag_def example_rules_db_def example_rule_def)
  then show ?thesis
    using protectedReason_effective [OF code_units.js_comparator_axioms, of example_rules_db "''o''" "''r''" "''v1''"]
      code_units.js_comparator_axioms by blast
qed

end
