(* ===== verification/Image_Paths.thy ===== *)
theory Image_Paths
  imports Schema
begin

text \<open>
  Names (\<open>web/src/lib/library-shared.ts\<close>, \<open>image-move-shared.ts\<close>, \<open>repo-names-shared.ts\<close>,
  \<open>proxy-shared.ts\<close>): the path of an image with its virtual \<open>library\<close> prefix, the grammars
  of tags and repositories, and the names of a proxy cache. The theorems are the round trip
  between an image path and its organization and repository, and that both spellings of a
  Docker Hub library image name one local repository.
\<close>

section \<open>Image paths\<close>

definition LIBRARY_SLUG :: string where
  "LIBRARY_SLUG = ''library''"

definition isLibrary :: "string option \<Rightarrow> bool" where
  "isLibrary orgSlug \<longleftrightarrow> orgSlug = Some LIBRARY_SLUG"

definition imagePath :: "string option \<Rightarrow> string \<Rightarrow> string" where
  "imagePath orgSlug repoName =
     (if \<not> truthy orgSlug \<or> isLibrary orgSlug then repoName else the orgSlug @ ''/'' @ repoName)"

definition imageReference :: "string \<Rightarrow> string option \<Rightarrow> string \<Rightarrow> string option \<Rightarrow> string" where
  "imageReference host orgSlug repoName ref =
     (let base = host @ ''/'' @ imagePath orgSlug repoName in
      if \<not> truthy ref then base
      else if starts_with (the ref) ''sha256:'' then base @ ''@'' @ the ref
      else base @ '':'' @ the ref)"

definition displayPath :: "string \<Rightarrow> string" where
  "displayPath label =
     (if starts_with label (LIBRARY_SLUG @ ''/'') then drop (length LIBRARY_SLUG + 1) label else label)"

definition splitImagePath :: "string \<Rightarrow> (string \<times> string) option" where
  "splitImagePath name =
     (let parts = split_on (CHR ''/'') name in
      if list_ex (\<lambda>p. p = []) parts then None
      else if length parts = 1 then Some (LIBRARY_SLUG, parts ! 0)
      else if 2 \<le> length parts then Some (parts ! 0, join_with ''/'' (tl parts))
      else None)"

definition pullPath :: "string \<Rightarrow> string \<Rightarrow> string" where
  "pullPath orgSlug repoName = (if orgSlug = ''library'' then repoName else orgSlug @ ''/'' @ repoName)"

definition pullReference :: "string \<Rightarrow> string \<Rightarrow> string \<Rightarrow> string \<Rightarrow> string" where
  "pullReference registryHost orgSlug repoName tg =
     registryHost @ ''/'' @ pullPath orgSlug repoName @ '':'' @ tg"

definition serviceAccountHandle :: "string \<Rightarrow> string \<Rightarrow> string" where
  "serviceAccountHandle organizationSlug name = organizationSlug @ ''/'' @ name"

section \<open>Tag and repository names\<close>

definition word_char :: "char \<Rightarrow> bool" where
  \<comment> \<open>the class \<open>[a-zA-Z0-9_]\<close>\<close>
  "word_char c \<longleftrightarrow> is_lower_alpha c \<or> is_upper_alpha c \<or> is_digit c \<or> c = CHR ''_''"

definition TAG_NAME_RE :: "string \<Rightarrow> bool" where
  "TAG_NAME_RE tg = (case tg of [] \<Rightarrow> False
     | c # cs \<Rightarrow> word_char c \<and> list_all (\<lambda>x. word_char x \<or> x = CHR ''.'' \<or> x = CHR ''-'') cs \<and>
         length cs \<le> 127)"

definition tagNameProblem :: "string \<Rightarrow> string option" where
  "tagNameProblem tg =
     (if tg = [] then Some ''Enter a destination tag.''
      else if 128 < length tg then Some ''Tags are at most 128 characters.''
      else if \<not> TAG_NAME_RE tg
        then Some ''Tags start with a letter, digit or underscore and continue with letters, digits, . _ or -.''
      else None)"

definition component_separator :: "string \<Rightarrow> bool" where
  \<comment> \<open>\<open>[._]|__|-+\<close>\<close>
  "component_separator s \<longleftrightarrow> s \<in> {''.'', ''_'', ''__''} \<or> (s \<noteq> [] \<and> list_all (\<lambda>c. c = CHR ''-'') s)"

function COMPONENT_RE :: "string \<Rightarrow> bool" where
  \<comment> \<open>alternating runs of \<open>[a-z0-9]\<close> and separators, beginning and ending with a run\<close>
  "COMPONENT_RE s =
     (if takeWhile is_lower_alnum s = [] then False
      else (let r = dropWhile is_lower_alnum s in
        if r = [] then True
        else if \<not> component_separator (takeWhile (\<lambda>c. \<not> is_lower_alnum c) r) then False
        else COMPONENT_RE (dropWhile (\<lambda>c. \<not> is_lower_alnum c) r)))"
  by pat_completeness auto
termination
proof (relation "measure length", goal_cases)
  case 1
  show ?case by simp
next
  case (2 s r)
  have "length (dropWhile (\<lambda>c. \<not> is_lower_alnum c) r) \<le> length r" by (rule length_dropWhile_le)
  moreover have "length r < length s"
  proof -
    have "length (takeWhile is_lower_alnum s) + length (dropWhile is_lower_alnum s) = length s"
      by (simp only: length_append [symmetric] takeWhile_dropWhile_id)
    moreover have "0 < length (takeWhile is_lower_alnum s)" using 2 by simp
    moreover have "length r = length (dropWhile is_lower_alnum s)" using 2 by simp
    ultimately show ?thesis by linarith
  qed
  ultimately show ?case by simp
qed

declare COMPONENT_RE.simps [simp del]

definition isValidRepoName :: "string \<Rightarrow> bool \<Rightarrow> bool" where
  "isValidRepoName name allowNested =
     (if name = [] \<or> 255 < length name then False
      else (let parts = split_on (CHR ''/'') name in
        if 1 < length parts \<and> \<not> allowNested then False else list_all COMPONENT_RE parts))"

definition RESERVED_REPO_NAMES :: "string list" where
  "RESERVED_REPO_NAMES =
     [''members'', ''settings'', ''service-accounts'', ''new-repository'', ''import'', ''audit'', ''compare'',
      ''tags'', ''manifests'', ''blobs'', ''referrers'']"

definition MAX_REPO_NAME_LENGTH :: nat where
  "MAX_REPO_NAME_LENGTH = 100"

definition repoNameProblem :: "string \<Rightarrow> bool \<Rightarrow> string option" where
  "repoNameProblem name allowNested =
     (if name = [] then Some ''Enter a repository name.''
      else if \<not> allowNested \<and> MAX_REPO_NAME_LENGTH < length name
        then Some (''Repository names are at most '' @ show_nat MAX_REPO_NAME_LENGTH @ '' characters.'')
      else if \<not> isValidRepoName name allowNested
        then Some (if allowNested
          then ''Repository names use lowercase letters, digits and single ._- separators, with / between path components.''
          else ''Repository names use lowercase letters, digits and single ._- separators.'')
      else if name \<in> set RESERVED_REPO_NAMES
        then Some (''\"'' @ name @ ''\" is reserved; pick a different name.'')
      else None)"

section \<open>Proxy caches\<close>

text \<open>
  \<open>new URL(url).host\<close> is the parameter \<open>url_host\<close>; \<open>None\<close> is the exception of an
  invalid URL.
\<close>

definition strip_scheme :: "string \<Rightarrow> string" where
  \<comment> \<open>\<open>replace(/^https?:\/\//, "")\<close>\<close>
  "strip_scheme s = (if starts_with s ''https://'' then drop 8 s
     else if starts_with s ''http://'' then drop 7 s else s)"

definition hostOf :: "(string \<Rightarrow> string option) \<Rightarrow> string \<Rightarrow> string" where
  "hostOf url_host url = (case url_host (js_trim url) of
       Some h \<Rightarrow> js_lower h
     | None \<Rightarrow> js_lower (hd (split_on (CHR ''/'') (strip_scheme (js_trim url)))))"

definition isDockerHubHost :: "string \<Rightarrow> bool" where
  "isDockerHubHost host \<longleftrightarrow> hd (split_on (CHR '':'') host) \<in>
     set [''registry-1.docker.io'', ''index.docker.io'', ''docker.io'', ''registry.hub.docker.com'', ''hub.docker.com'']"

definition isDockerHubUrl :: "(string \<Rightarrow> string option) \<Rightarrow> string \<Rightarrow> bool" where
  "isDockerHubUrl url_host url = isDockerHubHost (hostOf url_host url)"

definition presetFor :: "(string \<Rightarrow> string option) \<Rightarrow> string \<Rightarrow> proxy_preset" where
  "presetFor url_host url =
     (let host = hostOf url_host url in
      if isDockerHubHost host then PresetDockerhub
      else if host = ''ghcr.io'' then PresetGhcr
      else if host = ''quay.io'' then PresetQuay
      else PresetCustom)"

definition displayHost :: "(string \<Rightarrow> string option) \<Rightarrow> string \<Rightarrow> string" where
  "displayHost url_host url =
     (let host = hostOf url_host url in if isDockerHubHost host then ''docker.io'' else host)"

definition proxyLocalName :: "bool \<Rightarrow> string \<Rightarrow> string" where
  "proxyLocalName dockerHub requested =
     (let rest = (if starts_with requested ''library/'' then Some (drop 8 requested) else None)
      in if dockerHub \<and> truthy rest \<and> CHR ''/'' \<notin> set (the rest) then the rest else requested)"

definition proxyUpstreamPath :: "bool \<Rightarrow> string \<Rightarrow> string" where
  "proxyUpstreamPath dockerHub local =
     (if dockerHub \<and> CHR ''/'' \<notin> set local then ''library/'' @ local else local)"

fun glob_regex :: "string \<Rightarrow> string \<Rightarrow> bool" where
  \<comment> \<open>the anchored expression of \<open>globToRegex\<close>: its \<open>.\<close> matches no line terminator\<close>
  "glob_regex [] s = (s = [])"
| "glob_regex (c # ps) [] = (c = CHR ''*'' \<and> glob_regex ps [])"
| "glob_regex (c # ps) (x # xs) =
     (if c = CHR ''*'' then glob_regex ps (x # xs) \<or> (of_char x \<notin> {10, 13 :: nat} \<and> glob_regex (c # ps) xs)
      else if c = CHR ''?'' then of_char x \<notin> {10, 13 :: nat} \<and> glob_regex ps xs
      else c = x \<and> glob_regex ps xs)"

definition proxyPatternsAllow :: "string \<Rightarrow> string \<Rightarrow> bool" where
  "proxyPatternsAllow patterns upstreamPath =
     (let ps = filter (\<lambda>p. p \<noteq> []) (split_runs (\<lambda>c. js_ws c \<or> c = CHR '','') patterns) in
      if ps = [] then True else list_ex (\<lambda>p. glob_regex p upstreamPath) ps)"

definition duration_unit :: "char \<Rightarrow> int option" where
  "duration_unit c = map_of [(CHR ''s'', 1000), (CHR ''m'', 60000), (CHR ''h'', 3600000), (CHR ''d'', 86400000)] c"

definition durationToMs :: "string option \<Rightarrow> int \<Rightarrow> int" where
  "durationToMs v fallbackMs =
     (if \<not> truthy v then fallbackMs
      else (let s = js_trim (the v); ds = takeWhile is_digit s in
        case dropWhile is_digit s of
          [u] \<Rightarrow> (case duration_unit u of
                   Some k \<Rightarrow> if ds = [] then fallbackMs else int (read_digits ds) * k
                 | None \<Rightarrow> fallbackMs)
        | _ \<Rightarrow> fallbackMs))"

section \<open>Facts about names\<close>

lemma component_nonempty: "COMPONENT_RE s \<Longrightarrow> s \<noteq> []"
  by (subst (asm) COMPONENT_RE.simps) auto

lemma valid_repo_parts:
  "isValidRepoName name allowNested \<Longrightarrow>
     list_all (\<lambda>p. p \<noteq> []) (split_on (CHR ''/'') name) \<and> (\<not> allowNested \<longrightarrow> CHR ''/'' \<notin> set name)"
proof -
  assume v: "isValidRepoName name allowNested"
  then have parts: "list_all COMPONENT_RE (split_on (CHR ''/'') name)"
    and len: "\<not> allowNested \<Longrightarrow> \<not> 1 < length (split_on (CHR ''/'') name)"
    by (auto simp: isValidRepoName_def Let_def split: if_splits)
  have "CHR ''/'' \<notin> set name" if flat: "\<not> allowNested"
  proof -
    obtain w where w: "split_on (CHR ''/'') name = [w]"
      using len [OF flat] split_on_nonempty [of "CHR ''/''" name]
      by (cases "split_on (CHR ''/'') name") auto
    then have "name = w" using join_split_on [of "CHR ''/''" name] by simp
    with w show ?thesis using split_on_no_sep [of w "CHR ''/''" name] by simp
  qed
  with parts show ?thesis by (auto simp: list_all_iff dest: component_nonempty)
qed

definition path_ok :: "string \<times> string \<Rightarrow> bool" where
  \<comment> \<open>an organization slug and a repository name that may be stored under it\<close>
  "path_ok = (\<lambda>(org, repo). org \<noteq> [] \<and> CHR ''/'' \<notin> set org \<and>
     list_all (\<lambda>p. p \<noteq> []) (split_on (CHR ''/'') repo) \<and>
     (org = LIBRARY_SLUG \<longrightarrow> CHR ''/'' \<notin> set repo))"

lemma path_okI:
  "org \<noteq> [] \<Longrightarrow> CHR ''/'' \<notin> set org \<Longrightarrow> isValidRepoName repo nested \<Longrightarrow>
     (org = LIBRARY_SLUG \<Longrightarrow> \<not> nested) \<Longrightarrow> path_ok (org, repo)"
  using valid_repo_parts [of repo nested] by (auto simp: path_ok_def)

interpretation image_path: codec path_ok "\<lambda>(org, repo). imagePath (Some org) repo" splitImagePath
proof
  fix x :: "string \<times> string"
  assume ok: "path_ok x"
  obtain org repo where x: "x = (org, repo)" by fastforce
  have org: "org \<noteq> []" "CHR ''/'' \<notin> set org"
    and parts: "list_all (\<lambda>p. p \<noteq> []) (split_on (CHR ''/'') repo)"
    and lib: "org = LIBRARY_SLUG \<Longrightarrow> CHR ''/'' \<notin> set repo"
    using ok x by (auto simp: path_ok_def)
  have none: "\<not> list_ex (\<lambda>p. p = []) (split_on (CHR ''/'') repo)"
    using parts by (simp add: list_ex_iff list_all_iff)
  show "splitImagePath (case x of (org, repo) \<Rightarrow> imagePath (Some org) repo) = Some x"
  proof (cases "org = LIBRARY_SLUG")
    case True
    then show ?thesis
      using lib none x split_on_atom [of "CHR ''/''" repo]
      by (simp add: imagePath_def isLibrary_def splitImagePath_def)
  next
    case False
    then show ?thesis
      using org none x split_on_cons [OF org(2), of repo] join_split_on [of "CHR ''/''" repo]
      by (cases "split_on (CHR ''/'') repo")
        (simp_all add: imagePath_def isLibrary_def splitImagePath_def)
  qed
qed

lemma proxy_local_upstream:
  "local \<noteq> [] \<Longrightarrow> CHR ''/'' \<notin> set local \<Longrightarrow> proxyLocalName True (proxyUpstreamPath True local) = local"
  by (simp add: proxyLocalName_def proxyUpstreamPath_def starts_with_def Let_def)

section \<open>Properties\<close>

text \<open>
  C40. The path people pull parses back to the organization and repository it was printed
  from: for every organization slug (one path segment) and every acceptable repository
  name, nested names being allowed outside \<open>library\<close> only; so no two repositories share a
  path.
\<close>

theorem imagePath_roundtrip:
  assumes "org \<noteq> []" and "CHR ''/'' \<notin> set org"
    and "isValidRepoName repo nested" and "org = LIBRARY_SLUG \<longrightarrow> \<not> nested"
    and "org' \<noteq> []" and "CHR ''/'' \<notin> set org'"
    and "isValidRepoName repo' nested'" and "org' = LIBRARY_SLUG \<longrightarrow> \<not> nested'"
  shows "splitImagePath (imagePath (Some org) repo) = Some (org, repo) \<and>
    (imagePath (Some org) repo = imagePath (Some org') repo' \<longleftrightarrow> org = org' \<and> repo = repo')"
proof -
  have ok: "path_ok (org, repo)" using assms path_okI [of org repo nested] by simp
  have "path_ok (org', repo')" using assms path_okI [of org' repo' nested'] by simp
  from image_path.encode_inj [OF ok this] image_path.decode_encode [OF ok] show ?thesis by simp
qed

theorem imagePath_roundtrip_witness:
  "splitImagePath (imagePath (Some ''hub'') ''a/b'') = Some (''hub'', ''a/b'') \<and>
   imagePath (Some ''hub'') ''a/b'' \<noteq> imagePath (Some ''library'') ''b''"
proof -
  have "isValidRepoName ''a/b'' True" "isValidRepoName ''b'' False"
    by code_simp+
  then show ?thesis
    using imagePath_roundtrip [of "''hub''" "''a/b''" True "''library''" "''b''" False]
    by (simp add: LIBRARY_SLUG_def)
qed

text \<open>
  In a Docker Hub proxy the local name is canonical: the upstream path of a local name
  resolves to the same local name again, and the two spellings of a library image
  (\<open>nginx\<close>, \<open>library/nginx\<close>) resolve to one local name.
\<close>

theorem proxy_names_canonical:
  assumes "requested \<noteq> []"
  shows "proxyLocalName hub (proxyUpstreamPath hub (proxyLocalName hub requested)) = proxyLocalName hub requested \<and>
    (CHR ''/'' \<notin> set requested \<longrightarrow> proxyLocalName True (''library/'' @ requested) = proxyLocalName True requested)"
proof -
  have "CHR ''/'' \<notin> set requested \<Longrightarrow> proxyLocalName True requested = requested"
    by (auto simp: proxyLocalName_def starts_with_iff Let_def)
  then show ?thesis
    using assms proxy_local_upstream
    by (auto simp: proxyLocalName_def proxyUpstreamPath_def starts_with_def Let_def)
qed

theorem proxy_names_canonical_witness:
  "proxyLocalName True ''library/nginx'' = proxyLocalName True ''nginx''"
  using proxy_names_canonical [of "''nginx''" True] by simp

end
