(* ===== verification/Tag_Admin.thy ===== *)
theory Tag_Admin
  imports Tag_Rules Image_Paths
begin

text \<open>
  Changing and removing tags and manifests through the registry
  (\<open>web/src/lib/tag-admin.ts\<close>, the deletion path of \<open>manifests.ts\<close>, and the choice of
  the newest image in \<open>mirror.ts\<close>).

  The registry daemon is another process. It is the parameter \<open>registry\<close>: a request and
  the current database give a response and the database after it. The state of an operation
  is the database together with the requests sent so far, so that the theorems can say
  what is sent: no request removes a protected tag or moves an immutable one.
\<close>

section \<open>The registry as a parameter\<close>

datatype reg_request =
    ReqDelete string "string list" string string
      \<comment> \<open>subject, granted actions, path, reference\<close>
  | ReqPut string "string list" string string string string
      \<comment> \<open>subject, granted actions, path, reference, media type, body\<close>

record reg_response =
  res_status :: int
  res_message :: string

type_synonym registry = "reg_request \<Rightarrow> db \<Rightarrow> reg_response \<times> db"
type_synonym world = "db \<times> reg_request list"

definition reg_call :: "registry \<Rightarrow> reg_request \<Rightarrow> world \<Rightarrow> reg_response \<times> world" where
  "reg_call registry q w = (let (res, d) = registry q (fst w) in (res, (d, snd w @ [q])))"

datatype admin_error =
    EInvalidTag string | ERepositoryNotFound | EOrganizationNotFound
  | EImageMissing | ETagMissing string | EImmutable string string string
  | EProtected string | EIndexChild "string list"
  | ERefused string | ERefusedStatus int string
  | ELatestStays string string | ELatestNotRemoved string int
  | ELatestUnreadable string string | ELatestNotMoved string int

section \<open>The newest image\<close>

definition dot_number :: "string \<Rightarrow> (nat \<times> string) option" where
  \<comment> \<open>one group \<open>\.(\d+)\<close> and what follows\<close>
  "dot_number s = (case s of [] \<Rightarrow> None
     | c # rest \<Rightarrow> if c = CHR ''.'' \<and> takeWhile is_digit rest \<noteq> []
         then Some (read_digits (takeWhile is_digit rest), dropWhile is_digit rest) else None)"

definition version_end :: "string \<Rightarrow> bool" where
  \<comment> \<open>the lookahead \<open>(?=([-+.])|$)\<close>\<close>
  "version_end s = (case s of [] \<Rightarrow> True | c # _ \<Rightarrow> c \<in> set ''-+.'')"

definition release_flag :: "string \<Rightarrow> nat" where
  "release_flag s = (if s = [] then 1 else 0)"

definition versionKey :: "string \<Rightarrow> nat list option" where
  "versionKey tg =
     (let s = (case tg of [] \<Rightarrow> [] | c # cs \<Rightarrow> if c = CHR ''v'' then cs else tg);
          ds = takeWhile is_digit s; r1 = dropWhile is_digit s; major = read_digits ds
      in if ds = [] then None
         else (case dot_number r1 of
             Some (minor, r2) \<Rightarrow>
               (case dot_number r2 of
                  Some (patch, r3) \<Rightarrow>
                    if version_end r3 then Some [major, minor, patch, release_flag r3]
                    else Some [major, minor, 0, 0]
                | None \<Rightarrow> if version_end r2 then Some [major, minor, 0, release_flag r2]
                          else Some [major, 0, 0, 0])
           | None \<Rightarrow> if version_end r1 then Some [major, 0, 0, release_flag r1] else None))"

definition key_cmp :: "nat list \<Rightarrow> nat list \<Rightarrow> int" where
  \<comment> \<open>the local \<open>cmp\<close> of \<open>pickNewest\<close>\<close>
  "key_cmp a b = nullish (find (\<lambda>x. x \<noteq> 0) (map2 (\<lambda>v w. int v - int w) a b)) 0"

fun best_version :: "('c \<times> nat list) list \<Rightarrow> 'c \<times> nat list \<Rightarrow> 'c \<times> nat list" where
  "best_version [] best = best"
| "best_version (x # xs) best = best_version xs (if 0 \<le> key_cmp (snd x) (snd best) then x else best)"

fun best_dated :: "('c \<Rightarrow> int) \<Rightarrow> 'c list \<Rightarrow> ('c \<times> int) option \<Rightarrow> ('c \<times> int) option" where
  "best_dated at [] best = best"
| "best_dated at (c # cs) best =
     best_dated at cs (case best of None \<Rightarrow> Some (c, at c)
       | Some (b, t) \<Rightarrow> if t \<le> at c then Some (c, at c) else Some (b, t))"

type_synonym candidate = "string \<times> string" \<comment> \<open>\<open>targetTag\<close> and \<open>digest\<close>\<close>

definition pickNewest :: "candidate list \<Rightarrow> (string \<Rightarrow> millis option) \<Rightarrow> candidate option" where
  "pickNewest candidates createdAt =
     (if candidates = [] then None
      else (let versioned = List.map_filter (\<lambda>c. map_option (\<lambda>k. (c, k)) (versionKey (fst c))) candidates in
        if versioned \<noteq> [] then Some (fst (best_version versioned (hd versioned)))
        else (case best_dated (\<lambda>c. nullish (createdAt (snd c)) 0)
                     (drop (length candidates - 100) candidates) None of
                Some (c, _) \<Rightarrow> Some c
              | None \<Rightarrow> Some (last candidates))))"

section \<open>Tags\<close>

record retag_outcome =
  rt_tag :: string
  rt_digest :: string
  rt_previousDigest :: "string option"
  rt_changed :: bool

definition find_tag :: "db \<Rightarrow> string \<Rightarrow> string \<Rightarrow> tag option" where
  "find_tag d repoId name = find (\<lambda>t. tag_repositoryId t = repoId \<and> tag_name t = name) (db_tags d)"

definition find_manifest :: "db \<Rightarrow> string \<Rightarrow> string \<Rightarrow> manifest option" where
  "find_manifest d repoId digest =
     find (\<lambda>m. man_repositoryId m = repoId \<and> man_digest m = digest) (db_manifests d)"

definition retag ::
  "(string \<Rightarrow> string \<Rightarrow> int) \<Rightarrow> registry \<Rightarrow> string \<Rightarrow> string \<Rightarrow> string \<Rightarrow> string \<Rightarrow> world \<Rightarrow>
     (admin_error + retag_outcome) \<times> world" where
  "retag lc registry repositoryId tagName digest subject w =
     (let d = fst w in
      case tagNameProblem tagName of Some p \<Rightarrow> (Inl (EInvalidTag p), w) | None \<Rightarrow>
      case find (\<lambda>r. repo_id r = repositoryId) (db_repositories d) of
        None \<Rightarrow> (Inl ERepositoryNotFound, w) | Some repo \<Rightarrow>
      case find (\<lambda>g. org_id g = repo_organizationId repo) (db_organizations d) of
        None \<Rightarrow> (Inl EOrganizationNotFound, w) | Some org \<Rightarrow>
      case find_manifest d (repo_id repo) digest of
        None \<Rightarrow> (Inl EImageMissing, w) | Some man \<Rightarrow>
      (let existing = find_tag d (repo_id repo) tagName;
           rules = effectiveTagRules lc d (repo_organizationId repo) (repo_id repo);
           flags = tagFlags rules tagName;
           path = imagePath (Some (org_slug org)) (repo_name repo)
       in if map_option tag_manifestDigest existing = Some digest
          then (Inr \<lparr>rt_tag = tagName, rt_digest = digest, rt_previousDigest = Some digest, rt_changed = False\<rparr>, w)
          else if existing \<noteq> None \<and> flag_immutable flags \<noteq> None
          then (Inl (EImmutable tagName (rule_pattern (the (flag_immutable flags)))
                       (take 19 (tag_manifestDigest (the existing)))), w)
          else (let (res, w') = reg_call registry
                      (ReqPut subject [''pull'', ''push''] path tagName (man_mediaType man) (man_payload man)) w
                in if res_status res = 403 then (Inl (ERefused (res_message res)), w')
                   else if res_status res \<noteq> 201 then (Inl (ERefusedStatus (res_status res) (res_message res)), w')
                   else (Inr \<lparr>rt_tag = tagName, rt_digest = digest,
                              rt_previousDigest = map_option tag_manifestDigest existing, rt_changed = True\<rparr>, w'))))"

datatype latest_outcome = LatestMoved string | LatestRemoved | LatestUnchanged

text \<open>
  What the registry serves of an image: \<open>image_created\<close> is the build date \<open>imageCreatedAt\<close>
  reads from its config blob, \<open>fetch_manifest\<close> its media type and bytes.
\<close>

definition follow_latest ::
  "registry \<Rightarrow> (db \<Rightarrow> string \<Rightarrow> string \<Rightarrow> millis option) \<Rightarrow>
     (db \<Rightarrow> string \<Rightarrow> string \<Rightarrow> (string \<times> string) option) \<Rightarrow>
     string \<Rightarrow> string \<Rightarrow> string \<Rightarrow> string \<Rightarrow> tag \<Rightarrow> world \<Rightarrow> (admin_error + latest_outcome) \<times> world" where
  \<comment> \<open>the tail of \<open>deleteTag\<close>: \<open>latest\<close> goes to the newest remaining image\<close>
  "follow_latest registry image_created fetch_manifest repoId path tagName subject latest w =
     (let actions = [''pull'', ''push'', ''delete''];
          remaining = filter (\<lambda>t. tag_repositoryId t = repoId \<and> tag_name t \<notin> {tagName, ''latest''}) (db_tags (fst w))
      in if remaining = []
         then (let (gone, w') = reg_call registry (ReqDelete subject actions path ''latest'') w
               in if res_status gone = 403 then (Inl (ELatestStays tagName (res_message gone)), w')
                  else if res_status gone \<noteq> 202 \<and> res_status gone \<noteq> 404
                    then (Inl (ELatestNotRemoved tagName (res_status gone)), w')
                  else (Inr LatestRemoved, w'))
         else (case pickNewest (map (\<lambda>t. (tag_name t, tag_manifestDigest t)) remaining)
                      (image_created (fst w) path) of
             None \<Rightarrow> (Inr LatestUnchanged, w)
           | Some pick \<Rightarrow>
               if snd pick = tag_manifestDigest latest then (Inr LatestUnchanged, w)
               else (case fetch_manifest (fst w) path (snd pick) of
                   None \<Rightarrow> (Inl (ELatestUnreadable tagName (fst pick)), w)
                 | Some (mediaType, payload) \<Rightarrow>
                     (let (put, w') = reg_call registry (ReqPut subject actions path ''latest'' mediaType payload) w
                      in if res_status put \<noteq> 201 then (Inl (ELatestNotMoved tagName (res_status put)), w')
                         else (Inr (LatestMoved (fst pick)), w')))))"

definition deleteTag ::
  "(string \<Rightarrow> string \<Rightarrow> int) \<Rightarrow> registry \<Rightarrow> (db \<Rightarrow> string \<Rightarrow> string \<Rightarrow> millis option) \<Rightarrow>
     (db \<Rightarrow> string \<Rightarrow> string \<Rightarrow> (string \<times> string) option) \<Rightarrow>
     string \<Rightarrow> string \<Rightarrow> string \<Rightarrow> bool \<Rightarrow> world \<Rightarrow> (admin_error + latest_outcome) \<times> world" where
  "deleteTag lc registry image_created fetch_manifest repositoryId tagName subject moveLatest w =
     (let d = fst w in
      case find (\<lambda>r. repo_id r = repositoryId) (db_repositories d) of
        None \<Rightarrow> (Inl ERepositoryNotFound, w) | Some repo \<Rightarrow>
      case find (\<lambda>g. org_id g = repo_organizationId repo) (db_organizations d) of
        None \<Rightarrow> (Inl EOrganizationNotFound, w) | Some org \<Rightarrow>
      (let path = imagePath (Some (org_slug org)) (repo_name repo);
           latest = find_tag d (repo_id repo) ''latest'';
           rules = effectiveTagRules lc d (repo_organizationId repo) (repo_id repo)
       in case find_tag d (repo_id repo) tagName of
            None \<Rightarrow> (Inl (ETagMissing tagName), w) | Some target \<Rightarrow>
          case protectedReason rules tagName of
            Some blocked \<Rightarrow> (Inl (EProtected blocked), w) | None \<Rightarrow>
          (let (res, w') = reg_call registry (ReqDelete subject [''pull'', ''push'', ''delete''] path tagName) w
           in if res_status res = 404 then (Inl (ETagMissing tagName), w')
              else if res_status res = 403 then (Inl (ERefused (res_message res)), w')
              else if res_status res \<noteq> 202 then (Inl (ERefusedStatus (res_status res) []), w')
              else if \<not> moveLatest \<or> tagName = ''latest'' \<or> latest = None \<or>
                      tag_manifestDigest (the latest) \<noteq> tag_manifestDigest target
                then (Inr LatestUnchanged, w')
              else if flag_immutable (tagFlags rules ''latest'') \<noteq> None \<or>
                      flag_protected (tagFlags rules ''latest'') \<noteq> None
                then (Inr LatestUnchanged, w')
              else follow_latest registry image_created fetch_manifest (repo_id repo) path tagName subject
                     (the latest) w')))"

section \<open>Manifests\<close>

record untagged_manifest =
  um_digest :: string
  um_mediaType :: string
  um_artifactType :: "string option"
  um_isIndex :: bool
  um_size :: int
  um_pushedAt :: millis
  um_pushedBy :: "string option"
  um_isChild :: bool
  um_isReferrer :: bool
  um_subjectDigest :: "string option"
  um_referrerCount :: nat

definition is_child :: "db \<Rightarrow> manifest \<Rightarrow> bool" where
  "is_child d m \<longleftrightarrow> list_ex (\<lambda>r. mr_repositoryId r = man_repositoryId m \<and> mr_refDigest r = man_digest m) (db_manifestRefs d)"

definition is_referrer :: "db \<Rightarrow> manifest \<Rightarrow> bool" where
  "is_referrer d m \<longleftrightarrow> man_subjectDigest m \<noteq> None \<and>
     list_ex (\<lambda>s. man_repositoryId s = man_repositoryId m \<and> Some (man_digest s) = man_subjectDigest m) (db_manifests d)"

definition referrer_count :: "db \<Rightarrow> manifest \<Rightarrow> nat" where
  "referrer_count d m =
     length (filter (\<lambda>r. man_repositoryId r = man_repositoryId m \<and> man_subjectDigest r = Some (man_digest m)) (db_manifests d))"

definition untaggedWhere :: "db \<Rightarrow> string \<Rightarrow> manifest \<Rightarrow> bool" where
  "untaggedWhere d repoId m \<longleftrightarrow> man_repositoryId m = repoId \<and>
     \<not> list_ex (\<lambda>t. tag_repositoryId t = man_repositoryId m \<and> tag_manifestDigest t = man_digest m) (db_tags d)"

definition mapUntagged :: "db \<Rightarrow> manifest \<Rightarrow> untagged_manifest" where
  \<comment> \<open>without the columns only shown on the page: content size, platform, parent tags\<close>
  "mapUntagged d m = \<lparr>um_digest = man_digest m, um_mediaType = man_mediaType m,
     um_artifactType = man_artifactType m,
     um_isIndex = (includes_str (man_mediaType m) ''index'' \<or> includes_str (man_mediaType m) ''list''),
     um_size = man_size m, um_pushedAt = man_createdAt m, um_pushedBy = man_pushedBy m,
     um_isChild = is_child d m, um_isReferrer = is_referrer d m,
     um_subjectDigest = man_subjectDigest m, um_referrerCount = referrer_count d m\<rparr>"

definition listUntaggedManifests :: "db \<Rightarrow> string \<Rightarrow> untagged_manifest list" where
  "listUntaggedManifests d repoId =
     map (mapUntagged d)
       (js_sort (\<lambda>a b. man_createdAt b - man_createdAt a) (filter (untaggedWhere d repoId) (db_manifests d)))"

definition tagsForDigest :: "(string \<Rightarrow> string \<Rightarrow> int) \<Rightarrow> db \<Rightarrow> string \<Rightarrow> string \<Rightarrow> string list" where
  "tagsForDigest asc d repoId digest =
     js_sort asc (map tag_name
       (filter (\<lambda>t. tag_repositoryId t = repoId \<and> tag_manifestDigest t = digest) (db_tags d)))"

definition indexParents :: "db \<Rightarrow> string \<Rightarrow> string \<Rightarrow> string list" where
  "indexParents d repoId digest =
     map man_digest (js_sort (\<lambda>a b. man_createdAt b - man_createdAt a)
       (concat (map (\<lambda>r. filter (\<lambda>m. man_repositoryId m = mr_repositoryId r \<and> man_digest m = mr_manifestDigest r) (db_manifests d))
         (filter (\<lambda>r. mr_repositoryId r = repoId \<and> mr_refDigest r = digest) (db_manifestRefs d)))))"

definition manifestDeleteBlocker ::
  "(string \<Rightarrow> string \<Rightarrow> int) \<Rightarrow> (string \<Rightarrow> string \<Rightarrow> int) \<Rightarrow> db \<Rightarrow> string \<Rightarrow> string \<Rightarrow> string \<Rightarrow>
     admin_error option \<times> string list" where
  \<comment> \<open>the text about an index child names the parents' platforms and tags; here the parents' digests\<close>
  "manifestDeleteBlocker lc asc d repoId organizationId digest =
     (let parents = indexParents d repoId digest;
          tags = tagsForDigest asc d repoId digest;
          rules = effectiveTagRules lc d organizationId repoId
      in if parents \<noteq> [] then (Some (EIndexChild parents), tags)
         else (case find (\<lambda>t. protectedReason rules t \<noteq> None) tags of
             Some t \<Rightarrow> (Some (EProtected (the (protectedReason rules t) @
                         '' The image cannot be deleted while it carries that tag.'')), tags)
           | None \<Rightarrow> (None, tags)))"

definition deleteManifestByDigest ::
  "(string \<Rightarrow> string \<Rightarrow> int) \<Rightarrow> (string \<Rightarrow> string \<Rightarrow> int) \<Rightarrow> registry \<Rightarrow> string \<Rightarrow> string \<Rightarrow> string \<Rightarrow> world \<Rightarrow>
     (admin_error + string \<times> string list) \<times> world" where
  "deleteManifestByDigest lc asc registry repositoryId digest subject w =
     (let d = fst w in
      case find (\<lambda>r. repo_id r = repositoryId) (db_repositories d) of
        None \<Rightarrow> (Inl ERepositoryNotFound, w) | Some repo \<Rightarrow>
      case find (\<lambda>g. org_id g = repo_organizationId repo) (db_organizations d) of
        None \<Rightarrow> (Inl EOrganizationNotFound, w) | Some org \<Rightarrow>
      case find_manifest d (repo_id repo) digest of
        None \<Rightarrow> (Inl EImageMissing, w) | Some _ \<Rightarrow>
      case manifestDeleteBlocker lc asc d (repo_id repo) (repo_organizationId repo) digest of
        (Some reason, _) \<Rightarrow> (Inl reason, w)
      | (None, tags) \<Rightarrow>
        (let path = imagePath (Some (org_slug org)) (repo_name repo);
             (res, w') = reg_call registry (ReqDelete subject [''delete''] path digest) w
         in if res_status res = 404 then (Inl EImageMissing, w')
            else if res_status res = 403 then (Inl (ERefused (res_message res)), w')
            else if res_status res \<noteq> 202 then (Inl (ERefusedStatus (res_status res) []), w')
            else (Inr (digest, tags), w')))"

section \<open>What is sent to the registry\<close>

fun request_respects :: "tag_rule list \<Rightarrow> reg_request \<Rightarrow> bool" where
  \<comment> \<open>a deletion is of a tag no rule protects, a push under a tag no rule fixes\<close>
  "request_respects rules (ReqDelete subject actions path reference) = (protectedReason rules reference = None)"
| "request_respects rules (ReqPut subject actions path reference mediaType body) =
     (flag_immutable (tagFlags rules reference) = None)"

lemma reg_call_log [simp]: "snd (snd (reg_call registry q w)) = snd w @ [q]"
  by (simp add: reg_call_def split_beta)

lemma follow_latest_log:
  assumes "flag_immutable (tagFlags rules ''latest'') = None" and "protectedReason rules ''latest'' = None"
  shows "\<exists>reqs. snd (snd (follow_latest registry ic fm repoId path tg subject latest w)) = snd w @ reqs \<and>
     length reqs \<le> 1 \<and> list_all (request_respects rules) reqs"
proof -
  let ?r = "snd (snd (follow_latest registry ic fm repoId path tg subject latest w))"
  have "?r = snd w \<or> ?r = snd w @ [ReqDelete subject [''pull'', ''push'', ''delete''] path ''latest''] \<or>
      (\<exists>mt body. ?r = snd w @ [ReqPut subject [''pull'', ''push'', ''delete''] path ''latest'' mt body])"
    by (auto simp: follow_latest_def Let_def split_beta split: option.splits)
  with assms show ?thesis by fastforce
qed

lemma protectedReason_None_iff: "protectedReason rules tg = None \<longleftrightarrow> flag_protected (tagFlags rules tg) = None"
  by (simp add: protectedReason_def)

lemma deleteTag_cases:
  assumes r: "deleteTag lc registry ic fm rid tg subject mv w = r"
  obtains (none) "snd r = w"
    | (sent) repo rules path w' res where
        "find (\<lambda>r. repo_id r = rid) (db_repositories (fst w)) = Some repo"
        "rules = effectiveTagRules lc (fst w) (repo_organizationId repo) (repo_id repo)"
        "protectedReason rules tg = None"
        "(res, w') = reg_call registry (ReqDelete subject [''pull'', ''push'', ''delete''] path tg) w"
        "snd r = w' \<or> (mv \<and> flag_immutable (tagFlags rules ''latest'') = None \<and>
           flag_protected (tagFlags rules ''latest'') = None \<and>
           (\<exists>latest. r = follow_latest registry ic fm (repo_id repo) path tg subject latest w'))"
proof (cases "find (\<lambda>r. repo_id r = rid) (db_repositories (fst w))")
  case None
  then show ?thesis using none by (simp add: r [symmetric] deleteTag_def)
next
  case repo: (Some repo)
  let ?rules = "effectiveTagRules lc (fst w) (repo_organizationId repo) (repo_id repo)"
  show ?thesis
  proof (cases "find (\<lambda>g. org_id g = repo_organizationId repo) (db_organizations (fst w))")
    case None
    then show ?thesis using none repo by (simp add: r [symmetric] deleteTag_def)
  next
    case org: (Some org)
    let ?path = "imagePath (Some (org_slug org)) (repo_name repo)"
    obtain res w' where call:
      "reg_call registry (ReqDelete subject [''pull'', ''push'', ''delete''] ?path tg) w = (res, w')"
      by (rule prod.exhaust)
    show ?thesis
    proof (cases "find_tag (fst w) (repo_id repo) tg = None \<or> protectedReason ?rules tg \<noteq> None")
      case True
      then show ?thesis using none repo org by (auto simp: r [symmetric] deleteTag_def Let_def split: option.splits)
    next
      case False
      then show ?thesis
        using repo org call
        by (intro sent [of repo ?rules res w' ?path])
          (auto simp: r [symmetric] deleteTag_def Let_def split: option.splits)
    qed
  qed
qed

section \<open>The newest image, compared\<close>

lemma versionKey_four:
  "versionKey tg = Some k \<Longrightarrow> \<exists>a b c f. k = [a, b, c, f]"
  by (auto simp: versionKey_def Let_def split: if_splits option.splits)

lemma key_cmp_four:
  "key_cmp [a, b, c, f] [a', b', c', f'] =
     cmp_or (int a - int a') (cmp_or (int b - int b') (cmp_or (int c - int c') (int f - int f')))"
  by (simp add: key_cmp_def cmp_or_def)

lemma key_cmp_trans:
  "length x = 4 \<Longrightarrow> length y = 4 \<Longrightarrow> length z = 4 \<Longrightarrow> key_cmp x y \<le> 0 \<Longrightarrow> key_cmp y z \<le> 0 \<Longrightarrow> key_cmp x z \<le> 0"
  by (clarsimp simp: numeral_eq_Suc length_Suc_conv key_cmp_four cmp_or_def split: if_splits)

lemma key_cmp_flip: "length x = 4 \<Longrightarrow> length y = 4 \<Longrightarrow> 0 \<le> key_cmp x y \<longleftrightarrow> key_cmp y x \<le> 0"
  by (auto simp: numeral_eq_Suc length_Suc_conv key_cmp_four cmp_or_def)

lemma key_cmp_total: "length x = 4 \<Longrightarrow> length y = 4 \<Longrightarrow> key_cmp x y \<le> 0 \<or> key_cmp y x \<le> 0"
  by (auto simp: numeral_eq_Suc length_Suc_conv key_cmp_four cmp_or_def)

lemma best_version_max:
  assumes "\<forall>x \<in> set (best # xs). length (snd x) = 4"
  shows "best_version xs best \<in> set (best # xs) \<and>
    (\<forall>x \<in> set (best # xs). key_cmp (snd x) (snd (best_version xs best)) \<le> 0)"
  using assms
proof (induction xs arbitrary: best)
  case Nil
  then show ?case using key_cmp_total [of "snd best" "snd best"] by simp
next
  case (Cons x xs)
  let ?b = "if 0 \<le> key_cmp (snd x) (snd best) then x else best"
  have len: "length (snd x) = 4" "length (snd best) = 4" using Cons.prems by auto
  have IH: "best_version xs ?b \<in> set (?b # xs)"
    "\<forall>y \<in> set (?b # xs). key_cmp (snd y) (snd (best_version xs ?b)) \<le> 0"
    using Cons.IH [of ?b] Cons.prems by auto
  have top: "key_cmp (snd x) (snd ?b) \<le> 0 \<and> key_cmp (snd best) (snd ?b) \<le> 0"
    using len key_cmp_flip [of "snd x" "snd best"] key_cmp_total [of "snd x" "snd x"]
      key_cmp_total [of "snd best" "snd best"] by auto
  have "length (snd (best_version xs ?b)) = 4" using IH(1) Cons.prems by auto
  moreover have "length (snd ?b) = 4" using len by simp
  ultimately have "key_cmp (snd y) (snd (best_version xs ?b)) \<le> 0" if "y \<in> {x, best}" for y
    using that len top IH(2) key_cmp_trans [of "snd y" "snd ?b" "snd (best_version xs ?b)"] by auto
  with IH show ?case by (auto split: if_splits)
qed

lemma best_dated_mem:
  "best_dated at cs b = Some (c, t) \<Longrightarrow> c \<in> set cs \<or> b = Some (c, t)"
proof (induction cs arbitrary: b)
  case Nil
  then show ?case by simp
next
  case (Cons a cs)
  from Cons.IH [OF Cons.prems [unfolded best_dated.simps]] show ?case
    by (auto split: option.splits if_splits)
qed

section \<open>Properties\<close>

text \<open>
  C7. Whatever the registry answers, \<open>deleteTag\<close> sends at most one request (two when it may
  move \<open>latest\<close>), never a deletion of a tag that an applicable rule protects (the named tag
  or \<open>latest\<close>) and never a push under an immutable tag; and when it refuses beforehand the
  state is untouched.
\<close>

theorem deleteTag_respects_rules:
  "snd (deleteTag lc registry ic fm rid tg subject mv w) = w \<or>
   (\<exists>repo reqs. find (\<lambda>r. repo_id r = rid) (db_repositories (fst w)) = Some repo \<and>
      snd (snd (deleteTag lc registry ic fm rid tg subject mv w)) = snd w @ reqs \<and>
      length reqs \<le> (if mv then 2 else 1) \<and>
      list_all (request_respects (effectiveTagRules lc (fst w) (repo_organizationId repo) (repo_id repo))) reqs)"
proof (rule deleteTag_cases [OF refl, of lc registry ic fm rid tg subject mv w], goal_cases)
  case 1
  then show ?case by simp
next
  case sent: (2 repo rules path w' res)
  have log: "snd w' = snd w @ [ReqDelete subject [''pull'', ''push'', ''delete''] path tg]"
    using sent(4) reg_call_log by (metis snd_conv)
  from sent(5) show ?case
  proof
    assume "snd (deleteTag lc registry ic fm rid tg subject mv w) = w'"
    then show ?case using sent log by auto
  next
    assume mv: "mv \<and> flag_immutable (tagFlags rules ''latest'') = None \<and>
      flag_protected (tagFlags rules ''latest'') = None \<and>
      (\<exists>latest. deleteTag lc registry ic fm rid tg subject mv w
         = follow_latest registry ic fm (repo_id repo) path tg subject latest w')"
    then obtain reqs where "snd (snd (deleteTag lc registry ic fm rid tg subject mv w)) = snd w' @ reqs"
      "length reqs \<le> 1" "list_all (request_respects rules) reqs"
      using follow_latest_log protectedReason_None_iff by metis
    then show ?case using sent(1-3) log mv by auto
  qed
qed

text \<open>
  \<open>retag\<close> sends nothing and changes nothing unless the name is a valid tag, the image is
  stored in the repository, and the tag is new or no rule makes it immutable; the one request
  it then sends is a push of exactly the stored bytes under their stored media type.
\<close>

theorem retag_sends_stored_image:
  "snd (retag lc registry rid tg digest subject w) = w \<or>
   (\<exists>repo org man. find (\<lambda>r. repo_id r = rid) (db_repositories (fst w)) = Some repo \<and>
      find (\<lambda>g. org_id g = repo_organizationId repo) (db_organizations (fst w)) = Some org \<and>
      find_manifest (fst w) rid digest = Some man \<and> tagNameProblem tg = None \<and>
      (find_tag (fst w) rid tg = None \<or>
       flag_immutable (tagFlags (effectiveTagRules lc (fst w) (repo_organizationId repo) rid) tg) = None) \<and>
      snd (snd (retag lc registry rid tg digest subject w)) = snd w @
        [ReqPut subject [''pull'', ''push''] (imagePath (Some (org_slug org)) (repo_name repo)) tg
           (man_mediaType man) (man_payload man)])"
proof (cases "tagNameProblem tg \<noteq> None \<or> find (\<lambda>r. repo_id r = rid) (db_repositories (fst w)) = None")
  case True
  then show ?thesis by (auto simp: retag_def Let_def split: option.split)
next
  case False
  then obtain repo where repo: "tagNameProblem tg = None"
    "find (\<lambda>r. repo_id r = rid) (db_repositories (fst w)) = Some repo" by auto
  have [simp]: "repo_id repo = rid" using find_SomeD [OF repo(2)] by simp
  show ?thesis using repo
    by (cases "find (\<lambda>g. org_id g = repo_organizationId repo) (db_organizations (fst w))";
        cases "find_manifest (fst w) rid digest"; cases "find_tag (fst w) rid tg")
      (auto simp: retag_def Let_def split_beta)
qed


definition example_registry :: registry where
  "example_registry q d = (\<lparr>res_status = 202, res_message = []\<rparr>, d)"

definition example_repo :: repository where
  "example_repo = \<lparr>repo_id = ''r'', repo_organizationId = ''o'', repo_name = ''app'', repo_description = [],
     repo_visibility = Private, repo_pullCount = 0, repo_blockPullsAt = None, repo_blockUnrated = None,
     repo_readme = None, repo_logo = None, repo_requireSignature = None, repo_createdAt = 0, repo_updatedAt = 0\<rparr>"

definition example_org :: organization where
  "example_org = \<lparr>org_id = ''o'', org_name = ''Acme'', org_slug = ''acme'', org_logo = None,
     org_createdAt = 0, org_metadata = None\<rparr>"

definition example_manifest :: manifest where
  "example_manifest = \<lparr>man_repositoryId = ''r'', man_digest = ''sha256:1'', man_mediaType = ''m'',
     man_artifactType = None, man_size = 1, man_payload = ''{}'', man_configDigest = None,
     man_subjectDigest = None, man_config = None, man_pushedBy = None, man_createdAt = 0\<rparr>"

definition example_image_db :: db where
  "example_image_db = empty_db\<lparr>db_repositories := [example_repo], db_organizations := [example_org],
     db_manifests := [example_manifest], db_tagRules := [example_rule]\<rparr>"

lemmas example_defs = example_registry_def example_repo_def example_org_def example_manifest_def
  example_image_db_def example_rule_def empty_db_def


text \<open>
  Among the images that remain, the newest is one of them, and whenever any of them
  carries a version tag it carries one too, with a version that no other exceeds (release
  above pre-release of the same number).
\<close>

theorem pickNewest_newest:
  assumes "cs \<noteq> []"
  shows "\<exists>p. pickNewest cs createdAt = Some p \<and> p \<in> set cs \<and>
    (\<forall>c k. c \<in> set cs \<and> versionKey (fst c) = Some k \<longrightarrow>
       (\<exists>kp. versionKey (fst p) = Some kp \<and> key_cmp k kp \<le> 0))"
proof -
  let ?vs = "List.map_filter (\<lambda>c. map_option (\<lambda>k. (c, k)) (versionKey (fst c))) cs"
  have vs: "(c, k) \<in> set ?vs \<longleftrightarrow> c \<in> set cs \<and> versionKey (fst c) = Some k" for c k
    by (force simp: List.map_filter_def)
  show ?thesis
  proof (cases "?vs = []")
    case True
    then have "\<not> (c \<in> set cs \<and> versionKey (fst c) = Some k)" for c k using vs by (metis empty_iff empty_set)
    moreover have "\<exists>p. pickNewest cs createdAt = Some p \<and> p \<in> set cs"
    proof (cases "best_dated (\<lambda>c. nullish (createdAt (snd c)) 0) (drop (length cs - 100) cs) None")
      case None
      then show ?thesis using assms True last_in_set [OF assms] by (simp add: pickNewest_def)
    next
      case (Some ct)
      obtain c t where ct: "ct = (c, t)" by (rule prod.exhaust)
      with best_dated_mem Some have "c \<in> set cs" by (fastforce dest: in_set_dropD)
      then show ?thesis using assms True Some ct by (simp add: pickNewest_def)
    qed
    ultimately show ?thesis by blast
  next
    case False
    have four: "\<forall>x \<in> set (hd ?vs # ?vs). length (snd x) = 4"
    proof
      fix x assume "x \<in> set (hd ?vs # ?vs)"
      then have "x \<in> set ?vs" using False by auto
      then show "length (snd x) = 4" using vs [of "fst x" "snd x"] versionKey_four by fastforce
    qed
    define b where "b = best_version ?vs (hd ?vs)"
    have b: "b \<in> set ?vs" "\<forall>x \<in> set ?vs. key_cmp (snd x) (snd b) \<le> 0"
      using best_version_max [OF four] False hd_in_set [OF False] by (auto simp: b_def)
    have "pickNewest cs createdAt = Some (fst b)"
      using assms False by (simp add: pickNewest_def b_def Let_def)
    moreover have "fst b \<in> set cs \<and> versionKey (fst (fst b)) = Some (snd b)"
      using b(1) vs [of "fst b" "snd b"] by simp
    ultimately show ?thesis using b(2) vs by fastforce
  qed
qed

theorem pickNewest_newest_witness:
  "\<exists>p. pickNewest [(''v1.2'', ''a''), (''v1.10'', ''b'')] (\<lambda>_. None) = Some p \<and>
     (\<exists>kp. versionKey (fst p) = Some kp \<and> key_cmp [1, 10, 0, 1] kp \<le> 0)"
proof -
  have "(''v1.10'', ''b'') \<in> set [(''v1.2'', ''a''), (''v1.10'', ''b'')] \<and>
    versionKey (fst (''v1.10'', ''b'')) = Some [1, 10, 0, 1]" by code_simp
  with pickNewest_newest [of "[(''v1.2'', ''a''), (''v1.10'', ''b'')]" "\<lambda>_. None", OF list.distinct(2)]
  show ?thesis by blast
qed

end
