(* ===== verification/Retention.thy ===== *)
theory Retention
  imports Tag_Admin
begin

text \<open>
  Retention (\<open>web/src/lib/retention-shared.ts\<close>, \<open>retention.ts\<close>): the planner that decides
  which tags and untagged manifests a policy removes, the policy that governs a repository,
  and the run that carries a plan out through the registry. The planner's theorems say which
  tags go and which stay, and that the plan partitions its input; the run's theorems that
  its counters add up and that a dry run sends nothing.
\<close>

section \<open>The planner\<close>

record retention_settings =
  rs_enabled :: bool
  rs_keepLast :: "int option"
  rs_keepMatching :: "string option"
  rs_deleteOlderThanDays :: "int option"
  rs_deleteUntaggedAfterDays :: "int option"

definition EMPTY_RETENTION :: retention_settings where
  "EMPTY_RETENTION = \<lparr>rs_enabled = False, rs_keepLast = None, rs_keepMatching = None,
     rs_deleteOlderThanDays = None, rs_deleteUntaggedAfterDays = None\<rparr>"

record plan_tag =
  pt_name :: string
  pt_digest :: string
  pt_pushedAt :: millis

record plan_manifest =
  pm_digest :: string
  pm_pushedAt :: millis
  pm_isChild :: bool
  pm_isReferrer :: bool
  pm_hasReferrers :: bool

record planned_tag =
  pd_name :: string
  pd_digest :: string
  pd_reason :: string

record planned_manifest =
  pdm_digest :: string
  pdm_reason :: string

record retention_plan =
  plan_tags :: "planned_tag list"
  plan_manifests :: "planned_manifest list"
  plan_keptTags :: "planned_tag list"
  plan_keptManifests :: "planned_manifest list"

definition DAY_MS :: int where
  "DAY_MS = 86400000"

definition ageDays :: "millis \<Rightarrow> millis \<Rightarrow> int" where
  "ageDays d now = max 0 ((now - d) div DAY_MS)"

definition parseKeepMatching :: "string option \<Rightarrow> string list" where
  "parseKeepMatching v =
     filter (\<lambda>s. s \<noteq> []) (map js_trim (split_runs (\<lambda>c. js_ws c \<or> c = CHR '','') (nullish v [])))"

definition hasTagRule :: "retention_settings \<Rightarrow> bool" where
  "hasTagRule policy \<longleftrightarrow> rs_keepLast policy \<noteq> None \<or> rs_deleteOlderThanDays policy \<noteq> None"

definition push_order :: "(string \<Rightarrow> string \<Rightarrow> int) \<Rightarrow> plan_tag \<Rightarrow> plan_tag \<Rightarrow> int" where
  \<comment> \<open>most recently pushed first, ties by name\<close>
  "push_order lc a b = cmp_or (pt_pushedAt b - pt_pushedAt a) (lc (pt_name a) (pt_name b))"

definition recent_names :: "retention_settings \<Rightarrow> plan_tag list \<Rightarrow> string list" where
  "recent_names policy ordered = (case rs_keepLast policy of
       Some k \<Rightarrow> map pt_name (slice_to k ordered) | None \<Rightarrow> [])"

text \<open>One round of the loop over the tags: deleted or kept, with the reason.\<close>

definition tag_verdict ::
  "tag_rule list \<Rightarrow> retention_settings \<Rightarrow> string list \<Rightarrow> millis \<Rightarrow> plan_tag \<Rightarrow> bool \<times> string" where
  "tag_verdict rules policy recent now t =
     (let age = ageDays (pt_pushedAt t) now; kl = show_int (the (rs_keepLast policy)) in
      case flag_protected (tagFlags rules (pt_name t)) of
        Some r \<Rightarrow> (False, ''protected by rule \"'' @ rule_pattern r @ ''\"'')
      | None \<Rightarrow>
        (case find (\<lambda>p. matchTagGlob p (pt_name t)) (parseKeepMatching (rs_keepMatching policy)) of
           Some keep \<Rightarrow> (False, ''matches keep pattern \"'' @ keep @ ''\"'')
         | None \<Rightarrow>
           if \<not> hasTagRule policy then (False, ''the policy has no tag rule'')
           else if pt_name t \<in> set recent then (False, ''among the '' @ kl @ '' most recently pushed'')
           else (case rs_deleteOlderThanDays policy of
               Some days \<Rightarrow>
                 if days < age then
                   (True, if rs_keepLast policy \<noteq> None
                      then ''pushed '' @ show_int age @ '' days ago (older than '' @ show_int days @
                           '') and not among the '' @ kl @ '' most recent''
                      else ''pushed '' @ show_int age @ '' days ago (older than '' @ show_int days @ '')'')
                 else (False, ''pushed '' @ show_int age @ '' days ago (within '' @ show_int days @ '' days)'')
             | None \<Rightarrow> (True, ''not among the '' @ kl @ '' most recently pushed''))))"

definition manifest_verdict :: "retention_settings \<Rightarrow> millis \<Rightarrow> plan_manifest \<Rightarrow> bool \<times> string" where
  "manifest_verdict policy now m =
     (case rs_deleteUntaggedAfterDays policy of
        None \<Rightarrow> (False, ''the policy has no untagged rule'')
      | Some days \<Rightarrow>
        if pm_isChild m then (False, ''part of a multi-arch index'')
        else if pm_isReferrer m then (False, ''attached to another manifest (referrer)'')
        else if pm_hasReferrers m then (False, ''other manifests are attached to it'')
        else (let age = ageDays (pm_pushedAt m) now in
          if days < age
          then (True, ''untagged, pushed '' @ show_int age @ '' days ago (older than '' @ show_int days @ '')'')
          else (False, ''untagged, pushed '' @ show_int age @ '' days ago (within '' @ show_int days @ '' days)'')))"

fun plan_tag_loop ::
  "(plan_tag \<Rightarrow> bool \<times> string) \<Rightarrow> plan_tag list \<Rightarrow> retention_plan \<Rightarrow> retention_plan" where
  "plan_tag_loop verdict [] plan = plan"
| "plan_tag_loop verdict (t # ts) plan =
     (let (gone, reason) = verdict t;
          entry = \<lparr>pd_name = pt_name t, pd_digest = pt_digest t, pd_reason = reason\<rparr>
      in plan_tag_loop verdict ts
           (if gone then plan\<lparr>plan_tags := plan_tags plan @ [entry]\<rparr>
            else plan\<lparr>plan_keptTags := plan_keptTags plan @ [entry]\<rparr>))"

fun plan_manifest_loop ::
  "(plan_manifest \<Rightarrow> bool \<times> string) \<Rightarrow> plan_manifest list \<Rightarrow> retention_plan \<Rightarrow> retention_plan" where
  "plan_manifest_loop verdict [] plan = plan"
| "plan_manifest_loop verdict (m # ms) plan =
     (let (gone, reason) = verdict m;
          entry = \<lparr>pdm_digest = pm_digest m, pdm_reason = reason\<rparr>
      in plan_manifest_loop verdict ms
           (if gone then plan\<lparr>plan_manifests := plan_manifests plan @ [entry]\<rparr>
            else plan\<lparr>plan_keptManifests := plan_keptManifests plan @ [entry]\<rparr>))"

definition planRetention ::
  "(string \<Rightarrow> string \<Rightarrow> int) \<Rightarrow> plan_tag list \<Rightarrow> plan_manifest list \<Rightarrow> retention_settings \<Rightarrow>
     tag_rule list \<Rightarrow> millis \<Rightarrow> retention_plan" where
  "planRetention lc tags untagged policy rules now =
     (let ordered = js_sort (push_order lc) tags;
          recent = recent_names policy ordered
      in plan_manifest_loop (manifest_verdict policy now) untagged
           (plan_tag_loop (tag_verdict rules policy recent now) ordered
              \<lparr>plan_tags = [], plan_manifests = [], plan_keptTags = [], plan_keptManifests = []\<rparr>))"

definition days_text :: "int \<Rightarrow> string" where
  "days_text n = show_int n @ '' day'' @ (if n = 1 then [] else ''s'')"

definition describeRetention :: "retention_settings option \<Rightarrow> string" where
  "describeRetention policy = (case policy of
       None \<Rightarrow> ''off''
     | Some p \<Rightarrow>
         if \<not> rs_enabled p then ''off''
         else (let keep = parseKeepMatching (rs_keepMatching p);
                   parts = (case rs_keepLast p of Some k \<Rightarrow> [''keep the '' @ show_int k @ '' newest tags''] | None \<Rightarrow> []) @
                     (if keep \<noteq> [] then [''always keep '' @ join_with '' '' keep] else []) @
                     (case rs_deleteOlderThanDays p of Some n \<Rightarrow> [''delete tags older than '' @ days_text n] | None \<Rightarrow> []) @
                     (case rs_deleteUntaggedAfterDays p of
                        Some n \<Rightarrow> [''delete untagged manifests after '' @ days_text n] | None \<Rightarrow> [])
               in if parts \<noteq> [] then join_with '', '' parts else ''enabled, but no rule set''))"

definition parseDaysField :: "string \<Rightarrow> string \<Rightarrow> string + int option" where
  "parseDaysField raw label =
     (let s = js_trim raw in
      if s = [] then Inr None
      else (case num_integer (Number_of s) of
          Some n \<Rightarrow> if n < 1 \<or> 100000 < n then Inl (label @ '' must be a whole number of at least 1.'')
                    else Inr (Some n)
        | None \<Rightarrow> Inl (label @ '' must be a whole number of at least 1.'')))"

section \<open>Policies and repositories\<close>

definition toSettings :: "retention_policy \<Rightarrow> retention_settings" where
  "toSettings row = \<lparr>rs_enabled = rp_enabled row, rs_keepLast = rp_keepLast row,
     rs_keepMatching = rp_keepMatching row, rs_deleteOlderThanDays = rp_deleteOlderThanDays row,
     rs_deleteUntaggedAfterDays = rp_deleteUntaggedAfterDays row\<rparr>"

type_synonym policy_rows = "retention_policy option \<times> retention_policy option"
  \<comment> \<open>the organization's row and the repository's\<close>

definition getRetentionPolicies :: "db \<Rightarrow> string \<Rightarrow> string option \<Rightarrow> policy_rows" where
  "getRetentionPolicies d organizationId repositoryId =
     (find (\<lambda>p. rp_organizationId p = organizationId \<and> rp_repositoryId p = None) (db_retentionPolicies d),
      if truthy repositoryId then find (\<lambda>p. rp_repositoryId p = repositoryId) (db_retentionPolicies d) else None)"

datatype retention_scope = ScopeRepository | ScopeOrganization

definition pickEffective :: "policy_rows \<Rightarrow> (retention_settings \<times> retention_scope) option" where
  "pickEffective rows = (case rows of
       (_, Some repo) \<Rightarrow> Some (toSettings repo, ScopeRepository)
     | (Some org, None) \<Rightarrow> Some (toSettings org, ScopeOrganization)
     | (None, None) \<Rightarrow> None)"

definition planRepository ::
  "(string \<Rightarrow> string \<Rightarrow> int) \<Rightarrow> db \<Rightarrow> string \<Rightarrow> string \<Rightarrow> retention_settings \<Rightarrow> millis \<Rightarrow> retention_plan" where
  "planRepository lc d repoId organizationId policy now =
     planRetention lc
       (map (\<lambda>t. \<lparr>pt_name = tag_name t, pt_digest = tag_manifestDigest t, pt_pushedAt = tag_updatedAt t\<rparr>)
          (filter (\<lambda>t. tag_repositoryId t = repoId) (db_tags d)))
       (map (\<lambda>m. \<lparr>pm_digest = um_digest m, pm_pushedAt = um_pushedAt m, pm_isChild = um_isChild m,
                  pm_isReferrer = um_isReferrer m, pm_hasReferrers = (0 < um_referrerCount m)\<rparr>)
          (listUntaggedManifests d repoId))
       policy (effectiveTagRules lc d organizationId repoId) now"

record repo_row =
  row_id :: string
  row_organizationId :: string
  row_orgSlug :: string
  row_name :: string

record repo_filter =
  flt_organizationId :: "string option"
  flt_organizationSlug :: "string option"
  flt_repositoryId :: "string option"
  flt_repositoryPath :: "string option"

definition path_parts :: "string \<Rightarrow> string \<times> string option" where
  \<comment> \<open>\<open>split("/", 2)\<close> keeps the first two segments\<close>
  "path_parts p = (if CHR ''/'' \<in> set p
     then (case split_on (CHR ''/'') p of a # b # _ \<Rightarrow> (a, Some b) | a # _ \<Rightarrow> (a, None) | [] \<Rightarrow> ([], None))
     else (''library'', Some p))"

definition filter_matches :: "repo_filter \<Rightarrow> repo_row \<Rightarrow> bool" where
  "filter_matches f r \<longleftrightarrow>
     (truthy (flt_organizationId f) \<longrightarrow> flt_organizationId f = Some (row_organizationId r)) \<and>
     (truthy (flt_organizationSlug f) \<longrightarrow> flt_organizationSlug f = Some (row_orgSlug r)) \<and>
     (truthy (flt_repositoryId f) \<longrightarrow> flt_repositoryId f = Some (row_id r)) \<and>
     (truthy (flt_repositoryPath f) \<longrightarrow>
        path_parts (the (flt_repositoryPath f)) = (row_orgSlug r, Some (row_name r)))"

definition listRepositories :: "(string \<Rightarrow> string \<Rightarrow> int) \<Rightarrow> db \<Rightarrow> repo_filter \<Rightarrow> repo_row list" where
  "listRepositories asc d f =
     js_sort (\<lambda>a b. cmp_or (asc (row_orgSlug a) (row_orgSlug b)) (asc (row_name a) (row_name b)))
       (filter (filter_matches f)
          (concat (map (\<lambda>r. map (\<lambda>g. \<lparr>row_id = repo_id r, row_organizationId = repo_organizationId r,
                                     row_orgSlug = org_slug g, row_name = repo_name r\<rparr>)
                            (filter (\<lambda>g. org_id g = repo_organizationId r) (db_organizations d)))
             (db_repositories d))))"

record repository_plan =
  rpl_repositoryId :: string
  rpl_path :: string
  rpl_scope :: retention_scope
  rpl_policy :: retention_settings
  rpl_plan :: retention_plan

definition scope_effective ::
  "bool \<Rightarrow> retention_settings option \<Rightarrow> policy_rows \<Rightarrow> (retention_settings \<times> retention_scope) option" where
  \<comment> \<open>the policy \<open>planScope\<close> uses for one repository; the first argument says that a single repository was asked for\<close>
  "scope_effective single override rows =
     (if single then (case override of Some p \<Rightarrow> Some (p, ScopeRepository) | None \<Rightarrow> pickEffective rows)
      else (case snd rows of Some r \<Rightarrow> Some (toSettings r, ScopeRepository)
        | None \<Rightarrow> (case override of Some p \<Rightarrow> Some (p, ScopeOrganization) | None \<Rightarrow> pickEffective rows)))"

definition planScope ::
  "(string \<Rightarrow> string \<Rightarrow> int) \<Rightarrow> (string \<Rightarrow> string \<Rightarrow> int) \<Rightarrow> db \<Rightarrow> string \<Rightarrow> string option \<Rightarrow>
     retention_settings option \<Rightarrow> millis \<Rightarrow> repository_plan list" where
  "planScope lc asc d organizationId repositoryId override now =
     List.map_filter (\<lambda>repo.
         case scope_effective (truthy repositoryId) override
                (getRetentionPolicies d (row_organizationId repo) (Some (row_id repo))) of
           None \<Rightarrow> None
         | Some (policy, scope) \<Rightarrow>
             if \<not> (override \<noteq> None \<and> scope = (if truthy repositoryId then ScopeRepository else ScopeOrganization)) \<and>
                \<not> rs_enabled policy then None
             else Some \<lparr>rpl_repositoryId = row_id repo,
                        rpl_path = imagePath (Some (row_orgSlug repo)) (row_name repo),
                        rpl_scope = scope, rpl_policy = policy,
                        rpl_plan = planRepository lc d (row_id repo) (row_organizationId repo) policy now\<rparr>)
       (listRepositories asc d
          (if truthy repositoryId
           then \<lparr>flt_organizationId = None, flt_organizationSlug = None, flt_repositoryId = repositoryId, flt_repositoryPath = None\<rparr>
           else \<lparr>flt_organizationId = Some organizationId, flt_organizationSlug = None, flt_repositoryId = None, flt_repositoryPath = None\<rparr>))"

section \<open>The run\<close>

datatype line_kind = LineTag | LineManifest
datatype line_status = LinePlanned | LineDeleted | LineFailed admin_error

record detail_line =
  dl_repository :: string
  dl_kind :: line_kind
  dl_ref :: string
  dl_reason :: string
  dl_status :: line_status

record counters =
  c_planned :: nat
  c_deleted :: nat
  c_failed :: nat

record per_repository =
  pr_repository :: string
  pr_scope :: retention_scope
  pr_tags :: nat
  pr_manifests :: nat
  pr_failed :: nat

record retention_result =
  rr_dryRun :: bool
  rr_repositories :: nat
  rr_tags :: counters
  rr_manifests :: counters
  rr_perRepository :: "per_repository list"
  rr_detail :: "detail_line list"
  rr_truncated :: nat

definition MAX_DETAIL_LINES :: nat where
  "MAX_DETAIL_LINES = 300"

definition push_line :: "detail_line \<Rightarrow> retention_result \<Rightarrow> retention_result" where
  "push_line line r =
     (if length (rr_detail r) < MAX_DETAIL_LINES then r\<lparr>rr_detail := rr_detail r @ [line]\<rparr>
      else r\<lparr>rr_truncated := rr_truncated r + 1\<rparr>)"

type_synonym 'o deletion = "world \<Rightarrow> (admin_error + 'o) \<times> world"

definition run_tag ::
  "bool \<Rightarrow> string \<Rightarrow> 'o deletion \<Rightarrow> planned_tag \<Rightarrow> retention_result \<times> per_repository \<times> world \<Rightarrow>
     retention_result \<times> per_repository \<times> world" where
  \<comment> \<open>one round of the loop over \<open>plan.tags\<close>; the third argument is the call of \<open>deleteTag\<close>\<close>
  "run_tag dryRun path del t = (\<lambda>(r, per, w).
     let r1 = r\<lparr>rr_tags := (rr_tags r)\<lparr>c_planned := c_planned (rr_tags r) + 1\<rparr>\<rparr>;
         line = (\<lambda>st. \<lparr>dl_repository = path, dl_kind = LineTag, dl_ref = pd_name t, dl_reason = pd_reason t, dl_status = st\<rparr>)
     in if dryRun then (push_line (line LinePlanned) r1, per\<lparr>pr_tags := pr_tags per + 1\<rparr>, w)
        else (case del w of
            (Inr _, w') \<Rightarrow>
              (push_line (line LineDeleted) (r1\<lparr>rr_tags := (rr_tags r1)\<lparr>c_deleted := c_deleted (rr_tags r1) + 1\<rparr>\<rparr>),
               per\<lparr>pr_tags := pr_tags per + 1\<rparr>, w')
          | (Inl e, w') \<Rightarrow>
              (push_line (line (LineFailed e)) (r1\<lparr>rr_tags := (rr_tags r1)\<lparr>c_failed := c_failed (rr_tags r1) + 1\<rparr>\<rparr>),
               per\<lparr>pr_failed := pr_failed per + 1\<rparr>, w')))"

definition run_manifest ::
  "bool \<Rightarrow> string \<Rightarrow> 'o deletion \<Rightarrow> planned_manifest \<Rightarrow> retention_result \<times> per_repository \<times> world \<Rightarrow>
     retention_result \<times> per_repository \<times> world" where
  "run_manifest dryRun path del m = (\<lambda>(r, per, w).
     let r1 = r\<lparr>rr_manifests := (rr_manifests r)\<lparr>c_planned := c_planned (rr_manifests r) + 1\<rparr>\<rparr>;
         line = (\<lambda>st. \<lparr>dl_repository = path, dl_kind = LineManifest, dl_ref = pdm_digest m, dl_reason = pdm_reason m, dl_status = st\<rparr>)
     in if dryRun then (push_line (line LinePlanned) r1, per\<lparr>pr_manifests := pr_manifests per + 1\<rparr>, w)
        else (case del w of
            (Inr _, w') \<Rightarrow>
              (push_line (line LineDeleted) (r1\<lparr>rr_manifests := (rr_manifests r1)\<lparr>c_deleted := c_deleted (rr_manifests r1) + 1\<rparr>\<rparr>),
               per\<lparr>pr_manifests := pr_manifests per + 1\<rparr>, w')
          | (Inl e, w') \<Rightarrow>
              (push_line (line (LineFailed e)) (r1\<lparr>rr_manifests := (rr_manifests r1)\<lparr>c_failed := c_failed (rr_manifests r1) + 1\<rparr>\<rparr>),
               per\<lparr>pr_failed := pr_failed per + 1\<rparr>, w')))"

definition run_repository ::
  "(string \<Rightarrow> string \<Rightarrow> int) \<Rightarrow> (string \<Rightarrow> string \<Rightarrow> int) \<Rightarrow> registry \<Rightarrow> bool \<Rightarrow> string \<Rightarrow> millis \<Rightarrow> repo_row \<Rightarrow>
     retention_result \<times> world \<Rightarrow> retention_result \<times> world" where
  \<comment> \<open>the body of the loop over the repositories\<close>
  "run_repository lc asc registry dryRun subject now repo = (\<lambda>(r, w).
     case pickEffective (getRetentionPolicies (fst w) (row_organizationId repo) (Some (row_id repo))) of
       None \<Rightarrow> (r, w)
     | Some (policy, scope) \<Rightarrow>
       if \<not> rs_enabled policy then (r, w)
       else (let path = row_orgSlug repo @ ''/'' @ row_name repo;
                 plan = planRepository lc (fst w) (row_id repo) (row_organizationId repo) policy now;
                 per = \<lparr>pr_repository = path, pr_scope = scope, pr_tags = 0, pr_manifests = 0, pr_failed = 0\<rparr>;
                 s1 = fold (\<lambda>t. run_tag dryRun path
                        (deleteTag lc registry (\<lambda>_ _ _. None) (\<lambda>_ _ _. None) (row_id repo) (pd_name t) subject False) t)
                        (plan_tags plan) (r\<lparr>rr_repositories := rr_repositories r + 1\<rparr>, per, w);
                 (r', per', w') = fold (\<lambda>m. run_manifest dryRun path
                        (deleteManifestByDigest lc asc registry (row_id repo) (pdm_digest m) subject) m)
                        (plan_manifests plan) s1
             in (if 0 < pr_tags per' \<or> 0 < pr_manifests per' \<or> 0 < pr_failed per'
                 then r'\<lparr>rr_perRepository := rr_perRepository r' @ [per']\<rparr> else r', w')))"

definition empty_result :: "bool \<Rightarrow> retention_result" where
  "empty_result dryRun = \<lparr>rr_dryRun = dryRun, rr_repositories = 0,
     rr_tags = \<lparr>c_planned = 0, c_deleted = 0, c_failed = 0\<rparr>,
     rr_manifests = \<lparr>c_planned = 0, c_deleted = 0, c_failed = 0\<rparr>,
     rr_perRepository = [], rr_detail = [], rr_truncated = 0\<rparr>"

definition runRetention ::
  "(string \<Rightarrow> string \<Rightarrow> int) \<Rightarrow> (string \<Rightarrow> string \<Rightarrow> int) \<Rightarrow> registry \<Rightarrow> bool \<Rightarrow> string option \<Rightarrow> string option \<Rightarrow>
     string \<Rightarrow> millis \<Rightarrow> world \<Rightarrow> retention_result \<times> world" where
  "runRetention lc asc registry dryRun organizationSlug repositoryPath subject now w =
     fold (run_repository lc asc registry dryRun subject now)
       (listRepositories asc (fst w)
          \<lparr>flt_organizationId = None, flt_organizationSlug = organizationSlug, flt_repositoryId = None,
           flt_repositoryPath = repositoryPath\<rparr>)
       (empty_result dryRun, w)"

section \<open>What a plan holds\<close>

definition tag_expired ::
  "tag_rule list \<Rightarrow> retention_settings \<Rightarrow> string list \<Rightarrow> millis \<Rightarrow> plan_tag \<Rightarrow> bool" where
  \<comment> \<open>the specification: no protecting rule, no keep pattern, not among the newest, and old enough\<close>
  "tag_expired rules policy newest now t \<longleftrightarrow>
     \<not> list_ex (\<lambda>r. rule_protected r \<and> matchTagGlob (rule_pattern r) (pt_name t)) rules \<and>
     \<not> list_ex (\<lambda>p. matchTagGlob p (pt_name t)) (parseKeepMatching (rs_keepMatching policy)) \<and>
     (case rs_deleteOlderThanDays policy of
        Some days \<Rightarrow> (days + 1) * DAY_MS \<le> now - pt_pushedAt t
      | None \<Rightarrow> rs_keepLast policy \<noteq> None) \<and>
     pt_name t \<notin> set newest"

lemma ageDays_less: "0 \<le> days \<Longrightarrow> days < ageDays d now \<longleftrightarrow> (days + 1) * DAY_MS \<le> now - d"
proof -
  assume "0 \<le> days"
  then have "days < ageDays d now \<longleftrightarrow> days + 1 \<le> (now - d) div DAY_MS" by (auto simp: ageDays_def)
  also have "\<dots> \<longleftrightarrow> (days + 1) * DAY_MS \<le> now - d" by (rule le_div_iff) (simp add: DAY_MS_def)
  finally show ?thesis .
qed

lemma find_ex: "find P xs = None \<longleftrightarrow> \<not> list_ex P xs"
  by (induction xs) auto

lemma tag_verdict_expired:
  assumes "\<And>days. rs_deleteOlderThanDays policy = Some days \<Longrightarrow> 0 \<le> days"
  shows "fst (tag_verdict rules policy recent now t) \<longleftrightarrow> tag_expired rules policy recent now t"
proof (cases "flag_protected (tagFlags rules (pt_name t))")
  case (Some r)
  then have "list_ex (\<lambda>r. rule_protected r \<and> matchTagGlob (rule_pattern r) (pt_name t)) rules"
    using find_ex [of "\<lambda>r. rule_protected r \<and> matchTagGlob (rule_pattern r) (pt_name t)" rules]
    by (auto simp: tagFlags_find)
  with Some show ?thesis by (simp add: tag_verdict_def tag_expired_def)
next
  case None
  then have "\<not> list_ex (\<lambda>r. rule_protected r \<and> matchTagGlob (rule_pattern r) (pt_name t)) rules"
    using find_ex [of "\<lambda>r. rule_protected r \<and> matchTagGlob (rule_pattern r) (pt_name t)" rules]
    by (auto simp: tagFlags_find)
  with None show ?thesis
    using assms find_ex [of "\<lambda>p. matchTagGlob p (pt_name t)" "parseKeepMatching (rs_keepMatching policy)"]
    by (cases "find (\<lambda>p. matchTagGlob p (pt_name t)) (parseKeepMatching (rs_keepMatching policy))")
      (auto simp: tag_verdict_def tag_expired_def Let_def hasTagRule_def ageDays_less split: option.splits)
qed

abbreviation tag_entry :: "(plan_tag \<Rightarrow> bool \<times> string) \<Rightarrow> plan_tag \<Rightarrow> planned_tag" where
  "tag_entry v t \<equiv> \<lparr>pd_name = pt_name t, pd_digest = pt_digest t, pd_reason = snd (v t)\<rparr>"

abbreviation manifest_entry :: "(plan_manifest \<Rightarrow> bool \<times> string) \<Rightarrow> plan_manifest \<Rightarrow> planned_manifest" where
  "manifest_entry v m \<equiv> \<lparr>pdm_digest = pm_digest m, pdm_reason = snd (v m)\<rparr>"

lemma plan_tag_loop_eq:
  "plan_tag_loop v ts p = p\<lparr>plan_tags := plan_tags p @ map (tag_entry v) (filter (\<lambda>t. fst (v t)) ts),
     plan_keptTags := plan_keptTags p @ map (tag_entry v) (filter (\<lambda>t. \<not> fst (v t)) ts)\<rparr>"
  by (induction ts arbitrary: p) (auto simp: Let_def split_beta)

lemma plan_manifest_loop_eq:
  "plan_manifest_loop v ms p = p\<lparr>plan_manifests := plan_manifests p @ map (manifest_entry v) (filter (\<lambda>m. fst (v m)) ms),
     plan_keptManifests := plan_keptManifests p @ map (manifest_entry v) (filter (\<lambda>m. \<not> fst (v m)) ms)\<rparr>"
  by (induction ms arbitrary: p) (auto simp: Let_def split_beta)

lemma planRetention_eq:
  fixes lc tags policy rules now
  defines "ordered \<equiv> js_sort (push_order lc) tags"
  defines "v \<equiv> tag_verdict rules policy (recent_names policy ordered) now"
    and "vm \<equiv> manifest_verdict policy now"
  shows "plan_tags (planRetention lc tags untagged policy rules now) = map (tag_entry v) (filter (\<lambda>t. fst (v t)) ordered)"
    and "plan_keptTags (planRetention lc tags untagged policy rules now) = map (tag_entry v) (filter (\<lambda>t. \<not> fst (v t)) ordered)"
    and "plan_manifests (planRetention lc tags untagged policy rules now) = map (manifest_entry vm) (filter (\<lambda>m. fst (vm m)) untagged)"
    and "plan_keptManifests (planRetention lc tags untagged policy rules now) = map (manifest_entry vm) (filter (\<lambda>m. \<not> fst (vm m)) untagged)"
  by (simp_all add: planRetention_def plan_tag_loop_eq plan_manifest_loop_eq Let_def v_def vm_def ordered_def)

lemma js_comparator_push_order: "js_comparator lc \<Longrightarrow> js_comparator (push_order lc)"
  using js_comparator_keyed [OF js_comparator_on [of lc pt_name], of "\<lambda>t. - pt_pushedAt t"]
  by (simp add: push_order_def [abs_def])

interpretation tags_by_push: keyed_comparator
  "\<lambda>a b. code_unit_compare (pt_name a) (pt_name b)" "\<lambda>t. - pt_pushedAt t"
  by (rule keyed_comparator.intro) (rule js_comparator_on [OF code_units.js_comparator_axioms])

lemma push_order_newer: "push_order lc a b \<le> 0 \<Longrightarrow> pt_pushedAt b \<le> pt_pushedAt a"
  by (auto simp: push_order_def cmp_or_def split: if_splits)

lemma recent_kept:
  "pt_name t \<in> set recent \<Longrightarrow> \<not> fst (tag_verdict rules policy recent now t)"
  by (simp add: tag_verdict_def Let_def split: option.splits)

section \<open>The run's books\<close>

definition result_ok :: "bool \<Rightarrow> retention_result \<Rightarrow> bool" where
  "result_ok dry r \<longleftrightarrow>
     length (rr_detail r) + rr_truncated r = c_planned (rr_tags r) + c_planned (rr_manifests r) \<and>
     length (rr_detail r) \<le> MAX_DETAIL_LINES \<and>
     (if dry then c_deleted (rr_tags r) + c_failed (rr_tags r) + c_deleted (rr_manifests r) + c_failed (rr_manifests r) = 0
      else c_planned (rr_tags r) = c_deleted (rr_tags r) + c_failed (rr_tags r) \<and>
           c_planned (rr_manifests r) = c_deleted (rr_manifests r) + c_failed (rr_manifests r))"

lemma run_tag_ok: "result_ok dry (fst s) \<Longrightarrow> result_ok dry (fst (run_tag dry path del t s))"
  by (auto simp: run_tag_def push_line_def result_ok_def Let_def split_beta split: sum.splits prod.splits)

lemma run_manifest_ok: "result_ok dry (fst s) \<Longrightarrow> result_ok dry (fst (run_manifest dry path del m s))"
  by (auto simp: run_manifest_def push_line_def result_ok_def Let_def split_beta split: sum.splits prod.splits)

lemma run_dry_world:
  "snd (snd (run_tag True path del t s)) = snd (snd s)"
  "snd (snd (run_manifest True path del' m s)) = snd (snd s)"
  by (simp_all add: run_tag_def run_manifest_def Let_def split_beta)

lemma fold_run_keeps: "(\<And>x s. P s \<Longrightarrow> P (f x s)) \<Longrightarrow> P s \<Longrightarrow> P (fold f xs s)"
  by (induction xs arbitrary: s) auto

lemma run_repository_ok:
  assumes "result_ok dry (fst s)"
  shows "result_ok dry (fst (run_repository lc asc registry dry subject now repo s))"
proof -
  have "result_ok dry (fst (fold (\<lambda>m. run_manifest dry path (del' m) m) ms
      (fold (\<lambda>t. run_tag dry path (del t) t) ts (r\<lparr>rr_repositories := n\<rparr>, per, w))))"
    if "result_ok dry r" for path and del :: "planned_tag \<Rightarrow> latest_outcome deletion"
      and del' :: "planned_manifest \<Rightarrow> (string \<times> string list) deletion" and ms ts r n per w
    using that
    by (intro fold_run_keeps [where P = "\<lambda>s. result_ok dry (fst s)"] run_manifest_ok run_tag_ok)
      (simp_all add: result_ok_def)
  moreover have "result_ok dry (r\<lparr>rr_perRepository := x\<rparr>) = result_ok dry r" for r x
    by (simp add: result_ok_def)
  ultimately show ?thesis
    using assms by (simp add: run_repository_def split_beta Let_def split: option.splits)
qed

lemma run_repository_dry: "snd (run_repository lc asc registry True subject now repo s) = snd s"
proof -
  have "snd (snd (fold (\<lambda>m. run_manifest True path (del' m) m) ms
      (fold (\<lambda>t. run_tag True path (del t) t) ts (r, per, w)))) = w"
    for path and del :: "planned_tag \<Rightarrow> latest_outcome deletion"
      and del' :: "planned_manifest \<Rightarrow> (string \<times> string list) deletion" and ms ts r per w
    by (rule fold_run_keeps [where P = "\<lambda>s. snd (snd s) = w"] | simp add: run_dry_world)+
  then show ?thesis by (simp add: run_repository_def split_beta Let_def split: option.splits)
qed

section \<open>Properties\<close>

text \<open>
  C9. For a policy whose age limit is not negative, the plan is exactly what the
  specification says, in push order: the removed tags are the expired ones (no protecting
  rule, no keep pattern, not among the newest, at least one full day beyond the limit), the
  kept tags are all others, and no tag appears in both or is lost.
\<close>

theorem planRetention_tags:
  assumes "case rs_deleteOlderThanDays policy of Some days \<Rightarrow> 0 \<le> days | None \<Rightarrow> True"
  shows "let ordered = js_sort (push_order lc) tags;
           expired = tag_expired rules policy (recent_names policy ordered) now;
           plan = planRetention lc tags untagged policy rules now
     in map (\<lambda>e. (pd_name e, pd_digest e)) (plan_tags plan)
          = map (\<lambda>t. (pt_name t, pt_digest t)) (filter expired ordered) \<and>
        map (\<lambda>e. (pd_name e, pd_digest e)) (plan_keptTags plan)
          = map (\<lambda>t. (pt_name t, pt_digest t)) (filter (\<lambda>t. \<not> expired t) ordered)"
proof -
  have "fst (tag_verdict rules policy recent now t) \<longleftrightarrow> tag_expired rules policy recent now t" for recent t
    using assms by (intro tag_verdict_expired) simp
  then show ?thesis by (simp add: planRetention_eq Let_def comp_def)
qed

definition example_policy :: retention_settings where
  "example_policy = EMPTY_RETENTION\<lparr>rs_enabled := True, rs_keepLast := Some 1, rs_deleteOlderThanDays := Some 7\<rparr>"

definition example_tags :: "plan_tag list" where
  "example_tags = [\<lparr>pt_name = ''v1'', pt_digest = ''a'', pt_pushedAt = 0\<rparr>,
     \<lparr>pt_name = ''v2'', pt_digest = ''b'', pt_pushedAt = 1000\<rparr>]"

theorem planRetention_tags_witness:
  "map (\<lambda>e. (pd_name e, pd_digest e))
     (plan_tags (planRetention code_unit_compare example_tags [] example_policy [] (8 * DAY_MS))) = [(''v1'', ''a'')]"
  using planRetention_tags [of example_policy code_unit_compare example_tags "[]" "8 * DAY_MS" "[]"]
  by (simp add: example_policy_def example_tags_def EMPTY_RETENTION_def tag_expired_def recent_names_def
      slice_to_def push_order_def parseKeepMatching_def split_runs.simps js_trim_def Let_def DAY_MS_def)

text \<open>
  C10. A policy that keeps the \<open>k\<close> newest tags always does: for every tag the plan removes,
  at least \<open>k\<close> tags pushed at the same time or later stay.
\<close>

theorem planRetention_keeps_newest:
  assumes "js_comparator lc" and "distinct (map pt_name tags)"
    and "rs_keepLast policy = Some k" and "0 \<le> k" and "t \<in> set tags"
    and "pt_name t \<in> pd_name ` set (plan_tags (planRetention lc tags untagged policy rules now))"
  shows "nat k \<le> card {s \<in> set tags. pt_pushedAt t \<le> pt_pushedAt s \<and>
     pt_name s \<in> pd_name ` set (plan_keptTags (planRetention lc tags untagged policy rules now))}"
proof -
  let ?o = "js_sort (push_order lc) tags"
  let ?new = "take (nat k) ?o"
  have recent: "recent_names policy ?o = map pt_name ?new"
    using assms(3,4) by (simp add: recent_names_def slice_to_def)
  have dist: "distinct (map pt_name ?o)" using assms(2) by simp
  obtain t' where "t' \<in> set ?o" "pt_name t' = pt_name t" "pt_name t \<notin> pt_name ` set ?new"
    using assms(6) recent_kept recent by (fastforce simp: planRetention_eq)
  moreover have "t \<in> set ?o" using assms(5) by simp
  ultimately have t: "t \<in> set (drop (nat k) ?o)"
    by (metis Un_iff append_take_drop_id image_eqI set_append)
  then have "nat k \<le> length ?o" by (metis drop_all empty_iff empty_set linear)
  then have card: "card (set ?new) = nat k"
    using dist by (simp add: distinct_card distinct_map distinct_take del: length_js_sort) 
  have "set ?new \<subseteq> {s \<in> set tags. pt_pushedAt t \<le> pt_pushedAt s \<and>
      pt_name s \<in> pd_name ` set (plan_keptTags (planRetention lc tags untagged policy rules now))}"
  proof
    fix s assume s: "s \<in> set ?new"
    have "pt_pushedAt t \<le> pt_pushedAt s"
      using js_comparator.take_sort_dominates [OF js_comparator_push_order [OF assms(1)] s t]
      by (rule push_order_newer)
    moreover have "s \<in> set ?o" using s by (rule in_set_takeD)
    moreover have "\<not> fst (tag_verdict rules policy (recent_names policy ?o) now s)"
      using s recent by (intro recent_kept) auto
    ultimately show "s \<in> {s \<in> set tags. pt_pushedAt t \<le> pt_pushedAt s \<and>
        pt_name s \<in> pd_name ` set (plan_keptTags (planRetention lc tags untagged policy rules now))}"
      by (auto simp: planRetention_eq image_image)
  qed
  then have "card (set ?new) \<le> card {s \<in> set tags. pt_pushedAt t \<le> pt_pushedAt s \<and>
      pt_name s \<in> pd_name ` set (plan_keptTags (planRetention lc tags untagged policy rules now))}"
    by (rule card_mono [rotated]) simp
  then show ?thesis using card by simp
qed

theorem planRetention_keeps_newest_witness:
  "1 \<le> card {s \<in> set example_tags. (0 :: int) \<le> pt_pushedAt s \<and>
     pt_name s \<in> pd_name ` set (plan_keptTags
       (planRetention code_unit_compare example_tags [] example_policy [] (8 * DAY_MS)))}"
proof -
  let ?p = "planRetention code_unit_compare example_tags [] example_policy [] (8 * DAY_MS)"
  have "pt_name (hd example_tags) \<in> pd_name ` set (plan_tags ?p)" by code_simp
  with planRetention_keeps_newest [OF code_units.js_comparator_axioms, of example_tags example_policy 1
      "hd example_tags" "[]" "[]" "8 * DAY_MS"]
  show ?thesis by (simp add: example_tags_def example_policy_def)
qed

text \<open>
  An untagged manifest is removed only when it is past the limit and neither belongs to
  an index, nor is attached to another manifest, nor has manifests attached to it; every
  untagged manifest is either removed or reported as kept.
\<close>

theorem planRetention_manifests:
  "map pdm_digest (plan_manifests (planRetention lc tags untagged policy rules now)) =
     map pm_digest (filter (\<lambda>m. \<not> pm_isChild m \<and> \<not> pm_isReferrer m \<and> \<not> pm_hasReferrers m \<and>
       (\<exists>days. rs_deleteUntaggedAfterDays policy = Some days \<and> days < ageDays (pm_pushedAt m) now)) untagged) \<and>
   length (plan_manifests (planRetention lc tags untagged policy rules now)) +
     length (plan_keptManifests (planRetention lc tags untagged policy rules now)) = length untagged"
proof -
  have "fst (manifest_verdict policy now m) \<longleftrightarrow> \<not> pm_isChild m \<and> \<not> pm_isReferrer m \<and> \<not> pm_hasReferrers m \<and>
      (\<exists>days. rs_deleteUntaggedAfterDays policy = Some days \<and> days < ageDays (pm_pushedAt m) now)" for m
    by (simp add: manifest_verdict_def Let_def split: option.splits)
  then have "map pdm_digest (plan_manifests (planRetention lc tags untagged policy rules now)) =
     map pm_digest (filter (\<lambda>m. \<not> pm_isChild m \<and> \<not> pm_isReferrer m \<and> \<not> pm_hasReferrers m \<and>
       (\<exists>days. rs_deleteUntaggedAfterDays policy = Some days \<and> days < ageDays (pm_pushedAt m) now)) untagged)"
    by (simp add: planRetention_eq comp_def)
  moreover have "length (plan_manifests (planRetention lc tags untagged policy rules now)) +
     length (plan_keptManifests (planRetention lc tags untagged policy rules now)) = length untagged"
    by (simp add: planRetention_eq sum_length_filter_compl)
  ultimately show ?thesis ..
qed

text \<open>
  The books of a run always balance: every planned deletion is counted as deleted or
  failed (or neither, in a dry run), and is reported in the detail, which never exceeds its
  cap, or counted as truncated; and a dry run changes nothing and sends nothing.
\<close>

theorem runRetention_books:
  "result_ok dry (fst (runRetention lc asc registry dry orgSlug repoPath subject now w)) \<and>
   snd (runRetention lc asc registry True orgSlug repoPath subject now w) = w"
proof -
  have "result_ok dry (fst (empty_result dry, w))" by (simp add: result_ok_def empty_result_def)
  then have "result_ok dry (fst (runRetention lc asc registry dry orgSlug repoPath subject now w))"
    unfolding runRetention_def
    by (intro fold_run_keeps [where P = "\<lambda>s. result_ok dry (fst s)"] run_repository_ok)
  moreover have "snd (runRetention lc asc registry True orgSlug repoPath subject now w) = w"
    unfolding runRetention_def
    by (rule fold_run_keeps [where P = "\<lambda>s. snd s = w"] | simp add: run_repository_dry)+
  ultimately show ?thesis ..
qed

text \<open>
  The policy that governs a repository is its own whenever it has one, even a disabled
  one: then the organization's default has no effect on the run, which removes nothing when
  the repository's policy is off.
\<close>

theorem repository_policy_replaces_default:
  assumes "snd (getRetentionPolicies (fst w) (row_organizationId repo) (Some (row_id repo))) = Some own"
  shows "pickEffective (getRetentionPolicies (fst w) (row_organizationId repo) (Some (row_id repo)))
      = Some (toSettings own, ScopeRepository) \<and>
    (rp_enabled own \<or> run_repository lc asc registry dry subject now repo (r, w) = (r, w))"
proof -
  obtain org where "getRetentionPolicies (fst w) (row_organizationId repo) (Some (row_id repo)) = (org, Some own)"
    using assms by (cases "getRetentionPolicies (fst w) (row_organizationId repo) (Some (row_id repo))") auto
  then show ?thesis
    by (cases org) (auto simp: pickEffective_def run_repository_def toSettings_def)
qed

definition example_own_policy :: retention_policy where
  "example_own_policy = \<lparr>rp_id = ''p'', rp_organizationId = ''o'', rp_repositoryId = Some ''r'', rp_enabled = False,
     rp_keepLast = Some 1, rp_keepMatching = None, rp_deleteOlderThanDays = None,
     rp_deleteUntaggedAfterDays = None, rp_updatedBy = None, rp_updatedAt = 0\<rparr>"

definition example_retention_world :: world where
  "example_retention_world = (example_image_db\<lparr>db_retentionPolicies :=
     [example_own_policy\<lparr>rp_repositoryId := None, rp_enabled := True\<rparr>, example_own_policy]\<rparr>, [])"

definition example_row :: repo_row where
  "example_row = \<lparr>row_id = ''r'', row_organizationId = ''o'', row_orgSlug = ''acme'', row_name = ''app''\<rparr>"

theorem repository_policy_replaces_default_witness:
  "run_repository code_unit_compare code_unit_compare example_registry False ''user:u'' 0 example_row
     (empty_result False, example_retention_world) = (empty_result False, example_retention_world)"
proof -
  have own: "snd (getRetentionPolicies (fst example_retention_world) (row_organizationId example_row)
      (Some (row_id example_row))) = Some example_own_policy"
    by (simp add: getRetentionPolicies_def example_retention_world_def example_own_policy_def example_row_def)
  have "\<not> rp_enabled example_own_policy" by (simp add: example_own_policy_def)
  with repository_policy_replaces_default [OF own, of code_unit_compare code_unit_compare example_registry
      False "''user:u''" 0 "empty_result False"]
  show ?thesis by blast
qed

end
