(* ===== verification/Quota_Prune.thy ===== *)
theory Quota_Prune
  imports Tag_Rules
begin

text \<open>
  Pruning a scope down to its storage limit (\<open>web/src/lib/quota-enforce-shared.ts\<close>).
  \<open>planPruneToFit\<close> keeps a reference count per blob and a set of live manifests and removes
  the oldest images first, each with the manifests attached to it and the index members
  nothing else needs. \<open>removeManifest\<close> recurses with no bound in the source; here it has
  fuel, and the theorems show that a bound computed from the scope is always enough when
  no manifest is attached, directly or through others, to itself (a digest covers the
  subject, so none is).

  The theorems: the plan exists; its byte counts are the distinct blob bytes of the
  manifests that remain, counted from scratch; it is flagged as unmet exactly when they
  exceed the limit; no protected tag is removed, nor an image it names.
\<close>

section \<open>The scope\<close>

record scope_blob =
  sb_digest :: string
  sb_size :: int

record scope_manifest =
  sm_digest :: string
  sm_pushedAt :: millis
  sm_subjectDigest :: "string option"
  sm_blobs :: "scope_blob list"
  sm_children :: "string list"

record scope_tag =
  stg_name :: string
  stg_digest :: string
  stg_pushedAt :: millis

record scope_repository =
  sr_id :: string
  sr_path :: string
  sr_manifests :: "scope_manifest list"
  sr_tags :: "scope_tag list"
  sr_rules :: "tag_rule list"

datatype step_kind = StepTag | StepManifest

record prune_step =
  ps_repositoryId :: string
  ps_repository :: string
  ps_kind :: step_kind
  ps_ref :: string
  ps_reason :: string

record prune_plan =
  pp_steps :: "prune_step list"
  pp_beforeBytes :: int
  pp_afterBytes :: int
  pp_unmet :: bool

section \<open>Dates\<close>

text \<open>\<open>toISOString().slice(0, 10)\<close>: the Gregorian date of a time stamp, years 0 to 9999.\<close>

definition pad_number :: "nat \<Rightarrow> nat \<Rightarrow> string" where
  "pad_number w n = replicate (w - length (show_nat n)) (CHR ''0'') @ show_nat n"

definition iso_date :: "millis \<Rightarrow> string" where
  "iso_date ms =
     (let z = ms div 86400000 + 719468; era = z div 146097; doe = z mod 146097;
          yoe = (doe - doe div 1460 + doe div 36524 - doe div 146096) div 365;
          doy = doe - (365 * yoe + yoe div 4 - yoe div 100);
          mp = (5 * doy + 2) div 153;
          d = doy - (153 * mp + 2) div 5 + 1;
          m = (if mp < 10 then mp + 3 else mp - 9);
          y = yoe + era * 400 + (if m \<le> 2 then 1 else 0)
      in pad_number 4 (nat y) @ ''-'' @ pad_number 2 (nat m) @ ''-'' @ pad_number 2 (nat d))"

section \<open>The planner's state\<close>

text \<open>
  The mutable variables of \<open>planPruneToFit\<close>: the live manifests of each repository, the
  reference counts, the tags removed so far and the steps. \<open>blobSize\<close> and \<open>byRepo\<close> do not
  change after they are filled and are functions of the scope.
\<close>

record prune_state =
  live :: "(string \<times> string list) list"
  blobRefs :: "(string \<times> int) list"
  removedTags :: "(string \<times> string list) list"
  steps :: "prune_step list"

type_synonym scope = "scope_repository list"

definition scope_blobs :: "scope \<Rightarrow> scope_blob list" where
  \<comment> \<open>the blobs in the order the filling loops meet them\<close>
  "scope_blobs repos = concat (map (\<lambda>r. concat (map sm_blobs (sr_manifests r))) repos)"

definition blobSize :: "scope \<Rightarrow> (string \<times> int) list" where
  "blobSize repos = fold (\<lambda>b m. AList.update (sb_digest b) (sb_size b) m) (scope_blobs repos) []"

definition count_blob :: "scope_blob \<Rightarrow> (string \<times> int) list \<Rightarrow> (string \<times> int) list" where
  "count_blob b m = AList.update (sb_digest b) (nullish (map_of m (sb_digest b)) 0 + 1) m"

definition uncount_blob :: "scope_blob \<Rightarrow> (string \<times> int) list \<Rightarrow> (string \<times> int) list" where
  "uncount_blob b m = AList.update (sb_digest b) (nullish (map_of m (sb_digest b)) 1 - 1) m"

definition byRepo :: "scope \<Rightarrow> string \<Rightarrow> scope_repository option" where
  \<comment> \<open>a map made from pairs: the last pair of a key wins\<close>
  "byRepo repos repoId = find (\<lambda>r. sr_id r = repoId) (rev repos)"

definition repo_manifests :: "scope \<Rightarrow> string \<Rightarrow> scope_manifest list" where
  "repo_manifests repos repoId = (case byRepo repos repoId of None \<Rightarrow> [] | Some r \<Rightarrow> sr_manifests r)"

definition manifestOf :: "scope \<Rightarrow> string \<Rightarrow> string \<Rightarrow> scope_manifest option" where
  "manifestOf repos repoId digest = find (\<lambda>m. sm_digest m = digest) (repo_manifests repos repoId)"

definition initial_state :: "scope \<Rightarrow> prune_state" where
  "initial_state repos =
     \<lparr>live = fold (\<lambda>r m. AList.update (sr_id r) (uniq (map sm_digest (sr_manifests r))) m) repos [],
      blobRefs = fold count_blob (scope_blobs repos) [],
      removedTags = [], steps = []\<rparr>"

definition usage :: "scope \<Rightarrow> prune_state \<Rightarrow> int" where
  "usage repos st =
     sum_list (map (\<lambda>(digest, n). if 0 < n then nullish (map_of (blobSize repos) digest) 0 else 0) (blobRefs st))"

definition tag_removed :: "prune_state \<Rightarrow> string \<Rightarrow> string \<Rightarrow> bool" where
  "tag_removed st repoId name = (case map_of (removedTags st) repoId of None \<Rightarrow> False | Some ts \<Rightarrow> name \<in> set ts)"

definition tagsOf :: "scope \<Rightarrow> prune_state \<Rightarrow> string \<Rightarrow> string \<Rightarrow> scope_tag list" where
  "tagsOf repos st repoId digest =
     filter (\<lambda>t. stg_digest t = digest \<and> \<not> tag_removed st repoId (stg_name t))
       (case byRepo repos repoId of None \<Rightarrow> [] | Some r \<Rightarrow> sr_tags r)"

definition isLive :: "prune_state \<Rightarrow> string \<Rightarrow> string \<Rightarrow> bool" where
  "isLive st repoId digest = (case map_of (live st) repoId of None \<Rightarrow> False | Some ds \<Rightarrow> digest \<in> set ds)"

definition liveParents :: "scope \<Rightarrow> prune_state \<Rightarrow> string \<Rightarrow> string \<Rightarrow> scope_manifest list" where
  "liveParents repos st repoId digest =
     filter (\<lambda>m. isLive st repoId (sm_digest m) \<and> digest \<in> set (sm_children m)) (repo_manifests repos repoId)"

definition liveReferrers :: "scope \<Rightarrow> prune_state \<Rightarrow> string \<Rightarrow> string \<Rightarrow> scope_manifest list" where
  "liveReferrers repos st repoId digest =
     filter (\<lambda>m. isLive st repoId (sm_digest m) \<and> sm_subjectDigest m = Some digest) (repo_manifests repos repoId)"

definition isProtected :: "scope \<Rightarrow> prune_state \<Rightarrow> scope_repository \<Rightarrow> string \<Rightarrow> bool" where
  "isProtected repos st repo digest =
     list_ex (\<lambda>t. flag_protected (tagFlags (sr_rules repo) (stg_name t)) \<noteq> None) (tagsOf repos st (sr_id repo) digest)"

definition push_step :: "scope_repository \<Rightarrow> step_kind \<Rightarrow> string \<Rightarrow> string \<Rightarrow> prune_state \<Rightarrow> prune_state" where
  "push_step repo kind ref reason st =
     st\<lparr>steps := steps st @ [\<lparr>ps_repositoryId = sr_id repo, ps_repository = sr_path repo, ps_kind = kind,
                               ps_ref = ref, ps_reason = reason\<rparr>]\<rparr>"

definition drop_live :: "string \<Rightarrow> string \<Rightarrow> prune_state \<Rightarrow> prune_state" where
  "drop_live repoId digest st =
     st\<lparr>live := AList.update repoId (removeAll digest (nullish (map_of (live st) repoId) [])) (live st)\<rparr>"

section \<open>Removing a manifest\<close>

fun foldM :: "('x \<Rightarrow> 's \<Rightarrow> 's option) \<Rightarrow> 'x list \<Rightarrow> 's \<Rightarrow> 's option" where
  "foldM f [] s = Some s"
| "foldM f (x # xs) s = (case f x s of None \<Rightarrow> None | Some s' \<Rightarrow> foldM f xs s')"

definition drop_manifest :: "scope_repository \<Rightarrow> scope_manifest \<Rightarrow> string \<Rightarrow> prune_state \<Rightarrow> prune_state" where
  \<comment> \<open>the manifest itself: out of the live set, its blobs uncounted, its step pushed\<close>
  "drop_manifest repo m reason st =
     push_step repo StepManifest (sm_digest m) reason
       ((drop_live (sr_id repo) (sm_digest m) st)\<lparr>blobRefs := fold uncount_blob (sm_blobs m) (blobRefs st)\<rparr>)"

primrec removeManifest ::
  "nat \<Rightarrow> scope \<Rightarrow> scope_repository \<Rightarrow> string \<Rightarrow> string \<Rightarrow> prune_state \<Rightarrow> prune_state option" where
  "removeManifest 0 repos repo digest reason st = None"
| "removeManifest (Suc fuel) repos repo digest reason st =
     (case manifestOf repos (sr_id repo) digest of
        None \<Rightarrow> Some st
      | Some m \<Rightarrow>
        if \<not> isLive st (sr_id repo) digest then Some st
        else (case foldM (\<lambda>ref. removeManifest fuel repos repo (sm_digest ref)
                             (''attached to '' @ js_slice 7 19 digest @ '', which is removed''))
                     (liveReferrers repos st (sr_id repo) digest) st of
            None \<Rightarrow> None
          | Some st1 \<Rightarrow>
              foldM (\<lambda>child st2.
                  if \<not> isLive st2 (sr_id repo) child \<or> liveParents repos st2 (sr_id repo) child \<noteq> [] \<or>
                     tagsOf repos st2 (sr_id repo) child \<noteq> [] then Some st2
                  else removeManifest fuel repos repo child
                         (''variant of '' @ js_slice 7 19 digest @ '', which is removed'') st2)
                (sm_children m) (drop_manifest repo m reason st1)))"

section \<open>The two phases\<close>

definition leftovers :: "scope \<Rightarrow> prune_state \<Rightarrow> (scope_repository \<times> scope_manifest) list" where
  "leftovers repos st =
     js_sort (\<lambda>a b. sm_pushedAt (snd a) - sm_pushedAt (snd b))
       (concat (map (\<lambda>repo. map (Pair repo)
          (filter (\<lambda>m. tagsOf repos st (sr_id repo) (sm_digest m) = [] \<and>
                       liveParents repos st (sr_id repo) (sm_digest m) = [] \<and>
                       \<not> (truthy (sm_subjectDigest m) \<and> isLive st (sr_id repo) (the (sm_subjectDigest m))))
             (sr_manifests repo))) repos))"

primrec leftover_loop ::
  "nat \<Rightarrow> scope \<Rightarrow> int \<Rightarrow> (scope_repository \<times> scope_manifest) list \<Rightarrow> prune_state \<Rightarrow> prune_state option" where
  "leftover_loop fuel repos limit [] st = Some st"
| "leftover_loop fuel repos limit (x # xs) st =
     (if usage repos st \<le> limit then Some st
      else if \<not> isLive st (sr_id (fst x)) (sm_digest (snd x)) then leftover_loop fuel repos limit xs st
      else (case removeManifest fuel repos (fst x) (sm_digest (snd x))
                   (''untagged since '' @ iso_date (sm_pushedAt (snd x)) @
                    '', oldest first to fit the storage limit'') st of
          None \<Rightarrow> None
        | Some st' \<Rightarrow> leftover_loop fuel repos limit xs st'))"

definition scope_tags :: "(string \<Rightarrow> string \<Rightarrow> int) \<Rightarrow> scope \<Rightarrow> (scope_repository \<times> scope_tag) list" where
  "scope_tags lc repos =
     js_sort (\<lambda>a b. cmp_or (stg_pushedAt (snd a) - stg_pushedAt (snd b)) (lc (stg_name (snd a)) (stg_name (snd b))))
       (concat (map (\<lambda>repo. map (Pair repo) (sr_tags repo)) repos))"

definition add_removed :: "string \<Rightarrow> string \<Rightarrow> prune_state \<Rightarrow> prune_state" where
  "add_removed repoId name st =
     st\<lparr>removedTags := AList.update repoId (nullish (map_of (removedTags st) repoId) [] @ [name]) (removedTags st)\<rparr>"

definition remove_tag :: "scope_repository \<Rightarrow> scope_tag \<Rightarrow> prune_state \<Rightarrow> prune_state" where
  "remove_tag repo t st =
     push_step repo StepTag (stg_name t)
       (''pushed '' @ iso_date (stg_pushedAt t) @ '', oldest first to fit the storage limit'')
       (add_removed (sr_id repo) (stg_name t) st)"

primrec tag_loop ::
  "nat \<Rightarrow> scope \<Rightarrow> int \<Rightarrow> (scope_repository \<times> scope_tag) list \<Rightarrow> prune_state \<Rightarrow> prune_state option" where
  "tag_loop fuel repos limit [] st = Some st"
| "tag_loop fuel repos limit (x # xs) st =
     (let repo = fst x; t = snd x in
      if usage repos st \<le> limit then Some st
      else if tag_removed st (sr_id repo) (stg_name t) \<or>
              flag_protected (tagFlags (sr_rules repo) (stg_name t)) \<noteq> None \<or>
              isProtected repos st repo (stg_digest t)
        then tag_loop fuel repos limit xs st
      else (let st1 = remove_tag repo t st in
        if tagsOf repos st1 (sr_id repo) (stg_digest t) = [] \<and> liveParents repos st1 (sr_id repo) (stg_digest t) = []
        then (case removeManifest fuel repos repo (stg_digest t)
                     (''its last tag '' @ stg_name t @ '' is removed'') st1 of
            None \<Rightarrow> None
          | Some st2 \<Rightarrow> tag_loop fuel repos limit xs st2)
        else tag_loop fuel repos limit xs st1))"

definition planPruneToFit ::
  "nat \<Rightarrow> (string \<Rightarrow> string \<Rightarrow> int) \<Rightarrow> scope \<Rightarrow> int \<Rightarrow> prune_plan option" where
  "planPruneToFit fuel lc repos limitBytes =
     (let st0 = initial_state repos; beforeBytes = usage repos st0 in
      if beforeBytes \<le> limitBytes
      then Some \<lparr>pp_steps = [], pp_beforeBytes = beforeBytes, pp_afterBytes = beforeBytes, pp_unmet = False\<rparr>
      else (case leftover_loop fuel repos limitBytes (leftovers repos st0) st0 of
          None \<Rightarrow> None
        | Some st1 \<Rightarrow>
          (case tag_loop fuel repos limitBytes (scope_tags lc repos) st1 of
             None \<Rightarrow> None
           | Some st2 \<Rightarrow> Some \<lparr>pp_steps = steps st2, pp_beforeBytes = beforeBytes,
                 pp_afterBytes = usage repos st2, pp_unmet = (limitBytes < usage repos st2)\<rparr>)))"

section \<open>Well-formed scopes\<close>

text \<open>
  What the database guarantees of a scope: repository ids and, per repository, digests are
  keys; a blob digest determines its size. \<open>rank\<close> orders the attachments: a manifest's
  digest covers its subject's digest, so following subjects never returns. That attached
  manifests are no indexes is a property of the artifacts registries store (signatures,
  SBOMs, attestations), not of the format.
\<close>

definition scope_pairs :: "scope \<Rightarrow> (scope_repository \<times> scope_manifest) list" where
  "scope_pairs repos = concat (map (\<lambda>r. map (Pair r) (sr_manifests r)) repos)"

definition scope_wf :: "scope \<Rightarrow> (string \<Rightarrow> nat) \<Rightarrow> nat \<Rightarrow> bool" where
  "scope_wf repos rank bound \<longleftrightarrow>
     distinct (map sr_id repos) \<and>
     (\<forall>r \<in> set repos. distinct (map sm_digest (sr_manifests r))) \<and>
     (\<forall>(r, m) \<in> set (scope_pairs repos). \<forall>d. sm_subjectDigest m = Some d \<longrightarrow>
        rank (sm_digest m) < rank d \<and> sm_children m = []) \<and>
     (\<forall>d. rank d \<le> bound) \<and>
     (\<forall>b \<in> set (scope_blobs repos). \<forall>b' \<in> set (scope_blobs repos). sb_digest b = sb_digest b' \<longrightarrow> sb_size b = sb_size b')"

lemma set_scope_pairs: "(r, m) \<in> set (scope_pairs repos) \<longleftrightarrow> r \<in> set repos \<and> m \<in> set (sr_manifests r)"
  by (auto simp: scope_pairs_def)

lemma byRepo_SomeD: "byRepo repos rid = Some r \<Longrightarrow> r \<in> set repos \<and> sr_id r = rid"
  using find_SomeD [of "\<lambda>r. sr_id r = rid" "rev repos" r] by (simp add: byRepo_def)

lemma byRepo_self: "distinct (map sr_id repos) \<Longrightarrow> r \<in> set repos \<Longrightarrow> byRepo repos (sr_id r) = Some r"
  unfolding byRepo_def by (rule find_eq_Some_unique) (auto simp: distinct_map inj_on_def)

lemma repo_manifests_pair: "m \<in> set (repo_manifests repos rid) \<Longrightarrow>
    \<exists>r. byRepo repos rid = Some r \<and> sr_id r = rid \<and> (r, m) \<in> set (scope_pairs repos)"
  by (cases "byRepo repos rid") (auto simp: repo_manifests_def set_scope_pairs dest: byRepo_SomeD)

lemma manifestOf_SomeD:
  "manifestOf repos rid d = Some m \<Longrightarrow> sm_digest m = d \<and> m \<in> set (repo_manifests repos rid)"
  using find_SomeD [of "\<lambda>m. sm_digest m = d" "repo_manifests repos rid" m] by (simp add: manifestOf_def)

lemma manifestOf_self:
  assumes "scope_wf repos rank bound" and "m \<in> set (repo_manifests repos rid)"
  shows "manifestOf repos rid (sm_digest m) = Some m"
proof -
  obtain r where r: "byRepo repos rid = Some r" "(r, m) \<in> set (scope_pairs repos)"
    using repo_manifests_pair [OF assms(2)] by blast
  then have "distinct (map sm_digest (sr_manifests r))"
    using assms(1) by (auto simp: scope_wf_def set_scope_pairs)
  with r show ?thesis
    unfolding manifestOf_def repo_manifests_def
    by (intro find_eq_Some_unique) (auto simp: distinct_map inj_on_def set_scope_pairs)
qed

lemma wf_subject:
  assumes "scope_wf repos rank bound" and "m \<in> set (repo_manifests repos rid)" and "sm_subjectDigest m = Some d"
  shows "rank (sm_digest m) < rank d \<and> sm_children m = []"
  using repo_manifests_pair [OF assms(2)] assms(1,3) by (fastforce simp: scope_wf_def)

section \<open>Rules for the recursion\<close>

lemma foldM_keeps:
  "(\<And>x s s'. x \<in> set xs \<Longrightarrow> P s \<Longrightarrow> f x s = Some s' \<Longrightarrow> P s') \<Longrightarrow> P s \<Longrightarrow> foldM f xs s = Some s' \<Longrightarrow> P s'"
  by (induction xs arbitrary: s) (auto split: option.splits)

lemma foldM_returns:
  "(\<And>x s. x \<in> set xs \<Longrightarrow> Q s \<Longrightarrow> \<exists>s'. f x s = Some s' \<and> Q s') \<Longrightarrow> Q s \<Longrightarrow> \<exists>s'. foldM f xs s = Some s' \<and> Q s'"
proof (induction xs arbitrary: s)
  case Nil
  then show ?case by simp
next
  case (Cons x xs)
  obtain s1 where s1: "f x s = Some s1" "Q s1" using Cons.prems by force
  have "\<exists>s'. foldM f xs s1 = Some s' \<and> Q s'"
    by (rule Cons.IH) (use Cons.prems s1(2) in auto)
  with s1 show ?case by simp
qed

definition live_list :: "prune_state \<Rightarrow> string \<Rightarrow> string list" where
  "live_list st rid = nullish (map_of (live st) rid) []"

lemma isLive_list: "isLive st rid d \<longleftrightarrow> d \<in> set (live_list st rid)"
  by (auto simp: isLive_def live_list_def split: option.splits)

lemma drop_manifest_simps [simp]:
  "live_list (drop_manifest repo m reason st) rid =
     (if rid = sr_id repo then removeAll (sm_digest m) (live_list st rid) else live_list st rid)"
  "removedTags (drop_manifest repo m reason st) = removedTags st"
  "blobRefs (drop_manifest repo m reason st) = fold uncount_blob (sm_blobs m) (blobRefs st)"
  "steps (drop_manifest repo m reason st) = steps st @
     [\<lparr>ps_repositoryId = sr_id repo, ps_repository = sr_path repo, ps_kind = StepManifest,
       ps_ref = sm_digest m, ps_reason = reason\<rparr>]"
  by (simp_all add: drop_manifest_def push_step_def drop_live_def live_list_def)

lemma isLive_drop:
  "isLive (drop_manifest repo m reason st) rid d \<longleftrightarrow> isLive st rid d \<and> (rid, d) \<noteq> (sr_id repo, sm_digest m)"
  by (auto simp: isLive_list)

text \<open>Removing an attached manifest only reaches manifests of lower rank, so its subject stays.\<close>

lemma remove_attached_rank:
  assumes wf: "scope_wf repos rank bound"
    and "m \<in> set (repo_manifests repos (sr_id repo))" and "sm_subjectDigest m \<noteq> None"
    and "removeManifest fuel repos repo (sm_digest m) reason st = Some st'"
    and "isLive st rid d" and "\<not> isLive st' rid d"
  shows "rank d \<le> rank (sm_digest m)"
  using assms(2-)
proof (induction fuel arbitrary: m reason st st')
  case 0
  then show ?case by simp
next
  case (Suc fuel)
  note m = manifestOf_self [OF wf Suc.prems(1)]
  have leaf: "sm_children m = []" using wf_subject [OF wf Suc.prems(1)] Suc.prems(2) by auto
  show ?case
  proof (cases "isLive st (sr_id repo) (sm_digest m)")
    case False
    then show ?thesis using Suc.prems m by simp
  next
    case True
    let ?refs = "liveReferrers repos st (sr_id repo) (sm_digest m)"
    obtain st1 reason' where st1: "foldM (\<lambda>ref. removeManifest fuel repos repo (sm_digest ref) reason') ?refs st = Some st1"
      and st': "st' = drop_manifest repo m reason st1"
      using Suc.prems(3) m True leaf by (auto split: option.splits)
    have below: "\<not> isLive st1 rid d \<longrightarrow> rank d < rank (sm_digest m)"
    proof (rule foldM_keeps [where P = "\<lambda>s. \<not> isLive s rid d \<longrightarrow> rank d < rank (sm_digest m)", OF _ _ st1])
      fix ref s s'
      assume ref: "ref \<in> set ?refs" and P: "\<not> isLive s rid d \<longrightarrow> rank d < rank (sm_digest m)"
        and run: "removeManifest fuel repos repo (sm_digest ref) reason' s = Some s'"
      from ref have r: "ref \<in> set (repo_manifests repos (sr_id repo))" "sm_subjectDigest ref = Some (sm_digest m)"
        by (auto simp: liveReferrers_def)
      show "\<not> isLive s' rid d \<longrightarrow> rank d < rank (sm_digest m)"
        using P Suc.IH [OF r(1) _ run] r(2) wf_subject [OF wf r] by fastforce
    qed (use Suc.prems(4) in simp)
    then show ?thesis using Suc.prems(5) by (auto simp: st' isLive_drop)
  qed
qed

lemma attached_gone_subject_live:
  assumes wf: "scope_wf repos rank bound"
    and "foldM (\<lambda>ref. removeManifest fuel repos repo (sm_digest ref) reason)
           (liveReferrers repos st (sr_id repo) digest) st = Some st1"
    and "isLive st (sr_id repo) digest"
  shows "isLive st1 (sr_id repo) digest"
proof (rule foldM_keeps [where P = "\<lambda>s. isLive s (sr_id repo) digest", OF _ assms(3) assms(2)])
  fix ref s s'
  assume ref: "ref \<in> set (liveReferrers repos st (sr_id repo) digest)" and P: "isLive s (sr_id repo) digest"
    and run: "removeManifest fuel repos repo (sm_digest ref) reason s = Some s'"
  from ref have r: "ref \<in> set (repo_manifests repos (sr_id repo))" "sm_subjectDigest ref = Some digest"
    by (auto simp: liveReferrers_def)
  show "isLive s' (sr_id repo) digest"
    using remove_attached_rank [OF wf r(1) _ run P] r(2) wf_subject [OF wf r] by fastforce
qed

text \<open>
  The proof rule for everything that removes manifests: what each single removal keeps, the
  recursion keeps. \<open>G\<close> is what is known of every digest it is called for.
\<close>

lemma removeManifest_keeps:
  assumes wf: "scope_wf repos rank bound"
    and drop: "\<And>m reason st. manifestOf repos (sr_id repo) (sm_digest m) = Some m \<Longrightarrow>
        isLive st (sr_id repo) (sm_digest m) \<Longrightarrow> G (sm_digest m) \<Longrightarrow> P st \<Longrightarrow> P (drop_manifest repo m reason st)"
    and attached: "\<And>m. m \<in> set (repo_manifests repos (sr_id repo)) \<Longrightarrow> sm_subjectDigest m \<noteq> None \<Longrightarrow> G (sm_digest m)"
    and child: "\<And>st d. P st \<Longrightarrow> tagsOf repos st (sr_id repo) d = [] \<Longrightarrow> G d"
    and run: "removeManifest fuel repos repo digest reason st = Some st'" and "P st" and "G digest"
  shows "P st'"
  using run assms(6,7)
proof (induction fuel arbitrary: digest reason st st')
  case 0
  then show ?case by simp
next
  case (Suc fuel)
  show ?case
  proof (cases "manifestOf repos (sr_id repo) digest = None \<or> \<not> isLive st (sr_id repo) digest")
    case True
    then show ?thesis using Suc.prems by (auto split: option.splits)
  next
    case False
    then obtain m where m: "manifestOf repos (sr_id repo) digest = Some m" and lv: "isLive st (sr_id repo) digest"
      by auto
    have md: "sm_digest m = digest" using manifestOf_SomeD [OF m] by simp
    obtain st1 reason1 reason2 where
      st1: "foldM (\<lambda>ref. removeManifest fuel repos repo (sm_digest ref) reason1)
         (liveReferrers repos st (sr_id repo) digest) st = Some st1"
      and st': "foldM (\<lambda>child st2. if \<not> isLive st2 (sr_id repo) child \<or> liveParents repos st2 (sr_id repo) child \<noteq> [] \<or>
             tagsOf repos st2 (sr_id repo) child \<noteq> [] then Some st2
           else removeManifest fuel repos repo child reason2 st2)
         (sm_children m) (drop_manifest repo m reason st1) = Some st'"
      using Suc.prems(1) m lv by (auto split: option.splits)
    have "P st1"
    proof (rule foldM_keeps [where P = P, OF _ Suc.prems(2) st1])
      fix ref s s'
      assume "ref \<in> set (liveReferrers repos st (sr_id repo) digest)" and "P s"
        and "removeManifest fuel repos repo (sm_digest ref) reason1 s = Some s'"
      then show "P s'" using Suc.IH attached by (auto simp: liveReferrers_def)
    qed
    moreover have "isLive st1 (sr_id repo) digest" by (rule attached_gone_subject_live [OF wf st1 lv])
    ultimately have "P (drop_manifest repo m reason st1)" using drop [of m st1] m md Suc.prems(3) by simp
    then show ?thesis
      by (rule foldM_keeps [where P = P, OF _ _ st', rotated]) (use Suc.IH child in \<open>auto split: if_splits\<close>)
  qed
qed

lemma removeManifest_returns:
  assumes wf: "scope_wf repos rank bound"
  shows "length (live_list st (sr_id repo)) * Suc bound + rank digest < fuel \<Longrightarrow>
    \<exists>st'. removeManifest fuel repos repo digest reason st = Some st'"
proof (induction fuel arbitrary: digest reason st)
  case 0
  then show ?case by simp
next
  case (Suc fuel)
  let ?n = "\<lambda>s. length (live_list s (sr_id repo))"
  have rank: "rank d \<le> bound" for d using wf by (simp add: scope_wf_def)
  have shrinks: "?n s' \<le> k" if "removeManifest fuel repos repo d r s = Some s'" "?n s \<le> k" for d r s s' k
    by (rule removeManifest_keeps [OF wf, where P = "\<lambda>s. ?n s \<le> k" and G = "\<lambda>_. True", OF _ _ _ that(1)])
      (use that(2) length_removeAll_less_eq [THEN le_trans] in auto)
  show ?case
  proof (cases "manifestOf repos (sr_id repo) digest = None \<or> \<not> isLive st (sr_id repo) digest")
    case True
    then show ?thesis by (auto split: option.splits)
  next
    case False
    then obtain m where m: "manifestOf repos (sr_id repo) digest = Some m" and lv: "isLive st (sr_id repo) digest"
      by auto
    have md: "sm_digest m = digest" using manifestOf_SomeD [OF m] by simp
    let ?r1 = "''attached to '' @ js_slice 7 19 digest @ '', which is removed''"
    let ?r2 = "''variant of '' @ js_slice 7 19 digest @ '', which is removed''"
    have "\<exists>s'. foldM (\<lambda>ref. removeManifest fuel repos repo (sm_digest ref) ?r1)
        (liveReferrers repos st (sr_id repo) digest) st = Some s' \<and> ?n s' \<le> ?n st"
    proof (rule foldM_returns [where Q = "\<lambda>s. ?n s \<le> ?n st"])
      fix ref s
      assume ref: "ref \<in> set (liveReferrers repos st (sr_id repo) digest)" and le: "?n s \<le> ?n st"
      have "rank (sm_digest ref) < rank digest" using ref wf_subject [OF wf] by (auto simp: liveReferrers_def)
      moreover have "?n s * Suc bound \<le> ?n st * Suc bound" using le by (rule mult_le_mono1)
      ultimately have "?n s * Suc bound + rank (sm_digest ref) < fuel" using Suc.prems by linarith
      from Suc.IH [OF this] shrinks [OF _ le]
      show "\<exists>s'. removeManifest fuel repos repo (sm_digest ref) ?r1 s = Some s' \<and> ?n s' \<le> ?n st" by blast
    qed simp
    then obtain st1 where st1: "foldM (\<lambda>ref. removeManifest fuel repos repo (sm_digest ref) ?r1)
        (liveReferrers repos st (sr_id repo) digest) st = Some st1" "?n st1 \<le> ?n st" by blast
    have "isLive st1 (sr_id repo) digest" by (rule attached_gone_subject_live [OF wf st1(1) lv])
    then have dn: "?n (drop_manifest repo m reason st1) < ?n st"
      using st1(2) length_removeAll_less [of digest "live_list st1 (sr_id repo)"] by (simp add: isLive_list md)
    have "\<exists>s'. foldM (\<lambda>child st2. if \<not> isLive st2 (sr_id repo) child \<or> liveParents repos st2 (sr_id repo) child \<noteq> [] \<or>
             tagsOf repos st2 (sr_id repo) child \<noteq> [] then Some st2
           else removeManifest fuel repos repo child ?r2 st2)
         (sm_children m) (drop_manifest repo m reason st1) = Some s' \<and> ?n s' < ?n st"
    proof (rule foldM_returns [where Q = "\<lambda>s. ?n s < ?n st"])
      fix child s assume lt: "?n s < ?n st"
      then have "Suc (?n s) * Suc bound \<le> ?n st * Suc bound" by (intro mult_le_mono1) simp
      then have "?n s * Suc bound + rank child < fuel" using Suc.prems rank [of child] by simp
      from Suc.IH [OF this] shrinks [of child ?r2 s _ "?n st - 1"] lt
      have "\<exists>s'. removeManifest fuel repos repo child ?r2 s = Some s' \<and> ?n s' < ?n st" by fastforce
      with lt show "\<exists>s'. (if \<not> isLive s (sr_id repo) child \<or> liveParents repos s (sr_id repo) child \<noteq> [] \<or>
             tagsOf repos s (sr_id repo) child \<noteq> [] then Some s
           else removeManifest fuel repos repo child ?r2 s) = Some s' \<and> ?n s' < ?n st" by auto
    qed (rule dn)
    with st1 m lv show ?thesis by auto
  qed
qed

lemma leftover_loop_keeps:
  assumes "\<And>x st st' reason. x \<in> set xs \<Longrightarrow> P st \<Longrightarrow>
      removeManifest fuel repos (fst x) (sm_digest (snd x)) reason st = Some st' \<Longrightarrow> P st'"
  shows "P st \<Longrightarrow> leftover_loop fuel repos limit xs st = Some st' \<Longrightarrow> P st'"
  using assms
proof (induction xs arbitrary: st)
  case Nil
  then show ?case by simp
next
  case (Cons x xs)
  have rest: "P s \<Longrightarrow> leftover_loop fuel repos limit xs s = Some st' \<Longrightarrow> P st'" for s
    by (rule Cons.IH) (use Cons.prems(3) [OF list.set_intros(2)] in blast)+
  have step: "P s \<Longrightarrow> removeManifest fuel repos (fst x) (sm_digest (snd x)) reason s = Some s' \<Longrightarrow> P s'"
    for s s' reason by (rule Cons.prems(3) [of x]) simp
  show ?case
    using Cons.prems(1,2) rest step by (auto split: if_splits option.splits)
qed

lemma tag_loop_keeps:
  assumes "\<And>x st. x \<in> set xs \<Longrightarrow> P st \<Longrightarrow> flag_protected (tagFlags (sr_rules (fst x)) (stg_name (snd x))) = None \<Longrightarrow>
      P (remove_tag (fst x) (snd x) st)"
    and "\<And>x st st' reason. x \<in> set xs \<Longrightarrow> P st \<Longrightarrow> tagsOf repos st (sr_id (fst x)) (stg_digest (snd x)) = [] \<Longrightarrow>
      removeManifest fuel repos (fst x) (stg_digest (snd x)) reason st = Some st' \<Longrightarrow> P st'"
  shows "P st \<Longrightarrow> tag_loop fuel repos limit xs st = Some st' \<Longrightarrow> P st'"
  using assms
proof (induction xs arbitrary: st)
  case Nil
  then show ?case by simp
next
  case (Cons x xs)
  note tag = Cons.prems(3) [of x, OF list.set_intros(1)]
    and remove = Cons.prems(4) [of x, OF list.set_intros(1)]
  have rest: "P s \<Longrightarrow> tag_loop fuel repos limit xs s = Some st' \<Longrightarrow> P st'" for s
    by (rule Cons.IH) (use Cons.prems(3,4) [OF list.set_intros(2)] in blast)+
  consider "usage repos st \<le> limit"
    | "\<not> usage repos st \<le> limit" "tag_removed st (sr_id (fst x)) (stg_name (snd x)) \<or>
          flag_protected (tagFlags (sr_rules (fst x)) (stg_name (snd x))) \<noteq> None \<or>
          isProtected repos st (fst x) (stg_digest (snd x))"
    | "\<not> usage repos st \<le> limit" "\<not> tag_removed st (sr_id (fst x)) (stg_name (snd x))"
        "flag_protected (tagFlags (sr_rules (fst x)) (stg_name (snd x))) = None"
        "\<not> isProtected repos st (fst x) (stg_digest (snd x))" by blast
  then show ?case
  proof cases
    case 1
    then show ?thesis using Cons.prems(1,2) by (simp add: Let_def)
  next
    case 2
    then show ?thesis using Cons.prems(1,2) rest by (auto simp: Let_def)
  next
    case 3
    note P1 = tag [OF Cons.prems(1) 3(3)]
    show ?thesis
    proof (cases "tagsOf repos (remove_tag (fst x) (snd x) st) (sr_id (fst x)) (stg_digest (snd x)) = [] \<and>
        liveParents repos (remove_tag (fst x) (snd x) st) (sr_id (fst x)) (stg_digest (snd x)) = []")
      case True
      then show ?thesis
        using Cons.prems(2) 3 rest remove [OF P1] by (auto simp: Let_def split: option.splits)
    next
      case False
      then show ?thesis using Cons.prems(2) 3 rest [OF P1] by (auto simp: Let_def)
    qed
  qed
qed

lemma set_leftovers:
  "x \<in> set (leftovers repos st) \<Longrightarrow> fst x \<in> set repos \<and> snd x \<in> set (sr_manifests (fst x)) \<and>
     tagsOf repos st (sr_id (fst x)) (sm_digest (snd x)) = []"
  by (auto simp: leftovers_def)

lemma set_scope_tags: "x \<in> set (scope_tags lc repos) \<Longrightarrow> fst x \<in> set repos \<and> snd x \<in> set (sr_tags (fst x))"
  by (auto simp: scope_tags_def)

text \<open>The proof rule for plans: an invariant of the two kinds of removal holds of the final state.\<close>

lemma plan_final_state:
  assumes wf: "scope_wf repos rank bound"
    and init: "P (initial_state repos)"
    and drop: "\<And>repo m reason st. repo \<in> set repos \<Longrightarrow> m \<in> set (repo_manifests repos (sr_id repo)) \<Longrightarrow>
        isLive st (sr_id repo) (sm_digest m) \<Longrightarrow> G repo (sm_digest m) \<Longrightarrow> P st \<Longrightarrow> P (drop_manifest repo m reason st)"
    and attached: "\<And>repo m. repo \<in> set repos \<Longrightarrow> m \<in> set (repo_manifests repos (sr_id repo)) \<Longrightarrow>
        sm_subjectDigest m \<noteq> None \<Longrightarrow> G repo (sm_digest m)"
    and untagged: "\<And>repo st d. repo \<in> set repos \<Longrightarrow> P st \<Longrightarrow> tagsOf repos st (sr_id repo) d = [] \<Longrightarrow> G repo d"
    and remtag: "\<And>repo t st. repo \<in> set repos \<Longrightarrow> t \<in> set (sr_tags repo) \<Longrightarrow>
        flag_protected (tagFlags (sr_rules repo) (stg_name t)) = None \<Longrightarrow> P st \<Longrightarrow> P (remove_tag repo t st)"
    and run: "planPruneToFit fuel lc repos limit = Some plan"
  shows "\<exists>st. P st \<and> pp_steps plan = steps st \<and> pp_afterBytes plan = usage repos st"
proof (cases "usage repos (initial_state repos) \<le> limit")
  case True
  then have "pp_steps plan = [] \<and> pp_afterBytes plan = usage repos (initial_state repos)"
    using run by (auto simp: planPruneToFit_def Let_def)
  moreover have "steps (initial_state repos) = []" by (simp add: initial_state_def)
  ultimately show ?thesis using init by (intro exI [of _ "initial_state repos"]) simp
next
  case False
  let ?st0 = "initial_state repos"
  obtain st1 st2 where st1: "leftover_loop fuel repos limit (leftovers repos ?st0) ?st0 = Some st1"
    and st2: "tag_loop fuel repos limit (scope_tags lc repos) st1 = Some st2"
    and plan: "pp_steps plan = steps st2" "pp_afterBytes plan = usage repos st2"
    using run False by (auto simp: planPruneToFit_def Let_def split: option.splits)
  have remove: "P st'" if "repo \<in> set repos" "P st" "G repo d"
      "removeManifest fuel repos repo d reason st = Some st'" for repo st st' d reason
    by (rule removeManifest_keeps [OF wf, where G = "G repo" and P = P, OF _ _ _ that(4,2,3)])
      (use that(1) drop attached untagged manifestOf_SomeD in blast)+
  have "P st1"
    by (rule leftover_loop_keeps [where P = P, OF _ init st1]) (use remove untagged [OF _ init] set_leftovers in blast)
  then have "P st2"
    by (rule tag_loop_keeps [where P = P, OF _ _ _ st2, rotated 2])
      (use remtag set_scope_tags remove untagged in blast)+
  with plan show ?thesis by blast
qed

section \<open>The reference counts\<close>

definition blob_count :: "scope \<Rightarrow> prune_state \<Rightarrow> string \<Rightarrow> nat" where
  \<comment> \<open>how often live manifests reference a blob, counted from scratch\<close>
  "blob_count repos st b =
     sum_list (map (\<lambda>x. if isLive st (sr_id (fst x)) (sm_digest (snd x))
                         then count_list (map sb_digest (sm_blobs (snd x))) b else 0) (scope_pairs repos))"

definition books :: "scope \<Rightarrow> prune_state \<Rightarrow> bool" where
  "books repos st \<longleftrightarrow> distinct (map fst (blobRefs st)) \<and>
     (\<forall>b. nullish (map_of (blobRefs st) b) 0 = int (blob_count repos st b))"

abbreviation pair_key :: "scope_repository \<times> scope_manifest \<Rightarrow> string \<times> string" where
  "pair_key x \<equiv> (sr_id (fst x), sm_digest (snd x))"

lemma distinct_pairs:
  assumes "distinct (map sr_id repos)" and "\<And>r. r \<in> set repos \<Longrightarrow> distinct (map sm_digest (sr_manifests r))"
  shows "distinct (map pair_key (scope_pairs repos))"
  using assms
proof (induction repos)
  case Nil
  then show ?case by (simp add: scope_pairs_def)
next
  case (Cons r rs)
  have "distinct (map pair_key (map (Pair r) (sr_manifests r)))"
    using Cons.prems(2) [of r] by (simp add: comp_def distinct_map inj_on_def)
  moreover have "distinct (map pair_key (scope_pairs rs))" using Cons by simp
  moreover have "sr_id r \<notin> (\<lambda>x. sr_id (fst x)) ` set (scope_pairs rs)"
    using Cons.prems(1) by (auto simp: scope_pairs_def)
  ultimately show ?case by (auto simp: scope_pairs_def)
qed

lemma sum_list_drop_one:
  fixes f :: "'a \<Rightarrow> nat"
  assumes "distinct (map key xs)" and "x \<in> set xs" and "L x"
  shows "sum_list (map (\<lambda>y. if L y \<and> key y \<noteq> key x then f y else 0) xs) + f x
       = sum_list (map (\<lambda>y. if L y then f y else 0) xs)"
  using assms
proof (induction xs)
  case Nil
  then show ?case by simp
next
  case (Cons y ys)
  show ?case
  proof (cases "x = y")
    case True
    then have "\<forall>z \<in> set ys. key z \<noteq> key x" using Cons.prems(1) by (auto simp: image_iff)
    then have "sum_list (map (\<lambda>z. if L z \<and> key z \<noteq> key x then f z else 0) ys)
        = sum_list (map (\<lambda>z. if L z then f z else 0) ys)"
      by (intro arg_cong [where f = sum_list] map_cong) auto
    with True Cons.prems(3) show ?thesis by simp
  next
    case False
    then have "key y \<noteq> key x" using Cons.prems(1,2) by (auto simp: image_iff)
    with False Cons show ?thesis by simp
  qed
qed

lemma blob_count_drop:
  assumes wf: "scope_wf repos rank bound" and m: "m \<in> set (repo_manifests repos (sr_id repo))"
    and lv: "isLive st (sr_id repo) (sm_digest m)"
  shows "blob_count repos (drop_manifest repo m reason st) b + count_list (map sb_digest (sm_blobs m)) b
    = blob_count repos st b"
proof -
  obtain r where r: "sr_id r = sr_id repo" "(r, m) \<in> set (scope_pairs repos)"
    using repo_manifests_pair [OF m] by blast
  have "distinct (map pair_key (scope_pairs repos))"
    using wf by (intro distinct_pairs) (auto simp: scope_wf_def)
  from sum_list_drop_one [OF this r(2), of "\<lambda>x. isLive st (sr_id (fst x)) (sm_digest (snd x))"
      "\<lambda>x. count_list (map sb_digest (sm_blobs (snd x))) b"]
  show ?thesis using lv r(1) by (simp add: blob_count_def isLive_drop split_beta)
qed

lemma uncount_blobs:
  assumes "\<And>b. b \<in> set bs \<Longrightarrow> map_of m (sb_digest b) \<noteq> None"
  shows "nullish (map_of (fold uncount_blob bs m) k) 0
      = nullish (map_of m k) 0 - int (count_list (map sb_digest bs) k)"
  using assms
proof (induction bs arbitrary: m)
  case Nil
  then show ?case by simp
next
  case (Cons b bs)
  have "map_of (uncount_blob b m) (sb_digest b') \<noteq> None" if "b' \<in> set bs" for b'
    using Cons.prems [of b'] that by (simp add: uncount_blob_def)
  from Cons.IH [OF this] Cons.prems [of b] show ?case by (auto simp: uncount_blob_def)
qed

lemma distinct_keys_uncount: "distinct (map fst m) \<Longrightarrow> distinct (map fst (fold uncount_blob bs m))"
  by (induction bs arbitrary: m) (auto simp: uncount_blob_def distinct_update)

lemma books_drop:
  assumes wf: "scope_wf repos rank bound" and m: "m \<in> set (repo_manifests repos (sr_id repo))"
    and lv: "isLive st (sr_id repo) (sm_digest m)" and bk: "books repos st"
  shows "books repos (drop_manifest repo m reason st)"
proof -
  have key: "map_of (blobRefs st) (sb_digest b) \<noteq> None" if "b \<in> set (sm_blobs m)" for b
  proof
    assume "map_of (blobRefs st) (sb_digest b) = None"
    moreover have "nullish (map_of (blobRefs st) (sb_digest b)) 0 = int (blob_count repos st (sb_digest b))"
      using bk by (simp add: books_def)
    ultimately have "blob_count repos st (sb_digest b) = 0" by simp
    then have "count_list (map sb_digest (sm_blobs m)) (sb_digest b) = 0"
      using blob_count_drop [OF wf m lv] by (metis add_is_0)
    with that show False by (simp add: count_list_0_iff)
  qed
  have "nullish (map_of (fold uncount_blob (sm_blobs m) (blobRefs st)) b) 0
      = int (blob_count repos (drop_manifest repo m reason st) b)" for b
    using uncount_blobs [OF key, where k = b] bk blob_count_drop [OF wf m lv, of reason b] by (simp add: books_def)
  then show ?thesis using bk by (simp add: books_def distinct_keys_uncount)
qed

lemma books_remove_tag: "books repos (remove_tag repo t st) = books repos st"
  by (simp add: books_def blob_count_def remove_tag_def push_step_def add_removed_def isLive_def)

lemma count_blobs:
  "nullish (map_of (fold count_blob bs m) k) 0 = nullish (map_of m k) 0 + int (count_list (map sb_digest bs) k)"
  by (induction bs arbitrary: m) (auto simp: count_blob_def)

lemma distinct_keys_count: "distinct (map fst m) \<Longrightarrow> distinct (map fst (fold count_blob bs m))"
  by (induction bs arbitrary: m) (auto simp: count_blob_def distinct_update)

lemma fold_update_other:
  "k \<notin> key ` set xs \<Longrightarrow> map_of (fold (\<lambda>x m. AList.update (key x) (val x) m) xs m) k = map_of m k"
  by (induction xs arbitrary: m) auto

lemma fold_update_lookup:
  "distinct (map key xs) \<Longrightarrow> x \<in> set xs \<Longrightarrow>
     map_of (fold (\<lambda>x m. AList.update (key x) (val x) m) xs m) (key x) = Some (val x)"
proof (induction xs arbitrary: m)
  case Nil
  then show ?case by simp
next
  case (Cons y ys)
  then show ?case
    using fold_update_other [of "key y" key ys val "AList.update (key y) (val y) m"] by auto
qed

lemma initial_live:
  assumes "scope_wf repos rank bound" and "(r, m) \<in> set (scope_pairs repos)"
  shows "isLive (initial_state repos) (sr_id r) (sm_digest m)"
proof -
  have "map_of (live (initial_state repos)) (sr_id r) = Some (uniq (map sm_digest (sr_manifests r)))"
    using assms fold_update_lookup [of sr_id repos r "\<lambda>r. uniq (map sm_digest (sr_manifests r))" "[]"]
    by (simp add: initial_state_def scope_wf_def set_scope_pairs)
  then show ?thesis using assms(2) by (simp add: isLive_def set_scope_pairs)
qed

lemma count_list_concat: "count_list (concat xss) x = sum_list (map (\<lambda>xs. count_list xs x) xss)"
  by (induction xss) auto

lemma scope_blobs_pairs: "scope_blobs repos = concat (map (\<lambda>x. sm_blobs (snd x)) (scope_pairs repos))"
  by (induction repos) (auto simp: scope_blobs_def scope_pairs_def comp_def)

lemma books_initial:
  assumes "scope_wf repos rank bound"
  shows "books repos (initial_state repos)"
proof -
  have "blob_count repos (initial_state repos) b = count_list (map sb_digest (scope_blobs repos)) b" for b
  proof -
    have "blob_count repos (initial_state repos) b
        = sum_list (map (\<lambda>x. count_list (map sb_digest (sm_blobs (snd x))) b) (scope_pairs repos))"
      unfolding blob_count_def
      by (rule arg_cong [where f = sum_list], rule map_cong) (auto dest: initial_live [OF assms])
    then show ?thesis by (simp add: scope_blobs_pairs map_concat count_list_concat comp_def)
  qed
  then show ?thesis
    by (simp add: books_def initial_state_def count_blobs distinct_keys_count)
qed

text \<open>The specification of the byte counts: the distinct blobs of the chosen manifests.\<close>

definition blobs_of :: "scope \<Rightarrow> (scope_repository \<times> scope_manifest \<Rightarrow> bool) \<Rightarrow> scope_blob list" where
  "blobs_of repos alive = concat (map (\<lambda>x. sm_blobs (snd x)) (filter alive (scope_pairs repos)))"

definition scope_bytes :: "scope \<Rightarrow> (scope_repository \<times> scope_manifest \<Rightarrow> bool) \<Rightarrow> int" where
  "scope_bytes repos alive = sum_list (map sb_size (remdups (blobs_of repos alive)))"

abbreviation alive_in :: "prune_state \<Rightarrow> scope_repository \<times> scope_manifest \<Rightarrow> bool" where
  "alive_in st x \<equiv> isLive st (sr_id (fst x)) (sm_digest (snd x))"

lemma fold_update_find:
  "map_of (fold (\<lambda>x m. AList.update (key x) (val x) m) xs m) k =
     (case find (\<lambda>x. key x = k) (rev xs) of Some x \<Rightarrow> Some (val x) | None \<Rightarrow> map_of m k)"
proof (induction xs arbitrary: m)
  case Nil
  then show ?case by simp
next
  case (Cons y ys)
  show ?case by (simp add: Cons.IH find_append split: option.split)
qed

lemma blobSize_lookup:
  assumes "scope_wf repos rank bound" and "b \<in> set (scope_blobs repos)"
  shows "map_of (blobSize repos) (sb_digest b) = Some (sb_size b)"
proof (cases "find (\<lambda>x. sb_digest x = sb_digest b) (rev (scope_blobs repos))")
  case None
  then have False using find_NoneD [OF None, of b] assms(2) by simp
  then show ?thesis ..
next
  case (Some b')
  then have "b' \<in> set (scope_blobs repos) \<and> sb_digest b' = sb_digest b"
    using find_SomeD [OF Some] by simp
  then have "sb_size b' = sb_size b" using assms unfolding scope_wf_def by blast
  with Some show ?thesis by (simp add: blobSize_def fold_update_find)
qed

lemma sum_list_pos: "0 < sum_list (map f xs) \<longleftrightarrow> (\<exists>x \<in> set xs. 0 < f x)" for f :: "'a \<Rightarrow> nat"
  by (induction xs) auto

lemma count_list_pos: "0 < count_list xs x \<longleftrightarrow> x \<in> set xs"
  by (induction xs) auto

lemma blob_count_pos: "0 < blob_count repos st k \<longleftrightarrow> k \<in> sb_digest ` set (blobs_of repos (alive_in st))"
proof -
  have "0 < blob_count repos st k \<longleftrightarrow>
      (\<exists>x \<in> set (scope_pairs repos). alive_in st x \<and> k \<in> sb_digest ` set (sm_blobs (snd x)))"
    by (simp add: blob_count_def sum_list_pos count_list_pos del: sum_list_eq_0_iff cong: conj_cong)
      (auto simp: count_list_pos split: if_splits)
  then show ?thesis by (auto simp: blobs_of_def)
qed

lemma blobs_of_scope: "b \<in> set (blobs_of repos alive) \<Longrightarrow> b \<in> set (scope_blobs repos)"
  by (force simp: scope_blobs_pairs blobs_of_def)

lemma usage_books:
  assumes wf: "scope_wf repos rank bound" and bk: "books repos st"
  shows "usage repos st = scope_bytes repos (alive_in st)"
proof -
  let ?size = "\<lambda>k. nullish (map_of (blobSize repos) k) 0"
  let ?B = "set (blobs_of repos (alive_in st))"
  have refs: "distinct (blobRefs st)" using bk by (simp add: books_def distinct_map)
  have key: "(k, n) \<in> set (blobRefs st) \<longleftrightarrow> map_of (blobRefs st) k = Some n" for k n
    using bk by (simp add: books_def)
  have "usage repos st = (\<Sum>(k, n) \<in> set (blobRefs st). if 0 < n then ?size k else 0)"
    by (simp add: usage_def sum_list_distinct_conv_sum_set [OF refs])
  also have "\<dots> = (\<Sum>(k, n) \<in> {x \<in> set (blobRefs st). 0 < snd x}. ?size k)"
    by (rule sum.mono_neutral_cong_right) (auto split: if_splits)
  also have "\<dots> = (\<Sum>k \<in> fst ` {x \<in> set (blobRefs st). 0 < snd x}. ?size k)"
    using bk by (subst sum.reindex) (auto simp: books_def split_beta inj_on_def dest!: key [THEN iffD1])
  also have "fst ` {x \<in> set (blobRefs st). 0 < snd x} = {k. 0 < blob_count repos st k}"
  proof -
    have "0 < blob_count repos st k \<longleftrightarrow> (\<exists>n. map_of (blobRefs st) k = Some n \<and> 0 < n)" for k
    proof -
      have "nullish (map_of (blobRefs st) k) 0 = int (blob_count repos st k)" using bk by (simp add: books_def)
      then show ?thesis by (cases "map_of (blobRefs st) k") auto
    qed
    moreover have "k \<in> fst ` {x \<in> set (blobRefs st). 0 < snd x} \<longleftrightarrow>
        (\<exists>n. map_of (blobRefs st) k = Some n \<and> 0 < n)" for k
      using key by (auto simp: image_iff) 
    ultimately show ?thesis by blast
  qed
  also have "{k. 0 < blob_count repos st k} = sb_digest ` ?B"
    using blob_count_pos by blast
  also have "(\<Sum>k \<in> sb_digest ` ?B. ?size k) = (\<Sum>b \<in> ?B. ?size (sb_digest b))"
  proof (rule sum.reindex_cong [OF _ refl refl])
    show "inj_on sb_digest ?B"
    proof (rule inj_onI)
      fix b b' assume "b \<in> ?B" "b' \<in> ?B" "sb_digest b = sb_digest b'"
      moreover then have "sb_size b = sb_size b'"
        using wf blobs_of_scope unfolding scope_wf_def by blast
      ultimately show "b = b'" by simp
    qed
  qed
  also have "\<dots> = (\<Sum>b \<in> ?B. sb_size b)"
    by (rule sum.cong [OF refl]) (use blobSize_lookup [OF wf blobs_of_scope] in simp)
  also have "\<dots> = scope_bytes repos (alive_in st)"
    by (simp add: scope_bytes_def sum_list_distinct_conv_sum_set)
  finally show ?thesis .
qed

section \<open>Steps and what is left\<close>

definition removed_manifests :: "prune_step list \<Rightarrow> (string \<times> string) list" where
  "removed_manifests ss = map (\<lambda>s. (ps_repositoryId s, ps_ref s)) (filter (\<lambda>s. ps_kind s = StepManifest) ss)"

definition removed_tags :: "prune_step list \<Rightarrow> (string \<times> string) list" where
  "removed_tags ss = map (\<lambda>s. (ps_repositoryId s, ps_ref s)) (filter (\<lambda>s. ps_kind s = StepTag) ss)"

lemma removed_append [simp]:
  "removed_manifests (ss @ [s]) = removed_manifests ss @ (if ps_kind s = StepManifest then [(ps_repositoryId s, ps_ref s)] else [])"
  "removed_tags (ss @ [s]) = removed_tags ss @ (if ps_kind s = StepTag then [(ps_repositoryId s, ps_ref s)] else [])"
  by (simp_all add: removed_manifests_def removed_tags_def)

definition ledger :: "scope \<Rightarrow> prune_state \<Rightarrow> bool" where
  "ledger repos st \<longleftrightarrow>
     (\<forall>x \<in> set (scope_pairs repos). alive_in st x \<longleftrightarrow> pair_key x \<notin> set (removed_manifests (steps st))) \<and>
     distinct (removed_manifests (steps st)) \<and>
     (\<forall>rid name. tag_removed st rid name \<longleftrightarrow> (rid, name) \<in> set (removed_tags (steps st)))"

lemma ledger_initial: "scope_wf repos rank bound \<Longrightarrow> ledger repos (initial_state repos)"
  using initial_live [of repos rank bound]
  by (auto simp: ledger_def removed_manifests_def removed_tags_def tag_removed_def)
     (auto simp: initial_state_def)

lemma tag_removed_remove_tag:
  "tag_removed (remove_tag repo t st) rid name \<longleftrightarrow> tag_removed st rid name \<or> (rid, name) = (sr_id repo, stg_name t)"
  by (auto simp: tag_removed_def remove_tag_def push_step_def add_removed_def split: option.splits)

lemma remove_tag_simps [simp]:
  "isLive (remove_tag repo t st) = isLive st"
  "removed_manifests (steps (remove_tag repo t st)) = removed_manifests (steps st)"
  "removed_tags (steps (remove_tag repo t st)) = removed_tags (steps st) @ [(sr_id repo, stg_name t)]"
  by (auto simp: remove_tag_def push_step_def add_removed_def isLive_def fun_eq_iff)

lemma ledger_remove_tag: "ledger repos st \<Longrightarrow> ledger repos (remove_tag repo t st)"
  by (auto simp: ledger_def tag_removed_remove_tag)

lemma tag_removed_drop [simp]: "tag_removed (drop_manifest repo m reason st) = tag_removed st"
  by (simp add: tag_removed_def fun_eq_iff)

lemma ledger_drop:
  assumes "m \<in> set (repo_manifests repos (sr_id repo))" and "isLive st (sr_id repo) (sm_digest m)"
    and "ledger repos st"
  shows "ledger repos (drop_manifest repo m reason st)"
proof -
  obtain r where "sr_id r = sr_id repo" "(r, m) \<in> set (scope_pairs repos)"
    using repo_manifests_pair [OF assms(1)] by blast
  then have "(sr_id repo, sm_digest m) \<notin> set (removed_manifests (steps st))"
    using assms(2,3) unfolding ledger_def by fastforce
  then show ?thesis using assms(3) by (auto simp: ledger_def isLive_drop)
qed

definition unprotected :: "scope_repository \<Rightarrow> string \<Rightarrow> bool" where
  "unprotected repo name \<longleftrightarrow> flag_protected (tagFlags (sr_rules repo) name) = None"

definition protection :: "scope \<Rightarrow> prune_state \<Rightarrow> bool" where
  "protection repos st \<longleftrightarrow>
     (\<forall>r \<in> set repos. \<forall>name. (sr_id r, name) \<in> set (removed_tags (steps st)) \<longrightarrow> unprotected r name) \<and>
     (\<forall>r \<in> set repos. \<forall>t \<in> set (sr_tags r). (sr_id r, stg_digest t) \<in> set (removed_manifests (steps st)) \<longrightarrow>
        unprotected r (stg_name t))"

lemma tagsOf_self:
  "distinct (map sr_id repos) \<Longrightarrow> repo \<in> set repos \<Longrightarrow> t \<in> set (sr_tags repo) \<Longrightarrow>
     tagsOf repos st (sr_id repo) (stg_digest t) = [] \<Longrightarrow> tag_removed st (sr_id repo) (stg_name t)"
  by (auto simp: tagsOf_def byRepo_self filter_empty_conv)

section \<open>The loops return\<close>

lemma removeManifest_live_bound:
  assumes wf: "scope_wf repos rank bound" and "removeManifest fuel repos repo d reason st = Some st'"
    and "\<forall>rid. length (live_list st rid) \<le> n"
  shows "\<forall>rid. length (live_list st' rid) \<le> n"
  by (rule removeManifest_keeps [OF wf, where P = "\<lambda>s. \<forall>rid. length (live_list s rid) \<le> n" and G = "\<lambda>_. True",
        OF _ _ _ assms(2)])
    (use assms(3) in \<open>auto intro: length_removeAll_less_eq [THEN le_trans]\<close>)

lemma removeManifest_returns_bound:
  assumes wf: "scope_wf repos rank bound" and "Suc n * Suc bound \<le> fuel"
    and "\<forall>rid. length (live_list st rid) \<le> n"
  shows "\<exists>st'. removeManifest fuel repos repo d reason st = Some st' \<and> (\<forall>rid. length (live_list st' rid) \<le> n)"
proof -
  have "length (live_list st (sr_id repo)) * Suc bound \<le> n * Suc bound" using assms(3) by (intro mult_le_mono1) blast
  moreover have "rank d \<le> bound" using wf by (simp add: scope_wf_def)
  ultimately have "length (live_list st (sr_id repo)) * Suc bound + rank d < fuel" using assms(2) by simp
  from removeManifest_returns [OF wf this] removeManifest_live_bound [OF wf _ assms(3)] show ?thesis by blast
qed

lemma leftover_loop_returns:
  assumes wf: "scope_wf repos rank bound" and fuel: "Suc n * Suc bound \<le> fuel"
  shows "\<forall>rid. length (live_list st rid) \<le> n \<Longrightarrow>
    \<exists>st'. leftover_loop fuel repos limit xs st = Some st' \<and> (\<forall>rid. length (live_list st' rid) \<le> n)"
proof (induction xs arbitrary: st)
  case Nil
  then show ?case by simp
next
  case (Cons x xs)
  let ?reason = "''untagged since '' @ iso_date (sm_pushedAt (snd x)) @ '', oldest first to fit the storage limit''"
  obtain st1 where st1: "removeManifest fuel repos (fst x) (sm_digest (snd x)) ?reason st = Some st1"
    "\<forall>rid. length (live_list st1 rid) \<le> n"
    using removeManifest_returns_bound [OF wf fuel Cons.prems] by blast
  show ?case using Cons.IH [OF st1(2)] Cons.IH [OF Cons.prems] Cons.prems st1(1) by auto
qed

lemma live_list_remove_tag [simp]: "live_list (remove_tag repo t st) = live_list st"
  by (simp add: live_list_def remove_tag_def push_step_def add_removed_def fun_eq_iff)

lemma tag_loop_returns:
  assumes wf: "scope_wf repos rank bound" and fuel: "Suc n * Suc bound \<le> fuel"
  shows "\<forall>rid. length (live_list st rid) \<le> n \<Longrightarrow> \<exists>st'. tag_loop fuel repos limit xs st = Some st'"
proof (induction xs arbitrary: st)
  case Nil
  then show ?case by simp
next
  case (Cons x xs)
  let ?st1 = "remove_tag (fst x) (snd x) st" and ?reason = "''its last tag '' @ stg_name (snd x) @ '' is removed''"
  have b1: "\<forall>rid. length (live_list ?st1 rid) \<le> n" using Cons.prems by simp
  obtain st2 where "removeManifest fuel repos (fst x) (stg_digest (snd x)) ?reason ?st1 = Some st2"
    "\<forall>rid. length (live_list st2 rid) \<le> n"
    using removeManifest_returns_bound [OF wf fuel b1] by blast
  with Cons.IH [of st2] Cons.IH [OF b1] Cons.IH [OF Cons.prems] show ?case by (auto simp: Let_def)
qed

lemma initial_live_bound: "length (live_list (initial_state repos) rid) \<le> length (scope_pairs repos)"
proof -
  have "length (uniq xs) \<le> length xs" for xs :: "string list" 
    using length_remdups_leq [of "rev xs"] by (simp add: uniq_def)
  moreover have "r \<in> set repos \<Longrightarrow> length (sr_manifests r) \<le> length (scope_pairs repos)" for r
    by (simp add: scope_pairs_def length_concat comp_def member_le_sum_list)
  ultimately have "r \<in> set repos \<Longrightarrow> length (uniq (map sm_digest (sr_manifests r))) \<le> length (scope_pairs repos)" for r
    by (metis le_trans length_map)
  then show ?thesis
    by (auto simp: live_list_def initial_state_def fold_update_find split: option.splits dest!: find_SomeD)
qed

lemma planPruneToFit_returns:
  assumes wf: "scope_wf repos rank bound" and "Suc (length (scope_pairs repos)) * Suc bound \<le> fuel"
  shows "\<exists>plan. planPruneToFit fuel lc repos limit = Some plan"
proof -
  let ?st0 = "initial_state repos"
  obtain st1 where st1: "leftover_loop fuel repos limit (leftovers repos ?st0) ?st0 = Some st1"
    "\<forall>rid. length (live_list st1 rid) \<le> length (scope_pairs repos)"
    using leftover_loop_returns [OF assms] initial_live_bound by blast
  then show ?thesis
    using tag_loop_returns [OF assms st1(2), of limit "scope_tags lc repos"]
    by (auto simp: planPruneToFit_def Let_def)
qed

section \<open>What is left when the limit is not met\<close>

lemma removeManifest_tag_removed:
  assumes wf: "scope_wf repos rank bound" and "removeManifest fuel repos repo d reason st = Some st'"
    and "tag_removed st rid name"
  shows "tag_removed st' rid name"
  by (rule removeManifest_keeps [OF wf, where P = "\<lambda>s. tag_removed s rid name" and G = "\<lambda>_. True",
        OF _ _ _ assms(2)]) (use assms(3) in auto)

lemma tag_loop_removed_mono:
  assumes wf: "scope_wf repos rank bound" and "tag_loop fuel repos limit xs st = Some st'"
    and "tag_removed st rid name"
  shows "tag_removed st' rid name"
  by (rule tag_loop_keeps [where P = "\<lambda>s. tag_removed s rid name", OF _ _ assms(3,2)])
    (auto simp: tag_removed_remove_tag intro: removeManifest_tag_removed [OF wf])

definition held_back :: "scope_repository \<Rightarrow> string \<Rightarrow> bool" where
  \<comment> \<open>a protected tag of the repository names the image\<close>
  "held_back repo digest \<longleftrightarrow> (\<exists>t \<in> set (sr_tags repo). stg_digest t = digest \<and> \<not> unprotected repo (stg_name t))"

lemma isProtected_held_back:
  "distinct (map sr_id repos) \<Longrightarrow> repo \<in> set repos \<Longrightarrow> isProtected repos st repo d \<Longrightarrow> held_back repo d"
  by (auto simp: isProtected_def tagsOf_def byRepo_self held_back_def unprotected_def list_ex_iff)

lemma tag_loop_complete:
  assumes wf: "scope_wf repos rank bound"
  shows "tag_loop fuel repos limit xs st = Some st' \<Longrightarrow> limit < usage repos st' \<Longrightarrow> x \<in> set xs \<Longrightarrow>
    fst x \<in> set repos \<Longrightarrow> snd x \<in> set (sr_tags (fst x)) \<Longrightarrow>
    tag_removed st' (sr_id (fst x)) (stg_name (snd x)) \<or> held_back (fst x) (stg_digest (snd x))"
proof (induction xs arbitrary: st)
  case Nil
  then show ?case by simp
next
  case (Cons y ys)
  let ?st1 = "remove_tag (fst y) (snd y) st"
  have over: "\<not> usage repos st \<le> limit" using Cons.prems(1,2) by (auto simp: Let_def split: if_splits)
  have dist: "distinct (map sr_id repos)" using wf by (simp add: scope_wf_def)
  obtain s where s: "tag_loop fuel repos limit ys s = Some st'" and
    cases: "s = st \<and> (tag_removed st (sr_id (fst y)) (stg_name (snd y)) \<or> \<not> unprotected (fst y) (stg_name (snd y)) \<or>
        isProtected repos st (fst y) (stg_digest (snd y))) \<or>
      tag_removed s (sr_id (fst y)) (stg_name (snd y))"
    using Cons.prems(1) over tag_removed_remove_tag [of "fst y" "snd y" st]
      removeManifest_tag_removed [OF wf, of fuel "fst y" _ _ ?st1 _ "sr_id (fst y)" "stg_name (snd y)"]
    by (auto simp: Let_def unprotected_def split: if_splits option.splits)
  show ?case
  proof (cases "x = y")
    case True
    then show ?thesis
      using cases tag_loop_removed_mono [OF wf s] isProtected_held_back [OF dist Cons.prems(4)] Cons.prems(5)
      by (auto simp: held_back_def)
  next
    case False
    then show ?thesis using Cons.IH [OF s] Cons.prems by simp
  qed
qed

section \<open>Properties\<close>

text \<open>
  C13. On a well-formed scope the planner returns (the fuel named suffices for every limit and
  order), and its figures are what counting from scratch gives: the bytes before are the
  distinct blobs of all manifests, the bytes after those of the manifests no step removes;
  the plan is flagged unmet exactly when these exceed the limit; no manifest is removed
  twice; and a scope within its limit is left alone.
\<close>

theorem planPruneToFit_accounts:
  assumes wf: "scope_wf repos rank bound" and fuel: "Suc (length (scope_pairs repos)) * Suc bound \<le> fuel"
  shows "\<exists>plan. planPruneToFit fuel lc repos limit = Some plan \<and>
    pp_beforeBytes plan = scope_bytes repos (\<lambda>_. True) \<and>
    pp_afterBytes plan = scope_bytes repos (\<lambda>x. pair_key x \<notin> set (removed_manifests (pp_steps plan))) \<and>
    pp_unmet plan = (limit < pp_afterBytes plan) \<and>
    distinct (removed_manifests (pp_steps plan)) \<and>
    (pp_beforeBytes plan \<le> limit \<longrightarrow> pp_steps plan = [])"
proof -
  obtain plan where plan: "planPruneToFit fuel lc repos limit = Some plan"
    using planPruneToFit_returns [OF wf fuel] by blast
  have "\<exists>st. (books repos st \<and> ledger repos st) \<and> pp_steps plan = steps st \<and> pp_afterBytes plan = usage repos st"
    by (rule plan_final_state [OF wf, where P = "\<lambda>s. books repos s \<and> ledger repos s" and G = "\<lambda>_ _. True", OF _ _ _ _ _ plan])
      (auto simp: books_initial [OF wf] ledger_initial [OF wf] books_remove_tag
        intro: books_drop [OF wf] ledger_drop ledger_remove_tag)
  then obtain st where st: "books repos st" "ledger repos st" "pp_steps plan = steps st"
    "pp_afterBytes plan = usage repos st" by blast
  have cong: "scope_bytes repos P = scope_bytes repos Q" if "\<And>x. x \<in> set (scope_pairs repos) \<Longrightarrow> P x = Q x" for P Q
    using that by (simp add: scope_bytes_def blobs_of_def cong: filter_cong)
  have "pp_beforeBytes plan = usage repos (initial_state repos)"
    using plan by (auto simp: planPruneToFit_def Let_def split: option.splits if_splits)
  moreover have "usage repos (initial_state repos) = scope_bytes repos (\<lambda>_. True)"
    unfolding usage_books [OF wf books_initial [OF wf]] by (rule cong) (use initial_live [OF wf] in auto)
  moreover have "pp_afterBytes plan = scope_bytes repos (\<lambda>x. pair_key x \<notin> set (removed_manifests (pp_steps plan)))"
    unfolding st(3,4) usage_books [OF wf st(1)] by (rule cong) (use st(2) in \<open>simp add: ledger_def\<close>)
  moreover have "pp_unmet plan = (limit < pp_afterBytes plan) \<and> (pp_beforeBytes plan \<le> limit \<longrightarrow> pp_steps plan = [])"
    using plan by (auto simp: planPruneToFit_def Let_def split: option.splits if_splits)
  moreover have "distinct (removed_manifests (pp_steps plan))" using st(2,3) by (simp add: ledger_def)
  ultimately show ?thesis using plan by simp
qed

definition example_scope :: scope where
  \<comment> \<open>two tagged images sharing a blob, the older one signed\<close>
  "example_scope = [\<lparr>sr_id = ''r'', sr_path = ''acme/app'',
     sr_manifests = [
       \<lparr>sm_digest = ''a'', sm_pushedAt = 0, sm_subjectDigest = None,
        sm_blobs = [\<lparr>sb_digest = ''x'', sb_size = 10\<rparr>, \<lparr>sb_digest = ''y'', sb_size = 5\<rparr>], sm_children = []\<rparr>,
       \<lparr>sm_digest = ''s'', sm_pushedAt = 1, sm_subjectDigest = Some ''a'',
        sm_blobs = [\<lparr>sb_digest = ''z'', sb_size = 1\<rparr>], sm_children = []\<rparr>,
       \<lparr>sm_digest = ''b'', sm_pushedAt = 2, sm_subjectDigest = None,
        sm_blobs = [\<lparr>sb_digest = ''x'', sb_size = 10\<rparr>], sm_children = []\<rparr>],
     sr_tags = [\<lparr>stg_name = ''v1'', stg_digest = ''a'', stg_pushedAt = 0\<rparr>,
                \<lparr>stg_name = ''v2'', stg_digest = ''b'', stg_pushedAt = 2\<rparr>],
     sr_rules = []\<rparr>]"

definition example_rank :: "string \<Rightarrow> nat" where
  "example_rank d = (if d = ''a'' then 1 else 0)"

lemma example_scope_wf: "scope_wf example_scope example_rank 1"
  by (simp add: scope_wf_def example_scope_def example_rank_def scope_pairs_def scope_blobs_def)

theorem planPruneToFit_accounts_witness:
  "\<exists>plan. planPruneToFit 8 code_unit_compare example_scope 12 = Some plan \<and> pp_beforeBytes plan = 16 \<and>
     distinct (removed_manifests (pp_steps plan))"
proof -
  have "Suc (length (scope_pairs example_scope)) * Suc 1 \<le> 8" by code_simp
  moreover have "scope_bytes example_scope (\<lambda>_. True) = 16" by code_simp
  ultimately show ?thesis
    using planPruneToFit_accounts [OF example_scope_wf, of 8 code_unit_compare 12] by fastforce
qed



text \<open>
  When the plan does not meet the limit it is because of protected tags: every tag of the
  scope is removed by the plan or names an image that a protected tag names.
\<close>

theorem planPruneToFit_unmet:
  assumes wf: "scope_wf repos rank bound" and plan: "planPruneToFit fuel lc repos limit = Some plan"
    and "pp_unmet plan" and "r \<in> set repos" and "t \<in> set (sr_tags r)"
  shows "(sr_id r, stg_name t) \<in> set (removed_tags (pp_steps plan)) \<or> held_back r (stg_digest t)"
proof -
  obtain st1 st2 where st1: "leftover_loop fuel repos limit (leftovers repos (initial_state repos)) (initial_state repos) = Some st1"
    and st2: "tag_loop fuel repos limit (scope_tags lc repos) st1 = Some st2"
    and steps: "pp_steps plan = steps st2" and over: "limit < usage repos st2"
    using plan assms(3) by (auto simp: planPruneToFit_def Let_def split: option.splits if_splits)
  have remove: "ledger repos s'" if "ledger repos s" "removeManifest fuel repos repo d reason s = Some s'" for s s' repo d reason
    by (rule removeManifest_keeps [OF wf, where P = "ledger repos" and G = "\<lambda>_. True", OF _ _ _ that(2,1)])
      (auto intro: ledger_drop dest: manifestOf_SomeD)
  have "ledger repos st1"
    by (rule leftover_loop_keeps [where P = "ledger repos", OF _ ledger_initial [OF wf] st1]) (rule remove)
  then have "ledger repos st2"
    by (rule tag_loop_keeps [where P = "ledger repos", OF _ _ _ st2, rotated 2]) (auto intro: remove ledger_remove_tag)
  moreover have "(r, t) \<in> set (scope_tags lc repos)" using assms(4,5) by (auto simp: scope_tags_def)
  ultimately show ?thesis
    using tag_loop_complete [OF wf st2 over, of "(r, t)"] assms(4,5) by (auto simp: ledger_def steps)
qed

theorem planPruneToFit_unmet_witness:
  "(''r'', ''v1'') \<in> set (removed_tags (pp_steps (the (planPruneToFit 8 code_unit_compare example_scope (-1)))))"
proof -
  have "case planPruneToFit 8 code_unit_compare example_scope (-1) of Some plan \<Rightarrow> pp_unmet plan | None \<Rightarrow> False"
    by code_simp
  then obtain plan where plan: "planPruneToFit 8 code_unit_compare example_scope (-1) = Some plan" "pp_unmet plan"
    by (auto split: option.splits)
  have "\<not> held_back (hd example_scope) ''a''" by code_simp
  with planPruneToFit_unmet [OF example_scope_wf plan, of "hd example_scope" "hd (sr_tags (hd example_scope))"] plan(1)
  show ?thesis by (auto simp: example_scope_def)
qed

definition nested_scope :: scope where
  \<comment> \<open>\<open>s\<close> is attached to \<open>a\<close>; the index \<open>i\<close> is attached to \<open>s\<close> and lists it; \<open>k\<close> shares the blob of \<open>s\<close>\<close>
  "nested_scope = [\<lparr>sr_id = ''r'', sr_path = ''acme/app'',
     sr_manifests = [
       \<lparr>sm_digest = ''a'', sm_pushedAt = 0, sm_subjectDigest = None,
        sm_blobs = [\<lparr>sb_digest = ''x'', sb_size = 10\<rparr>], sm_children = []\<rparr>,
       \<lparr>sm_digest = ''s'', sm_pushedAt = 1, sm_subjectDigest = Some ''a'',
        sm_blobs = [\<lparr>sb_digest = ''y'', sb_size = 5\<rparr>], sm_children = []\<rparr>,
       \<lparr>sm_digest = ''i'', sm_pushedAt = 2, sm_subjectDigest = Some ''s'',
        sm_blobs = [], sm_children = [''s'']\<rparr>,
       \<lparr>sm_digest = ''k'', sm_pushedAt = 3, sm_subjectDigest = None,
        sm_blobs = [\<lparr>sb_digest = ''y'', sb_size = 5\<rparr>], sm_children = []\<rparr>],
     sr_tags = [\<lparr>stg_name = ''v2'', stg_digest = ''k'', stg_pushedAt = 3\<rparr>],
     sr_rules = []\<rparr>]"

text \<open>
  The hypothesis on attached manifests cannot be dropped: when an index is attached to a
  manifest it also lists, and that manifest is itself attached to the image being pruned,
  the planner removes the manifest twice and uncounts its blobs twice, so that it reports
  fewer bytes than the remaining images hold.
\<close>

theorem planPruneToFit_double_removal:
  "case planPruneToFit 20 code_unit_compare nested_scope 12 of
     Some plan \<Rightarrow> \<not> distinct (removed_manifests (pp_steps plan)) \<and> pp_afterBytes plan = 0 \<and>
       scope_bytes nested_scope (\<lambda>x. pair_key x \<notin> set (removed_manifests (pp_steps plan))) = 5
   | None \<Rightarrow> False"
  by code_simp

end
