(* ===== verification/Quota.thy ===== *)
theory Quota
  imports Retention Quota_Prune
begin

text \<open>
  Limits and their enforcement (\<open>web/src/lib/quota.ts\<close>, \<open>quota-enforce.ts\<close>): usage of an
  organization and of an account, the checks made before creating, inviting or storing
  something, and the job that notices targets above their storage limit, warns them, and
  after the grace period prunes them to fit. The messages of the checks are the
  constructors of \<open>quota_problem\<close>.
\<close>

section \<open>Usage and limits\<close>

record quota_usage =
  us_organizations :: nat
  us_publicRepos :: nat
  us_privateRepos :: nat
  us_storageBytes :: int
  us_members :: nat

record limits =
  lim_maxOrganizations :: "int option"
  lim_maxPublicRepos :: "int option"
  lim_maxPrivateRepos :: "int option"
  lim_maxStorageBytes :: "int option"
  lim_maxMembers :: "int option"

definition UNLIMITED :: limits where
  "UNLIMITED = \<lparr>lim_maxOrganizations = None, lim_maxPublicRepos = None, lim_maxPrivateRepos = None,
     lim_maxStorageBytes = None, lim_maxMembers = None\<rparr>"

definition storage_rows :: "db \<Rightarrow> (string \<Rightarrow> bool) \<Rightarrow> (string \<times> string \<times> int) list" where
  \<comment> \<open>\<open>SELECT DISTINCT r.organization_id, b.digest, b.size\<close> over the three joined tables\<close>
  "storage_rows d inScope =
     remdups (concat (map (\<lambda>b. concat (map (\<lambda>rb. map (\<lambda>r. (repo_organizationId r, blob_digest b, blob_size b))
         (filter (\<lambda>r. repo_id r = rb_repositoryId rb \<and> inScope (repo_organizationId r)) (db_repositories d)))
       (filter (\<lambda>rb. rb_blobDigest rb = blob_digest b) (db_repositoryBlobs d)))) (db_blobs d)))"

definition storage_sum :: "(string \<times> string \<times> int) list \<Rightarrow> int" where
  "storage_sum rows = sum_list (map (snd \<circ> snd) rows)"

definition count_repos :: "db \<Rightarrow> (string \<Rightarrow> bool) \<Rightarrow> visibility \<Rightarrow> nat" where
  "count_repos d inScope v =
     length (filter (\<lambda>r. inScope (repo_organizationId r) \<and> repo_visibility r = v) (db_repositories d))"

definition getOrgUsage :: "db \<Rightarrow> string \<Rightarrow> quota_usage" where
  "getOrgUsage d orgId =
     \<lparr>us_organizations = 1, us_publicRepos = count_repos d (\<lambda>g. g = orgId) Public,
      us_privateRepos = count_repos d (\<lambda>g. g = orgId) Private,
      us_storageBytes = storage_sum (storage_rows d (\<lambda>g. g = orgId)),
      us_members = length (filter (\<lambda>m. mem_organizationId m = orgId) (db_members d))\<rparr>"

definition find_org_limit :: "db \<Rightarrow> string \<Rightarrow> organization_limit option" where
  "find_org_limit d orgId = find (\<lambda>l. ol_organizationId l = orgId) (db_orgLimits d)"

definition org_limit_of :: "(organization_limit \<Rightarrow> int option) \<Rightarrow> db \<Rightarrow> string \<Rightarrow> int option" where
  \<comment> \<open>one column of the \<open>LEFT JOIN\<close> with \<open>organization_limits\<close>\<close>
  "org_limit_of f d orgId = (case find_org_limit d orgId of Some l \<Rightarrow> f l | None \<Rightarrow> None)"

definition owned_orgs :: "db \<Rightarrow> string \<Rightarrow> string list" where
  "owned_orgs d userId =
     map mem_organizationId (filter (\<lambda>m. mem_userId m = userId \<and> mem_role m = ''owner'') (db_members d))"

definition pool :: "(organization_limit \<Rightarrow> int option) \<Rightarrow> db \<Rightarrow> string \<Rightarrow> string \<Rightarrow> bool" where
  \<comment> \<open>the owned organizations without a limit of the kind\<close>
  "pool f d userId orgId \<longleftrightarrow> orgId \<in> set (owned_orgs d userId) \<and> org_limit_of f d orgId = None"

definition getUserUsage :: "db \<Rightarrow> string \<Rightarrow> quota_usage" where
  "getUserUsage d userId =
     \<lparr>us_organizations = length (owned_orgs d userId),
      us_publicRepos = count_repos d (pool ol_maxPublicRepos d userId) Public,
      us_privateRepos = count_repos d (pool ol_maxPrivateRepos d userId) Private,
      us_storageBytes = storage_sum (storage_rows d (pool ol_maxStorageBytes d userId)),
      us_members = length (filter (\<lambda>m. mem_organizationId m \<in> set (owned_orgs d userId)) (db_members d))\<rparr>"

definition getOrgLimits :: "db \<Rightarrow> string \<Rightarrow> limits" where
  "getOrgLimits d orgId = (case find_org_limit d orgId of
       Some row \<Rightarrow> \<lparr>lim_maxOrganizations = None, lim_maxPublicRepos = ol_maxPublicRepos row,
         lim_maxPrivateRepos = ol_maxPrivateRepos row, lim_maxStorageBytes = ol_maxStorageBytes row,
         lim_maxMembers = ol_maxMembers row\<rparr>
     | None \<Rightarrow> UNLIMITED)"

definition getUserLimits :: "db \<Rightarrow> string \<Rightarrow> limits" where
  "getUserLimits d userId = (case find (\<lambda>l. ul_userId l = userId) (db_userLimits d) of
       Some row \<Rightarrow> \<lparr>lim_maxOrganizations = ul_maxOrganizations row, lim_maxPublicRepos = ul_maxPublicRepos row,
         lim_maxPrivateRepos = ul_maxPrivateRepos row, lim_maxStorageBytes = ul_maxStorageBytes row,
         lim_maxMembers = None\<rparr>
     | None \<Rightarrow> UNLIMITED)"

definition orgOwnerIds :: "db \<Rightarrow> string \<Rightarrow> string list" where
  "orgOwnerIds d orgId =
     map mem_userId (filter (\<lambda>m. mem_organizationId m = orgId \<and> mem_role m = ''owner'') (db_members d))"

section \<open>Checks\<close>

datatype quota_problem =
    OrgRepoLimit string int visibility | OwnerRepoLimit int visibility
  | OrgStorageLimit int int | OwnerStorageLimit int int
  | OrganizationLimit int | MemberLimit string int bool

definition limit_of :: "visibility \<Rightarrow> limits \<Rightarrow> int option" where
  "limit_of v l = (if v = Public then lim_maxPublicRepos l else lim_maxPrivateRepos l)"

definition repos_of :: "visibility \<Rightarrow> quota_usage \<Rightarrow> nat" where
  "repos_of v u = (if v = Public then us_publicRepos u else us_privateRepos u)"

definition checkRepoQuota :: "db \<Rightarrow> string \<Rightarrow> visibility \<Rightarrow> string \<Rightarrow> int \<Rightarrow> quota_problem option" where
  "checkRepoQuota d orgId v orgLabel pending =
     (case limit_of v (getOrgLimits d orgId) of
        Some l \<Rightarrow> if l \<le> int (repos_of v (getOrgUsage d orgId)) + pending then Some (OrgRepoLimit orgLabel l v) else None
      | None \<Rightarrow>
        map_option (\<lambda>ownerId. OwnerRepoLimit (the (limit_of v (getUserLimits d ownerId))) v)
          (find (\<lambda>ownerId. case limit_of v (getUserLimits d ownerId) of
                   Some l \<Rightarrow> l \<le> int (repos_of v (getUserUsage d ownerId)) + pending | None \<Rightarrow> False)
             (orgOwnerIds d orgId)))"

definition checkStorageQuota :: "db \<Rightarrow> string \<Rightarrow> int \<Rightarrow> quota_problem option" where
  "checkStorageQuota d orgId additionalBytes =
     (case lim_maxStorageBytes (getOrgLimits d orgId) of
        Some l \<Rightarrow> if l < us_storageBytes (getOrgUsage d orgId) + additionalBytes
                  then Some (OrgStorageLimit (us_storageBytes (getOrgUsage d orgId)) l) else None
      | None \<Rightarrow>
        map_option (\<lambda>ownerId. OwnerStorageLimit (us_storageBytes (getUserUsage d ownerId))
              (the (lim_maxStorageBytes (getUserLimits d ownerId))))
          (find (\<lambda>ownerId. case lim_maxStorageBytes (getUserLimits d ownerId) of
                   Some l \<Rightarrow> l < us_storageBytes (getUserUsage d ownerId) + additionalBytes | None \<Rightarrow> False)
             (orgOwnerIds d orgId)))"

definition checkOrgCreationQuota :: "db \<Rightarrow> string \<Rightarrow> quota_problem option" where
  "checkOrgCreationQuota d userId =
     (case lim_maxOrganizations (getUserLimits d userId) of
        Some l \<Rightarrow> if l \<le> int (us_organizations (getUserUsage d userId)) then Some (OrganizationLimit l) else None
      | None \<Rightarrow> None)"

definition open_invitations :: "db \<Rightarrow> millis \<Rightarrow> string \<Rightarrow> nat" where
  "open_invitations d now orgId =
     length (filter (\<lambda>i. inv_organizationId i = orgId \<and> inv_status i = ''pending'' \<and> now < inv_expiresAt i) (db_invitations d))"

definition checkMemberQuota :: "db \<Rightarrow> millis \<Rightarrow> string \<Rightarrow> bool \<Rightarrow> string option \<Rightarrow> quota_problem option" where
  "checkMemberQuota d now orgId includePending orgLabel =
     (case lim_maxMembers (getOrgLimits d orgId) of
        None \<Rightarrow> None
      | Some l \<Rightarrow>
        (let members = length (filter (\<lambda>m. mem_organizationId m = orgId) (db_members d));
             pending = (if includePending then open_invitations d now orgId else 0)
         in if int (members + pending) < l then None
            else Some (MemberLimit (nullish orgLabel ''This organization'') l (0 < pending))))"

definition finite_nonneg :: "js_num \<Rightarrow> bool" where
  \<comment> \<open>\<open>Number.isFinite(n) && !(n < 0)\<close>\<close>
  "finite_nonneg x = (case x of Dec m e \<Rightarrow> 0 \<le> m | _ \<Rightarrow> False)"

definition parseLimitField :: "string option \<Rightarrow> int option" where
  "parseLimitField v =
     (let s = js_trim (nullish v []) in
      if s = [] then None
      else (let n = Number_of s in if finite_nonneg n then num_floor n else None))"

definition parseStorageGiB :: "string option \<Rightarrow> int option" where
  "parseStorageGiB v =
     (let s = js_trim (nullish v []) in
      if s = [] then None
      else (case Number_of s of
          Dec m e \<Rightarrow> if m < 0 then None
            else if 0 \<le> e then Some (m * 10 ^ nat e * 1073741824)
            else Some (round_div (m * 1073741824) (10 ^ nat (- e)))
        | _ \<Rightarrow> None))"

section \<open>Who is above a limit\<close>

record breach =
  b_targetType :: quota_target_type
  b_targetId :: string
  b_label :: string
  b_usedBytes :: int
  b_limitBytes :: int
  b_repositoryIds :: "string list"

definition org_repo_ids :: "db \<Rightarrow> (string \<Rightarrow> bool) \<Rightarrow> string list" where
  "org_repo_ids d inScope = map repo_id (filter (\<lambda>r. inScope (repo_organizationId r)) (db_repositories d))"

definition org_breaches :: "(string \<Rightarrow> string \<Rightarrow> int) \<Rightarrow> db \<Rightarrow> string option \<Rightarrow> breach list" where
  "org_breaches asc d organizationSlug =
     js_sort (\<lambda>a b. asc (b_label a) (b_label b))
       (List.map_filter (\<lambda>l. case ol_maxStorageBytes l of None \<Rightarrow> None | Some lim \<Rightarrow>
            (case find (\<lambda>g. org_id g = ol_organizationId l) (db_organizations d) of None \<Rightarrow> None | Some g \<Rightarrow>
              (let rows = storage_rows d (\<lambda>x. x = org_id g); used = storage_sum rows in
               if rows \<noteq> [] \<and> lim < used \<and> (truthy organizationSlug \<longrightarrow> organizationSlug = Some (org_slug g))
               then Some \<lparr>b_targetType = TargetOrganization, b_targetId = org_id g, b_label = org_slug g,
                          b_usedBytes = used, b_limitBytes = lim,
                          b_repositoryIds = org_repo_ids d (\<lambda>x. x = org_id g)\<rparr>
               else None)))
         (db_orgLimits d))"

definition user_breaches :: "db \<Rightarrow> breach list" where
  "user_breaches d =
     List.map_filter (\<lambda>l. case ul_maxStorageBytes l of None \<Rightarrow> None | Some lim \<Rightarrow>
         (case find (\<lambda>u. u_id u = ul_userId l) (db_users d) of None \<Rightarrow> None | Some u \<Rightarrow>
           (let mine = pool ol_maxStorageBytes d (ul_userId l); used = storage_sum (storage_rows d mine) in
            if used \<le> lim then None
            else Some \<lparr>b_targetType = TargetUser, b_targetId = ul_userId l, b_label = u_email u,
                       b_usedBytes = used, b_limitBytes = lim, b_repositoryIds = org_repo_ids d mine\<rparr>)))
       (db_userLimits d)"

definition findBreaches :: "(string \<Rightarrow> string \<Rightarrow> int) \<Rightarrow> db \<Rightarrow> string option \<Rightarrow> breach list" where
  "findBreaches asc d organizationSlug =
     org_breaches asc d organizationSlug @ (if truthy organizationSlug then [] else user_breaches d)"

definition load_manifest :: "db \<Rightarrow> manifest \<Rightarrow> scope_manifest" where
  "load_manifest d m =
     (let mine = map mr_refDigest (filter (\<lambda>x. mr_repositoryId x = man_repositoryId m \<and> mr_manifestDigest x = man_digest m) (db_manifestRefs d));
          blob = (\<lambda>dg. find (\<lambda>b. blob_digest b = dg) (db_blobs d))
      in \<lparr>sm_digest = man_digest m, sm_pushedAt = man_createdAt m, sm_subjectDigest = man_subjectDigest m,
          sm_blobs = List.map_filter (\<lambda>dg. map_option (\<lambda>b. \<lparr>sb_digest = dg, sb_size = blob_size b\<rparr>) (blob dg)) mine,
          sm_children = filter (\<lambda>dg. blob dg = None \<and>
            list_ex (\<lambda>x. man_repositoryId x = man_repositoryId m \<and> man_digest x = dg) (db_manifests d)) mine\<rparr>)"

definition loadScope :: "(string \<Rightarrow> string \<Rightarrow> int) \<Rightarrow> db \<Rightarrow> string list \<Rightarrow> scope" where
  "loadScope lc d repositoryIds =
     (if repositoryIds = [] then []
      else concat (map (\<lambda>r. map (\<lambda>g.
               \<lparr>sr_id = repo_id r, sr_path = imagePath (Some (org_slug g)) (repo_name r),
                sr_manifests = map (load_manifest d) (filter (\<lambda>m. man_repositoryId m = repo_id r) (db_manifests d)),
                sr_tags = map (\<lambda>t. \<lparr>stg_name = tag_name t, stg_digest = tag_manifestDigest t, stg_pushedAt = tag_updatedAt t\<rparr>)
                  (filter (\<lambda>t. tag_repositoryId t = repo_id r) (db_tags d)),
                sr_rules = effectiveTagRules lc d (repo_organizationId r) (repo_id r)\<rparr>)
             (filter (\<lambda>g. org_id g = repo_organizationId r) (db_organizations d)))
           (filter (\<lambda>r. repo_id r \<in> set repositoryIds) (db_repositories d))))"

section \<open>The enforcement job\<close>

datatype enforce_action = ActNoticed | ActReminded | ActWaiting | ActPruned | ActPlanned | ActUnmet

record enforce_target =
  et_target :: string
  et_type :: quota_target_type
  et_usedBytes :: int
  et_limitBytes :: int
  et_overSince :: millis
  et_daysLeft :: int
  et_action :: enforce_action
  et_freedBytes :: "int option"
  et_tags :: "nat option"
  et_manifests :: "nat option"
  et_failed :: "nat option"

record enforce_result =
  er_targets :: nat
  er_notified :: nat
  er_pruned :: nat
  er_repositories :: nat
  er_perTarget :: "enforce_target list"
  er_books :: retention_result
    \<comment> \<open>the counters of tags and manifests, the detail and its truncation, as in retention\<close>

datatype notice =
    QuotaExceeded quota_target_type string int int millis bool
      \<comment> \<open>target, used, limit, prune date, reminder\<close>
  | QuotaPruned quota_target_type string int int int bool
      \<comment> \<open>target, used, limit, freed, unmet\<close>

definition DAY :: int where
  "DAY = 86400000"

definition REMINDER_DAYS :: int where
  "REMINDER_DAYS = 2"

record enforce_state =
  es_result :: enforce_result
  es_world :: world
  es_notices :: "notice list"
  es_pruneRan :: bool

definition of_target :: "quota_target_type \<Rightarrow> string \<Rightarrow> quota_breach \<Rightarrow> bool" where
  "of_target tt tid k \<longleftrightarrow> qb_targetType k = tt \<and> qb_targetId k = tid"

definition set_breach :: "breach \<Rightarrow> (quota_breach \<Rightarrow> quota_breach) \<Rightarrow> enforce_state \<Rightarrow> enforce_state" where
  \<comment> \<open>\<open>UPDATE quota_breaches SET ... WHERE\<close> the row is of the target\<close>
  "set_breach b f s = s\<lparr>es_world := ((fst (es_world s))\<lparr>db_quotaBreaches :=
       map (\<lambda>k. if of_target (b_targetType b) (b_targetId b) k then f k else k) (db_quotaBreaches (fst (es_world s)))\<rparr>,
     snd (es_world s))\<rparr>"

definition forget_fitting :: "bool \<Rightarrow> string option \<Rightarrow> breach list \<Rightarrow> db \<Rightarrow> db" where
  "forget_fitting dryRun organizationSlug breaches d =
     (if dryRun then d
      else d\<lparr>db_quotaBreaches := filter (\<lambda>k.
          (truthy organizationSlug \<and> qb_targetType k \<noteq> TargetOrganization) \<or>
          list_ex (\<lambda>b. of_target (b_targetType b) (b_targetId b) k) breaches) (db_quotaBreaches d)\<rparr>)"

definition new_row :: "breach \<Rightarrow> millis \<Rightarrow> quota_breach" where
  "new_row b now = \<lparr>qb_targetType = b_targetType b, qb_targetId = b_targetId b, qb_firstOverAt = now,
     qb_lastSeenAt = now, qb_usedBytes = b_usedBytes b, qb_limitBytes = b_limitBytes b,
     qb_notifiedAt = None, qb_finalNoticeAt = None, qb_prunedAt = None\<rparr>"

definition record_breach :: "bool \<Rightarrow> millis \<Rightarrow> quota_breach list \<Rightarrow> breach \<Rightarrow> enforce_state \<Rightarrow> quota_breach \<times> enforce_state" where
  \<comment> \<open>the row of the target, inserted or refreshed; the values used afterwards are those read at the start\<close>
  "record_breach dryRun now known b s =
     (case find (of_target (b_targetType b) (b_targetId b)) known of
        None \<Rightarrow> (new_row b now,
           if dryRun then s
           else s\<lparr>es_world := ((fst (es_world s))\<lparr>db_quotaBreaches := db_quotaBreaches (fst (es_world s)) @ [new_row b now]\<rparr>,
                               snd (es_world s))\<rparr>)
      | Some row \<Rightarrow> (row,
           if dryRun then s
           else set_breach b (\<lambda>k. k\<lparr>qb_lastSeenAt := now, qb_usedBytes := b_usedBytes b, qb_limitBytes := b_limitBytes b\<rparr>) s))"

definition days_left :: "millis \<Rightarrow> millis \<Rightarrow> int" where
  "days_left pruneAt now = max 0 (ceil_div (pruneAt - now) DAY)"

definition send_notices ::
  "bool \<Rightarrow> millis \<Rightarrow> breach \<Rightarrow> quota_breach \<Rightarrow> millis \<Rightarrow> enforce_state \<Rightarrow> enforce_action \<times> enforce_state" where
  "send_notices dryRun now b row pruneAt s =
     (let daysLeft = days_left pruneAt now;
          counted = s\<lparr>es_result := (es_result s)\<lparr>er_notified := er_notified (es_result s) + 1\<rparr>\<rparr>;
          tell = (\<lambda>reminder st. st\<lparr>es_notices := es_notices st @
            [QuotaExceeded (b_targetType b) (b_targetId b) (b_usedBytes b) (b_limitBytes b) pruneAt reminder]\<rparr>)
      in if qb_notifiedAt row = None
         then (ActNoticed, if dryRun then counted
                else set_breach b (\<lambda>k. k\<lparr>qb_notifiedAt := Some now\<rparr>) (tell False counted))
         else if qb_finalNoticeAt row = None \<and> 0 < daysLeft \<and> daysLeft \<le> REMINDER_DAYS
         then (ActReminded, if dryRun then counted
                else set_breach b (\<lambda>k. k\<lparr>qb_finalNoticeAt := Some now\<rparr>) (tell True counted))
         else (ActWaiting, s))"

definition step_tag :: "prune_step \<Rightarrow> planned_tag" where
  "step_tag p = \<lparr>pd_name = ps_ref p, pd_digest = [], pd_reason = ps_reason p\<rparr>"

definition step_manifest :: "prune_step \<Rightarrow> planned_manifest" where
  "step_manifest p = \<lparr>pdm_digest = ps_ref p, pdm_reason = ps_reason p\<rparr>"

definition run_step ::
  "(string \<Rightarrow> string \<Rightarrow> int) \<Rightarrow> (string \<Rightarrow> string \<Rightarrow> int) \<Rightarrow> registry \<Rightarrow> bool \<Rightarrow> string \<Rightarrow> prune_step \<Rightarrow>
     retention_result \<times> per_repository \<times> world \<Rightarrow> retention_result \<times> per_repository \<times> world" where
  \<comment> \<open>one round of the loop over the plan; its bookkeeping is that of the retention run\<close>
  "run_step lc asc registry dryRun subject p =
     (case ps_kind p of
        StepTag \<Rightarrow> run_tag dryRun (ps_repository p)
          (deleteTag lc registry (\<lambda>_ _ _. None) (\<lambda>_ _ _. None) (ps_repositoryId p) (ps_ref p) subject False) (step_tag p)
      | StepManifest \<Rightarrow> run_manifest dryRun (ps_repository p)
          (deleteManifestByDigest lc asc registry (ps_repositoryId p) (ps_ref p) subject) (step_manifest p))"

definition target_entry :: "breach \<Rightarrow> quota_breach \<Rightarrow> int \<Rightarrow> enforce_action \<Rightarrow> enforce_target" where
  "target_entry b row daysLeft action =
     \<lparr>et_target = b_label b, et_type = b_targetType b, et_usedBytes = b_usedBytes b, et_limitBytes = b_limitBytes b,
      et_overSince = qb_firstOverAt row, et_daysLeft = daysLeft, et_action = action,
      et_freedBytes = None, et_tags = None, et_manifests = None, et_failed = None\<rparr>"

definition push_entry :: "enforce_target \<Rightarrow> enforce_state \<Rightarrow> enforce_state" where
  "push_entry e s = s\<lparr>es_result := (es_result s)\<lparr>er_perTarget := er_perTarget (es_result s) @ [e]\<rparr>\<rparr>"

definition prune_target ::
  "nat \<Rightarrow> (string \<Rightarrow> string \<Rightarrow> int) \<Rightarrow> (string \<Rightarrow> string \<Rightarrow> int) \<Rightarrow> registry \<Rightarrow> bool \<Rightarrow> string \<Rightarrow> millis \<Rightarrow> breach \<Rightarrow>
     enforce_target \<Rightarrow> enforce_state \<Rightarrow> enforce_state option" where
  \<comment> \<open>after the grace period\<close>
  "prune_target fuel lc asc registry dryRun subject now b entry s =
     (let scope = loadScope lc (fst (es_world s)) (b_repositoryIds b) in
      case planPruneToFit fuel lc scope (b_limitBytes b) of
        None \<Rightarrow> None
      | Some plan \<Rightarrow>
        (let (books', per, w') = fold (run_step lc asc registry dryRun subject) (pp_steps plan)
                (er_books (es_result s),
                 \<lparr>pr_repository = [], pr_scope = ScopeOrganization, pr_tags = 0, pr_manifests = 0, pr_failed = 0\<rparr>,
                 es_world s);
             freed = pp_beforeBytes plan - pp_afterBytes plan;
             done = entry\<lparr>et_action := (if pp_unmet plan then ActUnmet else if dryRun then ActPlanned else ActPruned),
                          et_freedBytes := Some freed, et_tags := Some (pr_tags per),
                          et_manifests := Some (pr_manifests per), et_failed := Some (pr_failed per)\<rparr>;
             s1 = push_entry done (s\<lparr>es_world := w', es_result := (es_result s)\<lparr>er_books := books',
                    er_repositories := er_repositories (es_result s) + length scope\<rparr>\<rparr>)
         in Some (if \<not> dryRun \<and> pp_steps plan \<noteq> []
              then (set_breach b (\<lambda>k. k\<lparr>qb_prunedAt := Some now\<rparr>)
                     (s1\<lparr>es_pruneRan := True,
                         es_result := (es_result s1)\<lparr>er_pruned := er_pruned (es_result s1) + 1\<rparr>,
                         es_notices := es_notices s1 @ [QuotaPruned (b_targetType b) (b_targetId b) (b_usedBytes b)
                           (b_limitBytes b) freed (pp_unmet plan)]\<rparr>))
              else s1)))"

definition enforce_breach ::
  "nat \<Rightarrow> (string \<Rightarrow> string \<Rightarrow> int) \<Rightarrow> (string \<Rightarrow> string \<Rightarrow> int) \<Rightarrow> registry \<Rightarrow> int \<Rightarrow> bool \<Rightarrow> string \<Rightarrow> millis \<Rightarrow>
     quota_breach list \<Rightarrow> breach \<Rightarrow> enforce_state \<Rightarrow> enforce_state option" where
  "enforce_breach fuel lc asc registry graceDays dryRun subject now known b s =
     (let (row, s1) = record_breach dryRun now known b s;
          pruneAt = qb_firstOverAt row + graceDays * DAY;
          (action, s2) = send_notices dryRun now b row pruneAt s1;
          entry = target_entry b row (days_left pruneAt now) action
      in if now < pruneAt then Some (push_entry entry s2)
         else prune_target fuel lc asc registry dryRun subject now b entry s2)"

definition runQuotaEnforcement ::
  "nat \<Rightarrow> (string \<Rightarrow> string \<Rightarrow> int) \<Rightarrow> (string \<Rightarrow> string \<Rightarrow> int) \<Rightarrow> registry \<Rightarrow> int \<Rightarrow> bool \<Rightarrow> string option \<Rightarrow> string \<Rightarrow>
     millis \<Rightarrow> world \<Rightarrow> enforce_state option" where
  \<comment> \<open>garbage collection is triggered afterwards when \<open>es_pruneRan\<close> holds\<close>
  "runQuotaEnforcement fuel lc asc registry graceDays dryRun organizationSlug subject now w =
     (let breaches = findBreaches asc (fst w) organizationSlug;
          known = db_quotaBreaches (fst w)
      in foldM (enforce_breach fuel lc asc registry graceDays dryRun subject now known) breaches
           \<lparr>es_result = \<lparr>er_targets = length breaches, er_notified = 0, er_pruned = 0, er_repositories = 0,
              er_perTarget = [], er_books = empty_result dryRun\<rparr>,
            es_world = (forget_fitting dryRun organizationSlug breaches (fst w), snd w),
            es_notices = [], es_pruneRan = False\<rparr>)"

section \<open>Counting after an insertion\<close>

definition add_repository :: "repository \<Rightarrow> db \<Rightarrow> db" where
  "add_repository r d = d\<lparr>db_repositories := db_repositories d @ [r]\<rparr>"

lemma limits_add_repository [simp]:
  "getOrgLimits (add_repository r d) = getOrgLimits d"
  "getUserLimits (add_repository r d) = getUserLimits d"
  "orgOwnerIds (add_repository r d) = orgOwnerIds d"
  by (simp_all add: fun_eq_iff getOrgLimits_def getUserLimits_def find_org_limit_def orgOwnerIds_def add_repository_def)

lemma pool_add_repository [simp]: "pool f (add_repository r d) = pool f d"
  by (simp add: fun_eq_iff pool_def owned_orgs_def org_limit_of_def find_org_limit_def add_repository_def)

lemma count_add_repository:
  "count_repos (add_repository r d) inScope v
     = count_repos d inScope v + (if inScope (repo_organizationId r) \<and> repo_visibility r = v then 1 else 0)"
  by (simp add: count_repos_def add_repository_def)

lemma repos_add_repository:
  "repos_of v (getOrgUsage (add_repository r d) org)
     = repos_of v (getOrgUsage d org) + (if repo_organizationId r = org \<and> repo_visibility r = v then 1 else 0)"
  "repos_of v (getUserUsage (add_repository r d) u) \<le> repos_of v (getUserUsage d u) + 1"
  by (cases v; auto simp: repos_of_def getOrgUsage_def getUserUsage_def count_add_repository)+

section \<open>What a pass leaves alone\<close>

lemma record_breach_dry: "snd (record_breach True now known b s) = s"
  by (simp add: record_breach_def split: option.splits)

lemma record_breach_log: "snd (es_world (snd (record_breach dry now known b s))) = snd (es_world s)"
  by (simp add: record_breach_def set_breach_def split: option.splits)

lemma record_breach_row:
  "fst (record_breach dry now known b s) = (case find (of_target (b_targetType b) (b_targetId b)) known of
     None \<Rightarrow> new_row b now | Some row \<Rightarrow> row)"
  by (simp add: record_breach_def split: option.splits)

lemma send_notices_dry:
  "es_world (snd (send_notices True now b row pruneAt s)) = es_world s"
  "es_notices (snd (send_notices True now b row pruneAt s)) = es_notices s"
  "es_pruneRan (snd (send_notices dry now b row pruneAt s)) = es_pruneRan s"
  by (simp_all add: send_notices_def set_breach_def Let_def)

lemma send_notices_log: "snd (es_world (snd (send_notices dry now b row pruneAt s))) = snd (es_world s)"
  by (simp add: send_notices_def set_breach_def Let_def)

lemma push_entry_simps [simp]:
  "es_world (push_entry e s) = es_world s" "es_notices (push_entry e s) = es_notices s"
  "es_pruneRan (push_entry e s) = es_pruneRan s"
  by (simp_all add: push_entry_def)

lemma run_step_dry: "snd (snd (run_step lc asc registry True subject p x)) = snd (snd x)"
  by (simp add: run_step_def run_dry_world split: step_kind.splits)

lemma run_steps_dry: "snd (snd (fold (run_step lc asc registry True subject) ps x)) = snd (snd x)"
  by (induction ps arbitrary: x) (simp_all add: run_step_dry)

lemma prune_target_dry:
  "prune_target fuel lc asc registry True subject now b entry s = Some s' \<Longrightarrow>
     es_world s' = es_world s \<and> es_notices s' = es_notices s \<and> es_pruneRan s' = es_pruneRan s"
  using run_steps_dry [of lc asc registry subject]
  by (auto simp: prune_target_def Let_def split_beta split: option.splits) 

lemma enforce_breach_dry:
  assumes "enforce_breach fuel lc asc registry grace True subject now known b s = Some s'"
  shows "es_world s' = es_world s \<and> es_notices s' = es_notices s \<and> es_pruneRan s' = es_pruneRan s"
  using assms record_breach_dry [of now known b s]
  by (auto simp: enforce_breach_def Let_def split_beta send_notices_dry dest!: prune_target_dry split: if_splits)

lemma enforce_breach_grace:
  assumes "enforce_breach fuel lc asc registry grace dry subject now known b s = Some s'"
    and "now < qb_firstOverAt (fst (record_breach dry now known b s)) + grace * DAY"
  shows "snd (es_world s') = snd (es_world s)"
  using assms by (auto simp: enforce_breach_def Let_def split_beta send_notices_log record_breach_log)

section \<open>Properties\<close>

text \<open>
  A repository that the check lets in stays within the limit that governs it: the
  organization's own limit when it has one of that kind, otherwise the account limit of
  every owner, counted over the owner's organizations without such a limit.
\<close>

theorem checkRepoQuota_sound:
  assumes "checkRepoQuota d org v label 0 = None"
    and "repo_organizationId r = org" and "repo_visibility r = v"
  shows "case limit_of v (getOrgLimits d org) of
      Some l \<Rightarrow> int (repos_of v (getOrgUsage (add_repository r d) org)) \<le> l
    | None \<Rightarrow> list_all (\<lambda>u. case limit_of v (getUserLimits d u) of
        Some l \<Rightarrow> int (repos_of v (getUserUsage (add_repository r d) u)) \<le> l | None \<Rightarrow> True) (orgOwnerIds d org)"
proof (cases "limit_of v (getOrgLimits d org)")
  case (Some l)
  then show ?thesis using assms by (simp add: checkRepoQuota_def repos_add_repository split: if_splits)
next
  case None
  have "case limit_of v (getUserLimits d u) of
      Some l \<Rightarrow> int (repos_of v (getUserUsage (add_repository r d) u)) \<le> l | None \<Rightarrow> True"
    if u: "u \<in> set (orgOwnerIds d org)" for u
  proof (cases "limit_of v (getUserLimits d u)")
    case (Some l)
    then have "int (repos_of v (getUserUsage d u)) < l"
      using assms(1) None u by (auto simp: checkRepoQuota_def find_None_iff split: option.splits)
    then show ?thesis using Some repos_add_repository(2) [of v r d u] by simp
  qed simp
  with None show ?thesis by (simp add: list_all_iff)
qed

definition example_limit :: organization_limit where
  "example_limit = \<lparr>ol_organizationId = ''o'', ol_maxPublicRepos = None, ol_maxPrivateRepos = Some 2,
     ol_maxStorageBytes = None, ol_maxMembers = None, ol_label = [], ol_note = [], ol_updatedAt = 0, ol_updatedBy = None\<rparr>"

theorem checkRepoQuota_sound_witness:
  "repos_of Private (getOrgUsage (add_repository example_repo (example_image_db\<lparr>db_orgLimits := [example_limit]\<rparr>)) ''o'') \<le> 2"
proof -
  let ?d = "example_image_db\<lparr>db_orgLimits := [example_limit]\<rparr>"
  have lim: "limit_of Private (getOrgLimits ?d ''o'') = Some 2"
    by (simp add: limit_of_def getOrgLimits_def find_org_limit_def example_limit_def)
  have "checkRepoQuota ?d ''o'' Private ''o'' 0 = None"
    by (simp add: checkRepoQuota_def lim) (simp add: repos_of_def getOrgUsage_def count_repos_def example_defs)
  moreover have "repo_organizationId example_repo = ''o''" "repo_visibility example_repo = Private"
    by (simp_all add: example_repo_def)
  ultimately show ?thesis using checkRepoQuota_sound [of ?d "''o''" Private "''o''" example_repo] lim by simp
qed

text \<open>
  A dry run of the enforcement job, whatever it finds, changes no row, sends no request to
  the registry and no notice, and does not ask for garbage collection.
\<close>

theorem enforcement_dry_run:
  assumes "runQuotaEnforcement fuel lc asc registry grace True slug subject now w = Some s"
  shows "es_world s = w \<and> es_notices s = [] \<and> \<not> es_pruneRan s"
proof -
  let ?P = "\<lambda>s. es_world s = w \<and> es_notices s = [] \<and> \<not> es_pruneRan s"
  show ?thesis
    by (rule foldM_keeps [where P = ?P, OF _ _ assms [unfolded runQuotaEnforcement_def Let_def]])
      (auto simp: forget_fitting_def dest!: enforce_breach_dry)
qed

theorem enforcement_dry_run_witness:
  "map_option es_world (runQuotaEnforcement 1 code_unit_compare code_unit_compare example_registry 7 True None
     ''user:u'' 0 (example_image_db, [])) = Some (example_image_db, [])"
proof -
  have "findBreaches code_unit_compare example_image_db None = []"
    by (simp add: findBreaches_def org_breaches_def user_breaches_def example_image_db_def empty_db_def
        List.map_filter_def)
  then have "\<exists>s. runQuotaEnforcement 1 code_unit_compare code_unit_compare example_registry 7 True None
     ''user:u'' 0 (example_image_db, []) = Some s"
    by (simp add: runQuotaEnforcement_def)
  then show ?thesis using enforcement_dry_run by fastforce
qed


definition example_breach_row :: quota_breach where
  "example_breach_row = \<lparr>qb_targetType = TargetOrganization, qb_targetId = ''o'', qb_firstOverAt = 0,
     qb_lastSeenAt = 0, qb_usedBytes = 20, qb_limitBytes = 10, qb_notifiedAt = None, qb_finalNoticeAt = None,
     qb_prunedAt = None\<rparr>"

definition example_over_db :: db where
  \<comment> \<open>an organization of 20 bytes with a limit of 10, first seen at time 0\<close>
  "example_over_db = example_image_db\<lparr>db_orgLimits := [example_limit\<lparr>ol_maxStorageBytes := Some 10\<rparr>],
     db_blobs := [\<lparr>blob_digest = ''x'', blob_size = 20, blob_mediaType = None, blob_createdAt = 0\<rparr>],
     db_repositoryBlobs := [\<lparr>rb_repositoryId = ''r'', rb_blobDigest = ''x'', rb_createdAt = 0\<rparr>],
     db_quotaBreaches := [example_breach_row]\<rparr>"


text \<open>
  The first notice goes out exactly once: for a recorded target the pass sends it if and
  only if the row says that none was sent, and afterwards every row of the target says that
  one was.
\<close>

theorem enforcement_first_notice_once:
  assumes "enforce_breach fuel lc asc registry grace False subject now known b s = Some s'"
    and "find (of_target (b_targetType b) (b_targetId b)) known = Some row"
    and "\<forall>k \<in> set (db_quotaBreaches (fst (es_world s))). of_target (b_targetType b) (b_targetId b) k \<longrightarrow> k = row"
    and "now < qb_firstOverAt row + grace * DAY"
  shows "(\<exists>pruneAt. es_notices s' = es_notices s @ [QuotaExceeded (b_targetType b) (b_targetId b) (b_usedBytes b)
        (b_limitBytes b) pruneAt False]) = (qb_notifiedAt row = None) \<and>
    (\<forall>k \<in> set (db_quotaBreaches (fst (es_world s'))). of_target (b_targetType b) (b_targetId b) k \<longrightarrow>
       qb_notifiedAt k \<noteq> None)"
proof -
  have of_upd: "of_target tt tid (k\<lparr>qb_lastSeenAt := x, qb_usedBytes := y, qb_limitBytes := z\<rparr>) = of_target tt tid k"
    "of_target tt tid (k\<lparr>qb_notifiedAt := v\<rparr>) = of_target tt tid k"
    "of_target tt tid (k\<lparr>qb_finalNoticeAt := v\<rparr>) = of_target tt tid k" for tt tid k x y z v
    by (simp_all add: of_target_def)
  have s': "s' = push_entry (target_entry b row (days_left (qb_firstOverAt row + grace * DAY) now)
        (fst (send_notices False now b row (qb_firstOverAt row + grace * DAY) (snd (record_breach False now known b s)))))
      (snd (send_notices False now b row (qb_firstOverAt row + grace * DAY) (snd (record_breach False now known b s))))"
    using assms(1,2,4) by (simp add: enforce_breach_def Let_def split_beta record_breach_row)
  show ?thesis
    using assms(2,3)
    by (auto simp: s' send_notices_def record_breach_def set_breach_def Let_def of_upd)
qed

theorem enforcement_first_notice_once_witness:
  "\<exists>s'. enforce_breach 1 code_unit_compare code_unit_compare example_registry 7 False ''user:u'' DAY
      [example_breach_row] \<lparr>b_targetType = TargetOrganization, b_targetId = ''o'', b_label = ''acme'', b_usedBytes = 20,
        b_limitBytes = 10, b_repositoryIds = [''r'']\<rparr>
      \<lparr>es_result = \<lparr>er_targets = 1, er_notified = 0, er_pruned = 0, er_repositories = 0, er_perTarget = [],
         er_books = empty_result False\<rparr>, es_world = (example_over_db, []), es_notices = [], es_pruneRan = False\<rparr> = Some s' \<and>
     length (es_notices s') = 1"
proof -
  let ?b = "\<lparr>b_targetType = TargetOrganization, b_targetId = ''o'', b_label = ''acme'', b_usedBytes = 20,
        b_limitBytes = 10, b_repositoryIds = [''r'']\<rparr>"
  let ?s = "\<lparr>es_result = \<lparr>er_targets = 1, er_notified = 0, er_pruned = 0, er_repositories = 0, er_perTarget = [],
         er_books = empty_result False\<rparr>, es_world = (example_over_db, []), es_notices = [], es_pruneRan = False\<rparr>"
  have found: "find (of_target (b_targetType ?b) (b_targetId ?b)) [example_breach_row] = Some example_breach_row"
    by (simp add: of_target_def example_breach_row_def)
  then obtain s' where s': "enforce_breach 1 code_unit_compare code_unit_compare example_registry 7 False ''user:u'' DAY
      [example_breach_row] ?b ?s = Some s'"
    by (auto simp: enforce_breach_def Let_def split_beta record_breach_row example_breach_row_def DAY_def)
  have rows: "\<forall>k \<in> set (db_quotaBreaches (fst (es_world ?s))). of_target (b_targetType ?b) (b_targetId ?b) k \<longrightarrow>
      k = example_breach_row" by (simp add: example_over_db_def)
  have early: "DAY < qb_firstOverAt example_breach_row + 7 * DAY" "qb_notifiedAt example_breach_row = None"
    by (simp_all add: example_breach_row_def DAY_def)
  from enforcement_first_notice_once [OF s' found rows early(1)] early(2)
  have "length (es_notices s') = 1" by auto
  with s' show ?thesis by blast
qed

definition shared_blob_db :: db where
  "shared_blob_db = example_over_db\<lparr>db_orgLimits := [], db_quotaBreaches := [],
     db_users := [\<lparr>u_id = ''u'', u_name = ''U'', u_email = ''u@example.com'', u_emailVerified = True, u_image = None,
        u_createdAt = 0, u_updatedAt = 0, u_twoFactorEnabled = None, u_role = None, u_banned = None,
        u_banReason = None, u_banExpires = None\<rparr>],
     db_userLimits := [\<lparr>ul_userId = ''u'', ul_maxOrganizations = None, ul_maxPublicRepos = None, ul_maxPrivateRepos = None,
        ul_maxStorageBytes = Some 30, ul_label = [], ul_note = [], ul_updatedAt = 0, ul_updatedBy = None\<rparr>],
     db_members := [\<lparr>mem_id = ''m1'', mem_organizationId = ''o'', mem_userId = ''u'', mem_role = ''owner'', mem_createdAt = 0\<rparr>,
                    \<lparr>mem_id = ''m2'', mem_organizationId = ''p'', mem_userId = ''u'', mem_role = ''owner'', mem_createdAt = 0\<rparr>],
     db_organizations := [example_org, example_org\<lparr>org_id := ''p'', org_slug := ''beta''\<rparr>],
     db_repositories := [example_repo, example_repo\<lparr>repo_id := ''q'', repo_organizationId := ''p''\<rparr>],
     db_repositoryBlobs := [\<lparr>rb_repositoryId = ''r'', rb_blobDigest = ''x'', rb_createdAt = 0\<rparr>,
                            \<lparr>rb_repositoryId = ''q'', rb_blobDigest = ''x'', rb_createdAt = 0\<rparr>],
     db_manifests := [example_manifest, example_manifest\<lparr>man_repositoryId := ''q''\<rparr>],
     db_manifestRefs := [\<lparr>mr_repositoryId = ''r'', mr_manifestDigest = ''sha256:1'', mr_refDigest = ''x''\<rparr>,
                         \<lparr>mr_repositoryId = ''q'', mr_manifestDigest = ''sha256:1'', mr_refDigest = ''x''\<rparr>]\<rparr>"

text \<open>
  The account limit and the planner count differently: a blob shared by two organizations
  of one owner counts twice against the account and once in the plan. For such an account
  the job finds a breach, plans no step and does not flag the target as unmet, at every pass.
\<close>

theorem account_breach_not_pruned:
  "map (\<lambda>b. (b_targetType b, b_usedBytes b, b_limitBytes b)) (findBreaches code_unit_compare shared_blob_db None)
     = [(TargetUser, 40, 30)] \<and>
   list_all (\<lambda>b. case planPruneToFit 20 code_unit_compare (loadScope code_unit_compare shared_blob_db (b_repositoryIds b)) (b_limitBytes b) of
       Some plan \<Rightarrow> pp_steps plan = [] \<and> pp_beforeBytes plan = 20 \<and> \<not> pp_unmet plan | None \<Rightarrow> False)
     (findBreaches code_unit_compare shared_blob_db None)"
  by code_simp

end
