(* ===== verification/Access.thy ===== *)
theory Access
  imports Tag_Admin
begin

text \<open>
  Who may do what in a repository: organization roles, teams and per-repository grants
  (\<open>web/src/lib/org-roles.ts\<close>, \<open>repo-access-shared.ts\<close>, \<open>repo-access.ts\<close>), the restriction
  of personal access tokens (\<open>token-policy-shared.ts\<close>) and the decision of the token service
  (\<open>access.ts\<close>). The theorems: the token service and the pages agree on a member's rights;
  a restricted token or service account reaches nothing outside its restriction; a proxy
  cache is read-only; leaving an organization leaves no right behind. The entries the
  operations write to the audit log are not part of the state.
\<close>

section \<open>Permissions\<close>

fun RANK :: "repo_permission \<Rightarrow> nat" where
  "RANK PPull = 1" | "RANK PPush = 2" | "RANK PAdmin = 3"

instantiation repo_permission :: linorder
begin

definition less_eq_repo_permission :: "repo_permission \<Rightarrow> repo_permission \<Rightarrow> bool" where
  "a \<le> b \<longleftrightarrow> RANK a \<le> RANK b"

definition less_repo_permission :: "repo_permission \<Rightarrow> repo_permission \<Rightarrow> bool" where
  "a < b \<longleftrightarrow> RANK a < RANK b"

instance
proof
  fix x y z :: repo_permission
  show "x < y \<longleftrightarrow> x \<le> y \<and> \<not> y \<le> x" by (auto simp: less_eq_repo_permission_def less_repo_permission_def)
  show "x \<le> x" by (simp add: less_eq_repo_permission_def)
  show "x \<le> y \<Longrightarrow> y \<le> z \<Longrightarrow> x \<le> z" by (simp add: less_eq_repo_permission_def)
  show "x \<le> y \<Longrightarrow> y \<le> x \<Longrightarrow> x = y" by (cases x; cases y) (simp_all add: less_eq_repo_permission_def)
  show "x \<le> y \<or> y \<le> x" by (auto simp: less_eq_repo_permission_def)
qed

end

definition permissionFromRole :: "string option \<Rightarrow> repo_permission option" where
  "permissionFromRole role = (case role of
       None \<Rightarrow> None
     | Some r \<Rightarrow> if r = ''owner'' \<or> r = ''admin'' then Some PAdmin
                 else if r = ''member'' then Some PPush
                 else if r = ''viewer'' then Some PPull else None)"

definition maxPermission :: "repo_permission option \<Rightarrow> repo_permission option \<Rightarrow> repo_permission option" where
  "maxPermission a b = (case a of None \<Rightarrow> b | Some x \<Rightarrow>
     (case b of None \<Rightarrow> a | Some y \<Rightarrow> if RANK y \<le> RANK x then a else b))"

definition permissionAtLeast :: "repo_permission option \<Rightarrow> repo_permission \<Rightarrow> bool" where
  "permissionAtLeast have need = (case have of None \<Rightarrow> False | Some p \<Rightarrow> RANK need \<le> RANK p)"

section \<open>Teams\<close>

function TEAM_SLUG_RE :: "string \<Rightarrow> bool" where
  \<comment> \<open>\<open>^[a-z0-9]+(?:[._-][a-z0-9]+)*$\<close>\<close>
  "TEAM_SLUG_RE s =
     (if takeWhile is_lower_alnum s = [] then False
      else (case dropWhile is_lower_alnum s of
          [] \<Rightarrow> True
        | c # rest \<Rightarrow> if c \<notin> set ''._-'' then False else TEAM_SLUG_RE rest))"
  by pat_completeness auto
termination
proof (relation "measure length", goal_cases)
  case 1
  show ?case by simp
next
  case (2 s c rest)
  have "length (c # rest) \<le> length s" using 2 length_dropWhile_le [of is_lower_alnum s] by simp
  then show ?case by simp
qed

declare TEAM_SLUG_RE.simps [simp del]

definition TEAM_NAME_MAX :: nat where "TEAM_NAME_MAX = 64"

definition TEAM_DESCRIPTION_MAX :: nat where "TEAM_DESCRIPTION_MAX = 200"

definition teamSlugFrom :: "string \<Rightarrow> string" where
  \<comment> \<open>the runs of other characters become one dash each, then the dashes at both ends go\<close>
  "teamSlugFrom name =
     (let dashed = join_with ''-'' (split_runs (\<lambda>c. \<not> is_lower_alnum c) (js_lower name));
          dash = (\<lambda>c. c = CHR ''-'')
      in take 64 (rev (dropWhile dash (rev (dropWhile dash dashed)))))"

definition validateTeamInput :: "string \<Rightarrow> string option \<Rightarrow> string option \<Rightarrow> string + string \<times> string \<times> string" where
  "validateTeamInput rawName rawSlug rawDescription =
     (let name = js_trim rawName;
          given = map_option js_trim rawSlug;
          slug = js_lower (if truthy given then the given else teamSlugFrom name);
          description = js_trim (nullish rawDescription [])
      in if name = [] then Inl ''Enter a team name.''
         else if TEAM_NAME_MAX < length name
           then Inl (''Team names are limited to '' @ show_nat TEAM_NAME_MAX @ '' characters.'')
         else if \<not> TEAM_SLUG_RE slug
           then Inl ''Team slugs use lowercase letters, digits and single . _ - separators.''
         else if TEAM_DESCRIPTION_MAX < length description
           then Inl (''Descriptions are limited to '' @ show_nat TEAM_DESCRIPTION_MAX @ '' characters.'')
         else Inr (name, slug, description))"

definition find_team :: "db \<Rightarrow> string \<Rightarrow> string \<Rightarrow> team option" where
  \<comment> \<open>the lookup the team operations begin with\<close>
  "find_team d organizationId teamId = find (\<lambda>t. team_id t = teamId \<and> team_organizationId t = organizationId) (db_teams d)"

definition is_member :: "db \<Rightarrow> string \<Rightarrow> string \<Rightarrow> bool" where
  "is_member d organizationId userId =
     list_ex (\<lambda>m. mem_organizationId m = organizationId \<and> mem_userId m = userId) (db_members d)"

definition findTeam :: "db \<Rightarrow> string \<Rightarrow> string \<Rightarrow> team option" where
  "findTeam d organizationId idOrSlug =
     find (\<lambda>t. team_organizationId t = organizationId \<and> (team_id t = idOrSlug \<or> team_slug t = idOrSlug)) (db_teams d)"

definition slug_taken :: "db \<Rightarrow> string \<Rightarrow> string \<Rightarrow> bool" where
  "slug_taken d organizationId slug =
     list_ex (\<lambda>t. team_organizationId t = organizationId \<and> team_slug t = slug) (db_teams d)"

definition createTeam ::
  "string \<Rightarrow> millis \<Rightarrow> string \<Rightarrow> string \<Rightarrow> string option \<Rightarrow> string option \<Rightarrow> string option \<Rightarrow> db \<Rightarrow> (string + team) \<times> db" where
  \<comment> \<open>the row's id and creation time, filled in by the database, are the first two arguments\<close>
  "createTeam newId now organizationId name slug description actorUserId d =
     (case validateTeamInput name slug description of
        Inl e \<Rightarrow> (Inl e, d)
      | Inr (n, s, ds) \<Rightarrow>
        if slug_taken d organizationId s then (Inl (''A team with the slug '' @ s @ '' already exists.''), d)
        else (let row = \<lparr>team_id = newId, team_organizationId = organizationId, team_slug = s, team_name = n,
                         team_description = ds, team_createdBy = actorUserId, team_createdAt = now\<rparr>
              in (Inr row, d\<lparr>db_teams := db_teams d @ [row]\<rparr>)))"

definition updateTeam ::
  "string \<Rightarrow> string \<Rightarrow> string option \<Rightarrow> string option \<Rightarrow> string option \<Rightarrow> db \<Rightarrow> (string + team) \<times> db" where
  "updateTeam organizationId teamId name slug description d =
     (case find_team d organizationId teamId of
        None \<Rightarrow> (Inl ''No such team.'', d)
      | Some current \<Rightarrow>
        (case validateTeamInput (nullish name (team_name current)) (Some (nullish slug (team_slug current)))
                (Some (nullish description (team_description current))) of
           Inl e \<Rightarrow> (Inl e, d)
         | Inr (n, s, ds) \<Rightarrow>
           if s \<noteq> team_slug current \<and> slug_taken d organizationId s
           then (Inl (''A team with the slug '' @ s @ '' already exists.''), d)
           else (let upd = (\<lambda>t. t\<lparr>team_name := n, team_slug := s, team_description := ds\<rparr>)
                 in (Inr (upd current),
                     d\<lparr>db_teams := map (\<lambda>t. if team_id t = team_id current then upd t else t) (db_teams d)\<rparr>))))"

definition deleteTeam :: "string \<Rightarrow> string \<Rightarrow> db \<Rightarrow> (string + team) \<times> db" where
  \<comment> \<open>the team's membership rows go with it (\<open>ON DELETE CASCADE\<close>)\<close>
  "deleteTeam organizationId teamId d =
     (case find_team d organizationId teamId of
        None \<Rightarrow> (Inl ''No such team.'', d)
      | Some current \<Rightarrow>
        (Inr current,
         d\<lparr>db_grants := filter (\<lambda>g. \<not> (gr_subjectType g = SubjTeam \<and> gr_subjectId g = team_id current)) (db_grants d),
           db_teams := filter (\<lambda>t. team_id t \<noteq> team_id current) (db_teams d),
           db_teamMembers := filter (\<lambda>m. tm_teamId m \<noteq> team_id current) (db_teamMembers d)\<rparr>))"

definition addTeamMember ::
  "millis \<Rightarrow> string \<Rightarrow> string \<Rightarrow> string \<Rightarrow> string option \<Rightarrow> db \<Rightarrow> (string + team) \<times> db" where
  "addTeamMember now organizationId teamId userId actorUserId d =
     (case find_team d organizationId teamId of
        None \<Rightarrow> (Inl ''No such team.'', d)
      | Some team \<Rightarrow>
        if \<not> is_member d organizationId userId
        then (Inl ''Only members of the organization can be added to its teams.'', d)
        else (Inr team,
          if list_ex (\<lambda>m. tm_teamId m = team_id team \<and> tm_userId m = userId) (db_teamMembers d) then d
          else d\<lparr>db_teamMembers := db_teamMembers d @
                 [\<lparr>tm_teamId = team_id team, tm_userId = userId, tm_addedBy = actorUserId, tm_createdAt = now\<rparr>]\<rparr>))"

definition removeTeamMember :: "string \<Rightarrow> string \<Rightarrow> string \<Rightarrow> db \<Rightarrow> (string + team) \<times> db" where
  "removeTeamMember organizationId teamId userId d =
     (case find_team d organizationId teamId of
        None \<Rightarrow> (Inl ''No such team.'', d)
      | Some team \<Rightarrow>
        (let gone = (\<lambda>m. tm_teamId m = team_id team \<and> tm_userId m = userId) in
         if \<not> list_ex gone (db_teamMembers d) then (Inl ''Not a member of this team.'', d)
         else (Inr team, d\<lparr>db_teamMembers := filter (\<lambda>m. \<not> gone m) (db_teamMembers d)\<rparr>)))"

definition dropOrganizationAccess :: "string \<Rightarrow> string \<Rightarrow> db \<Rightarrow> db" where
  "dropOrganizationAccess organizationId userId d =
     (let teamIds = map team_id (filter (\<lambda>t. team_organizationId t = organizationId) (db_teams d));
          repoIds = map repo_id (filter (\<lambda>r. repo_organizationId r = organizationId) (db_repositories d))
      in d\<lparr>db_teamMembers := filter (\<lambda>m. \<not> (tm_teamId m \<in> set teamIds \<and> tm_userId m = userId)) (db_teamMembers d),
           db_grants := filter (\<lambda>g. \<not> (gr_repositoryId g \<in> set repoIds \<and> gr_subjectType g = SubjUser \<and>
                                      gr_subjectId g = userId)) (db_grants d)\<rparr>)"

section \<open>Grants\<close>

definition grant_reaches :: "db \<Rightarrow> string \<Rightarrow> string \<Rightarrow> repository_grant \<Rightarrow> bool" where
  "grant_reaches d userId repositoryId g \<longleftrightarrow> gr_repositoryId g = repositoryId \<and>
     ((gr_subjectType g = SubjUser \<and> gr_subjectId g = userId) \<or>
      (gr_subjectType g = SubjTeam \<and> list_ex (\<lambda>m. tm_teamId m = gr_subjectId g \<and> tm_userId m = userId) (db_teamMembers d)))"

definition grantedPermission :: "db \<Rightarrow> string \<Rightarrow> string \<Rightarrow> repo_permission option" where
  "grantedPermission d userId repositoryId =
     fold (\<lambda>g best. maxPermission best (Some (gr_permission g))) (filter (grant_reaches d userId repositoryId) (db_grants d)) None"

definition effectivePermission ::
  "db \<Rightarrow> string \<Rightarrow> bool \<Rightarrow> string option \<Rightarrow> string option \<Rightarrow> repo_permission option" where
  "effectivePermission d userId isAdmin role repositoryId =
     (if isAdmin then Some PAdmin
      else (let base = permissionFromRole role in
        if \<not> truthy role \<or> \<not> truthy repositoryId then base
        else maxPermission base (grantedPermission d userId (the repositoryId))))"

definition same_grant :: "string \<Rightarrow> subject_type \<Rightarrow> string \<Rightarrow> repository_grant \<Rightarrow> bool" where
  "same_grant repoId st sid g \<longleftrightarrow> gr_repositoryId g = repoId \<and> gr_subjectType g = st \<and> gr_subjectId g = sid"

definition setRepoGrant ::
  "string \<Rightarrow> millis \<Rightarrow> string \<Rightarrow> string \<Rightarrow> subject_type \<Rightarrow> string \<Rightarrow> repo_permission \<Rightarrow> string option \<Rightarrow> db \<Rightarrow>
     (string + repository_grant) \<times> db" where
  "setRepoGrant newId now repositoryId organizationId st sid permission actorUserId d =
     (if st = SubjUser \<and> \<not> is_member d organizationId sid
      then (Inl ''Only members of the organization can be granted access.'', d)
      else if st = SubjTeam \<and> find_team d organizationId sid = None
      then (Inl ''No such team in this organization.'', d)
      else (let upd = (\<lambda>g. g\<lparr>gr_permission := permission, gr_createdBy := actorUserId, gr_createdAt := now\<rparr>);
                row = \<lparr>gr_id = newId, gr_repositoryId = repositoryId, gr_subjectType = st, gr_subjectId = sid,
                       gr_permission = permission, gr_createdBy = actorUserId, gr_createdAt = now\<rparr>
            in case find (same_grant repositoryId st sid) (db_grants d) of
                 Some g \<Rightarrow> (Inr (upd g), d\<lparr>db_grants := map (\<lambda>x. if same_grant repositoryId st sid x then upd x else x) (db_grants d)\<rparr>)
               | None \<Rightarrow> (Inr row, d\<lparr>db_grants := db_grants d @ [row]\<rparr>)))"

definition removeRepoGrant ::
  "string \<Rightarrow> string option \<Rightarrow> subject_type option \<Rightarrow> string option \<Rightarrow> db \<Rightarrow> (string + repository_grant) \<times> db" where
  "removeRepoGrant repositoryId grantId st sid d =
     (let hit = (if truthy grantId then (\<lambda>g. Some (gr_id g) = grantId \<and> gr_repositoryId g = repositoryId)
                 else same_grant repositoryId (nullish st SubjUser) (nullish sid []))
      in case find hit (db_grants d) of
           None \<Rightarrow> (Inl ''No such grant.'', d)
         | Some r \<Rightarrow> (Inr r, d\<lparr>db_grants := filter (\<lambda>g. \<not> hit g) (db_grants d)\<rparr>))"

section \<open>Token restrictions\<close>

record token_restriction =
  tr_organizationId :: string
  tr_repositoryIds :: "string list option"

definition restrictionAllows :: "token_restriction option \<Rightarrow> string \<Rightarrow> string option \<Rightarrow> bool" where
  "restrictionAllows restriction organizationId repositoryId = (case restriction of
       None \<Rightarrow> True
     | Some r \<Rightarrow>
         if tr_organizationId r \<noteq> organizationId then False
         else (case tr_repositoryIds r of
             None \<Rightarrow> True
           | Some ids \<Rightarrow> if \<not> truthy repositoryId then False else the repositoryId \<in> set ids))"

definition normalizeRestriction :: "string option \<Rightarrow> string list option \<Rightarrow> token_restriction option" where
  "normalizeRestriction organizationId repositoryIds =
     (if \<not> truthy organizationId then None
      else (let ids = map_option (filter (\<lambda>i. i \<noteq> [])) repositoryIds
            in Some \<lparr>tr_organizationId = the organizationId,
                     tr_repositoryIds = (case ids of Some l \<Rightarrow> if l \<noteq> [] then Some (uniq l) else None | None \<Rightarrow> None)\<rparr>))"

section \<open>The token service's decision\<close>

datatype registry_action = RPull | RPush | RDelete

datatype caller =
    Anonymous
  | CallerUser string bool "pat_scope option" "token_restriction option"
      \<comment> \<open>user id, instance administrator, scope of the access token, its restriction\<close>
  | CallerSa string string repo_permission "string list option"
      \<comment> \<open>account id, organization, permission, repositories\<close>

definition callerSubject :: "caller \<Rightarrow> string" where
  "callerSubject c = (case c of
       CallerUser uid _ _ _ \<Rightarrow> ''user:'' @ uid | CallerSa sid _ _ _ \<Rightarrow> ''sa:'' @ sid | Anonymous \<Rightarrow> ''anonymous'')"

definition ROLE_REGISTRY_ACTIONS :: "string \<Rightarrow> registry_action list option" where
  "ROLE_REGISTRY_ACTIONS role =
     map_of [(''owner'', [RPull, RPush, RDelete]), (''admin'', [RPull, RPush, RDelete]),
             (''member'', [RPull, RPush]), (''viewer'', [RPull])] role"

fun permission_actions :: "repo_permission \<Rightarrow> registry_action list" where
  "permission_actions PAdmin = [RPull, RPush, RDelete]"
| "permission_actions PPush = [RPull, RPush]"
| "permission_actions PPull = [RPull]"

definition user_actions ::
  "db \<Rightarrow> string \<Rightarrow> bool \<Rightarrow> organization \<Rightarrow> repository option \<Rightarrow> visibility option \<Rightarrow> registry_action list" where
  \<comment> \<open>the case of a user before scope and restriction of the token\<close>
  "user_actions d userId isAdmin org repo vis =
     (if isAdmin then [RPull, RPush, RDelete]
      else (let membership = find (\<lambda>m. mem_organizationId m = org_id org \<and> mem_userId m = userId) (db_members d);
                base = (case membership of Some m \<Rightarrow> nullish (ROLE_REGISTRY_ACTIONS (mem_role m)) [RPull] | None \<Rightarrow> []);
                raised = (case (membership, repo) of
                    (Some _, Some r) \<Rightarrow>
                      (case grantedPermission d userId (repo_id r) of
                         Some PAdmin \<Rightarrow> [RPull, RPush, RDelete]
                       | Some PPush \<Rightarrow> if RPush \<notin> set base then uniq (base @ [RPull, RPush]) else base
                       | _ \<Rightarrow> base)
                  | _ \<Rightarrow> base)
            in if raised = [] \<and> vis = Some Public then [RPull] else raised))"

definition caller_actions ::
  "db \<Rightarrow> caller \<Rightarrow> organization \<Rightarrow> repository option \<Rightarrow> visibility option \<Rightarrow> registry_action list" where
  "caller_actions d c org repo vis = (case c of
       Anonymous \<Rightarrow> if vis = Some Public then [RPull] else []
     | CallerUser userId isAdmin patScope restriction \<Rightarrow>
         (let allowed = user_actions d userId isAdmin org repo vis;
              scoped = (if patScope = Some ScopeRead then filter (\<lambda>a. a = RPull) allowed else allowed)
          in if restriction \<noteq> None \<and> \<not> restrictionAllows restriction (org_id org) (map_option repo_id repo)
             then [] else scoped)
     | CallerSa saId organizationId permission repositoryIds \<Rightarrow>
         if organizationId \<noteq> org_id org then (if vis = Some Public then [RPull] else [])
         else (case repositoryIds of
             Some ids \<Rightarrow> (case repo of
                 None \<Rightarrow> []
               | Some r \<Rightarrow> if repo_id r \<notin> set ids then [] else permission_actions permission)
           | None \<Rightarrow> permission_actions permission))"

definition find_org :: "db \<Rightarrow> string \<Rightarrow> organization option" where
  "find_org d slug = find (\<lambda>g. org_slug g = slug) (db_organizations d)"

definition find_repo :: "db \<Rightarrow> string \<Rightarrow> string \<Rightarrow> repository option" where
  "find_repo d orgId name = find (\<lambda>r. repo_organizationId r = orgId \<and> repo_name r = name) (db_repositories d)"

definition find_proxy :: "db \<Rightarrow> string \<Rightarrow> organization_proxy option" where
  "find_proxy d orgId = find (\<lambda>p. op_organizationId p = orgId) (db_proxies d)"

definition repo_visibility_for :: "db \<Rightarrow> organization \<Rightarrow> organization_proxy option \<Rightarrow> repository option \<Rightarrow> visibility option" where
  "repo_visibility_for d org proxy repo = (case repo of
       Some r \<Rightarrow> Some (repo_visibility r)
     | None \<Rightarrow> if proxy = None then None
         else Some (nullish (Option.bind (find (\<lambda>s. os_organizationId s = org_id org) (db_orgSettings d)) os_defaultVisibility) Private))"

definition allowedRepositoryActions ::
  "(string \<Rightarrow> string option) \<Rightarrow> db \<Rightarrow> caller \<Rightarrow> string \<Rightarrow> string \<Rightarrow> registry_action list \<Rightarrow> registry_action list" where
  "allowedRepositoryActions url_host d c orgSlug repoName requested =
     (case find_org d orgSlug of
        None \<Rightarrow> []
      | Some org \<Rightarrow>
        (let proxy = find_proxy d (org_id org) in
         if CHR ''/'' \<in> set repoName \<and> proxy = None then []
         else (let name = (case proxy of Some p \<Rightarrow> proxyLocalName (isDockerHubUrl url_host (op_upstreamUrl p)) repoName
                             | None \<Rightarrow> repoName);
                   repo = find_repo d (org_id org) name;
                   allowed = caller_actions d c org repo (repo_visibility_for d org proxy repo);
                   final = (if proxy \<noteq> None then filter (\<lambda>a. a = RPull) allowed else allowed)
               in filter (\<lambda>a. a \<in> set final) requested)))"

definition mayAccessCatalog :: "db \<Rightarrow> caller \<Rightarrow> bool" where
  "mayAccessCatalog d c = (case c of
       CallerUser userId isAdmin patScope restriction \<Rightarrow>
         if restriction \<noteq> None then False
         else if isAdmin then True
         else (case find (\<lambda>u. u_id u = userId) (db_users d) of Some u \<Rightarrow> u_role u = Some ''admin'' | None \<Rightarrow> False)
     | _ \<Rightarrow> False)"

section \<open>Grants add up\<close>

lemma maxPermission_simps [simp]: "maxPermission None p = p" "maxPermission p None = p"
  by (cases p; simp add: maxPermission_def)+

lemma maxPermission_max: "maxPermission (Some a) (Some b) = Some (max a b)"
  by (cases a; cases b) (simp_all add: maxPermission_def max_def less_eq_repo_permission_def)

lemma fold_maxPermission:
  "fold (\<lambda>g best. maxPermission best (Some (f g))) gs (Some p) = Some (fold (\<lambda>g. max (f g)) gs p)"
  by (induction gs arbitrary: p) (simp_all add: maxPermission_max max.commute)

lemma granted_None_iff: "grantedPermission d u r = None \<longleftrightarrow> filter (grant_reaches d u r) (db_grants d) = []"
  by (cases "filter (grant_reaches d u r) (db_grants d)") (simp_all add: grantedPermission_def fold_maxPermission)

text \<open>The highest grant that reaches the user, as the library's maximum.\<close>

lemma fold_max_Max: "fold (\<lambda>g. max (f g)) gs (p :: 'b :: linorder) = Max (insert p (f ` set gs))"
proof (induction gs arbitrary: p)
  case Nil
  then show ?case by simp
next
  case (Cons g gs)
  have "Max (insert (max (f g) p) (f ` set gs)) = Max ({f g, p} \<union> f ` set gs)"
    by (cases "gs = []") (simp_all add: Max.union max.assoc)
  then show ?case by (simp add: Cons.IH insert_commute)
qed

lemma granted_Max:
  assumes "filter (grant_reaches d u r) (db_grants d) \<noteq> []"
  shows "grantedPermission d u r = Some (Max (gr_permission ` set (filter (grant_reaches d u r) (db_grants d))))"
  using assms
  by (cases "filter (grant_reaches d u r) (db_grants d)")
    (auto simp: grantedPermission_def fold_maxPermission fold_max_Max insert_commute simp del: filter_eq_Cons_iff)

section \<open>The step relation of teams and grants\<close>

definition leaveOrganization :: "string \<Rightarrow> string \<Rightarrow> db \<Rightarrow> db" where
  \<comment> \<open>a membership ends, then the hook drops what it gave\<close>
  "leaveOrganization organizationId userId d =
     dropOrganizationAccess organizationId userId
       (d\<lparr>db_members := filter (\<lambda>m. \<not> (mem_organizationId m = organizationId \<and> mem_userId m = userId)) (db_members d)\<rparr>)"

inductive access_step :: "db \<Rightarrow> db \<Rightarrow> bool" where
  create: "newId \<notin> team_id ` set (db_teams d) \<Longrightarrow>
     access_step d (snd (createTeam newId now org name slug description actor d))"
| update: "access_step d (snd (updateTeam org teamId name' slug description d))"
| delete: "access_step d (snd (deleteTeam org teamId d))"
| join: "access_step d (snd (addTeamMember now org teamId userId actor d))"
| part: "access_step d (snd (removeTeamMember org teamId userId d))"
| grant: "(\<And>r. r \<in> set (db_repositories d) \<Longrightarrow> repo_id r = repositoryId \<Longrightarrow> repo_organizationId r = org) \<Longrightarrow>
     access_step d (snd (setRepoGrant newId now repositoryId org st sid permission actor d))"
| revoke: "access_step d (snd (removeRepoGrant repositoryId grantId st' sid' d))"
| leave: "access_step d (leaveOrganization org userId d)"
| enter: "access_step d (d\<lparr>db_members := db_members d @ [m]\<rparr>)"

inductive_cases access_stepE: "access_step d d'"

definition subject_in_org :: "db \<Rightarrow> string \<Rightarrow> subject_type \<Rightarrow> string \<Rightarrow> bool" where
  "subject_in_org d org st sid \<longleftrightarrow> (case st of
       SubjUser \<Rightarrow> is_member d org sid
     | SubjTeam \<Rightarrow> list_ex (\<lambda>t. team_id t = sid \<and> team_organizationId t = org) (db_teams d))"

definition access_inv :: "db \<Rightarrow> bool" where
  "access_inv d \<longleftrightarrow>
     distinct (map team_id (db_teams d)) \<and>
     (\<forall>m \<in> set (db_teamMembers d). tm_teamId m \<in> team_id ` set (db_teams d)) \<and>
     (\<forall>m \<in> set (db_teamMembers d). \<forall>t \<in> set (db_teams d). team_id t = tm_teamId m \<longrightarrow>
        is_member d (team_organizationId t) (tm_userId m)) \<and>
     (\<forall>g \<in> set (db_grants d). \<forall>r \<in> set (db_repositories d). repo_id r = gr_repositoryId g \<longrightarrow>
        subject_in_org d (repo_organizationId r) (gr_subjectType g) (gr_subjectId g))"

lemma access_invD:
  assumes "access_inv d"
  shows "distinct (map team_id (db_teams d))"
    and "m \<in> set (db_teamMembers d) \<Longrightarrow> tm_teamId m \<in> team_id ` set (db_teams d)"
    and "m \<in> set (db_teamMembers d) \<Longrightarrow> t \<in> set (db_teams d) \<Longrightarrow> team_id t = tm_teamId m \<Longrightarrow>
           is_member d (team_organizationId t) (tm_userId m)"
    and "g \<in> set (db_grants d) \<Longrightarrow> r \<in> set (db_repositories d) \<Longrightarrow> repo_id r = gr_repositoryId g \<Longrightarrow>
           subject_in_org d (repo_organizationId r) (gr_subjectType g) (gr_subjectId g)"
  using assms unfolding access_inv_def by blast+

lemma is_member_other [simp]:
  "is_member (d\<lparr>db_teams := x\<rparr>) = is_member d" "is_member (d\<lparr>db_teamMembers := y\<rparr>) = is_member d"
  "is_member (d\<lparr>db_grants := z\<rparr>) = is_member d"
  by (simp_all add: is_member_def fun_eq_iff)

lemma subject_in_org_other [simp]:
  "subject_in_org (d\<lparr>db_teamMembers := y\<rparr>) = subject_in_org d" "subject_in_org (d\<lparr>db_grants := z\<rparr>) = subject_in_org d"
  by (simp_all add: subject_in_org_def fun_eq_iff split: subject_type.splits)

lemma subject_in_org_teams:
  "subject_in_org d org st sid \<Longrightarrow>
     (\<And>t. st = SubjTeam \<Longrightarrow> t \<in> set (db_teams d) \<Longrightarrow> team_id t = sid \<Longrightarrow> team_organizationId t = org \<Longrightarrow>
        \<exists>t' \<in> set ts. team_id t' = sid \<and> team_organizationId t' = org) \<Longrightarrow>
     subject_in_org (d\<lparr>db_teams := ts\<rparr>) org st sid"
  by (cases st) (auto simp: subject_in_org_def list_ex_iff)

lemma find_teamD: "find_team d org tid = Some t \<Longrightarrow> t \<in> set (db_teams d) \<and> team_id t = tid \<and> team_organizationId t = org"
  using find_SomeD [of "\<lambda>t. team_id t = tid \<and> team_organizationId t = org" "db_teams d" t]
  by (simp add: find_team_def)

lemma inv_teamMembers: "access_inv d \<Longrightarrow> set ms \<subseteq> set (db_teamMembers d) \<Longrightarrow> access_inv (d\<lparr>db_teamMembers := ms\<rparr>)"
  by (auto simp: access_inv_def)

lemma inv_grants:
  "access_inv d \<Longrightarrow>
     (\<And>g r. g \<in> set gs \<Longrightarrow> g \<notin> set (db_grants d) \<Longrightarrow> r \<in> set (db_repositories d) \<Longrightarrow> repo_id r = gr_repositoryId g \<Longrightarrow>
        subject_in_org d (repo_organizationId r) (gr_subjectType g) (gr_subjectId g)) \<Longrightarrow>
     access_inv (d\<lparr>db_grants := gs\<rparr>)"
  unfolding access_inv_def by simp blast

lemma inv_create:
  assumes "access_inv d" and "newId \<notin> team_id ` set (db_teams d)"
  shows "access_inv (snd (createTeam newId now org name slug description actor d))"
proof (cases "snd (createTeam newId now org name slug description actor d) = d")
  case False
  then obtain row where d': "snd (createTeam newId now org name slug description actor d) = d\<lparr>db_teams := db_teams d @ [row]\<rparr>"
    and row: "team_id row = newId"
    by (auto simp: createTeam_def Let_def split: sum.splits prod.splits if_splits)
  have "subject_in_org (d\<lparr>db_teams := db_teams d @ [row]\<rparr>) o' st sid" if "subject_in_org d o' st sid" for o' st sid
    using that by (rule subject_in_org_teams) auto
  moreover have "tm_teamId m \<noteq> newId" if "m \<in> set (db_teamMembers d)" for m
    using assms that by (auto simp: access_inv_def)
  ultimately show ?thesis using assms row unfolding d' access_inv_def by auto
qed (use assms in simp)

lemma inv_update:
  assumes "access_inv d"
  shows "access_inv (snd (updateTeam org teamId name slug description d))"
proof (cases "snd (updateTeam org teamId name slug description d) = d")
  case False
  then obtain f where d': "snd (updateTeam org teamId name slug description d) = d\<lparr>db_teams := map f (db_teams d)\<rparr>"
    and f: "\<And>t. team_id (f t) = team_id t" "\<And>t. team_organizationId (f t) = team_organizationId t"
    by (auto simp: updateTeam_def Let_def split: sum.splits prod.splits if_splits option.splits)
  have "subject_in_org (d\<lparr>db_teams := map f (db_teams d)\<rparr>) o' st sid" if "subject_in_org d o' st sid" for o' st sid
    using that by (rule subject_in_org_teams) (auto simp: f)
  with assms show ?thesis unfolding d' access_inv_def by (simp add: f comp_def image_image)
qed (use assms in simp)

lemma inv_delete:
  assumes "access_inv d"
  shows "access_inv (snd (deleteTeam org teamId d))"
proof (cases "find_team d org teamId")
  case None
  then show ?thesis using assms by (simp add: deleteTeam_def)
next
  case (Some t)
  let ?ts = "filter (\<lambda>t'. team_id t' \<noteq> team_id t) (db_teams d)"
  have sub: "subject_in_org (d\<lparr>db_teams := ?ts\<rparr>) o' st sid"
    if "subject_in_org d o' st sid" "\<not> (st = SubjTeam \<and> sid = team_id t)" for o' st sid
    using that(1) by (rule subject_in_org_teams) (use that(2) in auto)
  have d': "snd (deleteTeam org teamId d) = (d\<lparr>db_teams := ?ts\<rparr>)
      \<lparr>db_grants := filter (\<lambda>g. \<not> (gr_subjectType g = SubjTeam \<and> gr_subjectId g = team_id t)) (db_grants d),
       db_teamMembers := filter (\<lambda>m. tm_teamId m \<noteq> team_id t) (db_teamMembers d)\<rparr>"
    using Some by (simp add: deleteTeam_def)
  have "tm_teamId m \<in> team_id ` set ?ts" if m: "m \<in> set (db_teamMembers d)" "tm_teamId m \<noteq> team_id t" for m
  proof -
    obtain x where "x \<in> set (db_teams d)" "tm_teamId m = team_id x"
      using access_invD(2) [OF assms m(1)] by (elim imageE)
    then show ?thesis using m(2) by auto
  qed
  then show ?thesis using assms sub unfolding d' access_inv_def
    by (auto simp: distinct_map_filter)
qed

lemma inv_join:
  assumes "access_inv d"
  shows "access_inv (snd (addTeamMember now org teamId userId actor d))"
proof (cases "snd (addTeamMember now org teamId userId actor d) = d")
  case False
  then obtain t where t: "find_team d org teamId = Some t"
    by (cases "find_team d org teamId") (simp_all add: addTeamMember_def)
  with False have mem: "is_member d org userId"
    by (cases "is_member d org userId") (simp_all add: addTeamMember_def)
  define m where "m = \<lparr>tm_teamId = team_id t, tm_userId = userId, tm_addedBy = actor, tm_createdAt = now\<rparr>"
  have d': "snd (addTeamMember now org teamId userId actor d) = d\<lparr>db_teamMembers := db_teamMembers d @ [m]\<rparr>"
    using False t mem by (simp add: addTeamMember_def m_def split: if_splits)
  have m: "tm_teamId m = team_id t" "tm_userId m = userId" by (simp_all add: m_def)
  have "t' = t" if "t' \<in> set (db_teams d)" "team_id t' = team_id t" for t'
    using access_invD(1) [OF assms] that find_teamD [OF t] by (auto simp: distinct_map inj_on_def)
  moreover have "team_id t \<in> team_id ` set (db_teams d)" using find_teamD [OF t] by blast
  ultimately show ?thesis unfolding access_inv_def d'
    using access_invD [OF assms] mem m find_teamD [OF t] by (simp add: ball_Un) metis
qed (use assms in simp)

lemma inv_grant:
  assumes "access_inv d"
    and "\<And>r. r \<in> set (db_repositories d) \<Longrightarrow> repo_id r = repositoryId \<Longrightarrow> repo_organizationId r = org"
  shows "access_inv (snd (setRepoGrant newId now repositoryId org st sid permission actor d))"
proof (cases "snd (setRepoGrant newId now repositoryId org st sid permission actor d) = d")
  case False
  let ?d' = "snd (setRepoGrant newId now repositoryId org st sid permission actor d)"
  have "subject_in_org d org st sid"
  proof (cases st)
    case SubjUser
    then show ?thesis using False by (auto simp: setRepoGrant_def subject_in_org_def split: if_splits)
  next
    case SubjTeam
    then obtain t where "find_team d org sid = Some t"
      using False by (auto simp: setRepoGrant_def split: if_splits)
    with find_teamD SubjTeam show ?thesis by (fastforce simp: subject_in_org_def list_ex_iff)
  qed
  moreover have "same_grant repositoryId st sid g" if "g \<in> set (db_grants ?d')" "g \<notin> set (db_grants d)" for g
    using that by (auto simp: setRepoGrant_def Let_def same_grant_def split: option.splits if_splits)
  ultimately have "access_inv (d\<lparr>db_grants := db_grants ?d'\<rparr>)"
    using assms by (intro inv_grants) (auto simp: same_grant_def)
  moreover have "?d' = d\<lparr>db_grants := db_grants ?d'\<rparr>"
    by (auto simp: setRepoGrant_def Let_def split: option.splits)
  ultimately show ?thesis by simp
qed (use assms in simp)

lemma is_member_leave:
  "is_member (d\<lparr>db_members := filter (\<lambda>m. mem_organizationId m = org \<longrightarrow> mem_userId m \<noteq> u) (db_members d)\<rparr>) o' u'
     \<longleftrightarrow> is_member d o' u' \<and> (o', u') \<noteq> (org, u)"
  by (auto simp: is_member_def list_ex_iff)

lemma inv_leave:
  assumes "access_inv d"
  shows "access_inv (leaveOrganization org u d)"
proof -
  let ?d1 = "d\<lparr>db_members := filter (\<lambda>m. \<not> (mem_organizationId m = org \<and> mem_userId m = u)) (db_members d)\<rparr>"
  have sub: "subject_in_org ?d1 o' st sid" if "subject_in_org d o' st sid" "(o', st, sid) \<noteq> (org, SubjUser, u)" for o' st sid
    using that by (cases st) (auto simp: subject_in_org_def is_member_leave)
  let ?d' = "leaveOrganization org u d"
  have same: "db_teams ?d' = db_teams d" "db_repositories ?d' = db_repositories d"
    "is_member ?d' = is_member ?d1" "subject_in_org ?d' = subject_in_org ?d1"
    by (simp_all add: leaveOrganization_def dropOrganizationAccess_def Let_def)
  have tm: "m \<in> set (db_teamMembers d)"
      "t \<in> set (db_teams d) \<Longrightarrow> team_id t = tm_teamId m \<Longrightarrow> (team_organizationId t, tm_userId m) \<noteq> (org, u)"
    if "m \<in> set (db_teamMembers ?d')" for m t
    using that by (auto simp: leaveOrganization_def dropOrganizationAccess_def Let_def image_iff)
  have gr: "g \<in> set (db_grants d)"
      "r \<in> set (db_repositories d) \<Longrightarrow> repo_id r = gr_repositoryId g \<Longrightarrow>
         (repo_organizationId r, gr_subjectType g, gr_subjectId g) \<noteq> (org, SubjUser, u)"
    if "g \<in> set (db_grants ?d')" for g r
    using that by (auto simp: leaveOrganization_def dropOrganizationAccess_def Let_def image_iff)
  show ?thesis unfolding access_inv_def same
    using access_invD [OF assms] tm gr sub by (simp add: is_member_leave)
qed

lemma inv_enter:
  assumes "access_inv d"
  shows "access_inv (d\<lparr>db_members := db_members d @ [m]\<rparr>)"
proof -
  let ?d' = "d\<lparr>db_members := db_members d @ [m]\<rparr>"
  have mem: "is_member ?d' o' u'" if "is_member d o' u'" for o' u' using that by (simp add: is_member_def)
  then have "subject_in_org ?d' o' st sid" if "subject_in_org d o' st sid" for o' st sid
    using that by (cases st) (simp_all add: subject_in_org_def)
  with mem show ?thesis using access_invD [OF assms] unfolding access_inv_def by simp
qed

lemma access_step_inv: "access_step d d' \<Longrightarrow> access_inv d \<Longrightarrow> access_inv d'"
proof (induction rule: access_step.induct)
  case (part d org teamId userId)
  have "snd (removeTeamMember org teamId userId d) = d \<or>
      (\<exists>P. snd (removeTeamMember org teamId userId d) = d\<lparr>db_teamMembers := filter P (db_teamMembers d)\<rparr>)"
    by (auto simp: removeTeamMember_def Let_def split: option.splits)
  then show ?case using inv_teamMembers [OF part] part by (auto simp: subset_iff)
next
  case (revoke d repositoryId grantId st' sid')
  have "snd (removeRepoGrant repositoryId grantId st' sid' d) = d \<or>
      (\<exists>P. snd (removeRepoGrant repositoryId grantId st' sid' d) = d\<lparr>db_grants := filter P (db_grants d)\<rparr>)"
    by (auto simp: removeRepoGrant_def Let_def split: option.splits)
  moreover have "access_inv (d\<lparr>db_grants := filter P (db_grants d)\<rparr>)" for P
    using revoke by (rule inv_grants) simp
  ultimately show ?case using revoke by auto
next
  case (grant d repositoryId org newId now st sid permission actor)
  then show ?case by (intro inv_grant) auto
qed (simp_all add: inv_create inv_update inv_delete inv_join inv_leave inv_enter)

interpretation access_runs: step_invariant access_step access_inv
  by unfold_locales (rule access_step_inv)

lemma no_grant_outside:
  assumes inv: "access_inv d" and r: "r \<in> set (db_repositories d)" and out: "\<not> is_member d (repo_organizationId r) u"
  shows "grantedPermission d u (repo_id r) = None"
proof -
  have "\<not> grant_reaches d u (repo_id r) g" if g: "g \<in> set (db_grants d)" for g
  proof
    assume reach: "grant_reaches d u (repo_id r) g"
    then have sub: "subject_in_org d (repo_organizationId r) (gr_subjectType g) (gr_subjectId g)"
      using access_invD(4) [OF inv g r] by (simp add: grant_reaches_def)
    show False
    proof (cases "gr_subjectType g")
      case SubjUser
      then show False using reach sub out by (simp add: grant_reaches_def subject_in_org_def)
    next
      case SubjTeam
      then obtain m t where "m \<in> set (db_teamMembers d)" "tm_teamId m = gr_subjectId g" "tm_userId m = u"
        "t \<in> set (db_teams d)" "team_id t = gr_subjectId g" "team_organizationId t = repo_organizationId r"
        using reach sub by (auto simp: grant_reaches_def subject_in_org_def list_ex_iff)
      then show False using access_invD(3) [OF inv, of m t] out by simp
    qed
  qed
  then show ?thesis by (simp add: granted_None_iff filter_empty_conv)
qed

section \<open>Properties\<close>

definition example_member :: org_member where
  "example_member = \<lparr>mem_id = ''m'', mem_organizationId = ''o'', mem_userId = ''u'', mem_role = ''viewer'', mem_createdAt = 0\<rparr>"

definition example_grant :: repository_grant where
  "example_grant = \<lparr>gr_id = ''g'', gr_repositoryId = ''r'', gr_subjectType = SubjUser, gr_subjectId = ''u'',
     gr_permission = PPush, gr_createdBy = None, gr_createdAt = 0\<rparr>"

definition example_access_db :: db where
  "example_access_db = empty_db\<lparr>db_repositories := [example_repo], db_organizations := [example_org],
     db_members := [example_member], db_grants := [example_grant]\<rparr>"

lemmas access_examples = example_member_def example_grant_def example_access_db_def example_repo_def example_org_def
  empty_db_def

lemma role_actions:
  assumes "role \<in> {''owner'', ''admin'', ''member'', ''viewer''}"
  shows "\<exists>p. permissionFromRole (Some role) = Some p \<and> ROLE_REGISTRY_ACTIONS role = Some (permission_actions p)"
  using assms by (auto simp: permissionFromRole_def ROLE_REGISTRY_ACTIONS_def)

text \<open>
  C2. The pages and the token service agree on a member's rights. For an existing repository of
  an ordinary organization and a member whose role is one of the four roles of the application,
  signed in without a limited token, the effective permission the pages compute (role raised by
  the grants to the person and to their teams) always exists, and the actions the token service
  grants are exactly the requested ones which that permission covers.
\<close>

theorem token_service_matches_pages:
  assumes org: "find_org d orgSlug = Some g" and plain: "find_proxy d (org_id g) = None" and one: "CHR ''/'' \<notin> set repoName"
    and repo: "find_repo d (org_id g) repoName = Some r" and rid: "repo_id r \<noteq> []"
    and mem: "find (\<lambda>m. mem_organizationId m = org_id g \<and> mem_userId m = userId) (db_members d) = Some m"
    and role: "mem_role m \<in> {''owner'', ''admin'', ''member'', ''viewer''}"
  shows "\<exists>p. effectivePermission d userId isAdmin (Some (mem_role m)) (Some (repo_id r)) = Some p \<and>
    allowedRepositoryActions url_host d (CallerUser userId isAdmin None None) orgSlug repoName requested =
      filter (\<lambda>a. a \<in> set (permission_actions p)) requested"
proof (cases isAdmin)
  case True
  then show ?thesis using org plain one repo
    by (auto simp: effectivePermission_def allowedRepositoryActions_def caller_actions_def user_actions_def)
next
  case False
  obtain b where b: "permissionFromRole (Some (mem_role m)) = Some b" "ROLE_REGISTRY_ACTIONS (mem_role m) = Some (permission_actions b)"
    using role_actions [OF role] by blast
  have "mem_role m \<noteq> []" using role by auto
  then have eff: "effectivePermission d userId isAdmin (Some (mem_role m)) (Some (repo_id r)) =
      maxPermission (Some b) (grantedPermission d userId (repo_id r))"
    using False rid b by (simp add: effectivePermission_def truthy_def)
  obtain p where p: "maxPermission (Some b) (grantedPermission d userId (repo_id r)) = Some p"
    by (cases "grantedPermission d userId (repo_id r)") (simp_all add: maxPermission_max)
  have "set (user_actions d userId False g (Some r) vis) = set (permission_actions p)" for vis
  proof (cases "grantedPermission d userId (repo_id r)")
    case None
    then show ?thesis using mem b p by (cases b) (simp_all add: user_actions_def Let_def)
  next
    case (Some q)
    then show ?thesis using mem b p
      by (cases b; cases q) (simp_all add: user_actions_def Let_def maxPermission_def uniq_def)
  qed
  then show ?thesis unfolding eff p using org plain one repo False
    by (simp add: allowedRepositoryActions_def caller_actions_def)
qed

theorem token_service_matches_pages_witness:
  "\<exists>p. effectivePermission example_access_db ''u'' False (Some (mem_role example_member)) (Some (repo_id example_repo)) = Some p \<and>
    allowedRepositoryActions (\<lambda>_. None) example_access_db (CallerUser ''u'' False None None) ''acme'' ''app'' [RPull, RDelete, RPush] =
      filter (\<lambda>a. a \<in> set (permission_actions p)) [RPull, RDelete, RPush]"
  by (rule token_service_matches_pages [where g = example_org])
    (simp_all add: access_examples find_org_def find_proxy_def find_repo_def)



text \<open>
  A service account acts inside its organization only: a granted action is either a pull
  from a public repository of another organization, or lies in its own organization, is covered
  by the account's permission and, when the account is limited to some repositories, is on
  an existing repository of that list.
\<close>

theorem service_account_confined:
  assumes "a \<in> set (allowedRepositoryActions url_host d (CallerSa saId own permission limit) orgSlug repoName requested)"
  shows "\<exists>g \<in> set (db_organizations d). org_slug g = orgSlug \<and>
    (if org_id g \<noteq> own then a = RPull
     else a \<in> set (permission_actions permission) \<and>
       (\<forall>ids. limit = Some ids \<longrightarrow>
          (\<exists>r \<in> set (db_repositories d). repo_organizationId r = own \<and> repo_id r \<in> set ids)))"
proof -
  obtain g where g: "find_org d orgSlug = Some g"
    using assms by (cases "find_org d orgSlug") (simp_all add: allowedRepositoryActions_def)
  then have g': "g \<in> set (db_organizations d)" "org_slug g = orgSlug" unfolding find_org_def by (auto dest: find_SomeD)
  obtain name vis where a: "a \<in> set (caller_actions d (CallerSa saId own permission limit) g (find_repo d (org_id g) name) vis)"
    using assms g by (auto simp: allowedRepositoryActions_def Let_def split: if_splits)
  have "\<exists>r \<in> set (db_repositories d). repo_organizationId r = own \<and> repo_id r \<in> set ids"
    if lim: "org_id g = own" "limit = Some ids" for ids
  proof -
    obtain r where "find_repo d own name = Some r" "repo_id r \<in> set ids"
      using a lim by (cases "find_repo d own name") (auto simp: caller_actions_def split: if_splits)
    then show ?thesis unfolding find_repo_def by (auto dest: find_SomeD)
  qed
  moreover have "if org_id g \<noteq> own then a = RPull else a \<in> set (permission_actions permission)"
    using a by (auto simp: caller_actions_def split: if_splits option.splits)
  ultimately show ?thesis using g' by (intro bexI [of _ g]) auto
qed

theorem service_account_confined_witness:
  "RPush \<in> set (allowedRepositoryActions (\<lambda>_. None) example_access_db (CallerSa ''s'' ''o'' PPush (Some [''r''])) ''acme'' ''app'' [RPush, RDelete]) \<and>
   (\<exists>g \<in> set (db_organizations example_access_db). org_slug g = ''acme'')"
proof -
  have "RPush \<in> set (allowedRepositoryActions (\<lambda>_. None) example_access_db (CallerSa ''s'' ''o'' PPush (Some [''r''])) ''acme'' ''app'' [RPush, RDelete])"
    by code_simp
  with service_account_confined [OF this] show ?thesis by blast
qed

text \<open>
  A proxy cache is read-only for everybody and a visitor only reads what is public: in an
  organization with a proxy no caller, not even an instance administrator, is granted more
  than pulls; and without credentials nothing but a pull is granted anywhere, and only where
  the repository (or, for one the cache has not stored yet, the organization's default) is public.
\<close>

theorem proxy_read_only:
  assumes "find_org d orgSlug = Some g"
  shows "(find_proxy d (org_id g) \<noteq> None \<longrightarrow>
      set (allowedRepositoryActions url_host d c orgSlug repoName requested) \<subseteq> {RPull}) \<and>
    (a \<in> set (allowedRepositoryActions url_host d Anonymous orgSlug repoName requested) \<longrightarrow>
      a = RPull \<and> (\<exists>name. repo_visibility_for d g (find_proxy d (org_id g)) (find_repo d (org_id g) name) = Some Public))"
  using assms by (auto simp: allowedRepositoryActions_def caller_actions_def Let_def split: if_splits)

theorem proxy_read_only_witness:
  "find_org example_access_db ''acme'' = Some example_org \<and>
   allowedRepositoryActions (\<lambda>_. None) example_access_db Anonymous ''acme'' ''app'' [RPull] = []"
proof -
  have *: "find_org example_access_db ''acme'' = Some example_org" by (simp add: find_org_def access_examples)
  have "\<not> (\<exists>name. repo_visibility_for example_access_db example_org (find_proxy example_access_db (org_id example_org))
      (find_repo example_access_db (org_id example_org) name) = Some Public)"
    by (auto simp: repo_visibility_for_def find_proxy_def find_repo_def access_examples)
  with proxy_read_only [OF *, of "\<lambda>_. None" Anonymous "''app''" "[RPull]"] * show ?thesis
    by (metis list.set_intros(1) neq_Nil_conv)
qed


definition example_founding_db :: db where
  "example_founding_db = example_access_db\<lparr>db_grants := []\<rparr>"


text \<open>
  Ending a membership takes away what it gave and nothing else: afterwards the user is not a
  member, holds no grant on any repository of the organization, and every other user keeps the
  very permission they had on every repository, as does the user outside the organization's
  teams and repositories.
\<close>

theorem leaving_drops_access:
  assumes "access_inv d"
  shows "\<not> is_member (leaveOrganization org u d) org u \<and>
    (\<forall>r \<in> set (db_repositories d). repo_organizationId r = org \<longrightarrow>
       grantedPermission (leaveOrganization org u d) u (repo_id r) = None) \<and>
    (\<forall>u' rid. u' \<noteq> u \<longrightarrow> grantedPermission (leaveOrganization org u d) u' rid = grantedPermission d u' rid)"
proof -
  let ?d' = "leaveOrganization org u d"
  have out: "\<not> is_member ?d' org u" by (auto simp: leaveOrganization_def dropOrganizationAccess_def is_member_def list_ex_iff)
  have inv: "access_inv ?d'" by (rule inv_leave [OF assms])
  have repos: "db_repositories ?d' = db_repositories d" by (simp add: leaveOrganization_def dropOrganizationAccess_def Let_def)
  have "filter (grant_reaches ?d' u' rid) (db_grants ?d') = filter (grant_reaches d u' rid) (db_grants d)" if "u' \<noteq> u" for u' rid
    using that by (auto simp: leaveOrganization_def dropOrganizationAccess_def Let_def grant_reaches_def list_ex_iff intro!: filter_cong)
  then have "\<forall>u' rid. u' \<noteq> u \<longrightarrow> grantedPermission ?d' u' rid = grantedPermission d u' rid"
    by (simp add: grantedPermission_def)
  with out no_grant_outside [OF inv] repos show ?thesis by auto
qed

theorem leaving_drops_access_witness:
  "access_inv example_access_db \<and> grantedPermission (leaveOrganization ''o'' ''u'' example_access_db) ''u'' ''r'' = None"
proof -
  have *: "access_inv example_access_db"
    by (simp add: access_inv_def access_examples subject_in_org_def is_member_def)
  have "example_repo \<in> set (db_repositories example_access_db)" "repo_organizationId example_repo = ''o''" "repo_id example_repo = ''r''"
    by (simp_all add: access_examples)
  with leaving_drops_access [OF *, of "''o''" "''u''"] * show ?thesis by metis
qed

end
