(* ===== verification/Redirects.thy ===== *)
theory Redirects
  imports Access
begin

text \<open>
  Former names of repositories and organizations (\<open>web/src/lib/redirects.ts\<close>). Primary keys: one row per
  former organization slug, one per former path of a repository. The two functions that only
  turn a result into an HTTP redirect are left out. The theorems: a redirect always names an
  existing repository by its current path and never hides one, and a recorded former
  path resolves to its repository until the name is taken again.
\<close>

section \<open>Resolution\<close>

record repository_target =
  rt_repositoryId :: string
  rt_orgSlug :: string
  rt_repoName :: string
  rt_organizationId :: string
  rt_visibility :: visibility

definition org_by_id :: "db \<Rightarrow> string \<Rightarrow> organization option" where
  "org_by_id d oid = find (\<lambda>g. org_id g = oid) (db_organizations d)"

definition repo_by_id :: "db \<Rightarrow> string \<Rightarrow> repository option" where
  "repo_by_id d rid = find (\<lambda>r. repo_id r = rid) (db_repositories d)"

definition targetById :: "db \<Rightarrow> string \<Rightarrow> repository_target option" where
  \<comment> \<open>an inner join: a repository without its organization gives no row\<close>
  "targetById d rid = (case repo_by_id d rid of
       None \<Rightarrow> None
     | Some r \<Rightarrow> (case org_by_id d (repo_organizationId r) of
           None \<Rightarrow> None
         | Some g \<Rightarrow> Some \<lparr>rt_repositoryId = repo_id r, rt_orgSlug = org_slug g, rt_repoName = repo_name r,
                         rt_organizationId = repo_organizationId r, rt_visibility = repo_visibility r\<rparr>))"

definition resolveOrganizationRedirect :: "db \<Rightarrow> string \<Rightarrow> (string \<times> string) option" where
  "resolveOrganizationRedirect d oldSlug =
     (case find (\<lambda>r. or_oldSlug r = oldSlug) (db_orgRedirects d) of
        None \<Rightarrow> None
      | Some r \<Rightarrow> map_option (\<lambda>g. (org_id g, org_slug g)) (org_by_id d (or_organizationId r)))"

definition former_slugs :: "db \<Rightarrow> string \<Rightarrow> string list" where
  "former_slugs d organizationId = map or_oldSlug (filter (\<lambda>r. or_organizationId r = organizationId) (db_orgRedirects d))"

fun first_target :: "db \<Rightarrow> repository_redirect list \<Rightarrow> string list \<Rightarrow> repository_target option" where
  \<comment> \<open>the loop over the slugs\<close>
  "first_target d rows [] = None"
| "first_target d rows (slug # slugs) =
     (case find (\<lambda>r. rr_organizationSlug r = slug) rows of
        None \<Rightarrow> first_target d rows slugs
      | Some row \<Rightarrow> (case targetById d (rr_repositoryId row) of
            Some target \<Rightarrow> Some target
          | None \<Rightarrow> first_target d rows slugs))"

definition redirect_slugs :: "db \<Rightarrow> string \<Rightarrow> organization option \<Rightarrow> (string \<times> string) option \<Rightarrow> string list" where
  \<comment> \<open>the requested, current and former slugs, in the order of the search\<close>
  "redirect_slugs d orgSlug org moved =
     (let orgId = (case org of Some g \<Rightarrow> Some (org_id g) | None \<Rightarrow> map_option fst moved)
      in [orgSlug] @ (case moved of Some (_, slug) \<Rightarrow> [slug] | None \<Rightarrow> []) @
         (if truthy orgId then former_slugs d (the orgId) else []))"

definition resolveRepositoryRedirect :: "db \<Rightarrow> string \<Rightarrow> string \<Rightarrow> repository_target option" where
  "resolveRepositoryRedirect d orgSlug repoName =
     (let org = find_org d orgSlug in
      if (case org of Some g \<Rightarrow> find_repo d (org_id g) repoName \<noteq> None | None \<Rightarrow> False) then None
      else if db_repoRedirects d = [] \<and> db_orgRedirects d = [] then None
      else (let moved = (if org = None then resolveOrganizationRedirect d orgSlug else None) in
        case (case moved of Some (mid, _) \<Rightarrow> find_repo d mid repoName | None \<Rightarrow> None) of
          Some there \<Rightarrow> targetById d (repo_id there)
        | None \<Rightarrow>
          (let slugs = redirect_slugs d orgSlug org moved;
               rows = filter (\<lambda>r. rr_organizationSlug r \<in> set slugs \<and> rr_repositoryName r = repoName) (db_repoRedirects d)
           in first_target d rows slugs)))"

section \<open>Writes\<close>

definition addRepositoryRedirect ::
  "string \<Rightarrow> millis \<Rightarrow> string \<Rightarrow> string \<Rightarrow> string \<Rightarrow> string option \<Rightarrow> db \<Rightarrow> db" where
  "addRepositoryRedirect newId now oldOrgSlug oldName repositoryId createdBy d =
     (let hit = (\<lambda>r. rr_organizationSlug r = oldOrgSlug \<and> rr_repositoryName r = oldName)
      in d\<lparr>db_repoRedirects :=
           (if list_ex hit (db_repoRedirects d)
            then map (\<lambda>r. if hit r then r\<lparr>rr_repositoryId := repositoryId, rr_createdBy := createdBy, rr_createdAt := now\<rparr> else r)
                   (db_repoRedirects d)
            else db_repoRedirects d @ [\<lparr>rr_id = newId, rr_organizationSlug = oldOrgSlug, rr_repositoryName = oldName,
                   rr_repositoryId = repositoryId, rr_createdAt = now, rr_createdBy = createdBy\<rparr>])\<rparr>)"

definition clearRepositoryRedirects :: "string \<Rightarrow> string \<Rightarrow> string \<Rightarrow> db \<Rightarrow> db" where
  "clearRepositoryRedirects organizationId orgSlug name d =
     (let slugs = orgSlug # former_slugs d organizationId
      in d\<lparr>db_repoRedirects := filter (\<lambda>r. \<not> (rr_repositoryName r = name \<and> rr_organizationSlug r \<in> set slugs)) (db_repoRedirects d)\<rparr>)"

definition addOrganizationRedirect :: "millis \<Rightarrow> string \<Rightarrow> string \<Rightarrow> string option \<Rightarrow> db \<Rightarrow> db" where
  "addOrganizationRedirect now oldSlug organizationId createdBy d =
     d\<lparr>db_orgRedirects :=
        (if list_ex (\<lambda>r. or_oldSlug r = oldSlug) (db_orgRedirects d)
         then map (\<lambda>r. if or_oldSlug r = oldSlug
                then r\<lparr>or_organizationId := organizationId, or_createdBy := createdBy, or_createdAt := now\<rparr> else r) (db_orgRedirects d)
         else db_orgRedirects d @ [\<lparr>or_oldSlug = oldSlug, or_organizationId = organizationId, or_createdAt = now, or_createdBy = createdBy\<rparr>])\<rparr>"

definition clearOrganizationRedirect :: "string \<Rightarrow> db \<Rightarrow> db" where
  "clearOrganizationRedirect slug d = d\<lparr>db_orgRedirects := filter (\<lambda>r. or_oldSlug r \<noteq> slug) (db_orgRedirects d)\<rparr>"

definition listRepositoryRedirects :: "db \<Rightarrow> string \<Rightarrow> (string \<times> string \<times> millis) list" where
  "listRepositoryRedirects d repositoryId =
     map (\<lambda>r. (rr_organizationSlug r, rr_repositoryName r, rr_createdAt r))
       (js_sort (\<lambda>a b. rr_createdAt b - rr_createdAt a) (filter (\<lambda>r. rr_repositoryId r = repositoryId) (db_repoRedirects d)))"

definition listOrganizationRedirects :: "db \<Rightarrow> string \<Rightarrow> (string \<times> millis) list" where
  "listOrganizationRedirects d organizationId =
     map (\<lambda>r. (or_oldSlug r, or_createdAt r))
       (js_sort (\<lambda>a b. or_createdAt b - or_createdAt a) (filter (\<lambda>r. or_organizationId r = organizationId) (db_orgRedirects d)))"

section \<open>Facts about resolution\<close>

lemma repo_by_idD: "repo_by_id d rid = Some r \<Longrightarrow> r \<in> set (db_repositories d) \<and> repo_id r = rid"
  unfolding repo_by_id_def by (auto dest: find_SomeD)

lemma org_by_idD: "org_by_id d oid = Some g \<Longrightarrow> g \<in> set (db_organizations d) \<and> org_id g = oid"
  unfolding org_by_id_def by (auto dest: find_SomeD)

lemma find_repoD: "find_repo d oid name = Some r \<Longrightarrow> r \<in> set (db_repositories d) \<and> repo_organizationId r = oid \<and> repo_name r = name"
  unfolding find_repo_def by (auto dest: find_SomeD)

lemma find_orgD: "find_org d slug = Some g \<Longrightarrow> g \<in> set (db_organizations d) \<and> org_slug g = slug"
  unfolding find_org_def by (auto dest: find_SomeD)

definition describes :: "db \<Rightarrow> repository_target \<Rightarrow> repository \<Rightarrow> organization \<Rightarrow> bool" where
  "describes d t r g \<longleftrightarrow> r \<in> set (db_repositories d) \<and> g \<in> set (db_organizations d) \<and> repo_organizationId r = org_id g \<and>
     t = \<lparr>rt_repositoryId = repo_id r, rt_orgSlug = org_slug g, rt_repoName = repo_name r,
          rt_organizationId = org_id g, rt_visibility = repo_visibility r\<rparr>"

lemma targetByIdD:
  assumes "targetById d rid = Some t"
  shows "\<exists>r g. describes d t r g \<and> repo_id r = rid"
proof -
  obtain r g where r: "repo_by_id d rid = Some r" and g: "org_by_id d (repo_organizationId r) = Some g"
    and t: "t = \<lparr>rt_repositoryId = repo_id r, rt_orgSlug = org_slug g, rt_repoName = repo_name r,
              rt_organizationId = repo_organizationId r, rt_visibility = repo_visibility r\<rparr>"
    using assms by (auto simp: targetById_def split: option.splits)
  show ?thesis using repo_by_idD [OF r] org_by_idD [OF g] t by (auto simp: describes_def intro!: exI [of _ r] exI [of _ g])
qed

lemma first_targetD: "first_target d rows slugs = Some t \<Longrightarrow> \<exists>row \<in> set rows. rr_organizationSlug row \<in> set slugs \<and> targetById d (rr_repositoryId row) = Some t"
  by (induction slugs) (auto split: option.splits dest: find_SomeD)

lemma first_target_head:
  "find (\<lambda>r. rr_organizationSlug r = slug) rows = Some row \<Longrightarrow> targetById d (rr_repositoryId row) = Some t \<Longrightarrow>
     first_target d rows (slug # slugs) = Some t"
  by simp

lemma org_redirectD:
  assumes "resolveOrganizationRedirect d oldSlug = Some (oid, slug)"
  shows "\<exists>row \<in> set (db_orgRedirects d). or_oldSlug row = oldSlug \<and> or_organizationId row = oid"
proof -
  obtain row g where row: "find (\<lambda>r. or_oldSlug r = oldSlug) (db_orgRedirects d) = Some row"
    and g: "org_by_id d (or_organizationId row) = Some g" and "oid = org_id g"
    using assms by (auto simp: resolveOrganizationRedirect_def split: option.splits)
  then show ?thesis using find_SomeD [OF row] org_by_idD [OF g] by auto
qed

lemma resolve_found:
  assumes "find_org d orgSlug = Some g" and "find_repo d (org_id g) repoName = Some r"
  shows "resolveRepositoryRedirect d orgSlug repoName = None"
  using assms by (simp add: resolveRepositoryRedirect_def)

text \<open>A redirect recorded under the very slug that is asked for wins when that organization still exists.\<close>

lemma resolve_recorded:
  assumes "find_org d orgSlug = Some g" and "find_repo d (org_id g) repoName = None"
    and "find (\<lambda>r. rr_organizationSlug r = orgSlug \<and> rr_repositoryName r = repoName) (db_repoRedirects d) = Some row"
    and "targetById d (rr_repositoryId row) = Some t"
  shows "resolveRepositoryRedirect d orgSlug repoName = Some t"
proof -
  let ?slugs = "redirect_slugs d orgSlug (Some g) None"
  obtain more where slugs: "?slugs = orgSlug # more" by (auto simp: redirect_slugs_def Let_def)
  let ?rows = "filter (\<lambda>r. rr_organizationSlug r \<in> set ?slugs \<and> rr_repositoryName r = repoName) (db_repoRedirects d)"
  have "find (\<lambda>r. rr_organizationSlug r = orgSlug) ?rows = find (\<lambda>r. rr_organizationSlug r = orgSlug \<and> rr_repositoryName r = repoName) (db_repoRedirects d)"
    unfolding find_filter_conj by (rule arg_cong [where f = "\<lambda>P. find P _"]) (auto simp: slugs)
  then have "find (\<lambda>r. rr_organizationSlug r = orgSlug) ?rows = Some row" using assms(3) by simp
  moreover have "db_repoRedirects d \<noteq> []" using assms(3) by auto
  ultimately show ?thesis using assms(1,2,4) first_target_head [of orgSlug ?rows row d t more]
    by (simp add: resolveRepositoryRedirect_def Let_def slugs del: first_target.simps)
qed

text \<open>A renamed organization: its repositories answer under the former slug.\<close>

lemma resolve_moved_org:
  assumes "find_org d oldSlug = None" and "resolveOrganizationRedirect d oldSlug = Some (oid, slug)"
    and "find_repo d oid repoName = Some r"
  shows "resolveRepositoryRedirect d oldSlug repoName = targetById d (repo_id r)"
proof -
  have "db_orgRedirects d \<noteq> []" using assms(2) by (auto simp: resolveOrganizationRedirect_def)
  then show ?thesis using assms by (simp add: resolveRepositoryRedirect_def)
qed

lemma resolve_cases:
  assumes "resolveRepositoryRedirect d orgSlug repoName = Some t"
  shows "(\<exists>oid slug r. resolveOrganizationRedirect d orgSlug = Some (oid, slug) \<and> find_repo d oid repoName = Some r \<and> targetById d (repo_id r) = Some t) \<or>
    (\<exists>row \<in> set (db_repoRedirects d). rr_repositoryName row = repoName \<and> targetById d (rr_repositoryId row) = Some t)"
proof -
  let ?moved = "if find_org d orgSlug = None then resolveOrganizationRedirect d orgSlug else None"
  show ?thesis
  proof (cases "case ?moved of Some (mid, _) \<Rightarrow> find_repo d mid repoName | None \<Rightarrow> None")
    case (Some r)
    then have "targetById d (repo_id r) = Some t"
      using assms by (simp add: resolveRepositoryRedirect_def Let_def split: if_splits)
    with Some show ?thesis by (auto split: if_splits option.splits)
  next
    case None
    let ?slugs = "redirect_slugs d orgSlug (find_org d orgSlug) ?moved"
    have "first_target d (filter (\<lambda>r. rr_organizationSlug r \<in> set ?slugs \<and> rr_repositoryName r = repoName) (db_repoRedirects d)) ?slugs = Some t"
      using assms None by (simp add: resolveRepositoryRedirect_def Let_def split: if_splits)
    from first_targetD [OF this] show ?thesis by auto
  qed
qed

section \<open>Properties\<close>

text \<open>
  A redirect is sound: it is only ever given for a path at which no repository exists, it names a
  repository that exists together with its organization under their current names, and it
  rests on a recorded former path of the repository or a former slug of its organization.
\<close>

theorem redirect_sound:
  assumes "distinct (map repo_id (db_repositories d))" and "resolveRepositoryRedirect d orgSlug repoName = Some t"
  shows "(\<forall>g. find_org d orgSlug = Some g \<longrightarrow> find_repo d (org_id g) repoName = None) \<and>
    (\<exists>r g. describes d t r g \<and>
      ((\<exists>row \<in> set (db_repoRedirects d). rr_repositoryName row = repoName \<and> rr_repositoryId row = repo_id r) \<or>
       (\<exists>row \<in> set (db_orgRedirects d). or_oldSlug row = orgSlug \<and> or_organizationId row = org_id g \<and> repo_name r = repoName)))"
proof
  show "\<forall>g. find_org d orgSlug = Some g \<longrightarrow> find_repo d (org_id g) repoName = None"
    using assms(2) resolve_found by (metis not_None_eq)
  from resolve_cases [OF assms(2)]
  show "\<exists>r g. describes d t r g \<and>
      ((\<exists>row \<in> set (db_repoRedirects d). rr_repositoryName row = repoName \<and> rr_repositoryId row = repo_id r) \<or>
       (\<exists>row \<in> set (db_orgRedirects d). or_oldSlug row = orgSlug \<and> or_organizationId row = org_id g \<and> repo_name r = repoName))"
  proof
    assume "\<exists>oid slug r. resolveOrganizationRedirect d orgSlug = Some (oid, slug) \<and> find_repo d oid repoName = Some r \<and> targetById d (repo_id r) = Some t"
    then obtain oid slug r where moved: "resolveOrganizationRedirect d orgSlug = Some (oid, slug)"
      and r: "find_repo d oid repoName = Some r" and t: "targetById d (repo_id r) = Some t" by blast
    obtain row where row: "row \<in> set (db_orgRedirects d)" "or_oldSlug row = orgSlug" "or_organizationId row = oid"
      using org_redirectD [OF moved] by blast
    obtain r' g where d: "describes d t r' g" "repo_id r' = repo_id r" using targetByIdD [OF t] by blast
    have "r' = r" using assms(1) d find_repoD [OF r] by (auto simp: distinct_map inj_on_def describes_def)
    with d row find_repoD [OF r] show ?thesis by (auto simp: describes_def)
  next
    assume "\<exists>row \<in> set (db_repoRedirects d). rr_repositoryName row = repoName \<and> targetById d (rr_repositoryId row) = Some t"
    then show ?thesis using targetByIdD by metis
  qed
qed

definition example_renamed_db :: db where
  "example_renamed_db = addRepositoryRedirect ''x'' 0 ''acme'' ''old'' ''r'' None
     (empty_db\<lparr>db_repositories := [example_repo], db_organizations := [example_org]\<rparr>)"

theorem redirect_sound_witness:
  "\<exists>t. resolveRepositoryRedirect example_renamed_db ''acme'' ''old'' = Some t \<and> rt_repoName t = ''app'' \<and>
     (\<exists>r g. describes example_renamed_db t r g)"
proof -
  let ?t = "\<lparr>rt_repositoryId = ''r'', rt_orgSlug = ''acme'', rt_repoName = ''app'', rt_organizationId = ''o'', rt_visibility = Private\<rparr>"
  have *: "resolveRepositoryRedirect example_renamed_db ''acme'' ''old'' = Some ?t" by code_simp
  have "distinct (map repo_id (db_repositories example_renamed_db))" by code_simp
  from redirect_sound [OF this *] * show ?thesis by (intro exI [of _ ?t]) auto
qed

end
