(* ===== verification/Scanner.thy ===== *)
theory Scanner
  imports Schema
begin

text \<open>
  Vulnerability findings: the normalised shape every scanner produces, severity counts, accepted risks
  and the filters of the vulnerabilities tab (\<open>web/src/lib/scanner-shared.ts\<close>), and the
  normalisation of Trivy and Clair reports (\<open>scanners/trivy.ts\<close>, \<open>scanners/clair.ts\<close>,
  \<open>scanners/normalize.ts\<close>). Reports are records of optional fields, as the interfaces declare them; a
  JavaScript object used as a dictionary is an association list in property order.
  \<open>localeCompare\<close> is the argument \<open>lc\<close>. The theorems: severity counts account for every
  finding exactly once, an exception only ever accepts what it names, and a normalised
  report lists each vulnerability of a package version once, most severe first.
\<close>

section \<open>Severities and findings\<close>

datatype severity = Critical | High | Medium | Low | Negligible | Unknown

definition SEVERITY_ORDER :: "severity list" where
  "SEVERITY_ORDER = [Critical, High, Medium, Low, Negligible, Unknown]"

type_synonym severity_summary = "severity \<Rightarrow> int option"
  \<comment> \<open>\<open>Partial<Record<Severity, number>>\<close>\<close>

record finding =
  fd_id :: string
  fd_severity :: severity
  fd_package :: string
  fd_version :: string
  fd_fixedIn :: "string option"
  fd_type :: string
  fd_title :: "string option"
  fd_description :: "string option"
  fd_links :: "string list"
  fd_layerDigest :: "string option"
  fd_ecosystem :: "string option"
  fd_distro :: "string option"

definition SCAN_STUCK_AFTER_MS :: millis where "SCAN_STUCK_AFTER_MS = 30 * 60 * 1000"

definition scanInProgress :: "(scan_status \<times> millis option) option \<Rightarrow> millis \<Rightarrow> bool" where
  "scanInProgress scan now = (case scan of
       None \<Rightarrow> False
     | Some (status, updatedAt) \<Rightarrow>
         if status \<noteq> ScanPending \<and> status \<noteq> ScanIndexing then False
         else now - nullish updatedAt 0 < SCAN_STUCK_AFTER_MS)"

definition normalizeSeverity :: "string option \<Rightarrow> severity" where
  "normalizeSeverity s =
     (let v = js_lower (js_trim (nullish s [])) in
      if v = ''critical'' then Critical
      else if v = ''high'' then High
      else if v = ''medium'' \<or> v = ''moderate'' then Medium
      else if v = ''low'' then Low
      else if v = ''negligible'' then Negligible
      else Unknown)"

fun SEVERITY_RANK :: "severity \<Rightarrow> int" where
  "SEVERITY_RANK Critical = 0" | "SEVERITY_RANK High = 1" | "SEVERITY_RANK Medium = 2"
| "SEVERITY_RANK Low = 3" | "SEVERITY_RANK Negligible = 4" | "SEVERITY_RANK Unknown = 5"

definition finding_order :: "(string \<Rightarrow> string \<Rightarrow> int) \<Rightarrow> finding \<Rightarrow> finding \<Rightarrow> int" where
  "finding_order lc a b = cmp_or (SEVERITY_RANK (fd_severity a) - SEVERITY_RANK (fd_severity b))
     (cmp_or (lc (fd_package a) (fd_package b)) (lc (fd_id a) (fd_id b)))"

definition sortFindings :: "(string \<Rightarrow> string \<Rightarrow> int) \<Rightarrow> finding list \<Rightarrow> finding list" where
  "sortFindings lc findings = js_sort (finding_order lc) findings"

definition summarizeFindings :: "finding list \<Rightarrow> severity \<Rightarrow> int" where
  "summarizeFindings findings =
     fold (\<lambda>f summary. summary(fd_severity f := summary (fd_severity f) + 1)) findings (\<lambda>_. 0)"

section \<open>Exceptions\<close>

definition rule_expired :: "vulnerability_exception \<Rightarrow> millis \<Rightarrow> bool" where
  "rule_expired rule now = (case ve_expiresAt rule of None \<Rightarrow> False | Some t \<Rightarrow> t \<le> now)"

definition exceptionApplies :: "vulnerability_exception \<Rightarrow> finding \<Rightarrow> string option \<Rightarrow> millis \<Rightarrow> bool" where
  "exceptionApplies rule finding repositoryId now =
     (if rule_expired rule now then False
      else if truthy (ve_repositoryId rule) \<and> ve_repositoryId rule \<noteq> repositoryId then False
      else if js_lower (ve_vulnerabilityId rule) \<noteq> js_lower (fd_id finding) then False
      else if truthy (ve_package rule) \<and> ve_package rule \<noteq> Some (fd_package finding) then False
      else True)"

record assessed_finding =
  af_finding :: finding
  af_exception :: "vulnerability_exception option"

definition accepting_rule :: "vulnerability_exception list \<Rightarrow> finding \<Rightarrow> string option \<Rightarrow> millis \<Rightarrow> vulnerability_exception option" where
  \<comment> \<open>the rule one finding is paired with\<close>
  "accepting_rule active finding repositoryId now =
     (let matches = filter (\<lambda>r. exceptionApplies r finding repositoryId now) active
      in case find (\<lambda>r. truthy (ve_repositoryId r)) matches of
           Some r \<Rightarrow> Some r
         | None \<Rightarrow> (case matches of [] \<Rightarrow> None | r # _ \<Rightarrow> Some r))"

definition applyExceptions :: "finding list \<Rightarrow> vulnerability_exception list \<Rightarrow> string option \<Rightarrow> millis \<Rightarrow> assessed_finding list" where
  "applyExceptions findings rules repositoryId now =
     (let active = filter (\<lambda>r. \<not> rule_expired r now) rules
      in map (\<lambda>f. \<lparr>af_finding = f, af_exception = accepting_rule active f repositoryId now\<rparr>) findings)"

definition effectiveSummary :: "finding list \<Rightarrow> vulnerability_exception list \<Rightarrow> string option \<Rightarrow> millis \<Rightarrow> severity \<Rightarrow> int" where
  "effectiveSummary findings rules repositoryId now =
     summarizeFindings (map af_finding (filter (\<lambda>a. af_exception a = None) (applyExceptions findings rules repositoryId now)))"

record finding_filter =
  ff_severities :: "severity list"
  ff_fixedOnly :: bool
  ff_query :: string
  ff_hideAccepted :: bool

definition EMPTY_FILTER :: finding_filter where
  "EMPTY_FILTER = \<lparr>ff_severities = [], ff_fixedOnly = False, ff_query = [], ff_hideAccepted = False\<rparr>"

definition passes_filter :: "finding_filter \<Rightarrow> assessed_finding \<Rightarrow> bool" where
  "passes_filter flt a =
     (let q = js_lower (js_trim (ff_query flt)); f = af_finding a in
      if ff_severities flt \<noteq> [] \<and> fd_severity f \<notin> set (ff_severities flt) then False
      else if ff_fixedOnly flt \<and> \<not> truthy (fd_fixedIn f) then False
      else if ff_hideAccepted flt \<and> af_exception a \<noteq> None then False
      else if q \<noteq> [] \<and> \<not> includes_str (js_lower (fd_id f @ '' '' @ fd_package f @ '' '' @ nullish (fd_title f) [] @ '' '' @ nullish (fd_ecosystem f) [])) q
      then False
      else True)"

definition filterFindings :: "assessed_finding list \<Rightarrow> finding_filter \<Rightarrow> assessed_finding list" where
  "filterFindings rows flt = filter (passes_filter flt) rows"

definition toSummary :: "severity_summary option \<Rightarrow> severity \<Rightarrow> int" where
  "toSummary summary s = nullish (Option.bind summary (\<lambda>m. m s)) 0"

definition upper_ascii :: "char \<Rightarrow> char" where
  "upper_ascii c = (if is_lower_alpha c then char_of (of_char c - 32 :: nat) else c)"

definition cve_like :: "string \<Rightarrow> nat \<Rightarrow> bool" where
  \<comment> \<open>\<open>cve-\d{4}-\d{m,}\<close> on a lower-cased string\<close>
  "cve_like v m = (case split_on (CHR ''-'') v of
       [a, b, c] \<Rightarrow> a = ''cve'' \<and> length b = 4 \<and> list_all is_digit b \<and> m \<le> length c \<and> list_all is_digit c
     | _ \<Rightarrow> False)"

definition ghsa_like :: "string \<Rightarrow> bool" where
  "ghsa_like v = (case split_on (CHR ''-'') v of
       [a, b, c, e] \<Rightarrow> a = ''ghsa'' \<and> list_all (\<lambda>p. length p = 4 \<and> list_all is_lower_alnum p) [b, c, e]
     | _ \<Rightarrow> False)"

definition normalizeVulnerabilityId :: "string \<Rightarrow> string" where
  "normalizeVulnerabilityId raw =
     (let v = js_trim raw in
      if cve_like (js_lower v) 4 \<or> ghsa_like (js_lower v) then map upper_ascii v else v)"

definition isVulnerabilityIdLike :: "string \<Rightarrow> bool" where
  "isVulnerabilityIdLike raw =
     (let v = js_lower (js_trim raw); parts = split_on (CHR ''-'') v;
          letters = (\<lambda>p. p \<noteq> [] \<and> list_all is_lower_alpha p); digits = (\<lambda>p. p \<noteq> [] \<and> list_all is_digit p) in
      cve_like v 1 \<or>
      (starts_with v ''ghsa-'' \<and> 5 < length v \<and> list_all (\<lambda>c. is_lower_alnum c \<or> c = CHR ''-'') (drop 5 v)) \<or>
      (case parts of [a, b, c] \<Rightarrow> letters a \<and> length b = 4 \<and> digits b \<and> digits c | _ \<Rightarrow> False) \<or>
      (case parts of [a, b] \<Rightarrow> letters a \<and> digits b | _ \<Rightarrow> False))"

section \<open>Trivy\<close>

record trivy_vulnerability =
  tv_VulnerabilityID :: "string option"
  tv_PkgName :: "string option"
  tv_InstalledVersion :: "string option"
  tv_FixedVersion :: "string option"
  tv_Severity :: "string option"
  tv_Title :: "string option"
  tv_Description :: "string option"
  tv_PrimaryURL :: "string option"
  tv_References :: "string list option"
  tv_LayerDigest :: "string option"

record trivy_result =
  tr_Class :: "string option"
  tr_Type :: "string option"
  tr_Vulnerabilities :: "trivy_vulnerability list option"

record trivy_report =
  tp_OS :: "(string option \<times> string option) option"
    \<comment> \<open>family and name of \<open>Metadata.OS\<close>\<close>
  tp_Results :: "trivy_result list option"

definition none_if_empty :: "string option \<Rightarrow> string option" where
  \<comment> \<open>\<open>s || null\<close>\<close>
  "none_if_empty s = (if truthy s then s else None)"

definition cut :: "nat \<Rightarrow> string option \<Rightarrow> string option" where
  \<comment> \<open>\<open>s ? s.slice(0, n) : null\<close>\<close>
  "cut n s = map_option (take n) (none_if_empty s)"

definition is_http :: "string \<Rightarrow> bool" where
  "is_http l \<longleftrightarrow> starts_with l ''http://'' \<or> starts_with l ''https://''"

definition trivy_typeFor :: "string option \<Rightarrow> string" where
  "trivy_typeFor cls =
     (if cls = Some ''os-pkgs'' then ''os'' else if cls = Some ''lang-pkgs'' then ''library''
      else if truthy cls then the cls else ''library'')"

definition finding_key :: "string \<Rightarrow> string \<Rightarrow> string \<Rightarrow> string" where
  "finding_key fid package version = fid @ ''|'' @ package @ ''|'' @ version"

type_synonym collected = "finding list \<times> string list"
  \<comment> \<open>the findings so far and the keys seen\<close>

definition trivy_finding :: "trivy_result \<Rightarrow> string option \<Rightarrow> trivy_vulnerability \<Rightarrow> finding" where
  "trivy_finding result distro v =
     (let type = trivy_typeFor (tr_Class result) in
      \<lparr>fd_id = js_trim (nullish (tv_VulnerabilityID v) []), fd_severity = normalizeSeverity (tv_Severity v),
       fd_package = nullish (tv_PkgName v) ''unknown'', fd_version = nullish (tv_InstalledVersion v) [],
       fd_fixedIn = none_if_empty (tv_FixedVersion v), fd_type = type, fd_title = cut 200 (tv_Title v),
       fd_description = cut 500 (tv_Description v),
       fd_links = take 10 (uniq (filter is_http (map the (filter (\<lambda>l. l \<noteq> None) [tv_PrimaryURL v]) @ nullish (tv_References v) []))),
       fd_layerDigest = none_if_empty (tv_LayerDigest v), fd_ecosystem = tr_Type result,
       fd_distro = (if type = ''os'' then distro else None)\<rparr>)"

definition trivy_vuln :: "trivy_result \<Rightarrow> string option \<Rightarrow> trivy_vulnerability \<Rightarrow> collected \<Rightarrow> collected" where
  \<comment> \<open>the inner loop's body\<close>
  "trivy_vuln result distro v acc =
     (let f = trivy_finding result distro v; key = finding_key (fd_id f) (fd_package f) (fd_version f) in
      if fd_id f = [] then acc
      else if key \<in> set (snd acc) then acc
      else (fst acc @ [f], snd acc @ [key]))"

definition trivy_result_loop :: "string option \<Rightarrow> trivy_result \<Rightarrow> collected \<Rightarrow> collected" where
  "trivy_result_loop distro result acc =
     (if truthy (tr_Class result) \<and> tr_Class result \<noteq> Some ''os-pkgs'' \<and> tr_Class result \<noteq> Some ''lang-pkgs'' then acc
      else fold (trivy_vuln result distro) (nullish (tr_Vulnerabilities result) []) acc)"

definition normalizeTrivyReport :: "(string \<Rightarrow> string \<Rightarrow> int) \<Rightarrow> trivy_report \<Rightarrow> finding list" where
  "normalizeTrivyReport lc report =
     (let distro = (case tp_OS report of
             None \<Rightarrow> None
           | Some (family, name) \<Rightarrow> if truthy family then Some (the family @ (if truthy name then '' '' @ the name else [])) else None)
      in sortFindings lc (fst (fold (trivy_result_loop distro) (nullish (tp_Results report) []) ([], []))))"

section \<open>Clair\<close>

record clair_distribution =
  cd_did :: "string option"
  cd_name :: "string option"
  cd_version :: "string option"
  cd_version_id :: "string option"
  cd_pretty_name :: "string option"

record clair_vulnerability =
  cv_name :: "string option"
  cv_description :: "string option"
  cv_links :: "string option"
  cv_normalized_severity :: "string option"
  cv_fixed_in_version :: "string option"
  cv_package_name :: "string option"
  cv_distribution :: "clair_distribution option"
  cv_updater :: "string option"

record clair_environment =
  ce_package_db :: "string option"
  ce_introduced_in :: "string option"
  ce_distribution_id :: "string option"

record clair_report =
  cr_vulnerabilities :: "(string \<times> clair_vulnerability) list"
  cr_package_vulnerabilities :: "(string \<times> string list) list"
  cr_packages :: "(string \<times> string option \<times> string option) list"
    \<comment> \<open>name and version\<close>
  cr_environments :: "(string \<times> clair_environment list) list"
  cr_distributions :: "(string \<times> clair_distribution) list"

definition OS_PACKAGE_DBS :: "string list" where
  "OS_PACKAGE_DBS = [''lib/apk/'', ''var/lib/dpkg'', ''var/lib/rpm'', ''usr/lib/sysimage/rpm'', ''usr/share/rpm'', ''var/lib/rpmmanifest'']"

definition clair_typeFor :: "string option \<Rightarrow> string option \<Rightarrow> string" where
  "clair_typeFor packageDb updater =
     (if truthy packageDb \<and> list_ex (starts_with (the packageDb)) OS_PACKAGE_DBS then ''os''
      else if truthy packageDb then ''library''
      else if truthy updater \<and> list_ex (starts_with (js_lower (the updater)))
          [''osv'', ''pypi'', ''npm'', ''go'', ''ruby'', ''maven'', ''crates'', ''cargo'', ''nuget'']
      then ''library''
      else if truthy updater then ''os'' else ''library'')"

definition scheme_of :: "string \<Rightarrow> string option" where
  \<comment> \<open>\<open>/^([a-z0-9_-]+):/i\<close>\<close>
  "scheme_of s =
     (let ok = (\<lambda>c. is_lower_alnum (lower_char c) \<or> c = CHR ''_'' \<or> c = CHR ''-''); p = takeWhile ok s in
      if p \<noteq> [] \<and> starts_with (drop (length p) s) '':'' then Some (js_lower p) else None)"

definition updater_name :: "string \<Rightarrow> string option" where
  \<comment> \<open>\<open>/^(osv\/)?([a-z0-9]+)/i\<close>, second group\<close>
  "updater_name s =
     (let word = (\<lambda>t. takeWhile is_lower_alnum (js_lower t)) in
      if starts_with (js_lower s) ''osv/'' \<and> word (drop 4 s) \<noteq> [] then Some (word (drop 4 s))
      else if word s \<noteq> [] then Some (word s) else None)"

definition ecosystemFor :: "string option \<Rightarrow> string option \<Rightarrow> string option \<Rightarrow> string option" where
  "ecosystemFor packageDb updater distroDid =
     (let by_updater = (case (if truthy updater then updater_name (the updater) else None) of Some m \<Rightarrow> Some m | None \<Rightarrow> distroDid) in
      if truthy packageDb then
        (let p = the packageDb in
         if starts_with p ''lib/apk/'' then Some ''alpine''
         else if starts_with p ''var/lib/dpkg'' then Some (nullish distroDid ''dpkg'')
         else if includes_str p ''rpm'' then Some (nullish distroDid ''rpm'')
         else (case scheme_of p of Some m \<Rightarrow> Some m | None \<Rightarrow> by_updater))
      else by_updater)"

definition distro_label :: "clair_distribution option \<Rightarrow> clair_distribution option \<Rightarrow> string option" where
  "distro_label distro vulnDistro =
     (let own = Option.bind distro cd_pretty_name; theirs = Option.bind vulnDistro cd_pretty_name; name = Option.bind distro cd_name in
      if truthy own then own
      else if truthy theirs then theirs
      else if truthy name then none_if_empty (Some (js_trim (the name @ '' '' @
          nullish (Option.bind distro cd_version) (nullish (Option.bind distro cd_version_id) []))))
      else None)"

definition clair_finding ::
  "clair_environment option \<Rightarrow> clair_distribution option \<Rightarrow> (string option \<times> string option) option \<Rightarrow> string \<Rightarrow> clair_vulnerability \<Rightarrow> finding" where
  "clair_finding env distro pkg vulnId vuln =
     \<lparr>fd_id = js_trim (if truthy (cv_name vuln) then the (cv_name vuln) else vulnId),
      fd_severity = normalizeSeverity (cv_normalized_severity vuln),
      fd_package = nullish (Option.bind pkg fst) (nullish (cv_package_name vuln) ''unknown''),
      fd_version = nullish (Option.bind pkg snd) [],
      fd_fixedIn = none_if_empty (cv_fixed_in_version vuln),
      fd_type = clair_typeFor (Option.bind env ce_package_db) (cv_updater vuln),
      fd_title = None,
      fd_description = cut 500 (cv_description vuln),
      fd_links = filter is_http (split_runs js_ws (nullish (cv_links vuln) [])),
      fd_layerDigest = none_if_empty (Option.bind env ce_introduced_in),
      fd_ecosystem = ecosystemFor (Option.bind env ce_package_db) (cv_updater vuln)
        (case Option.bind distro cd_did of Some x \<Rightarrow> Some x | None \<Rightarrow> Option.bind (cv_distribution vuln) cd_did),
      fd_distro = distro_label distro (cv_distribution vuln)\<rparr>"

definition clair_vuln ::
  "clair_report \<Rightarrow> clair_environment option \<Rightarrow> clair_distribution option \<Rightarrow> (string option \<times> string option) option \<Rightarrow> string \<Rightarrow> collected \<Rightarrow> collected" where
  "clair_vuln report env distro pkg vulnId acc = (case map_of (cr_vulnerabilities report) vulnId of
       None \<Rightarrow> acc
     | Some vuln \<Rightarrow>
         (let f = clair_finding env distro pkg vulnId vuln; key = finding_key (fd_id f) (fd_package f) (fd_version f) in
          if key \<in> set (snd acc) then acc else (fst acc @ [f], snd acc @ [key])))"

definition clair_package :: "clair_report \<Rightarrow> string \<times> string list \<Rightarrow> collected \<Rightarrow> collected" where
  "clair_package report entry acc = (case entry of (pkgId, vulnIds) \<Rightarrow>
     (let pkg = map_of (cr_packages report) pkgId;
          env = (case nullish (map_of (cr_environments report) pkgId) [] of [] \<Rightarrow> None | e # _ \<Rightarrow> Some e);
          did = Option.bind env ce_distribution_id;
          distro = (if truthy did then map_of (cr_distributions report) (the did) else None)
      in fold (clair_vuln report env distro pkg) vulnIds acc))"

definition normalizeClairReport :: "(string \<Rightarrow> string \<Rightarrow> int) \<Rightarrow> clair_report \<Rightarrow> finding list" where
  "normalizeClairReport lc report =
     sortFindings lc (fst (fold (clair_package report) (cr_package_vulnerabilities report) ([], [])))"

section \<open>Findings of a scan row\<close>

datatype raw_report = ClairReport clair_report | TrivyReport trivy_report | OtherReport
  \<comment> \<open>what \<open>reportKind\<close> tells apart\<close>

definition normalizeReport :: "(string \<Rightarrow> string \<Rightarrow> int) \<Rightarrow> raw_report option \<Rightarrow> finding list" where
  "normalizeReport lc report = (case report of
       Some (ClairReport r) \<Rightarrow> normalizeClairReport lc r
     | Some (TrivyReport r) \<Rightarrow> normalizeTrivyReport lc r
     | _ \<Rightarrow> [])"

record scan_row =
  sr_findings :: "finding list option"
  sr_report :: "raw_report option"
  sr_scanner :: "string option"
  sr_summary :: "severity_summary option"

definition findingsOf :: "(string \<Rightarrow> string \<Rightarrow> int) \<Rightarrow> scan_row \<Rightarrow> finding list \<times> bool" where
  "findingsOf lc row = (case sr_findings row of
       Some fs \<Rightarrow> (fs, False)
     | None \<Rightarrow> (normalizeReport lc (sr_report row), True))"

section \<open>Counting\<close>

lemma fold_count:
  "fold (\<lambda>f summary. summary(fd_severity f := summary (fd_severity f) + 1)) fs m s =
     m s + int (length (filter (\<lambda>f. fd_severity f = s) fs))"
  by (induction fs arbitrary: m) auto

lemma summarize_count: "summarizeFindings fs s = int (length (filter (\<lambda>f. fd_severity f = s) fs))"
  by (simp add: summarizeFindings_def fold_count)

lemma accepting_None_iff:
  "accepting_rule active f repo now = None \<longleftrightarrow> list_all (\<lambda>r. \<not> exceptionApplies r f repo now) active"
proof (cases "filter (\<lambda>r. exceptionApplies r f repo now) active")
  case Nil
  then show ?thesis by (simp add: accepting_rule_def list_all_iff filter_empty_conv)
next
  case (Cons r rs)
  then have "r \<in> set active \<and> exceptionApplies r f repo now" by (metis filter_eq_ConsD in_set_conv_decomp)
  with Cons show ?thesis by (auto simp: accepting_rule_def list_all_iff split: option.splits)
qed

lemma accepting_active:
  "accepting_rule (filter (\<lambda>r. \<not> rule_expired r now) rules) f repo now = None \<longleftrightarrow>
     list_all (\<lambda>r. \<not> exceptionApplies r f repo now) rules"
  unfolding accepting_None_iff by (auto simp: list_all_iff exceptionApplies_def)

lemma accepting_Some:
  assumes "accepting_rule (filter (\<lambda>r. \<not> rule_expired r now) rules) f repo now = Some r"
  shows "r \<in> set rules \<and> exceptionApplies r f repo now \<and>
    (truthy (ve_repositoryId r) \<or> list_all (\<lambda>r'. \<not> (exceptionApplies r' f repo now \<and> truthy (ve_repositoryId r'))) rules)"
proof -
  let ?matches = "filter (\<lambda>r. exceptionApplies r f repo now) (filter (\<lambda>r. \<not> rule_expired r now) rules)"
  have all: "r' \<in> set ?matches \<longleftrightarrow> r' \<in> set rules \<and> exceptionApplies r' f repo now" for r'
    by (auto simp: exceptionApplies_def)
  show ?thesis
  proof (cases "find (\<lambda>r. truthy (ve_repositoryId r)) ?matches")
    case None
    then have "r = hd ?matches" "?matches \<noteq> []"
      using assms by (auto simp: accepting_rule_def Let_def split: list.splits)
    then have "r \<in> set ?matches" by (metis hd_in_set)
    with None all show ?thesis by (auto simp: find_None_iff list_all_iff)
  next
    case (Some x)
    then have "x = r" using assms by (simp add: accepting_rule_def)
    with find_SomeD [OF Some] all show ?thesis by auto
  qed
qed

section \<open>Loops that collect findings\<close>

definition fkey :: "finding \<Rightarrow> string" where
  "fkey f = finding_key (fd_id f) (fd_package f) (fd_version f)"

definition collected_inv :: "collected \<Rightarrow> bool" where
  "collected_inv acc \<longleftrightarrow> map fkey (fst acc) = snd acc \<and> distinct (snd acc)"

text \<open>The contract of the loops over a report: they only add findings, one for each new key.\<close>

locale collector =
  fixes step :: "'x \<Rightarrow> collected \<Rightarrow> collected"
    and keys :: "'x \<Rightarrow> string set"
  assumes keeps: "collected_inv acc \<Longrightarrow> collected_inv (step x acc)"
    and adds: "set (snd (step x acc)) = set (snd acc) \<union> keys x"
begin

lemma fold_keeps: "collected_inv acc \<Longrightarrow> collected_inv (fold step xs acc)"
  by (induction xs arbitrary: acc) (simp_all add: keeps)

lemma fold_adds: "set (snd (fold step xs acc)) = set (snd acc) \<union> (\<Union>x \<in> set xs. keys x)"
  by (induction xs arbitrary: acc) (auto simp: adds)

lemma collected_once: "distinct (map fkey (fst (fold step xs ([], []))))"
  using fold_keeps [of "([], [])" xs] by (simp add: collected_inv_def)

lemma collected_keys: "fkey ` set (fst (fold step xs ([], []))) = (\<Union>x \<in> set xs. keys x)"
proof -
  have "fkey ` set (fst (fold step xs ([], []))) = set (snd (fold step xs ([], [])))"
    using fold_keeps [of "([], [])" xs] unfolding collected_inv_def by (metis distinct.simps(1) fst_conv list.map(1) list.set_map snd_conv)
  then show ?thesis by (simp add: fold_adds)
qed

end

definition trivy_keys :: "trivy_vulnerability \<Rightarrow> string set" where
  "trivy_keys v = (let fid = js_trim (nullish (tv_VulnerabilityID v) []) in
     if fid = [] then {} else {finding_key fid (nullish (tv_PkgName v) ''unknown'') (nullish (tv_InstalledVersion v) [])})"

interpretation trivy_vulns: collector "trivy_vuln result distro" trivy_keys for result distro
  by unfold_locales (auto simp: trivy_vuln_def collected_inv_def fkey_def Let_def trivy_keys_def trivy_finding_def)

definition package_class :: "trivy_result \<Rightarrow> bool" where
  "package_class result \<longleftrightarrow> tr_Class result \<in> {None, Some [], Some ''os-pkgs'', Some ''lang-pkgs''}"

definition trivy_result_keys :: "trivy_result \<Rightarrow> string set" where
  "trivy_result_keys result =
     (if package_class result then (\<Union>v \<in> set (nullish (tr_Vulnerabilities result) []). trivy_keys v) else {})"

lemma skipped_class:
  "truthy (tr_Class result) \<and> tr_Class result \<noteq> Some ''os-pkgs'' \<and> tr_Class result \<noteq> Some ''lang-pkgs'' \<longleftrightarrow> \<not> package_class result"
  by (cases "tr_Class result") (auto simp: package_class_def)

interpretation trivy_results: collector "trivy_result_loop distro" trivy_result_keys for distro
  by unfold_locales (simp_all add: trivy_result_loop_def skipped_class trivy_result_keys_def trivy_vulns.fold_keeps trivy_vulns.fold_adds)

definition clair_keys ::
  "clair_report \<Rightarrow> clair_environment option \<Rightarrow> clair_distribution option \<Rightarrow> (string option \<times> string option) option \<Rightarrow> string \<Rightarrow> string set" where
  "clair_keys report env distro pkg vulnId =
     (case map_of (cr_vulnerabilities report) vulnId of None \<Rightarrow> {} | Some vuln \<Rightarrow> {fkey (clair_finding env distro pkg vulnId vuln)})"

interpretation clair_vulns: collector "clair_vuln report env distro pkg" "clair_keys report env distro pkg" for report env distro pkg
  by unfold_locales (auto simp: clair_vuln_def collected_inv_def fkey_def Let_def clair_keys_def split: option.splits)

definition clair_package_keys :: "clair_report \<Rightarrow> string \<times> string list \<Rightarrow> string set" where
  "clair_package_keys report entry = set (snd (clair_package report entry ([], [])))"

interpretation clair_packages: collector "clair_package report" "clair_package_keys report" for report
  by unfold_locales
    (simp_all add: clair_package_def clair_package_keys_def clair_vulns.fold_keeps clair_vulns.fold_adds Let_def split: prod.splits)

text \<open>Whatever breaks the ties, the difference of ranks that is compared first orders the result.\<close>

lemma insert_by_rank:
  assumes "sorted_wrt (\<lambda>a b. rank a \<le> rank b) xs"
  shows "sorted_wrt (\<lambda>a b. rank a \<le> rank b) (insert_by (\<lambda>a b. cmp_or (rank a - rank b :: int) (t a b)) x xs)"
  using assms
proof (induction xs)
  case (Cons y ys)
  then show ?case by (auto simp: cmp_or_def split: if_splits)
qed simp

lemma sort_by_rank: "sorted_wrt (\<lambda>a b. rank a \<le> rank b) (js_sort (\<lambda>a b. cmp_or (rank a - rank b :: int) (t a b)) xs)"
  by (induction xs) (simp_all add: insert_by_rank)

lemma sortFindings_sorted: "sorted_wrt (\<lambda>a b. SEVERITY_RANK (fd_severity a) \<le> SEVERITY_RANK (fd_severity b)) (sortFindings lc fs)"
  using sort_by_rank [of "\<lambda>f. SEVERITY_RANK (fd_severity f)" "\<lambda>a b. cmp_or (lc (fd_package a) (fd_package b)) (lc (fd_id a) (fd_id b))" fs]
  by (simp add: sortFindings_def finding_order_def [abs_def])

lemma set_sortFindings [simp]: "set (sortFindings lc fs) = set fs"
  by (simp add: sortFindings_def)

lemma distinct_sortFindings: "distinct (map fkey fs) \<Longrightarrow> distinct (map fkey (sortFindings lc fs))"
  by (simp add: sortFindings_def)

lemma UN_if_collect:
  "(\<Union>r \<in> A. if P r then (\<Union>v \<in> B r. if Q v then {} else {k v}) else {}) = {k v | r v. r \<in> A \<and> P r \<and> v \<in> B r \<and> \<not> Q v}"
  by auto

section \<open>Properties\<close>

text \<open>
  The severity counts of a scan account for every finding exactly once: each count is the
  number of findings of that severity, and the counts of the six severities add up to the
  number of findings.
\<close>

theorem summarize_findings_counts:
  "summarizeFindings fs s = int (length (filter (\<lambda>f. fd_severity f = s) fs)) \<and>
   sum_list (map (summarizeFindings fs) SEVERITY_ORDER) = int (length fs)"
proof
  show "summarizeFindings fs s = int (length (filter (\<lambda>f. fd_severity f = s) fs))" by (rule summarize_count)
  have "(\<Sum>s\<leftarrow>SEVERITY_ORDER. int (length (filter (\<lambda>f. fd_severity f = s) fs))) = int (length fs)"
  proof (induction fs)
    case (Cons f fs)
    then show ?case by (cases "fd_severity f") (simp_all add: SEVERITY_ORDER_def)
  qed (simp add: SEVERITY_ORDER_def)
  then show "sum_list (map (summarizeFindings fs) SEVERITY_ORDER) = int (length fs)" by (simp add: summarize_count [abs_def])
qed

text \<open>
  What the pull policy sees is the findings that no exception covers: the effective count of a
  severity is the number of findings of that severity to which none of the rules applies (an
  expired rule, one of another repository, for another advisory or another package never
  does), and a rule that is shown as the reason is one of the given rules and applies, a
  rule of the repository itself taking precedence.
\<close>

theorem effective_summary_spec:
  "effectiveSummary fs rules repo now s =
     int (length (filter (\<lambda>f. fd_severity f = s \<and> list_all (\<lambda>r. \<not> exceptionApplies r f repo now) rules) fs)) \<and>
   list_all (\<lambda>a. case af_exception a of
       None \<Rightarrow> list_all (\<lambda>r. \<not> exceptionApplies r (af_finding a) repo now) rules
     | Some r \<Rightarrow> r \<in> set rules \<and> exceptionApplies r (af_finding a) repo now \<and>
         (truthy (ve_repositoryId r) \<or> list_all (\<lambda>r'. \<not> (exceptionApplies r' (af_finding a) repo now \<and> truthy (ve_repositoryId r'))) rules))
     (applyExceptions fs rules repo now)"
proof
  let ?active = "filter (\<lambda>r. \<not> rule_expired r now) rules"
  have "map af_finding (filter (\<lambda>a. af_exception a = None) (applyExceptions fs rules repo now)) =
      filter (\<lambda>f. list_all (\<lambda>r. \<not> exceptionApplies r f repo now) rules) fs"
    by (simp add: applyExceptions_def filter_map comp_def accepting_active)
  then show "effectiveSummary fs rules repo now s =
      int (length (filter (\<lambda>f. fd_severity f = s \<and> list_all (\<lambda>r. \<not> exceptionApplies r f repo now) rules) fs))"
    by (simp add: effectiveSummary_def summarize_count conj_commute)
  have "case accepting_rule ?active f repo now of
       None \<Rightarrow> list_all (\<lambda>r. \<not> exceptionApplies r f repo now) rules
     | Some r \<Rightarrow> r \<in> set rules \<and> exceptionApplies r f repo now \<and>
         (truthy (ve_repositoryId r) \<or> list_all (\<lambda>r'. \<not> (exceptionApplies r' f repo now \<and> truthy (ve_repositoryId r'))) rules)" for f
    using accepting_Some [of now rules f repo] accepting_active [of now rules f repo] by (cases "accepting_rule ?active f repo now") simp_all
  then show "list_all (\<lambda>a. case af_exception a of
       None \<Rightarrow> list_all (\<lambda>r. \<not> exceptionApplies r (af_finding a) repo now) rules
     | Some r \<Rightarrow> r \<in> set rules \<and> exceptionApplies r (af_finding a) repo now \<and>
         (truthy (ve_repositoryId r) \<or> list_all (\<lambda>r'. \<not> (exceptionApplies r' (af_finding a) repo now \<and> truthy (ve_repositoryId r'))) rules))
     (applyExceptions fs rules repo now)"
    by (intro list_all_iff [THEN iffD2]) (simp add: applyExceptions_def cong: option.case_cong)
qed

text \<open>
  C33. A normalised report lists each vulnerability of a package version once, most severe first, and
  neither loses nor invents any: for both scanners the keys of the result are distinct and its
  severities ascend in rank, and for Trivy the keys are exactly those of the vulnerabilities with an
  identifier that are reported for operating system or language packages.
\<close>

theorem normalized_reports:
  "distinct (map fkey (normalizeTrivyReport lc t)) \<and>
   sorted_wrt (\<lambda>a b. SEVERITY_RANK (fd_severity a) \<le> SEVERITY_RANK (fd_severity b)) (normalizeTrivyReport lc t) \<and>
   fkey ` set (normalizeTrivyReport lc t) =
     {finding_key (js_trim (nullish (tv_VulnerabilityID v) [])) (nullish (tv_PkgName v) ''unknown'') (nullish (tv_InstalledVersion v) []) | result v.
        result \<in> set (nullish (tp_Results t) []) \<and> tr_Class result \<in> {None, Some [], Some ''os-pkgs'', Some ''lang-pkgs''} \<and>
        v \<in> set (nullish (tr_Vulnerabilities result) []) \<and> js_trim (nullish (tv_VulnerabilityID v) []) \<noteq> []} \<and>
   distinct (map fkey (normalizeClairReport lc c)) \<and>
   sorted_wrt (\<lambda>a b. SEVERITY_RANK (fd_severity a) \<le> SEVERITY_RANK (fd_severity b)) (normalizeClairReport lc c)"
proof (intro conjI)
  obtain distro where t: "normalizeTrivyReport lc t = sortFindings lc (fst (fold (trivy_result_loop distro) (nullish (tp_Results t) []) ([], [])))"
    by (auto simp: normalizeTrivyReport_def Let_def)
  show "distinct (map fkey (normalizeTrivyReport lc t))"
    unfolding t by (rule distinct_sortFindings) (rule trivy_results.collected_once)
  show "distinct (map fkey (normalizeClairReport lc c))"
    unfolding normalizeClairReport_def by (rule distinct_sortFindings) (rule clair_packages.collected_once)
  show "sorted_wrt (\<lambda>a b. SEVERITY_RANK (fd_severity a) \<le> SEVERITY_RANK (fd_severity b)) (normalizeTrivyReport lc t)"
    unfolding t by (rule sortFindings_sorted)
  show "sorted_wrt (\<lambda>a b. SEVERITY_RANK (fd_severity a) \<le> SEVERITY_RANK (fd_severity b)) (normalizeClairReport lc c)"
    unfolding normalizeClairReport_def by (rule sortFindings_sorted)
  have "fkey ` set (normalizeTrivyReport lc t) = (\<Union>result \<in> set (nullish (tp_Results t) []). trivy_result_keys result)"
    unfolding t by (simp add: trivy_results.collected_keys)
  also have "\<dots> = {finding_key (js_trim (nullish (tv_VulnerabilityID v) [])) (nullish (tv_PkgName v) ''unknown'') (nullish (tv_InstalledVersion v) []) | result v.
        result \<in> set (nullish (tp_Results t) []) \<and> tr_Class result \<in> {None, Some [], Some ''os-pkgs'', Some ''lang-pkgs''} \<and>
        v \<in> set (nullish (tr_Vulnerabilities result) []) \<and> js_trim (nullish (tv_VulnerabilityID v) []) \<noteq> []}"
    unfolding trivy_result_keys_def trivy_keys_def package_class_def Let_def by (rule UN_if_collect)
  finally show "fkey ` set (normalizeTrivyReport lc t) = {finding_key (js_trim (nullish (tv_VulnerabilityID v) [])) (nullish (tv_PkgName v) ''unknown'') (nullish (tv_InstalledVersion v) []) | result v.
        result \<in> set (nullish (tp_Results t) []) \<and> tr_Class result \<in> {None, Some [], Some ''os-pkgs'', Some ''lang-pkgs''} \<and>
        v \<in> set (nullish (tr_Vulnerabilities result) []) \<and> js_trim (nullish (tv_VulnerabilityID v) []) \<noteq> []}" .
qed

end
