(* ===== verification/Artifacts.thy ===== *)
theory Artifacts
  imports Schema
begin

text \<open>
  Classification of manifests attached to images: signatures, attestations, SBOMs
  (\<open>web/src/lib/signatures-shared.ts\<close>, up to and including \<open>looksLikeArtifact\<close>). The theorem: the tag
  convention of cosign is a round trip.
\<close>

section \<open>Media types\<close>

datatype artifact_kind = ArtSignature | ArtAttestation | ArtSbom | ArtOther

datatype artifact_subkind = SubProvenance | SubSpdx | SubCyclonedx | SubVuln | SubCosignSign | SubNotation | SubCustom

datatype artifact_format = FmtCosignLegacy | FmtSigstoreBundle | FmtDsse | FmtInToto | FmtNotation | FmtRaw | FmtUnknown

definition COSIGN_SIMPLE_SIGNING :: string where "COSIGN_SIMPLE_SIGNING = ''application/vnd.dev.cosign.simplesigning.v1+json''"
definition DSSE_ENVELOPE :: string where "DSSE_ENVELOPE = ''application/vnd.dsse.envelope.v1+json''"
definition IN_TOTO_JSON :: string where "IN_TOTO_JSON = ''application/vnd.in-toto+json''"
definition BUILDKIT_ATTESTATION_MANIFEST :: string where
  "BUILDKIT_ATTESTATION_MANIFEST = ''application/vnd.docker.attestation.manifest.v1+json''"
definition SIGSTORE_BUNDLE_PREFIX :: string where "SIGSTORE_BUNDLE_PREFIX = ''application/vnd.dev.sigstore.bundle''"
definition SPDX_JSON :: string where "SPDX_JSON = ''application/spdx+json''"
definition CYCLONEDX_JSON :: string where "CYCLONEDX_JSON = ''application/vnd.cyclonedx+json''"
definition OCI_EMPTY_CONFIG :: string where "OCI_EMPTY_CONFIG = ''application/vnd.oci.empty.v1+json''"
definition NOTATION_ARTIFACT_TYPE :: string where "NOTATION_ARTIFACT_TYPE = ''application/vnd.cncf.notary.signature''"
definition NOTATION_JWS :: string where "NOTATION_JWS = ''application/jose+json''"
definition NOTATION_COSE :: string where "NOTATION_COSE = ''application/cose''"

definition SBOM_MEDIA_TYPES :: "string list" where
  "SBOM_MEDIA_TYPES = [SPDX_JSON, CYCLONEDX_JSON, ''text/spdx+json'', ''text/spdx'', ''application/vnd.syft+json'',
     ''application/vnd.cyclonedx+xml'', ''text/spdx+xml'']"

definition ANNOTATION_BUNDLE_CONTENT :: string where "ANNOTATION_BUNDLE_CONTENT = ''dev.sigstore.bundle.content''"
definition ANNOTATION_BUNDLE_PREDICATE :: string where "ANNOTATION_BUNDLE_PREDICATE = ''dev.sigstore.bundle.predicateType''"

definition base_media_type :: "string \<Rightarrow> string" where
  \<comment> \<open>\<open>m.split(";")[0].trim()\<close>\<close>
  "base_media_type m = js_trim (hd (split_on (CHR '';'') m))"

definition isSbomMediaType :: "string option \<Rightarrow> bool" where
  "isSbomMediaType mediaType \<longleftrightarrow> truthy mediaType \<and> base_media_type (the mediaType) \<in> set SBOM_MEDIA_TYPES"

definition isArtifactMediaType :: "string option \<Rightarrow> bool" where
  "isArtifactMediaType mediaType =
     (if \<not> truthy mediaType then False
      else (let mt = base_media_type (the mediaType) in
        mt = COSIGN_SIMPLE_SIGNING \<or> mt = DSSE_ENVELOPE \<or> mt = IN_TOTO_JSON \<or> mt = NOTATION_JWS \<or> mt = NOTATION_COSE \<or>
        starts_with mt SIGSTORE_BUNDLE_PREFIX \<or> isSbomMediaType (Some mt)))"

section \<open>The tag convention of cosign\<close>

definition is_hex :: "char \<Rightarrow> bool" where
  "is_hex c \<longleftrightarrow> is_digit c \<or> c \<in> set ''abcdef''"

definition COSIGN_TAG_SUFFIXES :: "string list" where "COSIGN_TAG_SUFFIXES = [''sig'', ''att'', ''sbom'']"

definition digestHex :: "string \<Rightarrow> string" where
  "digestHex digest = (case index_of (CHR '':'') digest of Some k \<Rightarrow> drop (k + 1) digest | None \<Rightarrow> digest)"

definition cosignArtifactTag :: "string \<Rightarrow> string \<Rightarrow> string" where
  "cosignArtifactTag digest suffix = ''sha256-'' @ digestHex digest @ ''.'' @ suffix"

definition parseCosignTag :: "string option \<Rightarrow> (string \<times> string) option" where
  \<comment> \<open>\<open>^sha256-([a-f0-9]{64})\.(sig|att|sbom)$\<close>: digest and suffix\<close>
  "parseCosignTag tag =
     (if \<not> truthy tag then None
      else (let t = the tag; hex = take 64 (drop 7 t); rest = drop 71 t in
        if starts_with t ''sha256-'' \<and> length hex = 64 \<and> list_all is_hex hex \<and>
           starts_with rest ''.'' \<and> drop 1 rest \<in> set COSIGN_TAG_SUFFIXES
        then Some (''sha256:'' @ hex, drop 1 rest) else None))"

section \<open>Classification\<close>

record artifact_descriptor =
  ad_mediaType :: string
  ad_artifactType :: "string option"
  ad_configMediaType :: "string option"
  ad_layerMediaTypes :: "string list"
  ad_annotations :: "(string \<times> string) list"
  ad_tag :: "string option"
  ad_hasSubject :: bool

record classification =
  cl_kind :: artifact_kind
  cl_subkind :: "artifact_subkind option"
  cl_format :: artifact_format
  cl_predicateType :: "string option"

definition predicateSubkind :: "string option \<Rightarrow> artifact_subkind" where
  "predicateSubkind predicateType =
     (let t = js_lower (nullish predicateType []) in
      if t = [] then SubCustom
      else if includes_str t ''sigstore.dev/cosign/sign'' then SubCosignSign
      else if includes_str t ''slsa.dev/provenance'' \<or> includes_str t ''in-toto.io/provenance'' then SubProvenance
      else if includes_str t ''spdx'' then SubSpdx
      else if includes_str t ''cyclonedx'' then SubCyclonedx
      else if includes_str t ''vuln'' then SubVuln
      else SubCustom)"

definition kindForSubkind :: "artifact_subkind \<Rightarrow> artifact_kind" where
  "kindForSubkind s =
     (if s = SubCosignSign \<or> s = SubNotation then ArtSignature
      else if s = SubSpdx \<or> s = SubCyclonedx then ArtSbom else ArtAttestation)"

definition by_predicate :: "string option \<Rightarrow> artifact_format \<Rightarrow> classification" where
  "by_predicate predicateType fmt =
     (let subkind = (if truthy predicateType then predicateSubkind predicateType else SubCustom)
      in \<lparr>cl_kind = kindForSubkind subkind, cl_subkind = Some subkind, cl_format = fmt, cl_predicateType = predicateType\<rparr>)"

definition classifyArtifact :: "artifact_descriptor \<Rightarrow> classification" where
  "classifyArtifact a =
     (let layers = map base_media_type (ad_layerMediaTypes a);
          ann = map_of (ad_annotations a);
          tagSuffix = map_option snd (parseCosignTag (ad_tag a)) in
      if ad_artifactType a = Some NOTATION_ARTIFACT_TYPE \<or> NOTATION_JWS \<in> set layers \<or> NOTATION_COSE \<in> set layers
      then \<lparr>cl_kind = ArtSignature, cl_subkind = Some SubNotation, cl_format = FmtNotation, cl_predicateType = None\<rparr>
      else if list_ex (\<lambda>m. starts_with m SIGSTORE_BUNDLE_PREFIX) layers \<or> starts_with (nullish (ad_artifactType a) []) SIGSTORE_BUNDLE_PREFIX
      then (if ann ANNOTATION_BUNDLE_CONTENT = Some ''message-signature''
            then \<lparr>cl_kind = ArtSignature, cl_subkind = Some SubCosignSign, cl_format = FmtSigstoreBundle, cl_predicateType = None\<rparr>
            else by_predicate (ann ANNOTATION_BUNDLE_PREDICATE) FmtSigstoreBundle)
      else if COSIGN_SIMPLE_SIGNING \<in> set layers \<or> tagSuffix = Some ''sig''
      then \<lparr>cl_kind = ArtSignature, cl_subkind = Some SubCosignSign, cl_format = FmtCosignLegacy, cl_predicateType = None\<rparr>
      else if ad_artifactType a = Some BUILDKIT_ATTESTATION_MANIFEST \<or> ann ''vnd.docker.reference.type'' = Some ''attestation-manifest''
      then \<lparr>cl_kind = ArtAttestation, cl_subkind = Some SubCustom, cl_format = FmtInToto, cl_predicateType = None\<rparr>
      else if DSSE_ENVELOPE \<in> set layers \<or> IN_TOTO_JSON \<in> set layers \<or> tagSuffix = Some ''att''
      then by_predicate (case ann ''predicateType'' of Some p \<Rightarrow> Some p | None \<Rightarrow> ann ANNOTATION_BUNDLE_PREDICATE) FmtDsse
      else if list_ex (\<lambda>m. isSbomMediaType (Some m)) layers \<or> tagSuffix = Some ''sbom''
      then (let mt = nullish (find (\<lambda>m. isSbomMediaType (Some m)) layers) [] in
            \<lparr>cl_kind = ArtSbom,
             cl_subkind = (if includes_str mt ''spdx'' then Some SubSpdx else if includes_str mt ''cyclonedx'' then Some SubCyclonedx else None),
             cl_format = FmtRaw, cl_predicateType = None\<rparr>)
      else \<lparr>cl_kind = ArtOther, cl_subkind = None, cl_format = FmtUnknown, cl_predicateType = None\<rparr>)"

definition looksLikeArtifact :: "bool \<Rightarrow> string list \<Rightarrow> string list \<Rightarrow> string option \<Rightarrow> bool" where
  "looksLikeArtifact hasSubject tags layerMediaTypes configMediaType =
     (if hasSubject then True
      else if list_ex (\<lambda>t. parseCosignTag (Some t) \<noteq> None) tags then True
      else if configMediaType = Some OCI_EMPTY_CONFIG then True
      else layerMediaTypes \<noteq> [] \<and> list_all (\<lambda>m. isArtifactMediaType (Some m)) layerMediaTypes)"

section \<open>Properties\<close>

lemma digestHex_sha256: "digestHex (''sha256:'' @ hex) = hex"
  by (simp add: digestHex_def)

text \<open>
  The tag convention is a round trip: the tag under which cosign stores a signature, an attestation
  or an SBOM of a sha256 digest is read as that digest and suffix, and every tag that is read
  as one is the tag of what it is read as.
\<close>

theorem cosign_tag_roundtrip:
  assumes "length hex = 64" and "list_all is_hex hex" and "suffix \<in> set COSIGN_TAG_SUFFIXES"
  shows "parseCosignTag (Some (cosignArtifactTag (''sha256:'' @ hex) suffix)) = Some (''sha256:'' @ hex, suffix) \<and>
    (parseCosignTag (Some tag) = Some (digest, s) \<longrightarrow> cosignArtifactTag digest s = tag)"
proof
  let ?t = "cosignArtifactTag (''sha256:'' @ hex) suffix"
  have t: "?t = ''sha256-'' @ hex @ ''.'' @ suffix" using digestHex_sha256 [of hex] by (simp add: cosignArtifactTag_def)
  show "parseCosignTag (Some ?t) = Some (''sha256:'' @ hex, suffix)"
    unfolding t using assms by (simp add: parseCosignTag_def Let_def starts_with_def)
  show "parseCosignTag (Some tag) = Some (digest, s) \<longrightarrow> cosignArtifactTag digest s = tag"
  proof
    assume p: "parseCosignTag (Some tag) = Some (digest, s)"
    define hx where "hx = take 64 (drop 7 tag)"
    have d: "digest = ''sha256:'' @ hx" and s: "s = drop 1 (drop 71 tag)" and pre: "starts_with tag ''sha256-''"
      and dot: "starts_with (drop 71 tag) ''.''"
      using p by (auto simp: parseCosignTag_def Let_def hx_def split: if_splits)
    have "tag = ''sha256-'' @ drop 7 tag" using pre by (auto simp: starts_with_iff)
    also have "drop 7 tag = hx @ drop 71 tag"
      using append_take_drop_id [of 64 "drop 7 tag"] by (simp add: hx_def)
    also have "drop 71 tag = ''.'' @ s" using dot unfolding s by (auto simp: starts_with_iff simp del: drop_drop)
    finally show "cosignArtifactTag digest s = tag" using digestHex_sha256 [of hx] by (simp add: cosignArtifactTag_def d)
  qed
qed

theorem cosign_tag_roundtrip_witness:
  "parseCosignTag (Some (cosignArtifactTag (''sha256:'' @ replicate 64 (CHR ''a'')) ''sig'')) = Some (''sha256:'' @ replicate 64 (CHR ''a''), ''sig'')"
  using cosign_tag_roundtrip [of "replicate 64 (CHR ''a'')" "''sig''" "[]" "[]" "[]"]
  by (simp add: COSIGN_TAG_SUFFIXES_def list_all_iff is_hex_def)

end
