(* ===== verification/Pull_Policy.thy ===== *)
theory Pull_Policy
  imports Scanner Artifacts
begin

text \<open>
  Which images may not be pulled (\<open>web/src/lib/pull-policy-shared.ts\<close>, \<open>pull-policy.ts\<close>): the
  severity threshold of an organization with the override of a repository, the signature policy, and the
  job that recomputes the table \<open>manifest_blocks\<close>. \<open>JSON.parse\<close> is the argument \<open>parse_json\<close>
  (\<open>None\<close> when it throws), the decoding of the \<open>jsonb\<close> columns of a scan the argument \<open>decode_scan\<close>,
  \<open>localeCompare\<close> the argument \<open>lc\<close>. Notifications are returned as values. A malformed
  manifest on which the code throws outside its \<open>try\<close> blocks gives \<open>Inl\<close> and changes nothing.
\<close>

section \<open>Policies\<close>

record policy =
  pol_level :: "severity_level option"
  pol_unrated :: bool

fun COVERS :: "severity_level \<Rightarrow> severity list" where
  "COVERS LCritical = [Critical]"
| "COVERS LHigh = [Critical, High]"
| "COVERS LMedium = [Critical, High, Medium]"
| "COVERS LLow = [Critical, High, Medium, Low]"

definition orgPolicy :: "organization_setting option \<Rightarrow> policy" where
  "orgPolicy org = \<lparr>pol_level = Option.bind org os_blockPullsAt, pol_unrated = nullish (map_option os_blockUnrated org) False\<rparr>"

definition effectivePolicy :: "organization_setting option \<Rightarrow> repository \<Rightarrow> policy" where
  "effectivePolicy org repo = (case repo_blockPullsAt repo of
       Some BlockOff \<Rightarrow> \<lparr>pol_level = None, pol_unrated = False\<rparr>
     | Some (BlockAt level) \<Rightarrow>
         \<lparr>pol_level = Some level, pol_unrated = nullish (repo_blockUnrated repo) (nullish (map_option os_blockUnrated org) False)\<rparr>
     | None \<Rightarrow> orgPolicy org)"

fun level_name :: "severity_level \<Rightarrow> string" where
  "level_name LCritical = ''critical''" | "level_name LHigh = ''high''"
| "level_name LMedium = ''medium''" | "level_name LLow = ''low''"

definition describePolicy :: "policy \<Rightarrow> string" where
  "describePolicy p = (case pol_level p of
       None \<Rightarrow> ''off''
     | Some l \<Rightarrow> (let base = (if l = LCritical then ''critical findings'' else level_name l @ '' and above'')
                  in if pol_unrated p then base @ '', unrated too'' else base))"

fun severity_word :: "severity \<Rightarrow> string" where
  \<comment> \<open>\<open>key.toLowerCase()\<close>\<close>
  "severity_word Critical = ''critical''" | "severity_word High = ''high''" | "severity_word Medium = ''medium''"
| "severity_word Low = ''low''" | "severity_word Negligible = ''negligible''" | "severity_word Unknown = ''unknown''"

definition violation_parts :: "severity_summary \<Rightarrow> severity_level \<Rightarrow> bool \<Rightarrow> string list" where
  "violation_parts summary level unrated =
     map (\<lambda>k. show_int (nullish (summary k) 0) @ '' '' @ severity_word k) (filter (\<lambda>k. 0 < nullish (summary k) 0) (COVERS level)) @
     (if unrated \<and> 0 < nullish (summary Unknown) 0 then [show_int (the (summary Unknown)) @ '' unrated''] else [])"

definition violation :: "severity_summary option \<Rightarrow> policy \<Rightarrow> string option" where
  "violation summary p = (case (pol_level p, summary) of
       (Some level, Some m) \<Rightarrow>
         (let parts = violation_parts m level (pol_unrated p) in
          if parts = [] then None
          else Some (join_with '', '' parts @ '' finding'' @ (if length parts = 1 \<and> starts_with (hd parts) ''1 '' then [] else ''s'') @
                 ''; policy blocks '' @ describePolicy p))
     | _ \<Rightarrow> None)"

definition effectiveSignaturePolicy :: "organization_setting option \<Rightarrow> repository \<Rightarrow> bool" where
  "effectiveSignaturePolicy org repo = nullish (repo_requireSignature repo) (nullish (map_option os_requireSignature org) False)"

section \<open>Scans\<close>

definition loadExceptionRules :: "db \<Rightarrow> string \<Rightarrow> string option \<Rightarrow> vulnerability_exception list" where
  "loadExceptionRules d organizationId repositoryId =
     filter (\<lambda>e. ve_organizationId e = organizationId \<and>
       (ve_repositoryId e = None \<or> (truthy repositoryId \<and> ve_repositoryId e = repositoryId))) (db_exceptions d)"

definition effectiveScanSummary ::
  "(string \<Rightarrow> string \<Rightarrow> int) \<Rightarrow> millis \<Rightarrow> scan_row \<Rightarrow> vulnerability_exception list \<Rightarrow> string option \<Rightarrow> severity_summary option" where
  "effectiveScanSummary lc now scan rules repositoryId =
     (let findings = fst (findingsOf lc scan) in
      if findings = [] \<and> sr_findings scan = None \<and> sr_report scan = None then sr_summary scan
      else Some (\<lambda>s. Some (effectiveSummary findings rules repositoryId now s)))"

section \<open>Manifests\<close>

definition json_field :: "json \<Rightarrow> string \<Rightarrow> json option" where
  \<comment> \<open>\<open>v.key\<close> of a value other than \<open>null\<close>; \<open>None\<close> is undefined\<close>
  "json_field v key = (case v of JObj kvs \<Rightarrow> map_of kvs key | _ \<Rightarrow> None)"

definition json_text :: "json option \<Rightarrow> string" where
  \<comment> \<open>\<open>v ?? ""\<close> for a field that holds a string\<close>
  "json_text v = (case v of Some (JStr s) \<Rightarrow> s | _ \<Rightarrow> [])"

definition json_items :: "json option \<Rightarrow> json list option" where
  \<comment> \<open>\<open>v ?? []\<close> as an array of objects; \<open>None\<close> where mapping over it throws\<close>
  "json_items v = (case v of
       None \<Rightarrow> Some [] | Some JNull \<Rightarrow> Some []
     | Some (JArr xs) \<Rightarrow> if JNull \<in> set xs then None else Some xs
     | Some _ \<Rightarrow> None)"

definition is_index :: "string \<Rightarrow> bool" where
  \<comment> \<open>\<open>/index|list/\<close>\<close>
  "is_index mediaType \<longleftrightarrow> includes_str mediaType ''index'' \<or> includes_str mediaType ''list''"

definition index_children :: "(string \<Rightarrow> json option) \<Rightarrow> string \<Rightarrow> string list option" where
  \<comment> \<open>inside the \<open>try\<close> block: \<open>None\<close> is the \<open>continue\<close> of its handler\<close>
  "index_children parse_json payload = (case parse_json payload of
       None \<Rightarrow> None | Some JNull \<Rightarrow> None
     | Some v \<Rightarrow> map_option (\<lambda>ms. filter (\<lambda>c. c \<noteq> []) (map (\<lambda>m. json_text (json_field m ''digest'')) ms)) (json_items (json_field v ''manifests'')))"

type_synonym reasons = "(string \<times> string) list"
  \<comment> \<open>a \<open>Map\<close> in insertion order\<close>

definition scan_blocks ::
  "(string \<Rightarrow> string \<Rightarrow> int) \<Rightarrow> (vulnerability_scan \<Rightarrow> scan_row) \<Rightarrow> millis \<Rightarrow> db \<Rightarrow> repository \<Rightarrow> policy \<Rightarrow> manifest list \<Rightarrow> reasons" where
  \<comment> \<open>the first loop: scanned images that violate the policy\<close>
  "scan_blocks lc decode_scan now d repo p rows =
     (let rules = loadExceptionRules d (repo_organizationId repo) (Some (repo_id repo)) in
      fold (\<lambda>r blocked. case find (\<lambda>s. vs_digest s = man_digest r) (db_scans d) of
           None \<Rightarrow> blocked
         | Some scan \<Rightarrow>
             if vs_status scan \<noteq> Scanned then blocked
             else (case violation (effectiveScanSummary lc now (decode_scan scan) rules (Some (repo_id repo))) p of
                 None \<Rightarrow> blocked
               | Some why \<Rightarrow> AList.update (man_digest r) why blocked)) rows [])"

definition index_blocks :: "(string \<Rightarrow> json option) \<Rightarrow> manifest list \<Rightarrow> reasons \<Rightarrow> reasons" where
  \<comment> \<open>the second loop: an index with a blocked variant\<close>
  "index_blocks parse_json rows blocked =
     fold (\<lambda>r blocked.
        if \<not> is_index (man_mediaType r) then blocked
        else (case index_children parse_json (man_payload r) of
            None \<Rightarrow> blocked
          | Some children \<Rightarrow> (case find (\<lambda>c. map_of blocked c \<noteq> None) children of
                None \<Rightarrow> blocked
              | Some hit \<Rightarrow> AList.update (man_digest r)
                  (''variant '' @ js_slice 7 19 hit @ '': '' @ the (map_of blocked hit)) blocked))) rows blocked"

definition parsed_payload :: "(string \<Rightarrow> json option) \<Rightarrow> manifest \<Rightarrow> json" where
  "parsed_payload parse_json r = (case parse_json (man_payload r) of None \<Rightarrow> JObj [] | Some JNull \<Rightarrow> JObj [] | Some v \<Rightarrow> v)"

definition verified_digests :: "db \<Rightarrow> string \<Rightarrow> string list" where
  "verified_digests d repositoryId = map ms_manifestDigest
     (filter (\<lambda>s. ms_repositoryId s = repositoryId \<and> ms_kind s = KindSignature \<and> ms_status s = SigVerified) (db_signatures d))"

definition covered_by_index :: "(string \<Rightarrow> json option) \<Rightarrow> string list \<Rightarrow> manifest list \<Rightarrow> string list option" where
  \<comment> \<open>the variants of verified indexes; \<open>None\<close> where the loop throws\<close>
  "covered_by_index parse_json verified rows =
     map_option concat (those (map (\<lambda>r.
        if \<not> is_index (man_mediaType r) \<or> man_digest r \<notin> set verified then Some []
        else map_option (\<lambda>ms. filter (\<lambda>c. c \<noteq> []) (map (\<lambda>m. json_text (json_field m ''digest'')) ms))
               (json_items (json_field (parsed_payload parse_json r) ''manifests''))) rows))"

definition is_artifact :: "(string \<Rightarrow> json option) \<Rightarrow> db \<Rightarrow> manifest \<Rightarrow> bool option" where
  "is_artifact parse_json d r =
     (let v = parsed_payload parse_json r;
          tagNames = map tag_name (filter (\<lambda>t. tag_repositoryId t = man_repositoryId r \<and> tag_manifestDigest t = man_digest r) (db_tags d));
          config = Option.bind (json_field v ''config'') (\<lambda>c. json_field c ''mediaType'')
      in map_option (\<lambda>layers. looksLikeArtifact (truthy (man_subjectDigest r)) tagNames
              (map (\<lambda>l. json_text (json_field l ''mediaType'')) layers)
              (case config of Some (JStr s) \<Rightarrow> Some s | _ \<Rightarrow> None))
           (json_items (json_field v ''layers'')))"

definition unsigned_images :: "(string \<Rightarrow> json option) \<Rightarrow> db \<Rightarrow> string \<Rightarrow> manifest list \<Rightarrow> string list option" where
  \<comment> \<open>the images without a verified signature\<close>
  "unsigned_images parse_json d repositoryId rows =
     (let verified = verified_digests d repositoryId in
      case covered_by_index parse_json verified rows of
        None \<Rightarrow> None
      | Some covered \<Rightarrow> map_option (\<lambda>flags. uniq (map (man_digest \<circ> fst)
            (filter (\<lambda>(r, artifact). \<not> (artifact \<or> man_digest r \<in> set verified \<or> man_digest r \<in> set covered)) (zip rows flags))))
          (those (map (is_artifact parse_json d) rows)))"

definition SIGNATURE_BLOCK_REASON :: string where
  "SIGNATURE_BLOCK_REASON = ''no signature from a trusted key or identity (signature policy)''"

definition with_signature_reason :: "string list \<Rightarrow> reasons \<Rightarrow> reasons" where
  "with_signature_reason unsigned blocked =
     fold (\<lambda>digest final. AList.update digest
        (case map_of final digest of Some r \<Rightarrow> r @ ''; '' @ SIGNATURE_BLOCK_REASON | None \<Rightarrow> SIGNATURE_BLOCK_REASON) final) unsigned blocked"

section \<open>The refresh\<close>

definition policy_blocks ::
  "(string \<Rightarrow> string \<Rightarrow> int) \<Rightarrow> (vulnerability_scan \<Rightarrow> scan_row) \<Rightarrow> (string \<Rightarrow> json option) \<Rightarrow> millis \<Rightarrow> db \<Rightarrow> repository \<Rightarrow> reasons" where
  \<comment> \<open>the map \<open>blocked\<close> after both loops\<close>
  "policy_blocks lc decode_scan parse_json now d repo =
     (let org = find (\<lambda>s. os_organizationId s = repo_organizationId repo) (db_orgSettings d);
          p = effectivePolicy org repo;
          rows = filter (\<lambda>m. man_repositoryId m = repo_id repo) (db_manifests d)
      in if pol_level p \<noteq> None \<and> rows \<noteq> [] then index_blocks parse_json rows (scan_blocks lc decode_scan now d repo p rows) else [])"

definition signature_blocks :: "(string \<Rightarrow> json option) \<Rightarrow> db \<Rightarrow> repository \<Rightarrow> string list option" where
  \<comment> \<open>the set \<open>unsigned\<close>\<close>
  "signature_blocks parse_json d repo =
     (let org = find (\<lambda>s. os_organizationId s = repo_organizationId repo) (db_orgSettings d);
          rows = filter (\<lambda>m. man_repositoryId m = repo_id repo) (db_manifests d)
      in if rows \<noteq> [] \<and> effectiveSignaturePolicy org repo then unsigned_images parse_json d (repo_id repo) rows else Some [])"

definition upsert_block :: "millis \<Rightarrow> string \<Rightarrow> string \<Rightarrow> string \<Rightarrow> bool \<Rightarrow> manifest_block list \<Rightarrow> manifest_block list" where
  "upsert_block now repositoryId digest reason exempt bs =
     (let hit = (\<lambda>b. mb_repositoryId b = repositoryId \<and> mb_digest b = digest) in
      if list_ex hit bs then map (\<lambda>b. if hit b then b\<lparr>mb_reason := reason, mb_pushersExempt := exempt\<rparr> else b) bs
      else bs @ [\<lparr>mb_repositoryId = repositoryId, mb_digest = digest, mb_reason = reason, mb_pushersExempt = exempt, mb_createdAt = now\<rparr>])"

definition find_block :: "manifest_block list \<Rightarrow> string \<Rightarrow> string \<Rightarrow> manifest_block option" where
  "find_block bs repositoryId digest = find (\<lambda>b. mb_repositoryId b = repositoryId \<and> mb_digest b = digest) bs"

definition write_block :: "millis \<Rightarrow> string \<Rightarrow> reasons \<Rightarrow> string list \<Rightarrow> manifest_block list \<Rightarrow> string \<times> string \<Rightarrow> manifest_block list \<Rightarrow> manifest_block list" where
  \<comment> \<open>one entry of the final map, compared with the rows read before\<close>
  "write_block now repositoryId blocked unsigned existing entry bs = (case entry of (digest, reason) \<Rightarrow>
     (let exempt = (digest \<in> set unsigned \<and> map_of blocked digest = None) in
      if (case find_block existing repositoryId digest of Some b \<Rightarrow> mb_pushersExempt b = exempt \<and> mb_reason b = reason | None \<Rightarrow> False) then bs
      else upsert_block now repositoryId digest reason exempt bs))"

record refresh_result =
  rf_blocked :: nat
  rf_scanNotice :: "(string \<times> string) list"
  rf_signatureNotice :: "(string \<times> string) list"
    \<comment> \<open>what the two notifications list; empty when none is sent\<close>

definition refreshRepositoryBlocks ::
  "(string \<Rightarrow> string \<Rightarrow> int) \<Rightarrow> (vulnerability_scan \<Rightarrow> scan_row) \<Rightarrow> (string \<Rightarrow> json option) \<Rightarrow> millis \<Rightarrow> string \<Rightarrow> bool \<Rightarrow> db \<Rightarrow>
     (string + refresh_result) \<times> db" where
  "refreshRepositoryBlocks lc decode_scan parse_json now repositoryId quiet d =
     (case find (\<lambda>r. repo_id r = repositoryId) (db_repositories d) of
        None \<Rightarrow> (Inr \<lparr>rf_blocked = 0, rf_scanNotice = [], rf_signatureNotice = []\<rparr>, d)
      | Some repo \<Rightarrow>
        (let blocked = policy_blocks lc decode_scan parse_json now d repo in
         case signature_blocks parse_json d repo of
           None \<Rightarrow> (Inl ''TypeError'', d)
         | Some unsigned \<Rightarrow>
           (let final = with_signature_reason unsigned blocked;
                existing = filter (\<lambda>b. mb_repositoryId b = repositoryId) (db_manifestBlocks d);
                newly = filter (\<lambda>(digest, _). find_block existing repositoryId digest = None) final;
                written = fold (write_block now repositoryId blocked unsigned existing) final (db_manifestBlocks d);
                kept = filter (\<lambda>b. \<not> (mb_repositoryId b = repositoryId \<and> mb_digest b \<in> set (map mb_digest existing) \<and> map_of final (mb_digest b) = None)) written
            in (Inr \<lparr>rf_blocked = length final,
                  rf_scanNotice = filter (\<lambda>(digest, _). map_of blocked digest \<noteq> None) newly,
                  rf_signatureNotice = (if quiet then [] else filter (\<lambda>(digest, _). map_of blocked digest = None) newly)\<rparr>,
                d\<lparr>db_manifestBlocks := kept\<rparr>))))"

definition refreshOrganizationBlocks ::
  "(string \<Rightarrow> string \<Rightarrow> int) \<Rightarrow> (vulnerability_scan \<Rightarrow> scan_row) \<Rightarrow> (string \<Rightarrow> json option) \<Rightarrow> millis \<Rightarrow> string \<Rightarrow> db \<Rightarrow> string option \<times> db" where
  \<comment> \<open>the loop ends with the first exception\<close>
  "refreshOrganizationBlocks lc decode_scan parse_json now organizationId d =
     fold (\<lambda>r (err, d'). if err \<noteq> None then (err, d')
             else (case refreshRepositoryBlocks lc decode_scan parse_json now (repo_id r) False d' of
                 (Inl e, d'') \<Rightarrow> (Some e, d'') | (Inr _, d'') \<Rightarrow> (None, d'')))
       (filter (\<lambda>r. repo_organizationId r = organizationId) (db_repositories d)) (None, d)"

definition manifestBlockReason :: "db \<Rightarrow> string \<Rightarrow> string \<Rightarrow> string option" where
  "manifestBlockReason d repositoryId digest = map_option mb_reason (find_block (db_manifestBlocks d) repositoryId digest)"

section \<open>Maps built by loops\<close>

text \<open>Loops whose body only ever adds keys.\<close>

lemma fold_keys_grow:
  assumes "\<And>r m. dom (map_of m) \<subseteq> dom (map_of (f r m))"
  shows "dom (map_of m) \<subseteq> dom (map_of (fold f rows m))"
proof (induction rows arbitrary: m)
  case (Cons r rows)
  show ?case using assms [where r = r and m = m] Cons.IH [of "f r m"] by (simp only: fold_simps)
qed simp

lemma fold_adds_key:
  assumes "\<And>r m. dom (map_of m) \<subseteq> dom (map_of (f r m))" and "r \<in> set rows"
    and "\<And>m'. dom (map_of m) \<subseteq> dom (map_of m') \<Longrightarrow> k \<in> dom (map_of (f r m'))"
  shows "k \<in> dom (map_of (fold f rows m))"
  using assms(2,3)
proof (induction rows arbitrary: m)
  case (Cons x rows)
  show ?case
  proof (cases "x = r")
    case True
    then have "k \<in> dom (map_of (f x m))" using Cons.prems(2) by blast
    then show ?thesis using fold_keys_grow [where f = f and m = "f x m" and rows = rows, OF assms(1)] by (simp only: fold_simps) blast
  next
    case False
    have "k \<in> dom (map_of (fold f rows (f x m)))"
      using False Cons.prems assms(1) [of m x] by (intro Cons.IH) (auto intro: Cons.prems(2))
    then show ?thesis by simp
  qed
qed simp

lemma dom_update_grows: "dom (map_of m) \<subseteq> dom (map_of (AList.update k v m))"
  by (simp add: subset_insertI)

lemma scan_blocks_grow:
  "dom (map_of m) \<subseteq> dom (map_of (case find (\<lambda>s. vs_digest s = man_digest r) (db_scans d) of
       None \<Rightarrow> m
     | Some scan \<Rightarrow> if vs_status scan \<noteq> Scanned then m
         else (case g scan of None \<Rightarrow> m | Some why \<Rightarrow> AList.update (man_digest r) why m)))"
  by (auto split: option.split)

lemma scan_blocked:
  assumes "r \<in> set rows" and "find (\<lambda>s. vs_digest s = man_digest r) (db_scans d) = Some scan" and "vs_status scan = Scanned"
    and "violation (effectiveScanSummary lc now (decode_scan scan) (loadExceptionRules d (repo_organizationId repo) (Some (repo_id repo)))
      (Some (repo_id repo))) p = Some why"
  shows "man_digest r \<in> dom (map_of (scan_blocks lc decode_scan now d repo p rows))"
  unfolding scan_blocks_def Let_def
  by (rule fold_adds_key [where r = r]) (rule scan_blocks_grow, rule assms(1), simp add: assms)

lemma index_blocks_grow:
  "dom (map_of m) \<subseteq> dom (map_of (if \<not> is_index (man_mediaType r) then m
     else (case index_children parse_json (man_payload r) of
         None \<Rightarrow> m
       | Some children \<Rightarrow> (case find (\<lambda>c. map_of m c \<noteq> None) children of
             None \<Rightarrow> m
           | Some hit \<Rightarrow> AList.update (man_digest r) (''variant '' @ js_slice 7 19 hit @ '': '' @ the (map_of m hit)) m))))"
  by (auto split: option.split)

lemma index_blocked:
  assumes "r \<in> set rows" and "is_index (man_mediaType r)" and "index_children parse_json (man_payload r) = Some children"
    and "c \<in> set children" and "c \<in> dom (map_of (m :: reasons))"
  shows "man_digest r \<in> dom (map_of (index_blocks parse_json rows m))"
  unfolding index_blocks_def
proof (rule fold_adds_key [where r = r])
  fix m' :: reasons
  assume "dom (map_of m) \<subseteq> dom (map_of m')"
  then have "c \<in> dom (map_of m')" using assms(5) by blast
  then have "find (\<lambda>c. map_of m' c \<noteq> None) children \<noteq> None" using assms(4) by (auto simp: find_None_iff)
  then show "man_digest r \<in> dom (map_of (if \<not> is_index (man_mediaType r) then m' else (case index_children parse_json (man_payload r) of
         None \<Rightarrow> m'
       | Some children \<Rightarrow> (case find (\<lambda>c. map_of m' c \<noteq> None) children of
             None \<Rightarrow> m'
           | Some hit \<Rightarrow> AList.update (man_digest r) (''variant '' @ js_slice 7 19 hit @ '': '' @ the (map_of m' hit)) m'))))"
    using assms(2,3) by auto
qed (rule index_blocks_grow, rule assms(1))

lemma index_blocks_keep: "dom (map_of m) \<subseteq> dom (map_of (index_blocks parse_json rows m))"
  unfolding index_blocks_def by (rule fold_keys_grow) (rule index_blocks_grow)

lemma with_signature_map:
  "distinct unsigned \<Longrightarrow> map_of (with_signature_reason unsigned blocked) digest =
     (if digest \<in> set unsigned
      then Some (case map_of blocked digest of Some r \<Rightarrow> r @ ''; '' @ SIGNATURE_BLOCK_REASON | None \<Rightarrow> SIGNATURE_BLOCK_REASON)
      else map_of blocked digest)"
  unfolding with_signature_reason_def by (induction unsigned arbitrary: blocked) auto

section \<open>The table of blocks as a map\<close>

definition block_view :: "manifest_block list \<Rightarrow> string \<Rightarrow> string \<Rightarrow> (string \<times> bool) option" where
  "block_view bs repositoryId digest = map_option (\<lambda>b. (mb_reason b, mb_pushersExempt b)) (find_block bs repositoryId digest)"

lemma find_block_map:
  "(\<And>b. mb_repositoryId (f b) = mb_repositoryId b \<and> mb_digest (f b) = mb_digest b) \<Longrightarrow>
   find_block (map (\<lambda>b. if P b then f b else b) bs) rid dg = map_option (\<lambda>b. if P b then f b else b) (find_block bs rid dg)"
  unfolding find_block_def by (rule find_map_update_other) auto

lemma find_blockD: "find_block bs rid dg = Some b \<Longrightarrow> mb_repositoryId b = rid \<and> mb_digest b = dg \<and> b \<in> set bs"
  unfolding find_block_def by (auto dest: find_SomeD)

lemma block_view_upsert:
  "block_view (upsert_block now rid' dg' reason exempt bs) rid dg =
     (if rid = rid' \<and> dg = dg' then Some (reason, exempt) else block_view bs rid dg)"
proof (cases "find_block bs rid' dg'")
  case None
  then have "\<not> list_ex (\<lambda>b. mb_repositoryId b = rid' \<and> mb_digest b = dg') bs"
    by (auto simp: find_block_def find_None_iff list_ex_iff)
  then show ?thesis using None
    by (auto simp: upsert_block_def block_view_def find_block_def find_append Let_def split: option.splits)
next
  case (Some b)
  then have "list_ex (\<lambda>b. mb_repositoryId b = rid' \<and> mb_digest b = dg') bs" using find_blockD by (fastforce simp: list_ex_iff)
  then have "upsert_block now rid' dg' reason exempt bs =
      map (\<lambda>b. if mb_repositoryId b = rid' \<and> mb_digest b = dg' then b\<lparr>mb_reason := reason, mb_pushersExempt := exempt\<rparr> else b) bs"
    by (simp add: upsert_block_def Let_def)
  then show ?thesis using Some by (auto simp: block_view_def find_block_map option.map_comp comp_def dest: find_blockD split: option.splits
      intro!: option.map_cong0 simp del: map_option_eq_Some)
qed

lemma block_view_write:
  "block_view (write_block now rid blocked unsigned existing (k, reason) bs) rid' dg =
     (if rid' = rid \<and> dg = k \<and> \<not> (block_view existing rid k = Some (reason, k \<in> set unsigned \<and> map_of blocked k = None))
      then Some (reason, k \<in> set unsigned \<and> map_of blocked k = None) else block_view bs rid' dg)"
  by (cases "find_block existing rid k") (auto simp: write_block_def block_view_upsert Let_def block_view_def [of existing])

lemma fold_write_view:
  assumes "distinct (map fst entries)" and "\<And>k. k \<in> fst ` set entries \<Longrightarrow> block_view bs rid k = block_view existing rid k"
  shows "block_view (fold (write_block now rid blocked unsigned existing) entries bs) rid dg =
    (case map_of entries dg of Some reason \<Rightarrow> Some (reason, dg \<in> set unsigned \<and> map_of blocked dg = None) | None \<Rightarrow> block_view bs rid dg)"
  using assms
proof (induction entries arbitrary: bs)
  case (Cons e entries)
  obtain k reason where e: "e = (k, reason)" by force
  let ?bs = "write_block now rid blocked unsigned existing e bs"
  have "block_view (fold (write_block now rid blocked unsigned existing) entries ?bs) rid dg =
      (case map_of entries dg of Some reason \<Rightarrow> Some (reason, dg \<in> set unsigned \<and> map_of blocked dg = None) | None \<Rightarrow> block_view ?bs rid dg)"
    using Cons.prems by (intro Cons.IH) (auto simp: e block_view_write)
  moreover have "block_view ?bs rid k = Some (reason, k \<in> set unsigned \<and> map_of blocked k = None)"
    using Cons.prems(2) [of k] by (simp add: e block_view_write)
  moreover have "map_of entries k = None" using Cons.prems(1) by (simp add: e map_of_eq_None_iff)
  ultimately show ?case by (auto simp: e block_view_write split: option.splits)
qed simp

lemma upsert_other_repos:
  "filter (\<lambda>b. mb_repositoryId b \<noteq> rid) (upsert_block now rid dg reason exempt bs) = filter (\<lambda>b. mb_repositoryId b \<noteq> rid) bs"
  by (simp add: upsert_block_def Let_def filter_map_id)

lemma fold_write_other_repos:
  "filter (\<lambda>b. mb_repositoryId b \<noteq> rid) (fold (write_block now rid blocked unsigned existing) entries bs) = filter (\<lambda>b. mb_repositoryId b \<noteq> rid) bs"
proof (induction entries arbitrary: bs)
  case (Cons e entries)
  obtain k reason where e: "e = (k, reason)" by force
  have "filter (\<lambda>b. mb_repositoryId b \<noteq> rid) (write_block now rid blocked unsigned existing e bs) = filter (\<lambda>b. mb_repositoryId b \<noteq> rid) bs"
    by (simp add: e write_block_def Let_def upsert_other_repos)
  then show ?case using Cons.IH by simp
qed simp

lemma distinct_reasons: "distinct (map fst blocked) \<Longrightarrow> distinct (map fst (with_signature_reason unsigned blocked))"
  unfolding with_signature_reason_def by (induction unsigned arbitrary: blocked) (simp_all add: distinct_update)

lemma distinct_policy_blocks: "distinct (map fst (policy_blocks lc decode_scan parse_json now d repo))"
proof -
  have keep: "distinct (map fst (fold f rows m))" if "\<And>r m. distinct (map fst m) \<Longrightarrow> distinct (map fst (f r m))" "distinct (map fst m)"
    for f :: "manifest \<Rightarrow> reasons \<Rightarrow> reasons" and rows m
    using that(2) by (induction rows arbitrary: m) (simp_all add: that(1))
  have "distinct (map fst (scan_blocks lc decode_scan now d repo p rows))" for p rows
    unfolding scan_blocks_def Let_def by (rule keep) (auto simp: distinct_update split: option.split)
  then have "distinct (map fst (index_blocks parse_json rows (scan_blocks lc decode_scan now d repo p rows)))" for p rows
    unfolding index_blocks_def by (intro keep) (auto simp: distinct_update split: option.split)
  then show ?thesis by (simp add: policy_blocks_def Let_def)
qed

lemma signature_blocks_distinct: "signature_blocks parse_json d repo = Some unsigned \<Longrightarrow> distinct unsigned"
  by (auto simp: signature_blocks_def unsigned_images_def Let_def split: if_splits option.splits)

lemma kept_view:
  assumes "map_of final dg = None \<Longrightarrow> block_view written rid dg = block_view bs rid dg"
  shows "block_view (filter (\<lambda>b. \<not> (mb_repositoryId b = rid \<and> mb_digest b \<in> set (map mb_digest (filter (\<lambda>b. mb_repositoryId b = rid) bs)) \<and>
      map_of final (mb_digest b) = None)) written) rid dg = (if map_of final dg = None then None else block_view written rid dg)"
    (is "block_view (filter ?keep written) rid dg = _")
proof (cases "map_of final dg")
  case (Some reason)
  then have "find_block (filter ?keep written) rid dg = find_block written rid dg"
    unfolding find_block_def find_filter_conj by (intro arg_cong [where f = "\<lambda>P. find P _"]) auto
  with Some show ?thesis by (simp add: block_view_def)
next
  case None
  have "b \<notin> set written" if b: "mb_repositoryId b = rid" "mb_digest b = dg" "\<forall>x \<in> set bs. mb_repositoryId x = rid \<longrightarrow> mb_digest x \<noteq> dg" for b
  proof -
    have "find_block bs rid dg = None" using b(3) by (auto simp: find_block_def find_None_iff)
    then have "find_block written rid dg = None" using assms [OF None] by (simp add: block_view_def)
    then show ?thesis using b(1,2) by (auto simp: find_block_def find_None_iff)
  qed
  then have "dg \<in> set (map mb_digest (filter (\<lambda>b. mb_repositoryId b = rid) bs))"
    if "b \<in> set written" "mb_repositoryId b = rid" "mb_digest b = dg" for b
    using that by (force simp: image_iff)
  then have "\<not> ?keep b" if "b \<in> set written" "mb_repositoryId b = rid" "mb_digest b = dg" for b
    using that None by blast
  then have "find_block (filter ?keep written) rid dg = None"
    unfolding find_block_def find_filter_conj find_None_iff by blast
  with None show ?thesis by (simp add: block_view_def)
qed

section \<open>Properties\<close>


definition example_scan :: vulnerability_scan where
  "example_scan = \<lparr>vs_digest = ''sha256:1'', vs_repositoryId = Some ''r'', vs_status = Scanned, vs_summary = None, vs_report = None,
     vs_findings = None, vs_scanner = None, vs_scannerVersion = None, vs_error = None, vs_createdAt = 0, vs_updatedAt = 0\<rparr>"

definition example_finding :: finding where
  "example_finding = \<lparr>fd_id = ''CVE-2024-0001'', fd_severity = Critical, fd_package = ''openssl'', fd_version = ''3'', fd_fixedIn = None,
     fd_type = ''os'', fd_title = None, fd_description = None, fd_links = [], fd_layerDigest = None, fd_ecosystem = None, fd_distro = None\<rparr>"

definition example_decode :: "vulnerability_scan \<Rightarrow> scan_row" where
  "example_decode _ = \<lparr>sr_findings = Some [example_finding], sr_report = None, sr_scanner = None, sr_summary = None\<rparr>"

definition example_policy_db :: db where
  "example_policy_db = empty_db\<lparr>
     db_repositories := [\<lparr>repo_id = ''r'', repo_organizationId = ''o'', repo_name = ''app'', repo_description = [],
       repo_visibility = Private, repo_pullCount = 0, repo_blockPullsAt = Some (BlockAt LHigh), repo_blockUnrated = None,
       repo_readme = None, repo_logo = None, repo_requireSignature = Some True, repo_createdAt = 0, repo_updatedAt = 0\<rparr>],
     db_manifests := [\<lparr>man_repositoryId = ''r'', man_digest = ''sha256:1'', man_mediaType = ''m'', man_artifactType = None, man_size = 1,
       man_payload = ''{}'', man_configDigest = None, man_subjectDigest = None, man_config = None, man_pushedBy = None, man_createdAt = 0\<rparr>],
     db_scans := [example_scan]\<rparr>"

definition example_policy_repo :: repository where
  "example_policy_repo = hd (db_repositories example_policy_db)"


text \<open>
  A vulnerable image is blocked, and so is every index that offers it. An image of the
  repository whose finished scan, after the accepted risks are taken out, violates the
  policy in force is in the set of blocked digests; and an index whose manifest list names it is
  too, whatever else the repository holds and in whatever order the manifests come.
\<close>

theorem violating_image_blocked:
  assumes org: "org = find (\<lambda>s. os_organizationId s = repo_organizationId repo) (db_orgSettings d)"
    and m: "m \<in> set (db_manifests d)" "man_repositoryId m = repo_id repo"
    and scan: "find (\<lambda>s. vs_digest s = man_digest m) (db_scans d) = Some scan" "vs_status scan = Scanned"
    and why: "violation (effectiveScanSummary lc now (decode_scan scan)
        (loadExceptionRules d (repo_organizationId repo) (Some (repo_id repo))) (Some (repo_id repo))) (effectivePolicy org repo) = Some why"
  shows "map_of (policy_blocks lc decode_scan parse_json now d repo) (man_digest m) \<noteq> None \<and>
    (i \<in> set (db_manifests d) \<and> man_repositoryId i = repo_id repo \<and> is_index (man_mediaType i) \<and>
     index_children parse_json (man_payload i) = Some children \<and> man_digest m \<in> set children \<longrightarrow>
     map_of (policy_blocks lc decode_scan parse_json now d repo) (man_digest i) \<noteq> None)"
proof -
  let ?rows = "filter (\<lambda>m. man_repositoryId m = repo_id repo) (db_manifests d)"
  let ?p = "effectivePolicy org repo"
  let ?first = "scan_blocks lc decode_scan now d repo ?p ?rows"
  have rows: "m \<in> set ?rows" using m by simp
  have "pol_level ?p \<noteq> None" using why by (auto simp: violation_def split: option.splits)
  moreover have "?rows \<noteq> []" using rows by (metis list.set(1) empty_iff)
  ultimately have eq: "policy_blocks lc decode_scan parse_json now d repo = index_blocks parse_json ?rows ?first"
    by (simp add: policy_blocks_def org Let_def)
  have first: "man_digest m \<in> dom (map_of ?first)" by (rule scan_blocked [where decode_scan = decode_scan, OF rows scan why])
  then have "man_digest m \<in> dom (map_of (index_blocks parse_json ?rows ?first))" using index_blocks_keep by blast
  moreover have "man_digest i \<in> dom (map_of (index_blocks parse_json ?rows ?first))"
    if "i \<in> set (db_manifests d)" "man_repositoryId i = repo_id repo" "is_index (man_mediaType i)"
      "index_children parse_json (man_payload i) = Some children" "man_digest m \<in> set children"
    using that first by (intro index_blocked) auto
  ultimately show ?thesis unfolding eq by auto
qed

theorem violating_image_blocked_witness:
  "map_of (policy_blocks code_unit_compare example_decode (\<lambda>_. None) 0 example_policy_db example_policy_repo) ''sha256:1'' \<noteq> None"
proof -
  let ?m = "hd (db_manifests example_policy_db)"
  have m: "?m \<in> set (db_manifests example_policy_db)" "man_repositoryId ?m = repo_id example_policy_repo" "man_digest ?m = ''sha256:1''"
    by (simp_all add: example_policy_db_def example_policy_repo_def)
  have scan: "find (\<lambda>s. vs_digest s = man_digest ?m) (db_scans example_policy_db) = Some example_scan" "vs_status example_scan = Scanned"
    by (simp_all add: example_policy_db_def example_scan_def)
  have why: "violation (effectiveScanSummary code_unit_compare 0 (example_decode example_scan)
        (loadExceptionRules example_policy_db (repo_organizationId example_policy_repo) (Some (repo_id example_policy_repo)))
        (Some (repo_id example_policy_repo))) (effectivePolicy None example_policy_repo) = Some ''1 critical finding; policy blocks high and above''"
    by code_simp
  have org: "None = find (\<lambda>s. os_organizationId s = repo_organizationId example_policy_repo) (db_orgSettings example_policy_db)" by code_simp
  from violating_image_blocked [where decode_scan = example_decode and parse_json = "\<lambda>_. None", OF org m(1,2) scan why] m(3) show ?thesis by simp
qed

end
