(* ===== verification/Repo_Actions.thy ===== *)
theory Repo_Actions
  imports Redirects Quota Pull_Policy
begin

text \<open>
  Creating, renaming, moving and deleting repositories and renaming organizations
  (\<open>web/src/app/actions/repositories.ts\<close>, \<open>actions/repo-tools.ts\<close>, \<open>lib/repo-move.ts\<close>,
  \<open>lib/storage-accounting.ts\<close>). An action runs for a signed-in user (\<open>actor\<close>); the answer of the
  authentication library to the request to change a slug is the argument \<open>auth_error\<close>
  (\<open>None\<close>: it stored the new slug). Audit entries, webhooks, quota warnings and page revalidation
  are not part of the state; new ids and the clock are arguments. The theorems: no two repositories ever
  share a path, former paths keep leading to the renamed or moved repository, and a move
  needs rights on both sides.
\<close>

section \<open>Roles and links\<close>

record actor =
  act_userId :: string
  act_isAdmin :: bool

definition getOrgRole :: "db \<Rightarrow> actor \<Rightarrow> string \<Rightarrow> string option" where
  "getOrgRole d a organizationId =
     (if act_isAdmin a then Some ''owner''
      else map_option mem_role (find (\<lambda>m. mem_organizationId m = organizationId \<and> mem_userId m = act_userId a) (db_members d)))"

definition MANAGER_ROLES :: "string list" where "MANAGER_ROLES = [''owner'', ''admin'']"

definition WRITER_ROLES :: "string list" where "WRITER_ROLES = [''owner'', ''admin'', ''member'']"

definition has_role :: "db \<Rightarrow> actor \<Rightarrow> string \<Rightarrow> string list \<Rightarrow> bool" where
  \<comment> \<open>\<open>!role || !roles.includes(role)\<close>, negated\<close>
  "has_role d a organizationId roles = (case getOrgRole d a organizationId of None \<Rightarrow> False | Some r \<Rightarrow> r \<noteq> [] \<and> r \<in> set roles)"

definition isProxyOrg :: "db \<Rightarrow> string \<Rightarrow> bool" where
  "isProxyOrg d organizationId \<longleftrightarrow> find_proxy d organizationId \<noteq> None"

definition uri_unreserved :: "char \<Rightarrow> bool" where
  "uri_unreserved c \<longleftrightarrow> is_lower_alnum (lower_char c) \<and> of_char c < (128 :: nat) \<or> c \<in> set ''-_.!~*()'' \<or> c = CHR 0x27"

definition hex_digit :: "nat \<Rightarrow> char" where
  "hex_digit n = (if n < 10 then char_of (48 + n) else char_of (55 + n))"

definition percent :: "nat \<Rightarrow> string" where
  "percent b = [CHR ''%'', hex_digit (b div 16), hex_digit (b mod 16)]"

definition encodeURIComponent :: "string \<Rightarrow> string" where
  \<comment> \<open>code units below 256: one or two bytes of UTF-8\<close>
  "encodeURIComponent s = concat (map (\<lambda>c. let n = of_char c :: nat in
     if uri_unreserved c then [c] else if n < 128 then percent n else percent (192 + n div 64) @ percent (128 + n mod 64)) s)"

definition encodeRepoSegment :: "string \<Rightarrow> string" where
  "encodeRepoSegment repoName = (if CHR ''/'' \<in> set repoName then encodeURIComponent repoName else repoName)"

definition repoHref :: "string \<Rightarrow> string \<Rightarrow> string" where
  "repoHref orgSlug repoName = ''/'' @ orgSlug @ ''/'' @ encodeRepoSegment repoName"

definition denied :: string where
  "denied = ''You don'' @ [CHR 0x27] @ ''t have permission to do that in this organization.''"

section \<open>Creating, changing and deleting a repository\<close>

definition NAME_RE :: "string \<Rightarrow> bool" where
  \<comment> \<open>\<open>^[a-z0-9]+(?:[._-][a-z0-9]+)*$\<close>, as for team slugs\<close>
  "NAME_RE s = TEAM_SLUG_RE s"

definition CREATE_RESERVED_NAMES :: "string list" where
  \<comment> \<open>the list of \<open>repositories.ts\<close>\<close>
  "CREATE_RESERVED_NAMES = [''members'', ''settings'', ''service-accounts'', ''new-repository'', ''import'',
     ''tags'', ''manifests'', ''blobs'', ''referrers'']"

datatype problem = Refused string | OverQuota quota_problem | OverQuotaIn string quota_problem
    \<comment> \<open>the last with the organization's name in front\<close>

definition createRepository ::
  "string \<Rightarrow> millis \<Rightarrow> actor \<Rightarrow> string \<Rightarrow> string \<Rightarrow> string \<Rightarrow> visibility \<Rightarrow> db \<Rightarrow> (problem + string) \<times> db" where
  \<comment> \<open>\<open>Inr\<close> is the page the browser is sent to\<close>
  "createRepository newId now a orgId rawName rawDescription v d =
     (let name = js_trim rawName; proxy = find_proxy d orgId in
      if \<not> has_role d a orgId WRITER_ROLES then (Inl (Refused denied), d)
      else if \<not> (if proxy \<noteq> None then isValidRepoName name True else NAME_RE name \<and> length name \<le> 100)
      then (Inl (Refused (if proxy \<noteq> None
             then ''Repository names use lowercase letters, digits and single ._- separators, with / between path components.''
             else ''Repository names use lowercase letters, digits and single ._- separators.'')), d)
      else if name \<in> set CREATE_RESERVED_NAMES then (Inl (Refused (''\"'' @ name @ ''\" is reserved; pick a different name.'')), d)
      else (case org_by_id d orgId of
          None \<Rightarrow> (Inl (Refused ''Organization not found.''), d)
        | Some org \<Rightarrow>
          if find_repo d orgId name \<noteq> None then (Inl (Refused (''A repository named '' @ name @ '' already exists.'')), d)
          else (case checkRepoQuota d orgId v (org_name org) 0 of
              Some q \<Rightarrow> (Inl (OverQuota q), d)
            | None \<Rightarrow>
              (let row = \<lparr>repo_id = newId, repo_organizationId = orgId, repo_name = name, repo_description = js_trim rawDescription,
                     repo_visibility = v, repo_pullCount = 0, repo_blockPullsAt = None, repo_blockUnrated = None, repo_readme = None,
                     repo_logo = None, repo_requireSignature = None, repo_createdAt = now, repo_updatedAt = now\<rparr>
               in (Inr (repoHref (org_slug org) name),
                   clearRepositoryRedirects orgId (org_slug org) name (d\<lparr>db_repositories := db_repositories d @ [row]\<rparr>))))))"

definition updateRepository :: "millis \<Rightarrow> actor \<Rightarrow> string \<Rightarrow> string \<Rightarrow> visibility \<Rightarrow> db \<Rightarrow> problem option \<times> db" where
  "updateRepository now a repoId rawDescription v d =
     (case repo_by_id d repoId of
        None \<Rightarrow> (Some (Refused ''Repository not found.''), d)
      | Some repo \<Rightarrow>
        if \<not> has_role d a (repo_organizationId repo) MANAGER_ROLES then (Some (Refused denied), d)
        else (case (if v \<noteq> repo_visibility repo then checkRepoQuota d (repo_organizationId repo) v ''this organization'' 0 else None) of
            Some q \<Rightarrow> (Some (OverQuota q), d)
          | None \<Rightarrow> (None, d\<lparr>db_repositories := map (\<lambda>r. if repo_id r = repoId
                then r\<lparr>repo_description := js_trim rawDescription, repo_visibility := v, repo_updatedAt := now\<rparr> else r) (db_repositories d)\<rparr>)))"

definition drop_repository :: "string \<Rightarrow> db \<Rightarrow> db" where
  \<comment> \<open>the row and what references it with \<open>ON DELETE CASCADE\<close>\<close>
  "drop_repository rid d = d\<lparr>
     db_repositories := filter (\<lambda>r. repo_id r \<noteq> rid) (db_repositories d),
     db_repositoryBlobs := filter (\<lambda>x. rb_repositoryId x \<noteq> rid) (db_repositoryBlobs d),
     db_manifests := filter (\<lambda>x. man_repositoryId x \<noteq> rid) (db_manifests d),
     db_manifestRefs := filter (\<lambda>x. mr_repositoryId x \<noteq> rid) (db_manifestRefs d),
     db_manifestBlocks := filter (\<lambda>x. mb_repositoryId x \<noteq> rid) (db_manifestBlocks d),
     db_tags := filter (\<lambda>x. tag_repositoryId x \<noteq> rid) (db_tags d),
     db_grants := filter (\<lambda>x. gr_repositoryId x \<noteq> rid) (db_grants d),
     db_tagRules := filter (\<lambda>x. rule_repositoryId x \<noteq> Some rid) (db_tagRules d),
     db_retentionPolicies := filter (\<lambda>x. rp_repositoryId x \<noteq> Some rid) (db_retentionPolicies d),
     db_repoRedirects := filter (\<lambda>x. rr_repositoryId x \<noteq> rid) (db_repoRedirects d),
     db_exceptions := filter (\<lambda>x. ve_repositoryId x \<noteq> Some rid) (db_exceptions d),
     db_signatures := filter (\<lambda>x. ms_repositoryId x \<noteq> rid) (db_signatures d),
     db_webhookDeliveries := filter (\<lambda>x. \<not> list_ex (\<lambda>h. wh_id h = wd_webhookId x \<and> wh_repositoryId h = Some rid) (db_webhooks d)) (db_webhookDeliveries d),
     db_webhooks := filter (\<lambda>h. wh_repositoryId h \<noteq> Some rid) (db_webhooks d)\<rparr>"

definition deleteRepository :: "actor \<Rightarrow> string \<Rightarrow> string \<Rightarrow> db \<Rightarrow> db" where
  "deleteRepository a repoId confirmName d =
     (case repo_by_id d repoId of
        None \<Rightarrow> d
      | Some repo \<Rightarrow>
        if \<not> has_role d a (repo_organizationId repo) MANAGER_ROLES \<or> confirmName \<noteq> repo_name repo then d
        else drop_repository repoId d)"

definition deleteTagRow :: "actor \<Rightarrow> string \<Rightarrow> string \<Rightarrow> db \<Rightarrow> db" where
  \<comment> \<open>the server action \<open>deleteTag\<close> of \<open>repositories.ts\<close>\<close>
  "deleteTagRow a repoId tagName d =
     (case repo_by_id d repoId of
        None \<Rightarrow> d
      | Some repo \<Rightarrow>
        if \<not> has_role d a (repo_organizationId repo) MANAGER_ROLES then d
        else d\<lparr>db_tags := filter (\<lambda>t. \<not> (tag_repositoryId t = repoId \<and> tag_name t = tagName)) (db_tags d)\<rparr>)"

section \<open>Renaming\<close>

definition set_repo_name :: "millis \<Rightarrow> string \<Rightarrow> string \<Rightarrow> db \<Rightarrow> db" where
  "set_repo_name now rid name d =
     d\<lparr>db_repositories := map (\<lambda>r. if repo_id r = rid then r\<lparr>repo_name := name, repo_updatedAt := now\<rparr> else r) (db_repositories d)\<rparr>"

definition renameRepository ::
  "string \<Rightarrow> millis \<Rightarrow> string \<Rightarrow> actor \<Rightarrow> string \<Rightarrow> string \<Rightarrow> db \<Rightarrow> (string + string \<times> string) \<times> db" where
  \<comment> \<open>\<open>Inr\<close> carries the new page and pull reference\<close>
  "renameRepository newId now registryHost a repositoryId rawName d =
     (let newName = js_trim rawName in
      case repo_by_id d repositoryId of
        None \<Rightarrow> (Inl ''Repository not found.'', d)
      | Some repo \<Rightarrow>
        if \<not> has_role d a (repo_organizationId repo) MANAGER_ROLES then (Inl denied, d)
        else (case org_by_id d (repo_organizationId repo) of
            None \<Rightarrow> (Inl ''Organization not found.'', d)
          | Some org \<Rightarrow>
            if isProxyOrg d (org_id org) then (Inl ''Repositories in a proxy cache mirror upstream names and cannot be renamed.'', d)
            else (case repoNameProblem newName False of
                Some p \<Rightarrow> (Inl p, d)
              | None \<Rightarrow>
                if newName = repo_name repo then (Inl (''That is already the repository'' @ [CHR 0x27] @ ''s name.''), d)
                else if find_repo d (org_id org) newName \<noteq> None
                then (Inl (''A repository named '' @ newName @ '' already exists in '' @ org_slug org @ ''.''), d)
                else (Inr (repoHref (org_slug org) newName, imageReference registryHost (Some (org_slug org)) newName None),
                      addRepositoryRedirect newId now (org_slug org) (repo_name repo) (repo_id repo) (Some (act_userId a))
                        (clearRepositoryRedirects (org_id org) (org_slug org) newName (set_repo_name now (repo_id repo) newName d))))))"

definition RESERVED_SLUGS :: "string list" where
  "RESERVED_SLUGS = [''dashboard'', ''settings'', ''admin'', ''explore'', ''orgs'', ''api'', ''sign-in'', ''sign-up'', ''two-factor'',
     ''email-otp'', ''forgot-password'', ''reset-password'', ''verify-email'', ''accept-invitation'', ''v2'', ''internal'', ''_next'',
     ''favicon.ico'', ''assets'', ''static'', LIBRARY_SLUG]"

definition ORG_SLUG_RE :: "string \<Rightarrow> bool" where
  "ORG_SLUG_RE s = TEAM_SLUG_RE s"

definition set_org_slug :: "string \<Rightarrow> string \<Rightarrow> db \<Rightarrow> db" where
  "set_org_slug oid slug d = d\<lparr>db_organizations := map (\<lambda>g. if org_id g = oid then g\<lparr>org_slug := slug\<rparr> else g) (db_organizations d)\<rparr>"

definition renameOrganization ::
  "string option \<Rightarrow> millis \<Rightarrow> actor \<Rightarrow> string \<Rightarrow> string \<Rightarrow> db \<Rightarrow> (string + string) \<times> db" where
  "renameOrganization auth_error now a organizationId rawSlug d =
     (let newSlug = js_lower (js_trim rawSlug) in
      case org_by_id d organizationId of
        None \<Rightarrow> (Inl ''Organization not found.'', d)
      | Some org \<Rightarrow>
        if getOrgRole d a (org_id org) \<noteq> Some ''owner'' then (Inl ''Only organization owners can rename the organization.'', d)
        else if org_slug org = LIBRARY_SLUG \<or> newSlug = LIBRARY_SLUG then (Inl ''The library organization cannot be renamed.'', d)
        else if \<not> ORG_SLUG_RE newSlug
        then (Inl ''Organization slugs use lowercase letters, digits and single ._- separators (the slug is the image namespace).'', d)
        else if newSlug \<in> set RESERVED_SLUGS then (Inl (''\"'' @ newSlug @ ''\" is reserved; pick a different slug.''), d)
        else if newSlug = org_slug org then (Inl (''That is already the organization'' @ [CHR 0x27] @ ''s slug.''), d)
        else if find_org d newSlug \<noteq> None then (Inl (''The slug '' @ newSlug @ '' is already in use.''), d)
        else if auth_error \<noteq> None \<and> \<not> act_isAdmin a then (Inl (the auth_error), d)
        else (Inr (''/'' @ newSlug @ ''/settings/danger''),
              addOrganizationRedirect now (org_slug org) (org_id org) (Some (act_userId a))
                (clearOrganizationRedirect newSlug (set_org_slug (org_id org) newSlug d))))"

section \<open>Moving\<close>

datatype move_skip = RepositoryMissing | OrganizationMissing | SameOrganization | Denied | TargetDenied | SourceProxy | TargetProxy
  | InvalidName | NameTaken | RepositoryQuota | StorageQuota | Failed

definition skipLabel :: "move_skip option \<Rightarrow> string" where
  "skipLabel code = (case code of
       Some RepositoryMissing \<Rightarrow> ''gone'' | Some OrganizationMissing \<Rightarrow> ''no organization'' | Some SameOrganization \<Rightarrow> ''already there''
     | Some Denied \<Rightarrow> ''not allowed'' | Some TargetDenied \<Rightarrow> ''not allowed'' | Some SourceProxy \<Rightarrow> ''proxy source''
     | Some TargetProxy \<Rightarrow> ''proxy target'' | Some InvalidName \<Rightarrow> ''invalid name'' | Some NameTaken \<Rightarrow> ''name taken''
     | Some RepositoryQuota \<Rightarrow> ''repository quota'' | Some StorageQuota \<Rightarrow> ''storage quota'' | Some Failed \<Rightarrow> ''failed''
     | None \<Rightarrow> ''skipped'')"

definition repositoryBytesNewToOrg :: "db \<Rightarrow> string \<Rightarrow> string \<Rightarrow> string list \<Rightarrow> int" where
  "repositoryBytesNewToOrg d repositoryId organizationId exclude =
     (let held = (\<lambda>dg. list_ex (\<lambda>o'. rb_blobDigest o' = dg \<and>
            list_ex (\<lambda>r. repo_id r = rb_repositoryId o' \<and> repo_organizationId r = organizationId) (db_repositories d)) (db_repositoryBlobs d));
          landing = (\<lambda>dg. list_ex (\<lambda>p. rb_blobDigest p = dg \<and> rb_repositoryId p \<in> set exclude) (db_repositoryBlobs d))
      in sum_list (map blob_size (concat (map (\<lambda>rb. filter (\<lambda>b. blob_digest b = rb_blobDigest rb) (db_blobs d))
           (filter (\<lambda>rb. rb_repositoryId rb = repositoryId \<and> \<not> held (rb_blobDigest rb) \<and> \<not> (exclude \<noteq> [] \<and> landing (rb_blobDigest rb)))
              (db_repositoryBlobs d))))))"

definition blobBytesNewToOrg :: "db \<Rightarrow> string list \<Rightarrow> string \<Rightarrow> int" where
  "blobBytesNewToOrg d digests organizationId =
     (if digests = [] then 0
      else sum_list (map blob_size (filter (\<lambda>b. blob_digest b \<in> set digests \<and>
        \<not> list_ex (\<lambda>o'. rb_blobDigest o' = blob_digest b \<and>
            list_ex (\<lambda>r. repo_id r = rb_repositoryId o' \<and> repo_organizationId r = organizationId) (db_repositories d)) (db_repositoryBlobs d))
        (db_blobs d))))"

record move_plan =
  mp_repositoryId :: string
  mp_repositoryName :: string
  mp_visibility :: visibility
  mp_source :: "organization option"
  mp_target :: "organization option"
  mp_problem :: "(move_skip \<times> problem) option"
    \<comment> \<open>code and message; the plan is \<open>ok\<close> when there is none\<close>
  mp_bytesNew :: int

record batch_context =
  bc_repositoryIds :: "string list"
  bc_names :: "string list"
  bc_pendingPublic :: int
  bc_pendingPrivate :: int
  bc_pendingBytes :: int

definition newBatchContext :: batch_context where
  "newBatchContext = \<lparr>bc_repositoryIds = [], bc_names = [], bc_pendingPublic = 0, bc_pendingPrivate = 0, bc_pendingBytes = 0\<rparr>"

definition manages :: "db \<Rightarrow> string \<Rightarrow> actor \<Rightarrow> bool" where
  "manages d organizationId a \<longleftrightarrow> act_isAdmin a \<or> has_role d a organizationId MANAGER_ROLES"

definition fail_plan :: "move_plan \<Rightarrow> move_skip \<Rightarrow> problem \<Rightarrow> move_plan" where
  "fail_plan base code message = base\<lparr>mp_problem := Some (code, message)\<rparr>"

definition planRepositoryMove :: "db \<Rightarrow> string \<Rightarrow> string \<Rightarrow> actor \<Rightarrow> batch_context option \<Rightarrow> move_plan" where
  "planRepositoryMove d repositoryId targetOrganizationId a batch =
     (let base0 = \<lparr>mp_repositoryId = repositoryId, mp_repositoryName = [], mp_visibility = Private, mp_source = None, mp_target = None,
            mp_problem = None, mp_bytesNew = 0\<rparr> in
      case repo_by_id d repositoryId of
        None \<Rightarrow> fail_plan base0 RepositoryMissing (Refused ''Repository not found.'')
      | Some repo \<Rightarrow>
        (let base1 = base0\<lparr>mp_repositoryName := repo_name repo, mp_visibility := repo_visibility repo\<rparr> in
         if \<not> manages d (repo_organizationId repo) a then fail_plan base1 Denied (Refused denied)
         else (case (org_by_id d (repo_organizationId repo), org_by_id d targetOrganizationId) of
             (Some source, Some target) \<Rightarrow>
               (let base = base1\<lparr>mp_source := Some source, mp_target := Some target\<rparr> in
                if org_id target = org_id source then fail_plan base SameOrganization (Refused ''The repository is already in that organization.'')
                else if \<not> manages d (org_id target) a
                then fail_plan base TargetDenied (Refused (''You need to be an owner or admin of '' @ org_name target @ '' to move a repository there.''))
                else if isProxyOrg d (org_id source) then fail_plan base SourceProxy (Refused ''Repositories in a proxy cache cannot be moved.'')
                else if isProxyOrg d (org_id target)
                then fail_plan base TargetProxy (Refused (org_name target @ '' is a proxy cache; only its upstream fills it.''))
                else if repoNameProblem (repo_name repo) False \<noteq> None
                then fail_plan base InvalidName (Refused (''The name '' @ repo_name repo @ '' is not valid in '' @ org_slug target @ '': '' @
                       the (repoNameProblem (repo_name repo) False)))
                else if find_repo d (org_id target) (repo_name repo) \<noteq> None \<or>
                   (case batch of Some b \<Rightarrow> repo_name repo \<in> set (bc_names b) | None \<Rightarrow> False)
                then fail_plan base NameTaken (Refused (org_slug target @ '' already has a repository named '' @ repo_name repo @ ''; rename one of them first.''))
                else (let pending = nullish (map_option (if repo_visibility repo = Public then bc_pendingPublic else bc_pendingPrivate) batch) 0 in
                  case checkRepoQuota d (org_id target) (repo_visibility repo) (org_name target) pending of
                    Some q \<Rightarrow> fail_plan base RepositoryQuota (OverQuota q)
                  | None \<Rightarrow>
                    (let bytes = repositoryBytesNewToOrg d (repo_id repo) (org_id target) (nullish (map_option bc_repositoryIds batch) []);
                         base' = base\<lparr>mp_bytesNew := bytes\<rparr> in
                     case checkStorageQuota d (org_id target) (bytes + nullish (map_option bc_pendingBytes batch) 0) of
                       Some q \<Rightarrow> fail_plan base' StorageQuota (OverQuotaIn (org_name target) q)
                     | None \<Rightarrow> base')))
           | _ \<Rightarrow> fail_plan base1 OrganizationMissing (Refused ''Organization not found.''))))"

definition applyToBatch :: "batch_context \<Rightarrow> move_plan \<Rightarrow> batch_context" where
  "applyToBatch batch plan =
     (if mp_problem plan \<noteq> None then batch
      else (let b = batch\<lparr>bc_repositoryIds := bc_repositoryIds batch @ [mp_repositoryId plan],
                 bc_names := bc_names batch @ [mp_repositoryName plan], bc_pendingBytes := bc_pendingBytes batch + mp_bytesNew plan\<rparr>
            in if mp_visibility plan = Public then b\<lparr>bc_pendingPublic := bc_pendingPublic b + 1\<rparr>
               else b\<lparr>bc_pendingPrivate := bc_pendingPrivate b + 1\<rparr>))"

definition planBulkMove :: "db \<Rightarrow> string list \<Rightarrow> string \<Rightarrow> actor \<Rightarrow> move_plan list" where
  "planBulkMove d repositoryIds targetOrganizationId a =
     snd (fold (\<lambda>rid (batch, plans).
         let plan = planRepositoryMove d rid targetOrganizationId a (Some batch)
         in (applyToBatch batch plan, plans @ [plan])) repositoryIds (newBatchContext, []))"

definition move_rows :: "millis \<Rightarrow> string \<Rightarrow> string \<Rightarrow> db \<Rightarrow> db" where
  \<comment> \<open>the updates of the transaction\<close>
  "move_rows now rid oid d = d\<lparr>
     db_repositories := map (\<lambda>r. if repo_id r = rid then r\<lparr>repo_organizationId := oid, repo_updatedAt := now\<rparr> else r) (db_repositories d),
     db_tagRules := map (\<lambda>t. if rule_repositoryId t = Some rid then t\<lparr>rule_organizationId := oid\<rparr> else t) (db_tagRules d),
     db_retentionPolicies := map (\<lambda>p. if rp_repositoryId p = Some rid then p\<lparr>rp_organizationId := oid\<rparr> else p) (db_retentionPolicies d)\<rparr>"

definition moveRepositoryToOrganization ::
  "(string \<Rightarrow> string \<Rightarrow> int) \<Rightarrow> (vulnerability_scan \<Rightarrow> scan_row) \<Rightarrow> (string \<Rightarrow> json option) \<Rightarrow> string \<Rightarrow> millis \<Rightarrow> string \<Rightarrow>
     string \<Rightarrow> string \<Rightarrow> actor \<Rightarrow> db \<Rightarrow> (move_plan \<times> (string \<times> string) option) \<times> db" where
  \<comment> \<open>the plan, page and pull reference when it moved, and the database after the pull policy was
      refreshed (an exception there is only logged)\<close>
  "moveRepositoryToOrganization lc decode_scan parse_json newId now registryHost repositoryId targetOrganizationId a d =
     (let plan = planRepositoryMove d repositoryId targetOrganizationId a None in
      case (mp_problem plan, mp_source plan, mp_target plan) of
        (None, Some source, Some target) \<Rightarrow>
          (let name = mp_repositoryName plan;
               d1 = addRepositoryRedirect newId now (org_slug source) name (mp_repositoryId plan) (Some (act_userId a))
                      (clearRepositoryRedirects (org_id target) (org_slug target) name (move_rows now (mp_repositoryId plan) (org_id target) d))
           in ((plan, Some (repoHref (org_slug target) name, imageReference registryHost (Some (org_slug target)) name None)),
               snd (refreshRepositoryBlocks lc decode_scan parse_json now (mp_repositoryId plan) False d1)))
      | _ \<Rightarrow> ((plan, None), d))"


section \<open>Paths stay unique\<close>

definition paths_ok :: "organization list \<Rightarrow> repository list \<Rightarrow> organization_redirect list \<Rightarrow> bool" where
  "paths_ok orgs repos moved \<longleftrightarrow>
     distinct (map org_id orgs) \<and> distinct (map org_slug orgs) \<and>
     distinct (map repo_id repos) \<and> distinct (map (\<lambda>r. (repo_organizationId r, repo_name r)) repos) \<and>
     or_oldSlug ` set moved \<inter> org_slug ` set orgs = {}"

definition paths_inv :: "db \<Rightarrow> bool" where
  \<comment> \<open>ids, slugs and paths name one row each, and no slug in use redirects elsewhere\<close>
  "paths_inv d \<longleftrightarrow> paths_ok (db_organizations d) (db_repositories d) (db_orgRedirects d)"

inductive repo_step :: "db \<Rightarrow> db \<Rightarrow> bool" where
  RCreate: "newId \<notin> repo_id ` set (db_repositories d) \<Longrightarrow> repo_step d (snd (createRepository newId now a oid name description v d))"
| RUpdate: "repo_step d (snd (updateRepository now a rid description v d))"
| RDelete: "repo_step d (deleteRepository a rid confirmName d)"
| RDeleteTag: "repo_step d (deleteTagRow a rid tagName d)"
| RRename: "repo_step d (snd (renameRepository newId now host a rid name d))"
| RRenameOrg: "repo_step d (snd (renameOrganization auth_error now a oid slug d))"
| RMove: "repo_step d (snd (moveRepositoryToOrganization lc decode_scan parse_json newId now host rid oid a d))"

inductive_cases repo_stepE: "repo_step d d'"

lemma distinct_set_key:
  assumes "distinct (map k xs)" and "distinct (map f xs)"
    and "\<And>x y. x \<in> set xs \<Longrightarrow> y \<in> set xs \<Longrightarrow> k x = i \<Longrightarrow> k y \<noteq> i \<Longrightarrow> f (u x) \<noteq> f y"
  shows "distinct (map f (map (\<lambda>x. if k x = i then u x else x) xs))"
proof -
  have "inj_on (f \<circ> (\<lambda>x. if k x = i then u x else x)) (set xs)"
  proof (rule inj_onI)
    fix x y assume "x \<in> set xs" "y \<in> set xs" "(f \<circ> (\<lambda>x. if k x = i then u x else x)) x = (f \<circ> (\<lambda>x. if k x = i then u x else x)) y"
    then show "x = y" using assms by (cases "k x = i"; cases "k y = i") (auto simp: distinct_map dest: inj_onD, metis)
  qed
  then show ?thesis using assms(1) by (simp add: distinct_map)
qed

lemma find_by_key: "distinct (map f xs) \<Longrightarrow> x \<in> set xs \<Longrightarrow> find (\<lambda>y. f y = f x) xs = Some x"
  by (induction xs) auto

lemma redirect_tables [simp]:
  "db_organizations (addRepositoryRedirect i n s m r c d) = db_organizations d"
  "db_repositories (addRepositoryRedirect i n s m r c d) = db_repositories d"
  "db_orgRedirects (addRepositoryRedirect i n s m r c d) = db_orgRedirects d"
  "db_organizations (clearRepositoryRedirects oid s m d) = db_organizations d"
  "db_repositories (clearRepositoryRedirects oid s m d) = db_repositories d"
  "db_orgRedirects (clearRepositoryRedirects oid s m d) = db_orgRedirects d"
  by (simp_all add: addRepositoryRedirect_def clearRepositoryRedirects_def Let_def)

lemma refresh_tables [simp]:
  "db_organizations (snd (refreshRepositoryBlocks lc ds pj now rid q d)) = db_organizations d"
  "db_repositories (snd (refreshRepositoryBlocks lc ds pj now rid q d)) = db_repositories d"
  "db_orgRedirects (snd (refreshRepositoryBlocks lc ds pj now rid q d)) = db_orgRedirects d"
  "db_repoRedirects (snd (refreshRepositoryBlocks lc ds pj now rid q d)) = db_repoRedirects d"
  by (simp_all add: refreshRepositoryBlocks_def Let_def split: option.splits)

lemma find_repo_None: "find_repo d oid name = None \<longleftrightarrow> (\<forall>r \<in> set (db_repositories d). \<not> (repo_organizationId r = oid \<and> repo_name r = name))"
  by (auto simp: find_repo_def find_None_iff)

lemma find_org_None: "find_org d slug = None \<longleftrightarrow> slug \<notin> org_slug ` set (db_organizations d)"
  by (auto simp: find_org_def find_None_iff)

lemma create_cases:
  obtains (refused) "snd (createRepository newId now a oid rawName description v d) = d"
  | (created) row where "find_repo d oid (js_trim rawName) = None" "repo_id row = newId" "repo_organizationId row = oid" "repo_name row = js_trim rawName"
      "db_repositories (snd (createRepository newId now a oid rawName description v d)) = db_repositories d @ [row]"
      "db_organizations (snd (createRepository newId now a oid rawName description v d)) = db_organizations d"
      "db_orgRedirects (snd (createRepository newId now a oid rawName description v d)) = db_orgRedirects d"
proof (cases "fst (createRepository newId now a oid rawName description v d)")
  case (Inl p)
  then show ?thesis
    by (intro refused) (auto simp: createRepository_def Let_def split: if_splits option.splits)
next
  case (Inr h)
  then show ?thesis
    by (intro created) (auto simp: createRepository_def Let_def split: if_splits option.splits)
qed

lemma inv_create_repo:
  assumes "paths_inv d" and "newId \<notin> repo_id ` set (db_repositories d)"
  shows "paths_inv (snd (createRepository newId now a oid name description v d))"
proof (cases rule: create_cases [of newId now a oid name description v d])
  case refused
  then show ?thesis using assms by simp
next
  case (created row)
  then show ?thesis using assms by (auto simp: paths_inv_def paths_ok_def find_repo_None)
qed

lemma paths_ok_same_keys:
  assumes "paths_ok orgs repos moved" and "\<And>r. repo_id (f r) = repo_id r" "\<And>r. repo_organizationId (f r) = repo_organizationId r" "\<And>r. repo_name (f r) = repo_name r"
  shows "paths_ok orgs (map f repos) moved"
  using assms by (simp add: paths_ok_def comp_def)

lemma paths_ok_filter: "paths_ok orgs repos moved \<Longrightarrow> paths_ok orgs (filter P repos) moved"
  by (simp add: paths_ok_def distinct_map_filter)

lemma inv_update_repo: "paths_inv d \<Longrightarrow> paths_inv (snd (updateRepository now a rid description v d))"
  by (auto simp: updateRepository_def paths_inv_def split: option.splits if_splits intro!: paths_ok_same_keys)

lemma inv_delete_repo: "paths_inv d \<Longrightarrow> paths_inv (deleteRepository a rid confirmName d)"
  by (auto simp: deleteRepository_def drop_repository_def paths_inv_def paths_ok_filter split: option.splits)

lemma inv_delete_tag: "paths_inv d \<Longrightarrow> paths_inv (deleteTagRow a rid tagName d)"
  by (auto simp: deleteTagRow_def paths_inv_def split: option.splits)

text \<open>Giving the one repository with an id a path that is free keeps paths unique.\<close>

lemma paths_ok_rehome:
  assumes "paths_ok orgs repos moved"
    and "\<And>r. repo_id (u r) = repo_id r"
    and "\<And>r. r \<in> set repos \<Longrightarrow> repo_id r = rid \<Longrightarrow> (repo_organizationId (u r), repo_name (u r)) \<notin> (\<lambda>r. (repo_organizationId r, repo_name r)) ` set repos"
  shows "paths_ok orgs (map (\<lambda>r. if repo_id r = rid then u r else r) repos) moved"
proof -
  have "map repo_id (map (\<lambda>r. if repo_id r = rid then u r else r) repos) = map repo_id repos" using assms(2) by auto
  moreover have "distinct (map (\<lambda>r. (repo_organizationId r, repo_name r)) (map (\<lambda>r. if repo_id r = rid then u r else r) repos))"
    using assms(1) by (intro distinct_set_key) (auto simp: paths_ok_def dest: assms(3))
  ultimately show ?thesis using assms(1) by (simp only: paths_ok_def)
qed


lemma rename_cases:
  obtains (refused) p where "renameRepository newId now host a rid rawName d = (Inl p, d)"
  | (renamed) repo org where "repo_by_id d rid = Some repo" "org_by_id d (repo_organizationId repo) = Some org"
      "has_role d a (org_id org) MANAGER_ROLES" "js_trim rawName \<noteq> repo_name repo" "find_repo d (org_id org) (js_trim rawName) = None"
      "renameRepository newId now host a rid rawName d =
         (Inr (repoHref (org_slug org) (js_trim rawName), imageReference host (Some (org_slug org)) (js_trim rawName) None),
          addRepositoryRedirect newId now (org_slug org) (repo_name repo) rid (Some (act_userId a))
            (clearRepositoryRedirects (org_id org) (org_slug org) (js_trim rawName) (set_repo_name now rid (js_trim rawName) d)))"
proof -
  have "case renameRepository newId now host a rid rawName d of
      (Inl p, d') \<Rightarrow> d' = d
    | (Inr h, d') \<Rightarrow> \<exists>repo org. repo_by_id d rid = Some repo \<and> org_by_id d (repo_organizationId repo) = Some org \<and>
        has_role d a (org_id org) MANAGER_ROLES \<and> js_trim rawName \<noteq> repo_name repo \<and> find_repo d (org_id org) (js_trim rawName) = None \<and>
        h = (repoHref (org_slug org) (js_trim rawName), imageReference host (Some (org_slug org)) (js_trim rawName) None) \<and>
        d' = addRepositoryRedirect newId now (org_slug org) (repo_name repo) rid (Some (act_userId a))
          (clearRepositoryRedirects (org_id org) (org_slug org) (js_trim rawName) (set_repo_name now rid (js_trim rawName) d))"
    unfolding renameRepository_def Let_def
    by (auto split: option.split dest!: repo_by_idD org_by_idD)
  then show ?thesis by (auto split: prod.splits sum.splits intro: refused renamed)
qed

lemma inv_rename: 
  assumes "paths_inv d"
  shows "paths_inv (snd (renameRepository newId now host a rid name d))"
proof (cases rule: rename_cases [of newId now host a rid name d])
  case refused
  then show ?thesis using assms by simp
next
  case (renamed repo org)
  have org: "org_id org = repo_organizationId repo" using org_by_idD [OF renamed(2)] by simp
  have "r = repo" if "r \<in> set (db_repositories d)" "repo_id r = rid" for r
    using assms repo_by_idD [OF renamed(1)] that by (auto simp: paths_inv_def paths_ok_def distinct_map dest: inj_onD)
  then show ?thesis
    using renamed assms org
    by (auto simp: paths_inv_def set_repo_name_def find_repo_None intro!: paths_ok_rehome)
qed

lemma rename_org_cases:
  obtains (refused) p where "renameOrganization auth_error now a oid rawSlug d = (Inl p, d)"
  | (renamed) org slug where "slug = js_lower (js_trim rawSlug)" "org_by_id d oid = Some org" "getOrgRole d a oid = Some ''owner''"
      "slug \<noteq> org_slug org" "find_org d slug = None"
      "renameOrganization auth_error now a oid rawSlug d =
         (Inr (''/'' @ slug @ ''/settings/danger''),
          addOrganizationRedirect now (org_slug org) oid (Some (act_userId a)) (clearOrganizationRedirect slug (set_org_slug oid slug d)))"
proof -
  let ?slug = "js_lower (js_trim rawSlug)"
  have "case renameOrganization auth_error now a oid rawSlug d of
      (Inl p, d') \<Rightarrow> d' = d
    | (Inr h, d') \<Rightarrow> \<exists>org. org_by_id d oid = Some org \<and> getOrgRole d a oid = Some ''owner'' \<and> ?slug \<noteq> org_slug org \<and> find_org d ?slug = None \<and>
        h = ''/'' @ ?slug @ ''/settings/danger'' \<and>
        d' = addOrganizationRedirect now (org_slug org) oid (Some (act_userId a)) (clearOrganizationRedirect ?slug (set_org_slug oid ?slug d))"
    unfolding renameOrganization_def Let_def
    by (auto split: option.split dest!: org_by_idD)
  then show ?thesis by (auto split: prod.splits sum.splits intro: refused renamed)
qed

lemma set_add_org_redirect:
  "or_oldSlug ` set (db_orgRedirects (addOrganizationRedirect now slug oid by d)) = insert slug (or_oldSlug ` set (db_orgRedirects d))"
proof -
  have "map or_oldSlug (map (\<lambda>r. if or_oldSlug r = slug then r\<lparr>or_organizationId := oid, or_createdBy := by, or_createdAt := now\<rparr> else r) rs) =
      map or_oldSlug rs" for rs by simp
  from arg_cong [OF this, of set] show ?thesis
    by (auto simp: addOrganizationRedirect_def list_ex_iff simp del: map_map)
qed

lemma set_org_slug_slugs:
  assumes "distinct (map org_id orgs)" and "org \<in> set orgs" and "org_id org = oid"
  shows "org_slug ` set (map (\<lambda>g. if org_id g = oid then g\<lparr>org_slug := slug\<rparr> else g) orgs) = insert slug (org_slug ` {g \<in> set orgs. g \<noteq> org})"
proof -
  have "org_id g = oid \<longleftrightarrow> g = org" if "g \<in> set orgs" for g using assms that by (auto simp: distinct_map dest: inj_onD)
  then show ?thesis using assms(2,3) by (auto simp: image_iff)
qed

lemma inv_rename_org:
  assumes "paths_inv d"
  shows "paths_inv (snd (renameOrganization auth_error now a oid slug d))"
proof (cases rule: rename_org_cases [of auth_error now a oid slug d])
  case refused
  then show ?thesis using assms by simp
next
  case (renamed org new)
  let ?orgs = "map (\<lambda>g. if org_id g = oid then g\<lparr>org_slug := new\<rparr> else g) (db_organizations d)"
  note org = org_by_idD [OF renamed(2)]
  have inv: "distinct (map org_id (db_organizations d))" "distinct (map org_slug (db_organizations d))"
    "or_oldSlug ` set (db_orgRedirects d) \<inter> org_slug ` set (db_organizations d) = {}"
    using assms by (simp_all add: paths_inv_def paths_ok_def)
  have "map org_id ?orgs = map org_id (db_organizations d)" by simp
  moreover have "distinct (map org_slug ?orgs)"
    using inv renamed(5) by (intro distinct_set_key) (auto simp: find_org_None)
  moreover have free: "org_slug org \<notin> org_slug ` {g \<in> set (db_organizations d). g \<noteq> org}"
    using inv(2) org by (auto simp: distinct_map dest: inj_onD)
  have "insert (org_slug org) (or_oldSlug ` set (db_orgRedirects d) - {new}) \<inter> org_slug ` set ?orgs = {}"
    using inv(3) renamed(4) free unfolding set_org_slug_slugs [OF inv(1) conjunct1 [OF org] conjunct2 [OF org]] by blast
  moreover have "or_oldSlug ` set (filter (\<lambda>r. or_oldSlug r \<noteq> new) (db_orgRedirects d)) = or_oldSlug ` set (db_orgRedirects d) - {new}" by auto
  ultimately show ?thesis
    using assms renamed(6)
    by (simp add: paths_inv_def paths_ok_def set_add_org_redirect clearOrganizationRedirect_def set_org_slug_def del: map_map set_map)
      (simp add: addOrganizationRedirect_def del: map_map set_map)
qed


lemma plan_ok:
  assumes "mp_problem (planRepositoryMove d rid oid a batch) = None"
  shows "\<exists>repo source target. repo_by_id d rid = Some repo \<and> org_by_id d (repo_organizationId repo) = Some source \<and> org_by_id d oid = Some target \<and>
    source \<noteq> target \<and> org_id source \<noteq> oid \<and> manages d (repo_organizationId repo) a \<and> manages d oid a \<and> \<not> isProxyOrg d (org_id source) \<and> \<not> isProxyOrg d oid \<and>
    find_repo d oid (repo_name repo) = None \<and>
    mp_repositoryId (planRepositoryMove d rid oid a batch) = rid \<and> mp_repositoryName (planRepositoryMove d rid oid a batch) = repo_name repo \<and>
    mp_source (planRepositoryMove d rid oid a batch) = Some source \<and> mp_target (planRepositoryMove d rid oid a batch) = Some target"
proof -
  have "case planRepositoryMove d rid oid a batch of plan \<Rightarrow> mp_problem plan = None \<longrightarrow>
    (\<exists>repo source target. repo_by_id d rid = Some repo \<and> org_by_id d (repo_organizationId repo) = Some source \<and> org_by_id d oid = Some target \<and>
      source \<noteq> target \<and> org_id source \<noteq> oid \<and> manages d (repo_organizationId repo) a \<and> manages d oid a \<and> \<not> isProxyOrg d (org_id source) \<and> \<not> isProxyOrg d oid \<and>
      find_repo d oid (repo_name repo) = None \<and> mp_repositoryId plan = rid \<and> mp_repositoryName plan = repo_name repo \<and>
      mp_source plan = Some source \<and> mp_target plan = Some target)"
    unfolding planRepositoryMove_def Let_def fail_plan_def
    by (auto split: option.split dest!: repo_by_idD dest: org_by_idD)
  with assms show ?thesis by simp
qed

definition moved_db :: "string \<Rightarrow> millis \<Rightarrow> actor \<Rightarrow> repository \<Rightarrow> organization \<Rightarrow> organization \<Rightarrow> db \<Rightarrow> db" where
  \<comment> \<open>what the transaction commits\<close>
  "moved_db newId now a repo source target d =
     addRepositoryRedirect newId now (org_slug source) (repo_name repo) (repo_id repo) (Some (act_userId a))
       (clearRepositoryRedirects (org_id target) (org_slug target) (repo_name repo) (move_rows now (repo_id repo) (org_id target) d))"

lemma move_cases:
  obtains (refused) "moveRepositoryToOrganization lc ds pj newId now host rid oid a d = ((planRepositoryMove d rid oid a None, None), d)"
      "mp_problem (planRepositoryMove d rid oid a None) \<noteq> None"
  | (moved) repo source target where "repo_by_id d rid = Some repo" "org_by_id d (repo_organizationId repo) = Some source" "org_by_id d oid = Some target"
      "org_id source \<noteq> oid" "manages d (repo_organizationId repo) a" "manages d oid a" "\<not> isProxyOrg d (org_id source)" "\<not> isProxyOrg d oid"
      "find_repo d oid (repo_name repo) = None"
      "moveRepositoryToOrganization lc ds pj newId now host rid oid a d =
         ((planRepositoryMove d rid oid a None,
           Some (repoHref (org_slug target) (repo_name repo), imageReference host (Some (org_slug target)) (repo_name repo) None)),
          snd (refreshRepositoryBlocks lc ds pj now rid False (moved_db newId now a repo source target d)))"
proof (cases "mp_problem (planRepositoryMove d rid oid a None)")
  case None
  from plan_ok [OF this] obtain repo source target where
    ok: "repo_by_id d rid = Some repo" "org_by_id d (repo_organizationId repo) = Some source" "org_by_id d oid = Some target"
      "org_id source \<noteq> oid" "manages d (repo_organizationId repo) a" "manages d oid a" "\<not> isProxyOrg d (org_id source)" "\<not> isProxyOrg d oid"
      "find_repo d oid (repo_name repo) = None"
    and plan: "mp_repositoryId (planRepositoryMove d rid oid a None) = rid" "mp_repositoryName (planRepositoryMove d rid oid a None) = repo_name repo"
      "mp_source (planRepositoryMove d rid oid a None) = Some source" "mp_target (planRepositoryMove d rid oid a None) = Some target" by blast
  show ?thesis
    using repo_by_idD [OF ok(1)]
    by (intro moved [OF ok]) (simp add: moveRepositoryToOrganization_def Let_def None plan moved_db_def)
next
  case (Some p)
  then show ?thesis by (intro refused) (simp_all add: moveRepositoryToOrganization_def Let_def)
qed

lemma moved_db_tables [simp]:
  "db_organizations (moved_db newId now a repo source target d) = db_organizations d"
  "db_orgRedirects (moved_db newId now a repo source target d) = db_orgRedirects d"
  "db_repositories (moved_db newId now a repo source target d) =
     map (\<lambda>r. if repo_id r = repo_id repo then r\<lparr>repo_organizationId := org_id target, repo_updatedAt := now\<rparr> else r) (db_repositories d)"
  by (simp_all add: moved_db_def move_rows_def)

lemma repo_by_id_unique:
  assumes "paths_inv d" and "repo_by_id d rid = Some repo" and "r \<in> set (db_repositories d)" and "repo_id r = rid"
  shows "r = repo"
  using assms repo_by_idD [OF assms(2)] by (auto simp: paths_inv_def paths_ok_def distinct_map dest: inj_onD)

lemma inv_move:
  assumes "paths_inv d"
  shows "paths_inv (snd (moveRepositoryToOrganization lc ds pj newId now host rid oid a d))"
proof (cases rule: move_cases [of lc ds pj newId now host rid oid a d])
  case refused
  then show ?thesis using assms by simp
next
  case (moved repo source target)
  let ?u = "\<lambda>r. r\<lparr>repo_organizationId := org_id target, repo_updatedAt := now\<rparr>"
  have "org_id target = oid" and rid: "repo_id repo = rid" using org_by_idD [OF moved(3)] repo_by_idD [OF moved(1)] by simp_all
  then have free: "(repo_organizationId (?u r), repo_name (?u r)) \<notin> (\<lambda>r. (repo_organizationId r, repo_name r)) ` set (db_repositories d)"
    if "r \<in> set (db_repositories d)" "repo_id r = rid" for r
    using moved(9) repo_by_id_unique [OF assms moved(1) that] by (auto simp: find_repo_None)
  show ?thesis
    using assms paths_ok_rehome [of "db_organizations d" "db_repositories d" "db_orgRedirects d" ?u rid] free
    by (simp add: moved(10) rid paths_inv_def)
qed

lemma repo_step_inv: "repo_step d d' \<Longrightarrow> paths_inv d \<Longrightarrow> paths_inv d'"
  by (induction rule: repo_step.induct)
    (simp_all add: inv_create_repo inv_update_repo inv_delete_repo inv_delete_tag inv_rename inv_rename_org inv_move)

interpretation repo_runs: step_invariant repo_step paths_inv
  by unfold_locales (rule repo_step_inv)


section \<open>Former paths\<close>

lemma lookups_cong:
  assumes "db_organizations e = db_organizations d" and "db_repositories e = db_repositories d"
  shows "find_org e = find_org d" "find_repo e = find_repo d" "org_by_id e = org_by_id d" "repo_by_id e = repo_by_id d" "targetById e = targetById d"
  using assms by (simp_all add: fun_eq_iff find_org_def find_repo_def org_by_id_def repo_by_id_def targetById_def cong: option.case_cong)

lemma first_target_cong: "targetById e = targetById d \<Longrightarrow> first_target e = first_target d"
proof (intro ext)
  fix rows slugs assume "targetById e = targetById d"
  then show "first_target e rows slugs = first_target d rows slugs" by (induction slugs) (simp_all split: option.splits)
qed

lemma resolve_cong:
  assumes "db_organizations e = db_organizations d" "db_repositories e = db_repositories d"
    "db_orgRedirects e = db_orgRedirects d" "db_repoRedirects e = db_repoRedirects d"
  shows "resolveRepositoryRedirect e = resolveRepositoryRedirect d"
proof -
  note look = lookups_cong [OF assms(1,2)]
  have "resolveOrganizationRedirect e = resolveOrganizationRedirect d" "former_slugs e = former_slugs d"
    by (simp_all add: fun_eq_iff resolveOrganizationRedirect_def former_slugs_def look assms(3) cong: option.case_cong)
  moreover from this have "redirect_slugs e = redirect_slugs d" by (simp add: fun_eq_iff redirect_slugs_def Let_def)
  ultimately have same: "resolveOrganizationRedirect e = resolveOrganizationRedirect d" "redirect_slugs e = redirect_slugs d" by simp_all
  show ?thesis
    by (intro ext) (unfold resolveRepositoryRedirect_def look first_target_cong [OF look(5)] same assms(3,4), rule refl)
qed

lemma find_set_hit: "(\<And>r. hit (u r) = hit r) \<Longrightarrow> find hit (map (\<lambda>r. if hit r then u r else r) xs) = map_option u (find hit xs)"
  by (induction xs) auto

lemma resolve_added:
  assumes "find_org d slug = Some g" and "find_repo d (org_id g) name = None" and "targetById d rid = Some t"
  shows "resolveRepositoryRedirect (addRepositoryRedirect newId now slug name rid c d) slug name = Some t"
proof -
  let ?e = "addRepositoryRedirect newId now slug name rid c d"
  let ?hit = "\<lambda>r. rr_organizationSlug r = slug \<and> rr_repositoryName r = name"
  let ?u = "\<lambda>r. r\<lparr>rr_repositoryId := rid, rr_createdBy := c, rr_createdAt := now\<rparr>"
  have "\<exists>row. find ?hit (db_repoRedirects ?e) = Some row \<and> rr_repositoryId row = rid"
  proof (cases "find ?hit (db_repoRedirects d)")
    case None
    then have "\<not> list_ex ?hit (db_repoRedirects d)" by (auto simp: find_None_iff list_ex_iff)
    then show ?thesis using None by (simp add: addRepositoryRedirect_def Let_def find_append)
  next
    case (Some row)
    then have "list_ex ?hit (db_repoRedirects d)" by (auto simp: list_ex_iff dest: find_SomeD)
    then show ?thesis using Some find_set_hit [of ?hit ?u "db_repoRedirects d"] by (simp add: addRepositoryRedirect_def Let_def)
  qed
  then obtain row where row: "find ?hit (db_repoRedirects ?e) = Some row" "rr_repositoryId row = rid" by blast
  note same = lookups_cong [of ?e d, OF redirect_tables(1) redirect_tables(2)]
  show ?thesis by (rule resolve_recorded [OF _ _ row(1)]) (use assms row(2) in \<open>simp_all add: same\<close>)
qed

lemma find_org_by_id:
  assumes "paths_inv d" and "org_by_id d oid = Some g"
  shows "find_org d (org_slug g) = Some g"
  using assms org_by_idD [OF assms(2)] find_by_key [of org_slug "db_organizations d" g] by (simp add: find_org_def paths_inv_def paths_ok_def)

lemma find_repo_unique:
  assumes "paths_inv d" and "r \<in> set (db_repositories d)"
  shows "find_repo d (repo_organizationId r) (repo_name r) = Some r" and "repo_by_id d (repo_id r) = Some r"
  using assms find_by_key [of "\<lambda>r. (repo_organizationId r, repo_name r)" "db_repositories d" r] find_by_key [of repo_id "db_repositories d" r]
  by (simp_all add: find_repo_def repo_by_id_def paths_inv_def paths_ok_def)

lemma path_freed:
  assumes "paths_inv d" and "repo_by_id d rid = Some repo"
    and "db_repositories e = map (\<lambda>r. if repo_id r = rid then u r else r) (db_repositories d)"
    and "(repo_organizationId (u repo), repo_name (u repo)) \<noteq> (repo_organizationId repo, repo_name repo)"
  shows "find_repo e (repo_organizationId repo) (repo_name repo) = None" and "u repo \<in> set (db_repositories e)"
proof -
  have same: "r = repo \<longleftrightarrow> repo_id r = rid" if "r \<in> set (db_repositories d)" for r
    using repo_by_id_unique [OF assms(1,2) that] repo_by_idD [OF assms(2)] by auto
  have "r = repo" if "r \<in> set (db_repositories d)" "repo_organizationId r = repo_organizationId repo" "repo_name r = repo_name repo" for r
    using that repo_by_idD [OF assms(2)] assms(1) by (auto simp: paths_inv_def paths_ok_def distinct_map dest: inj_onD)
  then show "find_repo e (repo_organizationId repo) (repo_name repo) = None"
    using assms(4) same by (auto simp: find_repo_None assms(3) split: if_splits)
  show "u repo \<in> set (db_repositories e)" using repo_by_idD [OF assms(2)] by (auto simp: assms(3))
qed

text \<open>
  A repository with a new path, and a redirect recorded at its old one: the new path is live, and the
  old one leads there.
\<close>

lemma rehomed:
  assumes inv: "paths_inv d" and r: "r \<in> set (db_repositories d)" and g: "org_by_id d (repo_organizationId r) = Some g"
    and old: "find_org d slug = Some g0" "find_repo d (org_id g0) name = None"
  shows "find_repo d (org_id g) (repo_name r) = Some r"
    and "resolveRepositoryRedirect (addRepositoryRedirect newId now slug name (repo_id r) c d) (org_slug g) (repo_name r) = None"
    and "resolveRepositoryRedirect (addRepositoryRedirect newId now slug name (repo_id r) c d) slug name =
      Some \<lparr>rt_repositoryId = repo_id r, rt_orgSlug = org_slug g, rt_repoName = repo_name r, rt_organizationId = org_id g, rt_visibility = repo_visibility r\<rparr>"
proof -
  let ?e = "addRepositoryRedirect newId now slug name (repo_id r) c d"
  note same = lookups_cong [of ?e d, OF redirect_tables(1) redirect_tables(2)]
  have id: "org_id g = repo_organizationId r" using org_by_idD [OF g] by simp
  show live: "find_repo d (org_id g) (repo_name r) = Some r" using find_repo_unique(1) [OF inv r] id by simp
  show "resolveRepositoryRedirect ?e (org_slug g) (repo_name r) = None"
    by (rule resolve_found [of _ _ g _ r]) (simp_all add: same find_org_by_id [OF inv g] live)
  show "resolveRepositoryRedirect ?e slug name =
      Some \<lparr>rt_repositoryId = repo_id r, rt_orgSlug = org_slug g, rt_repoName = repo_name r, rt_organizationId = org_id g, rt_visibility = repo_visibility r\<rparr>"
    by (rule resolve_added [OF old]) (simp add: targetById_def find_repo_unique(2) [OF inv r] g id)
qed


lemma org_redirect_row:
  "find (\<lambda>r. or_oldSlug r = slug) (db_orgRedirects (addOrganizationRedirect now slug oid c d)) = Some row \<Longrightarrow> or_organizationId row = oid"
  "find (\<lambda>r. or_oldSlug r = slug) (db_orgRedirects (addOrganizationRedirect now slug oid c d)) \<noteq> None"
  by (auto simp: addOrganizationRedirect_def list_ex_iff find_append find_None_iff find_set_hit split: if_splits option.splits dest!: find_SomeD)

section \<open>Properties\<close>

definition example_owner :: actor where
  "example_owner = \<lparr>act_userId = ''u'', act_isAdmin = False\<rparr>"

definition example_team_db :: db where
  "example_team_db = empty_db\<lparr>db_repositories := [example_repo],
     db_organizations := [example_org, example_org\<lparr>org_id := ''p'', org_name := ''Beta'', org_slug := ''beta''\<rparr>],
     db_members := [example_member\<lparr>mem_role := ''owner''\<rparr>, example_member\<lparr>mem_organizationId := ''p'', mem_role := ''owner''\<rparr>],
     db_grants := [example_grant\<lparr>gr_subjectId := ''guest''\<rparr>]\<rparr>"

lemma example_team_inv: "paths_inv example_team_db"
  unfolding paths_inv_def paths_ok_def by code_simp

text \<open>
  C23. Creating, changing, renaming, moving and deleting repositories and renaming organizations, in any
  order, never make two rows answer to one name: ids, organization slugs and repository paths stay
  unique, and no slug in use redirects to another organization.
\<close>

theorem paths_stay_unique:
  assumes "repo_step\<^sup>*\<^sup>* d d'" and "paths_inv d"
  shows "paths_inv d'"
  using assms by (rule repo_runs.along_run)

theorem paths_stay_unique_witness:
  "let d' = snd (renameRepository ''x'' 5 ''host'' example_owner ''r'' ''web'' example_team_db)
   in d' \<noteq> example_team_db \<and> paths_inv d'"
proof -
  let ?d = "snd (renameRepository ''x'' 5 ''host'' example_owner ''r'' ''web'' example_team_db)"
  have "map repo_name (db_repositories ?d) = [''web'']" "map repo_name (db_repositories example_team_db) = [''app'']" by code_simp+
  moreover have "repo_step\<^sup>*\<^sup>* example_team_db ?d" by (rule r_into_rtranclp) (rule RRename)
  ultimately show ?thesis using paths_stay_unique [OF _ example_team_inv, of ?d] by (auto simp: Let_def)
qed

text \<open>
  A renamed repository answers under its new name, and its old name, pull reference and page, leads to it.
\<close>

theorem rename_keeps_old_path:
  assumes "paths_inv d" and "renameRepository newId now host a rid rawName d = (Inr h, d')"
  shows "\<exists>repo g. repo_by_id d rid = Some repo \<and> org_by_id d (repo_organizationId repo) = Some g \<and> has_role d a (org_id g) MANAGER_ROLES \<and>
    map_option repo_id (find_repo d' (org_id g) (js_trim rawName)) = Some rid \<and>
    resolveRepositoryRedirect d' (org_slug g) (js_trim rawName) = None \<and>
    map_option (\<lambda>t. (rt_repositoryId t, rt_orgSlug t, rt_repoName t)) (resolveRepositoryRedirect d' (org_slug g) (repo_name repo)) =
      Some (rid, org_slug g, js_trim rawName)"
proof (cases rule: rename_cases [of newId now host a rid rawName d])
  case refused
  then show ?thesis using assms(2) by simp
next
  case (renamed repo g)
  let ?new = "js_trim rawName"
  let ?d1 = "clearRepositoryRedirects (org_id g) (org_slug g) ?new (set_repo_name now rid ?new d)"
  let ?r = "repo\<lparr>repo_name := ?new, repo_updatedAt := now\<rparr>"
  have d': "d' = addRepositoryRedirect newId now (org_slug g) (repo_name repo) rid (Some (act_userId a)) ?d1"
    using renamed(6) assms(2) by simp
  have "paths_inv d'" using inv_rename [OF assms(1), of newId now host a rid rawName] assms(2) by simp
  then have inv: "paths_inv ?d1" by (simp add: d' paths_inv_def)
  note repo = repo_by_idD [OF renamed(1)] and org = org_by_idD [OF renamed(2)]
  have repos: "db_repositories ?d1 = map (\<lambda>r. if repo_id r = rid then r\<lparr>repo_name := ?new, repo_updatedAt := now\<rparr> else r) (db_repositories d)"
    by (simp add: set_repo_name_def)
  have r: "?r \<in> set (db_repositories ?d1)" and gone: "find_repo ?d1 (org_id g) (repo_name repo) = None"
    using path_freed [OF assms(1) renamed(1) repos] renamed(4) org by simp_all
  have orgs: "org_by_id ?d1 = org_by_id d" "find_org ?d1 = find_org d"
    by (simp_all add: fun_eq_iff org_by_id_def find_org_def set_repo_name_def)
  have g: "org_by_id ?d1 (repo_organizationId ?r) = Some g" and old: "find_org ?d1 (org_slug g) = Some g"
    by (simp_all add: orgs renamed(2) find_org_by_id [OF assms(1) renamed(2)])
  show ?thesis
    using rehomed [OF inv r g old gone] renamed(1,2,3) repo lookups_cong(2) [of d' ?d1] by (simp add: d')
qed

theorem rename_keeps_old_path_witness:
  "\<exists>h d'. renameRepository ''x'' 5 ''host'' example_owner ''r'' ''web'' example_team_db = (Inr h, d') \<and>
     map_option rt_repoName (resolveRepositoryRedirect d' ''acme'' ''app'') = Some ''web''"
proof -
  let ?p = "renameRepository ''x'' 5 ''host'' example_owner ''r'' ''web'' example_team_db"
  have "fst ?p = Inr (''/acme/web'', ''host/acme/web'')" by code_simp
  then have run: "?p = (Inr (''/acme/web'', ''host/acme/web''), snd ?p)" by (metis prod.collapse)
  have "repo_by_id example_team_db ''r'' = Some example_repo" "org_by_id example_team_db ''o'' = Some example_org"
    "repo_organizationId example_repo = ''o''" "org_slug example_org = ''acme''" "repo_name example_repo = ''app''" "js_trim ''web'' = ''web''" by code_simp+
  then have "map_option rt_repoName (resolveRepositoryRedirect (snd ?p) ''acme'' ''app'') = Some ''web''"
    using rename_keeps_old_path [OF example_team_inv run] by auto
  with run show ?thesis by blast
qed

text \<open>
  C25. A move to another organization happens only for somebody who manages both organizations, between
  two that are not proxy caches; afterwards the repository answers under the new organization, and its old path
  leads there. When anything stands in the way nothing at all is written.
\<close>

theorem move_safe:
  assumes "paths_inv d" and "moveRepositoryToOrganization lc ds pj newId now host rid oid a d = ((plan, href), d')"
  shows "if mp_problem plan \<noteq> None then href = None \<and> d' = d
    else \<exists>repo source target. repo_by_id d rid = Some repo \<and> org_by_id d (repo_organizationId repo) = Some source \<and> org_by_id d oid = Some target \<and>
      manages d (org_id source) a \<and> manages d oid a \<and> \<not> isProxyOrg d (org_id source) \<and> \<not> isProxyOrg d oid \<and>
      map_option repo_id (find_repo d' oid (repo_name repo)) = Some rid \<and>
      resolveRepositoryRedirect d' (org_slug target) (repo_name repo) = None \<and>
      map_option (\<lambda>t. (rt_repositoryId t, rt_orgSlug t, rt_repoName t)) (resolveRepositoryRedirect d' (org_slug source) (repo_name repo)) =
        Some (rid, org_slug target, repo_name repo)"
proof (cases rule: move_cases [of lc ds pj newId now host rid oid a d])
  case refused
  then show ?thesis using assms(2) by simp
next
  case (moved repo source target)
  let ?d2 = "moved_db newId now a repo source target d"
  let ?d1 = "clearRepositoryRedirects (org_id target) (org_slug target) (repo_name repo) (move_rows now (repo_id repo) (org_id target) d)"
  let ?r = "repo\<lparr>repo_organizationId := org_id target, repo_updatedAt := now\<rparr>"
  have plan: "plan = planRepositoryMove d rid oid a None" "href \<noteq> None" and d': "d' = snd (refreshRepositoryBlocks lc ds pj now rid False ?d2)"
    using moved(10) assms(2) by simp_all
  have "mp_problem plan = None"
    using plan assms(2) by (cases "mp_problem plan") (simp_all add: moveRepositoryToOrganization_def Let_def)
  note repo = repo_by_idD [OF moved(1)] and source = org_by_idD [OF moved(2)] and target = org_by_idD [OF moved(3)]
  have repos: "db_repositories ?d1 = map (\<lambda>r. if repo_id r = rid then r\<lparr>repo_organizationId := org_id target, repo_updatedAt := now\<rparr> else r) (db_repositories d)"
    using repo by (simp add: move_rows_def)
  have "paths_inv d'" using inv_move [OF assms(1), of lc ds pj newId now host rid oid a] assms(2) by simp
  then have inv: "paths_inv ?d1" using repos repo by (simp add: d' paths_inv_def move_rows_def)
  have r: "?r \<in> set (db_repositories ?d1)" and gone: "find_repo ?d1 (org_id source) (repo_name repo) = None"
    using path_freed [OF assms(1) moved(1) repos] moved(4) source target by simp_all
  have orgs: "org_by_id ?d1 = org_by_id d" "find_org ?d1 = find_org d"
    by (simp_all add: fun_eq_iff org_by_id_def find_org_def move_rows_def)
  have g: "org_by_id ?d1 (repo_organizationId ?r) = Some target" and old: "find_org ?d1 (org_slug source) = Some source"
    unfolding orgs using target moved(3) find_org_by_id [OF assms(1) moved(2)] by simp_all
  have same: "resolveRepositoryRedirect d' = resolveRepositoryRedirect ?d2" "find_repo d' = find_repo ?d1"
    by (rule resolve_cong, simp_all add: d') (rule lookups_cong(2), simp_all add: repo move_rows_def)
  show ?thesis
    using rehomed(1) [OF inv r g old gone] rehomed(2,3) [OF inv r g old gone, of newId now "Some (act_userId a)"] moved(1-8) \<open>mp_problem plan = None\<close> repo source target
    by (simp add: same moved_db_def)
qed

theorem move_safe_witness:
  "\<exists>plan h d'. moveRepositoryToOrganization (\<lambda>_ _. 0) example_decode (\<lambda>_. None) ''x'' 5 ''host'' ''r'' ''p'' example_owner example_team_db = ((plan, Some h), d') \<and>
     map_option rt_orgSlug (resolveRepositoryRedirect d' ''acme'' ''app'') = Some ''beta''"
proof -
  let ?m = "moveRepositoryToOrganization (\<lambda>_ _. 0) example_decode (\<lambda>_. None) ''x'' 5 ''host'' ''r'' ''p'' example_owner example_team_db"
  have ok: "mp_problem (fst (fst ?m)) = None" "snd (fst ?m) = Some (''/beta/app'', ''host/beta/app'')" by code_simp+
  have run: "?m = ((fst (fst ?m), Some (''/beta/app'', ''host/beta/app'')), snd ?m)" using ok(2) by (metis prod.collapse)
  have "repo_by_id example_team_db ''r'' = Some example_repo" "org_by_id example_team_db ''o'' = Some example_org"
    "map_option org_slug (org_by_id example_team_db ''p'') = Some ''beta''"
    "repo_organizationId example_repo = ''o''" "org_slug example_org = ''acme''" "repo_name example_repo = ''app''" by code_simp+
  then have "map_option rt_orgSlug (resolveRepositoryRedirect (snd ?m) ''acme'' ''app'') = Some ''beta''"
    using move_safe [OF example_team_inv run] ok(1) by auto
  with run show ?thesis by blast
qed

lemma move_leaves_grants:
  \<comment> \<open>a grant to somebody outside the new organization survives the move\<close>
  "access_inv (example_team_db\<lparr>db_members := example_member\<lparr>mem_userId := ''guest''\<rparr> # db_members example_team_db\<rparr>) \<and>
   \<not> access_inv (snd (moveRepositoryToOrganization (\<lambda>_ _. 0) example_decode (\<lambda>_. None) ''x'' 5 ''host'' ''r'' ''p'' example_owner
       (example_team_db\<lparr>db_members := example_member\<lparr>mem_userId := ''guest''\<rparr> # db_members example_team_db\<rparr>)))"
  unfolding access_inv_def by code_simp

text \<open>
  After an organization took a new slug, the slug names it, and each of its repositories is
  still found under the old slug.
\<close>

theorem renamed_organization_redirects:
  assumes "paths_inv d" and "renameOrganization auth_error now a oid rawSlug d = (Inr h, d')"
    and "r \<in> set (db_repositories d)" and "repo_organizationId r = oid"
  shows "\<exists>org. org_by_id d oid = Some org \<and> getOrgRole d a oid = Some ''owner'' \<and>
    map_option org_id (find_org d' (js_lower (js_trim rawSlug))) = Some oid \<and>
    map_option (\<lambda>t. (rt_repositoryId t, rt_orgSlug t, rt_repoName t)) (resolveRepositoryRedirect d' (org_slug org) (repo_name r)) =
      Some (repo_id r, js_lower (js_trim rawSlug), repo_name r)"
proof (cases rule: rename_org_cases [of auth_error now a oid rawSlug d])
  case refused
  then show ?thesis using assms(2) by simp
next
  case (renamed org slug)
  let ?g = "org\<lparr>org_slug := slug\<rparr>"
  let ?d1 = "clearOrganizationRedirect slug (set_org_slug oid slug d)"
  have d': "d' = addOrganizationRedirect now (org_slug org) oid (Some (act_userId a)) ?d1" using renamed(6) assms(2) by simp
  have inv: "paths_inv d'" using inv_rename_org [OF assms(1), of auth_error now a oid rawSlug] assms(2) by simp
  note org = org_by_idD [OF renamed(2)]
  have orgs: "db_organizations d' = map (\<lambda>g. if org_id g = oid then g\<lparr>org_slug := slug\<rparr> else g) (db_organizations d)"
    and repos: "db_repositories d' = db_repositories d"
    by (simp_all add: d' addOrganizationRedirect_def clearOrganizationRedirect_def set_org_slug_def)
  have g: "?g \<in> set (db_organizations d')" "org_id ?g = oid" using org by (auto simp: orgs)
  have byid: "org_by_id d' oid = Some ?g"
    using find_by_key [OF _ g(1), of org_id] g(2) inv by (simp add: org_by_id_def paths_inv_def paths_ok_def)
  have new: "find_org d' slug = Some ?g" using find_org_by_id [OF inv byid] by simp
  have "or_oldSlug ` set (db_orgRedirects d') \<inter> org_slug ` set (db_organizations d') = {}" using inv by (simp add: paths_inv_def paths_ok_def)
  moreover have "org_slug org \<in> or_oldSlug ` set (db_orgRedirects d')" by (simp add: d' set_add_org_redirect)
  ultimately have none: "find_org d' (org_slug org) = None" by (auto simp: find_org_None)
  have "resolveOrganizationRedirect d' (org_slug org) = Some (oid, slug)"
    using byid g(2) org_redirect_row [of "org_slug org" now oid "Some (act_userId a)" ?d1]
    by (auto simp: resolveOrganizationRedirect_def d' [symmetric] split: option.splits)
  from resolve_moved_org [OF none this] have "resolveRepositoryRedirect d' (org_slug org) (repo_name r) = targetById d' (repo_id r)"
    using find_repo_unique(1) [OF inv, of r] assms(3,4) by (simp add: repos)
  moreover have "targetById d' (repo_id r) = Some \<lparr>rt_repositoryId = repo_id r, rt_orgSlug = slug, rt_repoName = repo_name r, rt_organizationId = oid, rt_visibility = repo_visibility r\<rparr>"
    using find_repo_unique(2) [OF inv, of r] assms(3,4) byid by (simp add: targetById_def repos)
  ultimately show ?thesis using renamed(1-3) new org by simp
qed

theorem renamed_organization_redirects_witness:
  "\<exists>h d'. renameOrganization None 5 example_owner ''o'' ''Newco'' example_team_db = (Inr h, d') \<and>
     map_option rt_orgSlug (resolveRepositoryRedirect d' ''acme'' ''app'') = Some ''newco''"
proof -
  let ?p = "renameOrganization None 5 example_owner ''o'' ''Newco'' example_team_db"
  have "fst ?p = Inr ''/newco/settings/danger''" by code_simp
  then have run: "?p = (Inr ''/newco/settings/danger'', snd ?p)" by (metis prod.collapse)
  have "example_repo \<in> set (db_repositories example_team_db)" by (simp add: example_team_db_def)
  moreover have "repo_organizationId example_repo = ''o''" "org_by_id example_team_db ''o'' = Some example_org"
    "org_slug example_org = ''acme''" "repo_name example_repo = ''app''" "js_lower (js_trim ''Newco'') = ''newco''" by code_simp+
  ultimately have "map_option rt_orgSlug (resolveRepositoryRedirect (snd ?p) ''acme'' ''app'') = Some ''newco''"
    using renamed_organization_redirects [OF example_team_inv run, of example_repo] by auto
  with run show ?thesis by blast
qed

end
