(* ===== verification/Token_Policy.thy ===== *)
theory Token_Policy
  imports Access
begin

text \<open>
  The life of access tokens and service-account credentials: expiry dates under the instance
  policy (\<open>web/src/lib/token-policy-shared.ts\<close>) and the resolution of a secret to its owner
  (\<open>credential-auth.ts\<close>). A JavaScript \<open>Date\<close> is \<open>Some\<close> of its time value or, for the Invalid Date,
  \<open>None\<close>, which every comparison answers with false; \<open>new Date(t)\<close> is invalid outside
  \<plusminus>8.64e15 milliseconds (\<open>time_clip\<close>). The parser of date strings depends on the time zone
  of the server and is the argument \<open>parse_date\<close>; the digest of a secret is the argument
  \<open>hashSecret\<close>.
\<close>

section \<open>Expiry dates\<close>

record token_expiry_policy =
  maxTokenLifetimeDays :: int
  requireTokenExpiry :: bool

type_synonym js_date = "millis option"

definition time_clip :: "int \<Rightarrow> js_date" where
  "time_clip t = (if \<bar>t\<bar> \<le> 8640000000000000 then Some t else None)"

definition EXPIRY_PRESET_DAYS :: "int list" where "EXPIRY_PRESET_DAYS = [7, 30, 90, 365]"

definition NEVER :: string where "NEVER = ''never''"

definition CUSTOM :: string where "CUSTOM = ''custom''"

definition TOKEN_DAY_MS :: int where "TOKEN_DAY_MS = 24 * 3600 * 1000"

definition presetLabel :: "int \<Rightarrow> string" where
  "presetLabel days = (if days = 365 then ''1 year'' else show_int days @ '' days'')"

record expiry_option =
  eo_value :: string
  eo_label :: string
  eo_description :: "string option"

definition expiry_cap :: "token_expiry_policy \<Rightarrow> int option" where
  \<comment> \<open>\<open>None\<close> is \<open>Infinity\<close>\<close>
  "expiry_cap policy = (if 0 < maxTokenLifetimeDays policy then Some (maxTokenLifetimeDays policy) else None)"

definition within_cap :: "int \<Rightarrow> int option \<Rightarrow> bool" where
  "within_cap d cap = (case cap of None \<Rightarrow> True | Some c \<Rightarrow> d \<le> c)"

definition expiryOptions :: "token_expiry_policy \<Rightarrow> expiry_option list" where
  "expiryOptions policy =
     (let cap = expiry_cap policy;
          presets = map (\<lambda>d. \<lparr>eo_value = show_int d, eo_label = presetLabel d, eo_description = None\<rparr>)
                      (filter (\<lambda>d. within_cap d cap) EXPIRY_PRESET_DAYS);
          own = (case cap of
              None \<Rightarrow> []
            | Some c \<Rightarrow> if c \<in> set EXPIRY_PRESET_DAYS then []
                else [\<lparr>eo_value = show_int c, eo_label = presetLabel c, eo_description = Some ''Instance maximum''\<rparr>]);
          custom = [\<lparr>eo_value = CUSTOM, eo_label = ''Custom date'', eo_description = None\<rparr>];
          never = (if requireTokenExpiry policy then []
                   else [\<lparr>eo_value = NEVER, eo_label = ''Never'', eo_description = None\<rparr>])
      in presets @ own @ custom @ never)"

definition defaultExpiryChoice :: "token_expiry_policy \<Rightarrow> string" where
  "defaultExpiryChoice policy =
     (let options = filter (\<lambda>o'. eo_value o' \<noteq> CUSTOM \<and> eo_value o' \<noteq> NEVER) (expiryOptions policy)
      in case find (\<lambda>o'. eo_value o' = ''90'') options of
           Some ninety \<Rightarrow> eo_value ninety
         | None \<Rightarrow> if options \<noteq> [] then eo_value (last options) else CUSTOM)"

definition upper_first :: "string \<Rightarrow> string" where
  \<comment> \<open>\<open>s.charAt(0).toUpperCase() + s.slice(1)\<close>, for ASCII letters\<close>
  "upper_first s = (case s of [] \<Rightarrow> []
     | c # t \<Rightarrow> (if is_lower_alpha c then char_of (of_char c - 32 :: nat) else c) # t)"

definition describeExpiryPolicy :: "token_expiry_policy \<Rightarrow> string" where
  "describeExpiryPolicy policy =
     (let parts = (if 0 < maxTokenLifetimeDays policy
                   then [''at most '' @ show_int (maxTokenLifetimeDays policy) @ '' days''] else []) @
                  (if requireTokenExpiry policy then [''an expiry date is required''] else [])
      in if parts = [] then [] else upper_first (join_with '' and '' parts) @ ''.'')"

definition bare_date :: "string \<Rightarrow> bool" where
  \<comment> \<open>\<open>^\d{4}-\d{2}-\d{2}$\<close>\<close>
  "bare_date s \<longleftrightarrow> length s = 10 \<and> s ! 4 = CHR ''-'' \<and> s ! 7 = CHR ''-'' \<and>
     list_all is_digit (take 4 s @ take 2 (drop 5 s) @ drop 8 s)"

definition choose_date ::
  "(string \<Rightarrow> js_date) \<Rightarrow> string \<Rightarrow> string \<Rightarrow> millis \<Rightarrow> string + js_date" where
  \<comment> \<open>the date a choice other than never stands for\<close>
  "choose_date parse_date c customDate now =
     (if c = CUSTOM then
        (let raw = js_trim customDate in
         if raw = [] then Inl ''Pick an expiry date.''
         else (case parse_date (if bare_date raw then raw @ ''T23:59:59'' else raw) of
                 None \<Rightarrow> Inl ''The expiry date is not valid.''
               | Some t \<Rightarrow> Inr (Some t)))
      else (case num_integer (Number_of c) of
              None \<Rightarrow> Inl ''The expiry is not valid.''
            | Some days \<Rightarrow> if days \<le> 0 then Inl ''The expiry is not valid.''
                           else Inr (time_clip (now + days * TOKEN_DAY_MS))))"

definition resolveExpiry ::
  "(string \<Rightarrow> js_date) \<Rightarrow> string \<Rightarrow> string \<Rightarrow> token_expiry_policy \<Rightarrow> millis \<Rightarrow> string + js_date option" where
  \<comment> \<open>\<open>Inr None\<close> is no expiry, \<open>Inr (Some d)\<close> the date \<open>d\<close>\<close>
  "resolveExpiry parse_date choice customDate policy now =
     (let cap = expiry_cap policy; c = js_lower (js_trim choice) in
      if c = [] \<or> c = NEVER then
        (if requireTokenExpiry policy then Inl ''Tokens on this instance must have an expiry date.'' else Inr None)
      else (case choose_date parse_date c customDate now of
          Inl e \<Rightarrow> Inl e
        | Inr None \<Rightarrow> Inr (Some None)
        | Inr (Some t) \<Rightarrow>
            if t \<le> now then Inl ''The expiry date must be in the future.''
            else (case cap of
                Some m \<Rightarrow> if m * TOKEN_DAY_MS + 60000 < t - now
                    then Inl (''Tokens on this instance may live at most '' @ show_int (maxTokenLifetimeDays policy) @ '' days.'')
                    else Inr (Some (Some t))
              | None \<Rightarrow> Inr (Some (Some t)))))"

definition replacementExpiry ::
  "(string \<Rightarrow> js_date) \<Rightarrow> millis \<Rightarrow> millis option \<Rightarrow> token_expiry_policy \<Rightarrow> millis \<Rightarrow> string + js_date option" where
  "replacementExpiry parse_date createdAt expiresAt policy now =
     (let capDays = expiry_cap policy in
      case expiresAt of
        None \<Rightarrow> if \<not> requireTokenExpiry policy then Inr None
                else resolveExpiry parse_date (show_int (nullish capDays 365)) [] policy now
      | Some e \<Rightarrow>
          (let lifetimeDays = max 1 (round_div (e - createdAt) 86400000);
               days = (case capDays of Some c \<Rightarrow> min lifetimeDays c | None \<Rightarrow> lifetimeDays)
           in resolveExpiry parse_date (show_int days) [] policy now))"

datatype expiry_state = ExpNever | ExpExpired int | ExpExpiring int | ExpActive int

definition expiryState :: "millis option \<Rightarrow> millis \<Rightarrow> int \<Rightarrow> expiry_state" where
  "expiryState expiresAt now warnDays = (case expiresAt of
       None \<Rightarrow> ExpNever
     | Some at \<Rightarrow>
         (let diff = at - now in
          if diff \<le> 0 then ExpExpired ((- diff) div TOKEN_DAY_MS)
          else (let daysLeft = ceil_div diff TOKEN_DAY_MS in
                if daysLeft \<le> warnDays then ExpExpiring daysLeft else ExpActive daysLeft)))"

definition describeExpiry :: "millis option \<Rightarrow> millis \<Rightarrow> string" where
  "describeExpiry expiresAt now =
     (let left = (\<lambda>daysLeft. if daysLeft = 1 then ''expires in 1 day'' else ''expires in '' @ show_int daysLeft @ '' days'')
      in case expiryState expiresAt now 7 of
           ExpNever \<Rightarrow> ''never expires''
         | ExpExpired daysAgo \<Rightarrow> if daysAgo = 0 then ''expired today''
             else ''expired '' @ show_int daysAgo @ '' day'' @ (if daysAgo = 1 then [] else ''s'') @ '' ago''
         | ExpExpiring daysLeft \<Rightarrow> left daysLeft
         | ExpActive daysLeft \<Rightarrow> left daysLeft)"

definition isExpired :: "millis option \<Rightarrow> millis \<Rightarrow> bool" where
  "isExpired expiresAt now = (case expiresAt of None \<Rightarrow> False | Some t \<Rightarrow> t \<le> now)"

definition describeRestriction :: "char list \<Rightarrow> string option \<Rightarrow> string list option \<Rightarrow> string" where
  \<comment> \<open>the separator, a middle dot between spaces, is the first argument\<close>
  "describeRestriction dot orgName repoNames =
     (if \<not> truthy orgName then ''any organization''
      else (case repoNames of
          None \<Rightarrow> the orgName
        | Some ns \<Rightarrow> if ns = [] then the orgName
            else if length ns \<le> 3 then the orgName @ dot @ join_with '', '' ns
            else the orgName @ dot @ show_nat (length ns) @ '' repositories''))"

section \<open>Credentials\<close>

definition TOUCH_INTERVAL :: millis where "TOUCH_INTERVAL = 5 * 60 * 1000"

definition stale :: "millis \<Rightarrow> millis option \<Rightarrow> bool" where
  \<comment> \<open>\<open>last_used_at IS NULL OR last_used_at < now() - interval\<close>\<close>
  "stale now lastUsedAt = (case lastUsedAt of None \<Rightarrow> True | Some t \<Rightarrow> t < now - TOUCH_INTERVAL)"

definition touchAccessToken :: "millis \<Rightarrow> string \<Rightarrow> string option \<Rightarrow> db \<Rightarrow> db" where
  "touchAccessToken now tid ip d = d\<lparr>db_accessTokens := map (\<lambda>p.
     if pat_id p = tid \<and> stale now (pat_lastUsedAt p)
     then p\<lparr>pat_lastUsedAt := Some now, pat_lastUsedIp := map_option (take 64) ip\<rparr> else p) (db_accessTokens d)\<rparr>"

definition touchServiceAccount :: "millis \<Rightarrow> string \<Rightarrow> string option \<Rightarrow> db \<Rightarrow> db" where
  "touchServiceAccount now sid ip d = d\<lparr>db_serviceAccounts := map (\<lambda>s.
     if sa_id s = sid \<and> stale now (sa_lastUsedAt s)
     then s\<lparr>sa_lastUsedAt := Some now, sa_lastUsedIp := map_option (take 64) ip\<rparr> else s) (db_serviceAccounts d)\<rparr>"

definition findServiceAccountByHash :: "db \<Rightarrow> string \<Rightarrow> service_account option" where
  "findServiceAccountByHash d h = find (\<lambda>s. sa_tokenHash s = h) (db_serviceAccounts d)"

definition identifyAccessToken ::
  "(string \<Rightarrow> string) \<Rightarrow> millis \<Rightarrow> string \<Rightarrow> string option \<Rightarrow> db \<Rightarrow> (string + caller \<times> access_token \<times> user) \<times> db" where
  "identifyAccessToken hashSecret now secret ip d =
     (case find (\<lambda>p. pat_tokenHash p = hashSecret secret) (db_accessTokens d) of
        None \<Rightarrow> (Inl ''unknown access token'', d)
      | Some pat \<Rightarrow>
        if isExpired (pat_expiresAt pat) now then (Inl ''access token expired'', d)
        else (case find (\<lambda>u. u_id u = pat_userId pat) (db_users d) of
            None \<Rightarrow> (Inl ''account unavailable'', d)
          | Some u \<Rightarrow>
            if u_banned u = Some True then (Inl ''account unavailable'', d)
            else (Inr (CallerUser (u_id u) (u_role u = Some ''admin'') (Some (pat_scope pat))
                         (normalizeRestriction (pat_organizationId pat) (pat_repositoryIds pat)), pat, u),
                  touchAccessToken now (pat_id pat) ip d)))"

definition identifyServiceAccount ::
  "(string \<Rightarrow> string) \<Rightarrow> millis \<Rightarrow> string \<Rightarrow> string option \<Rightarrow> db \<Rightarrow> (string + caller) \<times> db" where
  "identifyServiceAccount hashSecret now secret ip d =
     (case findServiceAccountByHash d (hashSecret secret) of
        None \<Rightarrow> (Inl ''unknown service account credential'', d)
      | Some sa \<Rightarrow>
        if isExpired (sa_expiresAt sa) now then (Inl ''service account credential expired'', d)
        else (Inr (CallerSa (sa_id sa) (sa_organizationId sa) (sa_permission sa) (sa_repositoryIds sa)),
              touchServiceAccount now (sa_id sa) ip d))"

definition expires_between :: "millis \<Rightarrow> millis \<Rightarrow> millis option \<Rightarrow> bool" where
  "expires_between a b e = (case e of None \<Rightarrow> False | Some t \<Rightarrow> a < t \<and> t \<le> b)"

definition expiringCredentials :: "db \<Rightarrow> int \<Rightarrow> millis \<Rightarrow> access_token list \<times> service_account list" where
  "expiringCredentials d days now =
     (let until = now + days * 24 * 3600 * 1000
      in (filter (\<lambda>p. expires_between now until (pat_expiresAt p)) (db_accessTokens d),
          filter (\<lambda>s. expires_between now until (sa_expiresAt s)) (db_serviceAccounts d)))"

record credential_counts =
  cc_expiringSoon :: nat
  cc_neverExpiring :: nat
  cc_expired :: nat

definition count_credentials :: "millis option list \<Rightarrow> millis \<Rightarrow> credential_counts" where
  \<comment> \<open>the three counts of one table\<close>
  "count_credentials es now =
     \<lparr>cc_expiringSoon = length (filter (expires_between now (now + 7 * 24 * 3600 * 1000)) es),
      cc_neverExpiring = length (filter (\<lambda>e. e = None) es),
      cc_expired = length (filter (\<lambda>e. case e of None \<Rightarrow> False | Some t \<Rightarrow> t < now) es)\<rparr>"

definition credentialStats :: "db \<Rightarrow> millis \<Rightarrow> credential_counts \<times> credential_counts \<times> credential_counts" where
  \<comment> \<open>the totals, then the counts of tokens and of service accounts\<close>
  "credentialStats d now =
     (let t = count_credentials (map pat_expiresAt (db_accessTokens d)) now;
          s = count_credentials (map sa_expiresAt (db_serviceAccounts d)) now
      in (\<lparr>cc_expiringSoon = cc_expiringSoon t + cc_expiringSoon s,
           cc_neverExpiring = cc_neverExpiring t + cc_neverExpiring s,
           cc_expired = cc_expired t + cc_expired s\<rparr>, t, s))"

section \<open>Choices of whole days\<close>

lemma js_lower_digits: "list_all is_digit s \<Longrightarrow> js_lower s = s"
  by (induction s) (simp_all add: js_lower_def lower_char_def is_digit_def Let_def)

lemma digits_not_word: "list_all is_digit s \<Longrightarrow> s \<noteq> CUSTOM \<and> s \<noteq> NEVER"
  by (auto simp: CUSTOM_def NEVER_def is_digit_def)

lemma show_int_pos: "0 < n \<Longrightarrow> show_int n = show_nat (nat n)"
  by (simp add: show_int_def)

lemma TOKEN_DAY_MS_pos: "0 < TOKEN_DAY_MS"
  by (simp add: TOKEN_DAY_MS_def)

lemma resolve_days:
  assumes "0 < n"
  shows "resolveExpiry parse_date (show_int n) customDate policy now =
    (case time_clip (now + n * TOKEN_DAY_MS) of
       None \<Rightarrow> Inr (Some None)
     | Some t \<Rightarrow> (case expiry_cap policy of
           Some m \<Rightarrow> if m * TOKEN_DAY_MS + 60000 < n * TOKEN_DAY_MS
             then Inl (''Tokens on this instance may live at most '' @ show_int (maxTokenLifetimeDays policy) @ '' days.'')
             else Inr (Some (Some t))
         | None \<Rightarrow> Inr (Some (Some t))))"
proof -
  have digits: "list_all is_digit (show_nat (nat n))" by (rule show_nat_digits)
  have c: "js_lower (js_trim (show_int n)) = show_nat (nat n)"
    by (simp add: show_int_pos assms js_trim_digits [OF digits] js_lower_digits [OF digits])
  have choose: "choose_date parse_date (show_nat (nat n)) customDate now = Inr (time_clip (now + n * TOKEN_DAY_MS))"
    using assms digits_not_word [OF digits] by (simp add: choose_date_def Number_of_show_nat)
  have "t = now + n * TOKEN_DAY_MS" if "time_clip (now + n * TOKEN_DAY_MS) = Some t" for t
    using that by (simp add: time_clip_def split: if_splits)
  moreover have "0 < n * TOKEN_DAY_MS" using assms TOKEN_DAY_MS_pos by simp
  ultimately show ?thesis using digits_not_word [OF digits]
    by (auto simp: resolveExpiry_def c choose Let_def split: option.splits)
qed

lemma resolve_days_ok:
  assumes "0 < n" and "within_cap n (expiry_cap policy)" and "\<bar>now + n * TOKEN_DAY_MS\<bar> \<le> 8640000000000000"
  shows "resolveExpiry parse_date (show_int n) customDate policy now = Inr (Some (Some (now + n * TOKEN_DAY_MS)))"
proof -
  have "\<not> m * TOKEN_DAY_MS + 60000 < n * TOKEN_DAY_MS" if "n \<le> m" for m
    using that mult_right_mono [of n m TOKEN_DAY_MS] TOKEN_DAY_MS_pos by linarith
  then show ?thesis using assms
    by (auto simp: resolve_days time_clip_def within_cap_def split: option.splits)
qed

lemma days_in_range:
  assumes "0 < n" and "n \<le> b" and "\<bar>now\<bar> + b * TOKEN_DAY_MS \<le> 8640000000000000"
  shows "\<bar>now + n * TOKEN_DAY_MS\<bar> \<le> 8640000000000000"
proof -
  have "n * TOKEN_DAY_MS \<le> b * TOKEN_DAY_MS" using assms(2) TOKEN_DAY_MS_pos by (intro mult_right_mono) auto
  moreover have "0 < n * TOKEN_DAY_MS" using assms(1) TOKEN_DAY_MS_pos by simp
  ultimately show ?thesis using assms(3) by linarith
qed

section \<open>Properties\<close>



text \<open>
  The form never offers what the server refuses: every entry of the expiry menu other than
  the custom date, the instance maximum and \<open>never\<close> included, and the entry that is
  preselected, resolves to a date that is exactly that many days away, or to no expiry. (The
  hypothesis says that the maximum of the policy stays within the range of dates.)
\<close>

theorem offered_expiry_accepted:
  assumes "o' \<in> set (expiryOptions policy)" and "eo_value o' \<noteq> CUSTOM"
    and "\<bar>now\<bar> + max 365 (maxTokenLifetimeDays policy) * TOKEN_DAY_MS \<le> 8640000000000000"
  shows "(\<exists>n. eo_value o' = show_int n \<and> 0 < n \<and>
      resolveExpiry parse_date (eo_value o') customDate policy now = Inr (Some (Some (now + n * TOKEN_DAY_MS)))) \<or>
    (eo_value o' = NEVER \<and> resolveExpiry parse_date (eo_value o') customDate policy now = Inr None)"
proof -
  have days: "resolveExpiry parse_date (show_int n) customDate policy now = Inr (Some (Some (now + n * TOKEN_DAY_MS)))"
    if n: "0 < n" "within_cap n (expiry_cap policy)" "n \<le> max 365 (maxTokenLifetimeDays policy)" for n
    using days_in_range [OF n(1,3) assms(3)] by (intro resolve_days_ok [OF n(1,2)])
  from assms(1) consider
      (preset) n where "n \<in> set EXPIRY_PRESET_DAYS" "within_cap n (expiry_cap policy)" "eo_value o' = show_int n"
    | (own) n where "expiry_cap policy = Some n" "eo_value o' = show_int n"
    | (custom) "eo_value o' = CUSTOM"
    | (never) "eo_value o' = NEVER" "\<not> requireTokenExpiry policy"
    by (cases "expiry_cap policy") (auto simp: expiryOptions_def Let_def split: if_splits)
  then show ?thesis
  proof cases
    case (preset n)
    then have "0 < n" "n \<le> 365" by (auto simp: EXPIRY_PRESET_DAYS_def)
    with preset show ?thesis using days [of n] by auto
  next
    case (own n)
    then have "0 < n" "n = maxTokenLifetimeDays policy" by (auto simp: expiry_cap_def split: if_splits)
    with own show ?thesis using days [of n] by (auto simp: within_cap_def)
  next
    case custom
    with assms(2) show ?thesis by simp
  next
    case never
    moreover have "js_lower (js_trim NEVER) = NEVER" by code_simp
    ultimately show ?thesis by (simp add: resolveExpiry_def)
  qed
qed

theorem offered_expiry_accepted_witness:
  "map eo_value (expiryOptions \<lparr>maxTokenLifetimeDays = 45, requireTokenExpiry = True\<rparr>) = [''7'', ''30'', ''45'', ''custom''] \<and>
   (\<exists>n. ''45'' = show_int n \<and> 0 < n \<and>
      resolveExpiry (\<lambda>_. None) ''45'' [] \<lparr>maxTokenLifetimeDays = 45, requireTokenExpiry = True\<rparr> 0 = Inr (Some (Some (0 + n * TOKEN_DAY_MS))))"
proof -
  let ?p = "\<lparr>maxTokenLifetimeDays = 45, requireTokenExpiry = True\<rparr>"
  have "expiryOptions ?p ! 2 \<in> set (expiryOptions ?p)" "eo_value (expiryOptions ?p ! 2) = ''45''"
    "map eo_value (expiryOptions ?p) = [''7'', ''30'', ''45'', ''custom'']" by code_simp+
  with offered_expiry_accepted [of "expiryOptions ?p ! 2" ?p 0 "\<lambda>_. None" "[]"] show ?thesis
    by (auto simp: CUSTOM_def NEVER_def TOKEN_DAY_MS_def)
qed

text \<open>
  Rotating a credential keeps its lifetime within the current policy. The rotation of a
  credential that expires never fails, and the new date is its original lifetime in whole days
  (at least one) counted from now, cut to the maximum of the policy; a credential without
  expiry keeps having none unless the policy requires one, when it gets the maximum, or a year.
\<close>

theorem replacementExpiry_lifetime:
  assumes days: "days = (let life = max 1 (round_div (e - createdAt) 86400000) in
      if 0 < maxTokenLifetimeDays policy then min life (maxTokenLifetimeDays policy) else life)"
    and range: "\<bar>now\<bar> + max days (max 365 (maxTokenLifetimeDays policy)) * TOKEN_DAY_MS \<le> 8640000000000000"
  shows "replacementExpiry parse_date createdAt (Some e) policy now = Inr (Some (Some (now + days * TOKEN_DAY_MS))) \<and>
    replacementExpiry parse_date createdAt None policy now =
      (if \<not> requireTokenExpiry policy then Inr None
       else Inr (Some (Some (now + (if 0 < maxTokenLifetimeDays policy then maxTokenLifetimeDays policy else 365) * TOKEN_DAY_MS))))"
proof -
  let ?B = "max days (max 365 (maxTokenLifetimeDays policy))"
  have date: "resolveExpiry parse_date (show_int n) [] policy now = Inr (Some (Some (now + n * TOKEN_DAY_MS)))"
    if n: "0 < n" "within_cap n (expiry_cap policy)" "n \<le> ?B" for n
    using days_in_range [OF n(1,3) range] by (intro resolve_days_ok [OF n(1,2)])
  have "0 < days" "within_cap days (expiry_cap policy)"
    using days by (auto simp: Let_def within_cap_def expiry_cap_def)
  then have "replacementExpiry parse_date createdAt (Some e) policy now = Inr (Some (Some (now + days * TOKEN_DAY_MS)))"
    using date [of days] days by (auto simp: replacementExpiry_def Let_def expiry_cap_def)
  moreover have "replacementExpiry parse_date createdAt None policy now = (if \<not> requireTokenExpiry policy then Inr None
       else Inr (Some (Some (now + (if 0 < maxTokenLifetimeDays policy then maxTokenLifetimeDays policy else 365) * TOKEN_DAY_MS))))"
    using date [of "maxTokenLifetimeDays policy"] date [of 365]
    by (simp add: replacementExpiry_def expiry_cap_def within_cap_def)
  ultimately show ?thesis by blast
qed

theorem replacementExpiry_lifetime_witness:
  "replacementExpiry (\<lambda>_. None) 0 (Some (100 * TOKEN_DAY_MS)) \<lparr>maxTokenLifetimeDays = 30, requireTokenExpiry = True\<rparr> (500 * TOKEN_DAY_MS)
     = Inr (Some (Some (500 * TOKEN_DAY_MS + 30 * TOKEN_DAY_MS)))"
  using replacementExpiry_lifetime [of 30 "100 * TOKEN_DAY_MS" 0 "\<lparr>maxTokenLifetimeDays = 30, requireTokenExpiry = True\<rparr>" "500 * TOKEN_DAY_MS"]
  by (simp add: TOKEN_DAY_MS_def round_div_def)

text \<open>
  A choice of very many days slips past the maximum lifetime. For every policy, also one that
  requires an expiry and caps the lifetime, a whole number of days beyond the range of dates is
  accepted, with the Invalid Date as its expiry: both comparisons with it are false.
\<close>

theorem resolveExpiry_invalid_date:
  assumes "8640000000000000 < now + n * TOKEN_DAY_MS" and "0 < n"
  shows "resolveExpiry parse_date (show_int n) customDate policy now = Inr (Some None)"
  using assms by (simp add: resolve_days time_clip_def)

theorem resolveExpiry_invalid_date_witness:
  "resolveExpiry (\<lambda>_. None) ''200000000'' [] \<lparr>maxTokenLifetimeDays = 30, requireTokenExpiry = True\<rparr> 0 = Inr (Some None)"
proof -
  have "show_int 200000000 = ''200000000''" by (simp add: show_int_def show_nat.simps digit_char_def) code_simp
  then show ?thesis
    using resolveExpiry_invalid_date [of 0 200000000 "\<lambda>_. None" "[]" "\<lparr>maxTokenLifetimeDays = 30, requireTokenExpiry = True\<rparr>"]
    by (simp add: TOKEN_DAY_MS_def)
qed

lemma allowed_cong:
  assumes "db_organizations d' = db_organizations d" "db_proxies d' = db_proxies d" "db_repositories d' = db_repositories d"
    "db_orgSettings d' = db_orgSettings d" "db_members d' = db_members d" "db_grants d' = db_grants d"
    "db_teamMembers d' = db_teamMembers d"
  shows "allowedRepositoryActions url_host d' = allowedRepositoryActions url_host d"
proof -
  have finds: "find_org d' = find_org d" "find_proxy d' = find_proxy d" "find_repo d' = find_repo d"
    by (simp_all add: fun_eq_iff find_org_def find_proxy_def find_repo_def assms)
  have visible: "repo_visibility_for d' = repo_visibility_for d"
    unfolding fun_eq_iff repo_visibility_for_def assms by simp
  have "grant_reaches d' = grant_reaches d" by (simp add: fun_eq_iff grant_reaches_def assms)
  then have granted: "grantedPermission d' = grantedPermission d" by (intro ext) (simp add: grantedPermission_def assms)
  have user: "user_actions d' = user_actions d" by (intro ext) (unfold user_actions_def assms granted, rule refl)
  have "caller_actions d' = caller_actions d" by (intro ext) (unfold caller_actions_def user, rule refl)
  then show ?thesis by (intro ext) (unfold allowedRepositoryActions_def finds visible, simp only:)
qed

lemma allowed_other_tables [simp]:
  "allowedRepositoryActions url_host (d\<lparr>db_accessTokens := ts\<rparr>) = allowedRepositoryActions url_host d"
  "allowedRepositoryActions url_host (d\<lparr>db_serviceAccounts := ss\<rparr>) = allowedRepositoryActions url_host d"
  "allowedRepositoryActions url_host (d\<lparr>db_loginAttempts := ls\<rparr>) = allowedRepositoryActions url_host d"
  by (rule allowed_cong; simp)+

lemma caller_actions_within_owner:
  "set (caller_actions d (CallerUser uid adm scope restriction) org repo vis)
     \<subseteq> set (caller_actions d (CallerUser uid adm None None) org repo vis)"
  by (auto simp: caller_actions_def Let_def)

lemma token_within_owner:
  "set (allowedRepositoryActions url_host d (CallerUser uid adm scope restriction) orgSlug repoName requested)
     \<subseteq> set (allowedRepositoryActions url_host d (CallerUser uid adm None None) orgSlug repoName requested)"
proof (cases "find_org d orgSlug")
  case (Some g)
  then show ?thesis using caller_actions_within_owner [of d uid adm scope restriction g]
    by (auto simp: allowedRepositoryActions_def Let_def subset_iff)
qed (simp add: allowedRepositoryActions_def)

definition example_user :: user where
  "example_user = \<lparr>u_id = ''u'', u_name = ''U'', u_email = ''u@x.y'', u_emailVerified = True, u_image = None, u_createdAt = 0,
     u_updatedAt = 0, u_twoFactorEnabled = None, u_role = Some ''user'', u_banned = None, u_banReason = None,
     u_banExpires = None\<rparr>"

definition example_token :: access_token where
  "example_token = \<lparr>pat_id = ''t'', pat_userId = ''u'', pat_name = ''ci'', pat_tokenHash = ''h'', pat_tokenPrefix = ''chc_pat_a'',
     pat_scope = ScopeRead, pat_createdAt = 0, pat_expiresAt = Some 100, pat_lastUsedAt = None, pat_lastUsedIp = None,
     pat_description = [], pat_organizationId = None, pat_repositoryIds = None\<rparr>"

definition example_token_db :: db where
  "example_token_db = example_access_db\<lparr>db_users := [example_user], db_accessTokens := [example_token]\<rparr>"

text \<open>
  A personal access token stands for its owner and never for more. A secret is accepted only
  as a stored token that has not expired and whose owner exists and is not banned; the caller it
  yields is that user, every action it is granted is one its owner would be granted without the
  token, and apart from the use recorded on the token nothing changes. A refusal changes nothing.
\<close>

theorem access_token_within_owner:
  "case identifyAccessToken hashSecret now secret ip d of
     (Inl e, d') \<Rightarrow> d' = d
   | (Inr (c, pat, u), d') \<Rightarrow>
       pat \<in> set (db_accessTokens d) \<and> pat_tokenHash pat = hashSecret secret \<and> \<not> isExpired (pat_expiresAt pat) now \<and>
       u \<in> set (db_users d) \<and> u_id u = pat_userId pat \<and> u_banned u \<noteq> Some True \<and>
       callerSubject c = ''user:'' @ u_id u \<and>
       set (allowedRepositoryActions url_host d' c orgSlug repoName requested) \<subseteq>
         set (allowedRepositoryActions url_host d (CallerUser (u_id u) (u_role u = Some ''admin'') None None) orgSlug repoName requested) \<and>
       (\<exists>ts. d' = d\<lparr>db_accessTokens := ts\<rparr> \<and> map pat_id ts = map pat_id (db_accessTokens d) \<and>
         map pat_tokenHash ts = map pat_tokenHash (db_accessTokens d) \<and> map pat_expiresAt ts = map pat_expiresAt (db_accessTokens d))"
proof (cases "find (\<lambda>p. pat_tokenHash p = hashSecret secret) (db_accessTokens d)")
  case None
  then show ?thesis by (simp add: identifyAccessToken_def)
next
  case (Some pat)
  show ?thesis
  proof (cases "isExpired (pat_expiresAt pat) now \<or> find (\<lambda>u. u_id u = pat_userId pat) (db_users d) = None")
    case True
    with Some show ?thesis by (auto simp: identifyAccessToken_def)
  next
    case False
    then obtain u where u: "find (\<lambda>u. u_id u = pat_userId pat) (db_users d) = Some u" "\<not> isExpired (pat_expiresAt pat) now" by auto
    show ?thesis
    proof (cases "u_banned u = Some True")
      case True
      with Some u show ?thesis by (simp add: identifyAccessToken_def)
    next
      case False
      then show ?thesis using Some u find_SomeD [OF Some] find_SomeD [OF u(1)] token_within_owner
        by (auto simp: identifyAccessToken_def touchAccessToken_def callerSubject_def comp_def intro!: exI)
    qed
  qed
qed

text \<open>
  A service-account credential is accepted only while it has not expired, and the caller it
  yields carries the organization, the permission and the repository list stored for it; a
  refusal changes nothing, and a success nothing but the recorded use.
\<close>

theorem service_account_identified:
  "case identifyServiceAccount hashSecret now secret ip d of
     (Inl e, d') \<Rightarrow> d' = d \<and> (findServiceAccountByHash d (hashSecret secret) = None \<or>
         (\<exists>s \<in> set (db_serviceAccounts d). sa_tokenHash s = hashSecret secret \<and> isExpired (sa_expiresAt s) now))
   | (Inr c, d') \<Rightarrow> (\<exists>s \<in> set (db_serviceAccounts d). sa_tokenHash s = hashSecret secret \<and> \<not> isExpired (sa_expiresAt s) now \<and>
       c = CallerSa (sa_id s) (sa_organizationId s) (sa_permission s) (sa_repositoryIds s) \<and>
       db_serviceAccounts d' = map (\<lambda>x. if sa_id x = sa_id s \<and> stale now (sa_lastUsedAt x)
         then x\<lparr>sa_lastUsedAt := Some now, sa_lastUsedIp := map_option (take 64) ip\<rparr> else x) (db_serviceAccounts d) \<and>
       d' = d\<lparr>db_serviceAccounts := db_serviceAccounts d'\<rparr>)"
proof (cases "find (\<lambda>s. sa_tokenHash s = hashSecret secret) (db_serviceAccounts d)")
  case None
  then show ?thesis by (simp add: identifyServiceAccount_def findServiceAccountByHash_def)
next
  case (Some s)
  then show ?thesis using find_SomeD [OF Some]
    by (auto simp: identifyServiceAccount_def findServiceAccountByHash_def touchServiceAccount_def)
qed

end
