(* ===== verification/Ci_Auth.thy ===== *)
theory Ci_Auth
  imports Repo_Actions Token_Policy
begin

text \<open>
  Keyless authentication of CI workflows (\<open>web/src/lib/ci-auth.ts\<close>, \<open>app/api/v1/auth/exchange/route.ts\<close>,
  \<open>app/actions/ci-identities.ts\<close>): an OIDC token that verifies and whose subject matches a trusted identity
  is exchanged for a short-lived credential of that identity. JSON web tokens are the arguments
  \<open>decode_iss\<close> (the issuer claim without verification), \<open>jwks_verify\<close> (verification against the issuer's keys),
  \<open>hmac_sign\<close> and \<open>hmac_verify\<close> (the registry's own tokens). The theorem: what an exchange hands
  out is the credential of one matching identity, valid for the time announced and for nothing more, and
  dead as soon as the identity is removed.
\<close>

section \<open>Identities\<close>

definition CI_TOKEN_DEFAULT_TTL :: int where "CI_TOKEN_DEFAULT_TTL = 30 * 60"

definition CI_TOKEN_MAX_TTL :: int where "CI_TOKEN_MAX_TTL = 60 * 60"

definition CI_AUDIENCE :: string where "CI_AUDIENCE = ''chicoree-ci''"

definition CI_PREFIX :: string where "CI_PREFIX = ''chc_ci_''"

definition strip_slash :: "string \<Rightarrow> string" where
  \<comment> \<open>\<open>s.replace(/\/$/, "")\<close>\<close>
  "strip_slash s = (if s \<noteq> [] \<and> last s = CHR ''/'' then butlast s else s)"

definition acceptedAudiences :: "(string \<Rightarrow> string option) \<Rightarrow> string \<Rightarrow> string \<Rightarrow> string list" where
  "acceptedAudiences url_host appUrl registryHost =
     (let app = strip_slash appUrl
      in uniq ([app, app @ ''/'', registryHost] @ (case url_host app of Some h \<Rightarrow> [h] | None \<Rightarrow> [])))"

record verified_oidc =
  vo_issuer :: string
  vo_subject :: string

definition verifyOidcToken ::
  "(string \<Rightarrow> string option option) \<Rightarrow> (string \<Rightarrow> string \<Rightarrow> string + string option) \<Rightarrow> string \<Rightarrow> db \<Rightarrow> string \<Rightarrow> string + verified_oidc" where
  \<comment> \<open>\<open>decode_iss\<close> is \<open>None\<close> when decoding throws; \<open>jwks_verify\<close> gives the message of what was thrown,
      or the subject claim\<close>
  "verifyOidcToken decode_iss jwks_verify appUrl d token =
     (case decode_iss token of
        None \<Rightarrow> Inl ''the token is not a JWT''
      | Some iss \<Rightarrow>
        if \<not> truthy iss \<or> \<not> is_http (the iss) then Inl ''the token has no issuer''
        else if \<not> list_ex (\<lambda>i. ci_issuer i = the iss) (db_ciIdentities d) then Inl (''no organization trusts the issuer '' @ the iss)
        else (case jwks_verify token (the iss) of
            Inl msg \<Rightarrow>
              if includes_str (js_lower msg) ''audience''
              then Inl (''the token'' @ [CHR 0x27] @ ''s audience is not this registry; request it with audience '' @ appUrl)
              else Inl (''the token did not verify: '' @ msg)
          | Inr sub \<Rightarrow> if \<not> truthy sub then Inl ''the token has no subject'' else Inr \<lparr>vo_issuer = the iss, vo_subject = the sub\<rparr>))"

definition plain_subject :: "string \<Rightarrow> string" where
  \<comment> \<open>the replacement of \<open>^repo:([^/:@]+)@\d+\/([^:@]+)@\d+:\<close> by \<open>repo:$1/$2:\<close>; each class excludes the
      character that follows it, so the longest runs are the only match\<close>
  "plain_subject subject =
     (let s0 = drop 5 subject;
          owner = takeWhile (\<lambda>c. c \<notin> set ''/:@'') s0; s1 = drop (length owner) s0;
          i1 = takeWhile is_digit (tl s1); s2 = drop (length i1) (tl s1);
          repo = takeWhile (\<lambda>c. c \<notin> set '':@'') (tl s2); s3 = drop (length repo) (tl s2);
          i2 = takeWhile is_digit (tl s3); s4 = drop (length i2) (tl s3)
      in if starts_with subject ''repo:'' \<and> owner \<noteq> [] \<and> starts_with s1 ''@'' \<and> i1 \<noteq> [] \<and> starts_with s2 ''/'' \<and>
            repo \<noteq> [] \<and> starts_with s3 ''@'' \<and> i2 \<noteq> [] \<and> starts_with s4 '':''
         then ''repo:'' @ owner @ ''/'' @ repo @ '':'' @ tl s4 else subject)"

definition subjectSpellings :: "string \<Rightarrow> string list" where
  "subjectSpellings subject = (let plain = plain_subject subject in if plain = subject then [subject] else [subject, plain])"

definition line_end :: "char \<Rightarrow> bool" where
  \<comment> \<open>what \<open>.\<close> does not match\<close>
  "line_end c \<longleftrightarrow> of_char c \<in> {10, 13 :: nat}"

fun parts_match :: "string list \<Rightarrow> string \<Rightarrow> bool" where
  \<comment> \<open>the regular expression \<open>^p1.*p2.* ... pn$\<close>\<close>
  "parts_match [] s = (s = [])"
| "parts_match [p] s = (s = p)"
| "parts_match (p # q # ps) s =
     (starts_with s p \<and>
      (let r = drop (length p) s in
       list_ex (\<lambda>n. list_all (\<lambda>c. \<not> line_end c) (take n r) \<and> parts_match (q # ps) (drop n r)) [0..<Suc (length r)]))"

definition subjectMatches :: "string \<Rightarrow> string \<Rightarrow> bool" where
  "subjectMatches pattern subject = parts_match (split_on (CHR ''*'') pattern) subject"

definition matchingIdentities :: "db \<Rightarrow> verified_oidc \<Rightarrow> string option \<Rightarrow> (ci_identity \<times> string) list" where
  \<comment> \<open>with the slug of the organization; oldest first\<close>
  "matchingIdentities d v organizationSlug =
     (let rows = js_sort (\<lambda>(a, _) (b, _). ci_createdAt a - ci_createdAt b)
            (concat (map (\<lambda>i. map (\<lambda>g. (i, org_slug g)) (filter (\<lambda>g. org_id g = ci_organizationId i) (db_organizations d)))
               (filter (\<lambda>i. ci_issuer i = vo_issuer v) (db_ciIdentities d))));
          wanted = filter (\<lambda>(i, slug). truthy organizationSlug \<longrightarrow> Some slug = organizationSlug) rows
      in filter (\<lambda>(i, slug). list_ex (subjectMatches (ci_subject i)) (subjectSpellings (vo_subject v))) wanted)"

section \<open>Minting and identifying\<close>

record ci_claims =
  cc_iss :: string
  cc_aud :: string
  cc_sub :: "string option"
  cc_os :: "string option"
  cc_iat :: int
  cc_exp :: int

definition mintCiToken ::
  "(ci_claims \<Rightarrow> string) \<Rightarrow> string \<Rightarrow> millis \<Rightarrow> ci_identity \<Rightarrow> string \<Rightarrow> int \<Rightarrow> db \<Rightarrow> (string \<times> millis \<times> int) \<times> db" where
  \<comment> \<open>token, end of validity, lifetime in seconds\<close>
  "mintCiToken hmac_sign tokenIssuer time identity oidcSubject ttlSeconds d =
     (let ttl = max 60 (min ttlSeconds CI_TOKEN_MAX_TTL);
          now = time div 1000;
          jwt = hmac_sign \<lparr>cc_iss = tokenIssuer, cc_aud = CI_AUDIENCE, cc_sub = Some (ci_id identity), cc_os = Some oidcSubject,
                  cc_iat = now, cc_exp = now + ttl\<rparr>
      in ((CI_PREFIX @ jwt, (now + ttl) * 1000, ttl),
          d\<lparr>db_ciIdentities := map (\<lambda>i. if ci_id i = ci_id identity
              then i\<lparr>ci_lastUsedAt := Some time, ci_lastSubject := Some (take 500 oidcSubject)\<rparr> else i) (db_ciIdentities d)\<rparr>))"

definition ci_caller :: "ci_identity \<Rightarrow> caller" where
  "ci_caller i = CallerSa (''ci:'' @ ci_id i) (ci_organizationId i) (ci_permission i) (ci_repositoryIds i)"

definition identifyCiToken ::
  "(string \<Rightarrow> string \<Rightarrow> string \<Rightarrow> int \<Rightarrow> string + ci_claims) \<Rightarrow> string \<Rightarrow> millis \<Rightarrow> string \<Rightarrow> db \<Rightarrow> string + caller \<times> ci_identity \<times> string \<times> string \<times> millis" where
  \<comment> \<open>caller, identity, slug of its organization, OIDC subject, end of validity\<close>
  "identifyCiToken hmac_verify tokenIssuer time secret d =
     (case hmac_verify (drop (length CI_PREFIX) secret) tokenIssuer CI_AUDIENCE (time div 1000) of
        Inl err \<Rightarrow> Inl (if includes_str (js_lower err) ''exp'' then ''CI token expired'' else ''invalid CI token'')
      | Inr payload \<Rightarrow>
        (case (if truthy (cc_sub payload)
               then concat (map (\<lambda>i. map (\<lambda>g. (i, org_slug g)) (filter (\<lambda>g. org_id g = ci_organizationId i) (db_organizations d)))
                      (filter (\<lambda>i. Some (ci_id i) = cc_sub payload) (db_ciIdentities d)))
               else []) of
           [] \<Rightarrow> Inl ''the CI identity behind this token no longer exists''
         | (identity, slug) # _ \<Rightarrow> Inr (ci_caller identity, identity, slug, nullish (cc_os payload) [], cc_exp payload * 1000)))"

section \<open>The exchange\<close>

datatype api_error = BadRequest string | Unauthorized string

definition exchange ::
  "(string \<Rightarrow> string option option) \<Rightarrow> (string \<Rightarrow> string \<Rightarrow> string + string option) \<Rightarrow> (ci_claims \<Rightarrow> string) \<Rightarrow> string \<Rightarrow> string \<Rightarrow>
     millis \<Rightarrow> string option \<Rightarrow> string option \<Rightarrow> js_num option \<Rightarrow> db \<Rightarrow> (api_error + (string \<times> millis \<times> int) \<times> ci_identity \<times> string) \<times> db" where
  \<comment> \<open>\<open>POST /api/v1/auth/exchange\<close>, from the fields of the body: what was minted, for which identity, and the verified subject\<close>
  "exchange decode_iss jwks_verify hmac_sign appUrl tokenIssuer time token organizationRaw ttlRaw d =
     (if \<not> truthy token then (Inl (BadRequest ''\"token\" is required: the OIDC token your CI system issued.''), d)
      else (let organization = (if truthy organizationRaw then organizationRaw else None) in
        case num_integer (nullish ttlRaw (Dec CI_TOKEN_DEFAULT_TTL 0)) of
          None \<Rightarrow> (Inl (BadRequest ''\"ttl\" must be a whole number of seconds between 60 and 3600.''), d)
        | Some ttl \<Rightarrow>
          if ttl < 60 \<or> CI_TOKEN_MAX_TTL < ttl
          then (Inl (BadRequest ''\"ttl\" must be a whole number of seconds between 60 and 3600.''), d)
          else (case verifyOidcToken decode_iss jwks_verify appUrl d (the token) of
              Inl e \<Rightarrow> (Inl (Unauthorized (''OIDC token refused: '' @ e @ ''.'')), d)
            | Inr v \<Rightarrow>
              (case matchingIdentities d v organization of
                 [] \<Rightarrow> (Inl (Unauthorized (''No trusted CI identity matches '' @ vo_subject v @ '' from '' @ vo_issuer v @
                         (case organization of Some slug \<Rightarrow> '' in '' @ slug | None \<Rightarrow> []) @ ''.'')), d)
               | matches \<Rightarrow>
                 (let orgs = uniq (map snd matches) in
                  if 1 < length orgs
                  then (Inl (BadRequest (''The subject matches identities in several organizations ('' @ join_with '', '' orgs @
                         ''); send \"organization\" to pick one.'')), d)
                  else (let identity = fst (hd matches) in
                    case mintCiToken hmac_sign tokenIssuer time identity (vo_subject v) ttl d of
                      (minted, d') \<Rightarrow> (Inr (minted, identity, vo_subject v), d')))))))"

section \<open>Managing identities\<close>

definition issuer_ok :: "string \<Rightarrow> bool" where
  \<comment> \<open>\<open>^https:\/\/[^\s/]+(\/[^\s]*)?$\<close>, or a prefix \<open>^http:\/\/(localhost|127\.0\.0\.1)\<close>; the optional port after
      it decides nothing\<close>
  "issuer_ok s \<longleftrightarrow>
     (let r = drop 8 s; host = takeWhile (\<lambda>c. \<not> js_ws c \<and> c \<noteq> CHR ''/'') r; rest = drop (length host) r
      in starts_with s ''https://'' \<and> host \<noteq> [] \<and> (rest = [] \<or> starts_with rest ''/'' \<and> list_all (\<lambda>c. \<not> js_ws c) rest)) \<or>
     starts_with s ''http://localhost'' \<or> starts_with s ''http://127.0.0.1''"

definition parse_permission :: "string \<Rightarrow> repo_permission option" where
  "parse_permission p = (if p = ''pull'' then Some PPull else if p = ''push'' then Some PPush else if p = ''admin'' then Some PAdmin else None)"

definition validateCiIdentity :: "string \<Rightarrow> string \<Rightarrow> string \<Rightarrow> string \<Rightarrow> string + string \<times> string \<times> string \<times> repo_permission" where
  "validateCiIdentity rawName rawIssuer rawSubject permission =
     (let name = js_trim rawName; issuer = strip_slash (js_trim rawIssuer); subject = js_trim rawSubject in
      if \<not> TEAM_SLUG_RE name \<or> 64 < length name
      then Inl ''Names use lowercase letters, digits and single ._- separators (up to 64 characters).''
      else if \<not> issuer_ok issuer then Inl ''The issuer must be an https URL, e.g. https://token.actions.githubusercontent.com.''
      else if subject = [] \<or> 500 < length subject then Inl ''Enter the subject the CI token carries (exact, or with * wildcards).''
      else if subject = ''*'' then Inl ''A subject of \"*\" would trust everyone at the issuer; be more specific.''
      else (case parse_permission permission of
          None \<Rightarrow> Inl ''Invalid permission.''
        | Some p \<Rightarrow> Inr (name, issuer, subject, p)))"

definition requireManager :: "db \<Rightarrow> actor \<Rightarrow> string \<Rightarrow> string option" where
  "requireManager d a organizationId =
     (if getOrgRole d a organizationId = Some ''owner'' \<or> getOrgRole d a organizationId = Some ''admin'' then None
      else Some ''Only organization owners and admins can manage CI identities.'')"

definition addCiIdentity ::
  "string \<Rightarrow> millis \<Rightarrow> actor \<Rightarrow> string \<Rightarrow> string \<Rightarrow> string \<Rightarrow> string \<Rightarrow> string \<Rightarrow> string \<Rightarrow> db \<Rightarrow> string option \<times> db" where
  "addCiIdentity newId now a organizationId rawName rawIssuer rawSubject permission rawRepositories d =
     (case requireManager d a organizationId of
        Some e \<Rightarrow> (Some e, d)
      | None \<Rightarrow>
        (case validateCiIdentity rawName rawIssuer rawSubject permission of
           Inl e \<Rightarrow> (Some e, d)
         | Inr (name, issuer, subject, p) \<Rightarrow>
           (let names = filter (\<lambda>s. s \<noteq> []) (map js_trim (split_runs (\<lambda>c. js_ws c \<or> c = CHR '','') rawRepositories));
                rows = filter (\<lambda>r. repo_organizationId r = organizationId \<and> repo_name r \<in> set names) (db_repositories d);
                missing = filter (\<lambda>n. \<not> list_ex (\<lambda>r. repo_name r = n) rows) names
            in if missing \<noteq> [] then (Some (''Unknown repositories: '' @ join_with '', '' missing @ ''.''), d)
               else if org_by_id d organizationId = None then (Some ''Unknown organization.'', d)
               else (None, d\<lparr>db_ciIdentities := db_ciIdentities d @
                 [\<lparr>ci_id = newId, ci_organizationId = organizationId, ci_name = name, ci_issuer = issuer, ci_subject = subject,
                   ci_permission = p, ci_repositoryIds = (if names = [] then None else Some (map repo_id rows)), ci_createdBy = Some (act_userId a),
                   ci_createdAt = now, ci_lastUsedAt = None, ci_lastSubject = None\<rparr>]\<rparr>))))"

definition removeCiIdentity :: "actor \<Rightarrow> string \<Rightarrow> db \<Rightarrow> db" where
  "removeCiIdentity a ident d =
     (case find (\<lambda>i. ci_id i = ident) (db_ciIdentities d) of
        None \<Rightarrow> d
      | Some row \<Rightarrow>
        if requireManager d a (ci_organizationId row) \<noteq> None then d
        else d\<lparr>db_ciIdentities := filter (\<lambda>i. ci_id i \<noteq> ident) (db_ciIdentities d)\<rparr>)"


section \<open>Facts\<close>

lemma matching_identityD:
  assumes "(i, slug) \<in> set (matchingIdentities d v organizationSlug)"
  shows "i \<in> set (db_ciIdentities d) \<and> ci_issuer i = vo_issuer v \<and> list_ex (subjectMatches (ci_subject i)) (subjectSpellings (vo_subject v)) \<and>
    (\<exists>g \<in> set (db_organizations d). org_id g = ci_organizationId i \<and> org_slug g = slug) \<and> (truthy organizationSlug \<longrightarrow> organizationSlug = Some slug)"
  using assms by (auto simp: matchingIdentities_def Let_def)

lemma verifyOidcD:
  assumes "verifyOidcToken decode_iss jwks_verify appUrl d token = Inr v"
  shows "decode_iss token = Some (Some (vo_issuer v)) \<and> jwks_verify token (vo_issuer v) = Inr (Some (vo_subject v)) \<and>
    (\<exists>i \<in> set (db_ciIdentities d). ci_issuer i = vo_issuer v)"
  using assms by (auto simp: verifyOidcToken_def truthy_def list_ex_iff split: option.splits sum.splits if_splits)

lemma exchange_cases:
  assumes "exchange decode_iss jwks_verify hmac_sign appUrl tokenIssuer time token organizationRaw ttlRaw d = (Inr (minted, i, subject), d')"
  shows "\<exists>v ttl slug. verifyOidcToken decode_iss jwks_verify appUrl d (the token) = Inr v \<and> vo_subject v = subject \<and> 60 \<le> ttl \<and> ttl \<le> CI_TOKEN_MAX_TTL \<and>
    (i, slug) \<in> set (matchingIdentities d v (if truthy organizationRaw then organizationRaw else None)) \<and>
    mintCiToken hmac_sign tokenIssuer time i subject ttl d = (minted, d')"
proof -
  define slug where "slug = (if truthy organizationRaw then organizationRaw else None)"
  have "case exchange decode_iss jwks_verify hmac_sign appUrl tokenIssuer time token organizationRaw ttlRaw d of
      (Inl e, _) \<Rightarrow> True
    | (Inr (minted, i, subject), d') \<Rightarrow>
        \<exists>v ttl. verifyOidcToken decode_iss jwks_verify appUrl d (the token) = Inr v \<and> vo_subject v = subject \<and>
          \<not> (ttl < 60 \<or> CI_TOKEN_MAX_TTL < ttl) \<and> i \<in> fst ` set (matchingIdentities d v slug) \<and>
          mintCiToken hmac_sign tokenIssuer time i subject ttl d = (minted, d')"
    unfolding exchange_def Let_def slug_def [symmetric]
    by (simp split: option.split sum.split list.split prod.split) blast
  with assms show ?thesis by (force simp: slug_def [symmetric] not_less)
qed

lemma joined_identity:
  assumes "distinct (map ci_id (db_ciIdentities d))" and "i \<in> set (db_ciIdentities d)" and "g \<in> set (db_organizations d)" and "org_id g = ci_organizationId i"
  shows "\<exists>slug rest. concat (map (\<lambda>i. map (\<lambda>g. (i, org_slug g)) (filter (\<lambda>g. org_id g = ci_organizationId i) (db_organizations d)))
     (filter (\<lambda>j. ci_id j = ci_id i) (db_ciIdentities d))) = (i, slug) # rest"
proof -
  have "filter (\<lambda>j. ci_id j = ci_id i) xs = [i]" if "distinct (map ci_id xs)" "i \<in> set xs" for xs
    using that by (induction xs) (auto simp: filter_empty_conv image_iff)
  from this [OF assms(1,2)] have "filter (\<lambda>j. ci_id j = ci_id i) (db_ciIdentities d) = [i]" .
  then show ?thesis using assms(3,4) by (cases "filter (\<lambda>g. org_id g = ci_organizationId i) (db_organizations d)") (auto simp: filter_empty_conv)
qed


lemma identify_signed:
  assumes jwt: "hmac_verify (hmac_sign c) (cc_iss c) (cc_aud c) (t div 1000) = Inr c" "cc_iss c = tokenIssuer" "cc_aud c = CI_AUDIENCE" "cc_sub c = Some (ci_id i)"
    and ids: "distinct (map ci_id (db_ciIdentities d))" "ci_id i \<noteq> []" and i: "i \<in> set (db_ciIdentities d)"
    and g: "g \<in> set (db_organizations d)" "org_id g = ci_organizationId i"
  shows "\<exists>slug. identifyCiToken hmac_verify tokenIssuer t (CI_PREFIX @ hmac_sign c) d = Inr (ci_caller i, i, slug, nullish (cc_os c) [], cc_exp c * 1000)"
  using joined_identity [OF ids(1) i g] jwt ids(2) by (auto simp: identifyCiToken_def)

lemma identify_removed:
  assumes "hmac_verify (hmac_sign c) tokenIssuer CI_AUDIENCE (t div 1000) = Inr c" "cc_sub c = Some (ci_id i)"
    and "requireManager d a (ci_organizationId i) = None" "i \<in> set (db_ciIdentities d)" "distinct (map ci_id (db_ciIdentities d))"
  shows "identifyCiToken hmac_verify tokenIssuer t (CI_PREFIX @ hmac_sign c) (removeCiIdentity a (ci_id i) d) = Inl ''the CI identity behind this token no longer exists''"
proof -
  have "find (\<lambda>j. ci_id j = ci_id i) (db_ciIdentities d) = Some i" using assms(4,5) by (rule find_by_key [rotated])
  then have "ci_id j \<noteq> ci_id i" if "j \<in> set (db_ciIdentities (removeCiIdentity a (ci_id i) d))" for j
    using that assms(3) by (auto simp: removeCiIdentity_def)
  then have "filter (\<lambda>j. ci_id j = ci_id i) (db_ciIdentities (removeCiIdentity a (ci_id i) d)) = []" by (auto simp: filter_empty_conv)
  then show ?thesis using assms(1,2) by (simp add: identifyCiToken_def)
qed

lemma exact_subject: "CHR ''*'' \<notin> set pattern \<Longrightarrow> subjectMatches pattern s \<longleftrightarrow> s = pattern"
  by (simp add: subjectMatches_def split_on_atom)

text \<open>
  Two gaps in the validation of an identity: two stars trust everyone at the issuer, which one star
  may not, and an issuer whose own name ends in a slash is stored without it and matches no token.
\<close>

lemma double_star_trusts_everyone:
  assumes "list_all (\<lambda>c. \<not> line_end c) s"
  shows "validateCiIdentity ''ci'' ''https://ci.example'' ''**'' ''push'' = Inr (''ci'', ''https://ci.example'', ''**'', PPush) \<and> subjectMatches ''**'' s"
proof
  show "validateCiIdentity ''ci'' ''https://ci.example'' ''**'' ''push'' = Inr (''ci'', ''https://ci.example'', ''**'', PPush)" by code_simp
  have "parts_match [[], []] s" using assms by (auto simp: Let_def starts_with_def list_ex_iff intro!: bexI [of _ "length s"])
  then show "subjectMatches ''**'' s"
    by (auto simp: subjectMatches_def Let_def starts_with_def list_ex_iff intro!: bexI [of _ 0])
qed

lemma slash_issuer_stored_without:
  "validateCiIdentity ''ci'' ''https://ci.example/'' ''job'' ''push'' = Inr (''ci'', ''https://ci.example'', ''job'', PPush)"
  by code_simp

section \<open>Property\<close>

definition jwt_law :: "(ci_claims \<Rightarrow> string) \<Rightarrow> (string \<Rightarrow> string \<Rightarrow> string \<Rightarrow> int \<Rightarrow> string + ci_claims) \<Rightarrow> bool" where
  \<comment> \<open>what the token library documents of signing and verifying: the signed claims come back until they
      expire, then verification fails with a message about \<open>exp\<close>\<close>
  "jwt_law hmac_sign hmac_verify \<longleftrightarrow> (\<forall>c t. hmac_verify (hmac_sign c) (cc_iss c) (cc_aud c) t =
     (if t < cc_exp c then Inr c else Inl ''JWTExpired: \"exp\" claim timestamp check failed''))"

text \<open>
  C34. An exchange hands out a credential only for an OIDC token that verified, in the name of a
  trusted identity with the token's issuer whose pattern matches its subject, for between a
  minute and an hour. Until the announced end the credential identifies its bearer as that identity, with
  its organization, permission and repositories; afterwards it is refused as expired, and once the
  identity is removed it is refused at once.
\<close>

theorem ci_exchange_confined:
  assumes jwt: "jwt_law hmac_sign hmac_verify"
    and ids: "distinct (map ci_id (db_ciIdentities d))" "ci_id i \<noteq> []"
    and run: "exchange decode_iss jwks_verify hmac_sign appUrl tokenIssuer now token org ttl d = (Inr ((secret, expiresAt, seconds), i, subject), d')"
  shows "i \<in> set (db_ciIdentities d) \<and> jwks_verify (the token) (ci_issuer i) = Inr (Some subject) \<and>
    list_ex (subjectMatches (ci_subject i)) (subjectSpellings subject) \<and>
    60 \<le> seconds \<and> seconds \<le> 3600 \<and> expiresAt = (now div 1000 + seconds) * 1000 \<and>
    (\<forall>t. if t < expiresAt
       then map_sum id fst (identifyCiToken hmac_verify tokenIssuer t secret d') = Inr (ci_caller i) \<and>
         (\<forall>a. requireManager d' a (ci_organizationId i) = None \<longrightarrow>
            identifyCiToken hmac_verify tokenIssuer t secret (removeCiIdentity a (ci_id i) d') = Inl ''the CI identity behind this token no longer exists'')
       else identifyCiToken hmac_verify tokenIssuer t secret d' = Inl ''CI token expired'')"
proof -
  obtain v s slug where v: "verifyOidcToken decode_iss jwks_verify appUrl d (the token) = Inr v" "vo_subject v = subject"
    and s: "60 \<le> s" "s \<le> CI_TOKEN_MAX_TTL" and m: "(i, slug) \<in> set (matchingIdentities d v (if truthy org then org else None))"
    and mint: "mintCiToken hmac_sign tokenIssuer now i subject s d = ((secret, expiresAt, seconds), d')"
    using exchange_cases [OF run] by blast
  let ?c = "\<lparr>cc_iss = tokenIssuer, cc_aud = CI_AUDIENCE, cc_sub = Some (ci_id i), cc_os = Some subject, cc_iat = now div 1000, cc_exp = now div 1000 + s\<rparr>"
  let ?u = "\<lambda>j. if ci_id j = ci_id i then j\<lparr>ci_lastUsedAt := Some now, ci_lastSubject := Some (take 500 subject)\<rparr> else j"
  have minted: "secret = CI_PREFIX @ hmac_sign ?c" "seconds = s" "expiresAt = (now div 1000 + s) * 1000"
    "d' = d\<lparr>db_ciIdentities := map ?u (db_ciIdentities d)\<rparr>"
    using mint s by (auto simp: mintCiToken_def Let_def CI_TOKEN_MAX_TTL_def)
  note known = matching_identityD [OF m]
  obtain g where g: "g \<in> set (db_organizations d')" "org_id g = ci_organizationId (?u i)" using known minted(4) by auto
  have i': "?u i \<in> set (db_ciIdentities d')" using known minted(4) by simp
  have "map ci_id (db_ciIdentities d') = map ci_id (db_ciIdentities d)" using minted(4) by simp
  then have ids': "distinct (map ci_id (db_ciIdentities d'))" "ci_id (?u i) \<noteq> []" using ids by simp_all
  have law: "hmac_verify (hmac_sign ?c) tokenIssuer CI_AUDIENCE (t div 1000) =
      (if t < expiresAt then Inr ?c else Inl ''JWTExpired: \"exp\" claim timestamp check failed'')" for t
  proof -
    have "t div 1000 < now div 1000 + s \<longleftrightarrow> t < expiresAt" unfolding minted(3) by (auto simp: div_less_iff_less_mult)
    then show ?thesis using jwt [unfolded jwt_law_def, rule_format, of ?c "t div 1000"] by simp
  qed
  have live: "map_sum id fst (identifyCiToken hmac_verify tokenIssuer t secret d') = Inr (ci_caller i)" if "t < expiresAt" for t
    using identify_signed [of hmac_verify hmac_sign ?c t tokenIssuer "?u i" d', OF _ _ _ _ ids' i' g] law [of t] that
    by (auto simp: minted(1) ci_caller_def)
  have gone: "identifyCiToken hmac_verify tokenIssuer t secret (removeCiIdentity a (ci_id i) d') = Inl ''the CI identity behind this token no longer exists''"
    if "t < expiresAt" "requireManager d' a (ci_organizationId i) = None" for t a
    using identify_removed [of hmac_verify hmac_sign ?c tokenIssuer t "?u i" d' a] law [of t] that i' ids'(1) by (simp add: minted(1))
  have ended: "identifyCiToken hmac_verify tokenIssuer t secret d' = Inl ''CI token expired''" if "\<not> t < expiresAt" for t
  proof -
    have "includes_str (js_lower ''JWTExpired: \"exp\" claim timestamp check failed'') ''exp''" by code_simp
    then show ?thesis using law [of t] that by (simp add: identifyCiToken_def minted(1))
  qed
  have "3600 = CI_TOKEN_MAX_TTL" by (simp add: CI_TOKEN_MAX_TTL_def)
  then show ?thesis
    using known verifyOidcD [OF v(1)] v(2) s live gone ended by (simp add: minted(2,3))
qed


text \<open>A token library without keys: the claims written out, read back and checked.\<close>

definition write_str :: "string \<Rightarrow> string" where
  "write_str s = concat (map (\<lambda>c. [CHR ''+'', c]) s) @ ''.''"

fun read_str :: "string \<Rightarrow> string \<times> string" where
  "read_str (a # b # r) = (if a = CHR ''+'' then map_prod (Cons b) id (read_str r) else ([], b # r))"
| "read_str _ = ([], [])"

definition write_int :: "int \<Rightarrow> string" where
  "write_int i = replicate (nat \<bar>i\<bar>) (if i < 0 then CHR ''-'' else CHR ''+'') @ ''.''"

definition read_int :: "string \<Rightarrow> int \<times> string" where
  "read_int s = (let p = takeWhile (\<lambda>c. c \<noteq> CHR ''.'') s in
     ((if p \<noteq> [] \<and> hd p = CHR ''-'' then - int (length p) else int (length p)), drop (Suc (length p)) s))"

definition write_opt :: "string option \<Rightarrow> string" where
  "write_opt s = (case s of None \<Rightarrow> ''.'' | Some x \<Rightarrow> CHR ''+'' # write_str x)"

definition read_opt :: "string \<Rightarrow> string option \<times> string" where
  "read_opt s = (if s \<noteq> [] \<and> hd s = CHR ''+'' then map_prod Some id (read_str (tl s)) else (None, tl s))"

definition example_sign :: "ci_claims \<Rightarrow> string" where
  "example_sign c = write_str (cc_iss c) @ write_str (cc_aud c) @ write_opt (cc_sub c) @ write_opt (cc_os c) @
     write_int (cc_iat c) @ write_int (cc_exp c)"

definition example_verify :: "string \<Rightarrow> string \<Rightarrow> string \<Rightarrow> int \<Rightarrow> string + ci_claims" where
  "example_verify s issuer audience t =
     (let (i, s1) = read_str s; (a, s2) = read_str s1; (sub, s3) = read_opt s2; (os, s4) = read_opt s3; (iat, s5) = read_int s4;
          (e, _) = read_int s5
      in if i \<noteq> issuer \<or> a \<noteq> audience then Inl ''JWTClaimValidationFailed''
         else if t < e then Inr \<lparr>cc_iss = i, cc_aud = a, cc_sub = sub, cc_os = os, cc_iat = iat, cc_exp = e\<rparr>
         else Inl ''JWTExpired: \"exp\" claim timestamp check failed'')"

lemma read_write_str: "r \<noteq> [] \<Longrightarrow> read_str (write_str s @ r) = (s, r)"
  by (induction s) (auto simp: write_str_def neq_Nil_conv)

lemma read_write_int: "read_int (write_int i @ r) = (i, r)"
proof -
  have "takeWhile (\<lambda>c. c \<noteq> CHR ''.'') (write_int i @ r) = replicate (nat \<bar>i\<bar>) (if i < 0 then CHR ''-'' else CHR ''+'')"
    by (simp add: write_int_def takeWhile_append)
  then show ?thesis by (auto simp: read_int_def write_int_def Let_def)
qed

lemma read_write_opt: "r \<noteq> [] \<Longrightarrow> read_opt (write_opt s @ r) = (s, r)"
  by (cases s) (auto simp: read_opt_def write_opt_def read_write_str)

lemma example_jwt_law: "jwt_law example_sign example_verify"
proof -
  have "write_int i \<noteq> []" "write_opt s \<noteq> []" for i s by (simp_all add: write_int_def write_opt_def split: option.split)
  then show ?thesis
    using read_write_int [of _ "[]"]
    by (simp add: jwt_law_def example_verify_def example_sign_def read_write_str read_write_opt read_write_int)
qed

definition example_identity :: ci_identity where
  "example_identity = \<lparr>ci_id = ''i'', ci_organizationId = ''o'', ci_name = ''release'', ci_issuer = ''https://ci.example'', ci_subject = ''repo:acme/app:*'',
     ci_permission = PPush, ci_repositoryIds = None, ci_createdBy = None, ci_createdAt = 0, ci_lastUsedAt = None, ci_lastSubject = None\<rparr>"

definition example_ci_db :: db where
  "example_ci_db = example_team_db\<lparr>db_ciIdentities := [example_identity]\<rparr>"

definition example_subject :: string where
  "example_subject = ''repo:acme@12/app@34:ref:main''"

theorem ci_exchange_confined_witness:
  "\<exists>secret d'. fst (exchange (\<lambda>_. Some (Some ''https://ci.example'')) (\<lambda>_ _. Inr (Some example_subject)) example_sign ''https://app'' ''iss'' 5000
       (Some ''jwt'') None (Some (Dec 60 0)) example_ci_db) = Inr ((secret, 65000, 60), example_identity, example_subject) \<and>
     map_sum id fst (identifyCiToken example_verify ''iss'' 64999 secret d') = Inr (CallerSa ''ci:i'' ''o'' PPush None) \<and>
     identifyCiToken example_verify ''iss'' 65000 secret d' = Inl ''CI token expired''"
proof -
  let ?r = "exchange (\<lambda>_. Some (Some ''https://ci.example'')) (\<lambda>_ _. Inr (Some example_subject)) example_sign ''https://app'' ''iss'' 5000
       (Some ''jwt'') None (Some (Dec 60 0)) example_ci_db"
  let ?s = "CI_PREFIX @ example_sign \<lparr>cc_iss = ''iss'', cc_aud = CI_AUDIENCE, cc_sub = Some ''i'', cc_os = Some example_subject, cc_iat = 5, cc_exp = 65\<rparr>"
  have fst: "fst ?r = Inr ((?s, 65000, 60), example_identity, example_subject)" by code_simp
  then have run: "?r = (Inr ((?s, 65000, 60), example_identity, example_subject), snd ?r)" by (metis prod.collapse)
  have ids: "distinct (map ci_id (db_ciIdentities example_ci_db))" "ci_id example_identity \<noteq> []" by code_simp+
  have c: "ci_caller example_identity = CallerSa ''ci:i'' ''o'' PPush None" by code_simp
  from ci_exchange_confined [OF example_jwt_law ids run]
  have all: "\<forall>t. if t < 65000 then map_sum id fst (identifyCiToken example_verify ''iss'' t ?s (snd ?r)) = Inr (ci_caller example_identity) \<and>
         (\<forall>a. requireManager (snd ?r) a (ci_organizationId example_identity) = None \<longrightarrow>
            identifyCiToken example_verify ''iss'' t ?s (removeCiIdentity a (ci_id example_identity) (snd ?r)) = Inl ''the CI identity behind this token no longer exists'')
       else identifyCiToken example_verify ''iss'' t ?s (snd ?r) = Inl ''CI token expired''" by blast
  show ?thesis
    using fst all [rule_format, of 64999] all [rule_format, of 65000] c by (intro exI [of _ ?s] exI [of _ "snd ?r"]) simp
qed

end
