(* ===== verification/Login_Throttle.thy ===== *)
theory Login_Throttle
  imports Schema
begin

text \<open>
  Brute-force protection of \<open>docker login\<close> (\<open>web/src/lib/login-throttle.ts\<close>): failures are counted
  per account and per address in the table \<open>login_attempts\<close>, whose primary key is the key. The clock
  of the database and of the process is one argument \<open>now\<close>; the coin that decides whether
  old rows are swept is the argument \<open>sweep\<close>. The theorems: enough failures within the window lock the
  key for the whole lock time; the table behaves as a map in which nobody else's failures
  count; and a client that waits as long as it is told finds the lock gone.
\<close>

section \<open>Operations\<close>

definition LOGIN_WINDOW_MINUTES :: int where "LOGIN_WINDOW_MINUTES = 15"

definition LOGIN_LOCK_MINUTES :: int where "LOGIN_LOCK_MINUTES = 15"

definition ACCOUNT_MAX_FAILURES :: int where "ACCOUNT_MAX_FAILURES = 5"

definition IP_MAX_FAILURES :: int where "IP_MAX_FAILURES = 30"

definition accountKey :: "string \<Rightarrow> string" where
  "accountKey email = ''account:'' @ js_lower (js_trim email)"

definition ipKey :: "string option \<Rightarrow> string option" where
  "ipKey ip = (if truthy ip then Some (''ip:'' @ the ip) else None)"

definition present_keys :: "string option list \<Rightarrow> string list" where
  "present_keys keys = map the (filter truthy keys)"

definition active_locks :: "string list \<Rightarrow> millis \<Rightarrow> db \<Rightarrow> millis list" where
  "active_locks ks now d = map (\<lambda>r. the (la_lockedUntil r))
     (filter (\<lambda>r. la_key r \<in> set ks \<and> (case la_lockedUntil r of None \<Rightarrow> False | Some u \<Rightarrow> now < u)) (db_loginAttempts d))"

definition loginLock :: "string option list \<Rightarrow> millis \<Rightarrow> db \<Rightarrow> (millis \<times> int) option" where
  \<comment> \<open>the end of the lock and the seconds until then\<close>
  "loginLock keys now d =
     (let ks = present_keys keys in
      if ks = [] then None
      else (case js_sort (\<lambda>a b. b - a) (active_locks ks now d) of
              [] \<Rightarrow> None
            | lockedUntil # _ \<Rightarrow> Some (lockedUntil, max 1 (ceil_div (lockedUntil - now) 1000))))"

definition window_over :: "millis \<Rightarrow> login_attempt \<Rightarrow> bool" where
  "window_over now r \<longleftrightarrow> la_windowStart r < now - LOGIN_WINDOW_MINUTES * 60000"

definition count_failure :: "millis \<Rightarrow> login_attempt \<Rightarrow> login_attempt" where
  \<comment> \<open>\<open>ON CONFLICT (key) DO UPDATE\<close>\<close>
  "count_failure now r = r\<lparr>la_failures := (if window_over now r then 1 else la_failures r + 1),
     la_windowStart := (if window_over now r then now else la_windowStart r), la_updatedAt := now\<rparr>"

definition upsert_failure :: "string \<Rightarrow> millis \<Rightarrow> login_attempt list \<Rightarrow> login_attempt list" where
  "upsert_failure k now rows =
     (if list_ex (\<lambda>r. la_key r = k) rows then map (\<lambda>r. if la_key r = k then count_failure now r else r) rows
      else rows @ [\<lparr>la_key = k, la_failures = 1, la_windowStart = now, la_lockedUntil = None, la_updatedAt = now\<rparr>])"

definition failures_of :: "string \<Rightarrow> login_attempt list \<Rightarrow> int" where
  "failures_of k rows = (case find (\<lambda>r. la_key r = k) rows of None \<Rightarrow> 0 | Some r \<Rightarrow> la_failures r)"

definition lock_row :: "millis \<Rightarrow> login_attempt \<Rightarrow> login_attempt" where
  "lock_row now r = r\<lparr>la_lockedUntil := Some (now + LOGIN_LOCK_MINUTES * 60000), la_failures := 0, la_windowStart := now\<rparr>"

definition lock_key :: "string \<Rightarrow> millis \<Rightarrow> login_attempt list \<Rightarrow> login_attempt list" where
  "lock_key k now rows = map (\<lambda>r. if la_key r = k then lock_row now r else r) rows"

definition later :: "millis option \<Rightarrow> millis \<Rightarrow> millis option" where
  \<comment> \<open>\<open>if (!locked || d > locked) locked = d\<close>\<close>
  "later locked t = (case locked of None \<Rightarrow> Some t | Some l \<Rightarrow> if l < t then Some t else Some l)"

definition failure_entry :: "millis \<Rightarrow> string option \<times> int \<Rightarrow> millis option \<times> login_attempt list \<Rightarrow> millis option \<times> login_attempt list" where
  \<comment> \<open>the body of the loop over the keys\<close>
  "failure_entry now e acc = (case (e, acc) of ((key, mx), (locked, rows)) \<Rightarrow>
     if \<not> truthy key then (locked, rows)
     else (let rows1 = upsert_failure (the key) now rows in
           if mx \<le> failures_of (the key) rows1
           then (later locked (now + LOGIN_LOCK_MINUTES * 60000), lock_key (the key) now rows1)
           else (locked, rows1)))"

definition recordLoginFailure ::
  "(string option \<times> int) list \<Rightarrow> bool \<Rightarrow> millis \<Rightarrow> db \<Rightarrow> millis option \<times> db" where
  "recordLoginFailure entries sweep now d =
     (case fold (failure_entry now) entries (None, db_loginAttempts d) of
        (locked, rows) \<Rightarrow>
          (locked, d\<lparr>db_loginAttempts := (if sweep then filter (\<lambda>r. \<not> la_updatedAt r < now - 86400000) rows else rows)\<rparr>))"

definition clearLoginFailures :: "string option \<Rightarrow> db \<Rightarrow> db" where
  "clearLoginFailures key d =
     (if \<not> truthy key then d
      else d\<lparr>db_loginAttempts := filter (\<lambda>r. la_key r \<noteq> the key) (db_loginAttempts d)\<rparr>)"

definition lockMessage :: "int \<Rightarrow> string" where
  "lockMessage retryAfterSeconds =
     (let minutes = max 1 (ceil_div retryAfterSeconds 60)
      in ''too many failed sign-in attempts; try again in '' @ show_int minutes @ '' minute'' @ (if minutes = 1 then [] else ''s''))"

section \<open>The row of one key\<close>

definition attempt_row :: "string \<Rightarrow> login_attempt list \<Rightarrow> login_attempt option" where
  "attempt_row k rows = find (\<lambda>r. la_key r = k) rows"

text \<open>What one counted failure does to the row of its key, as a function on optional rows.\<close>

definition row_after :: "millis \<Rightarrow> int \<Rightarrow> string \<Rightarrow> login_attempt option \<Rightarrow> login_attempt" where
  "row_after now mx k row =
     (let r = (case row of None \<Rightarrow> \<lparr>la_key = k, la_failures = 1, la_windowStart = now, la_lockedUntil = None, la_updatedAt = now\<rparr>
                 | Some x \<Rightarrow> count_failure now x)
      in if mx \<le> la_failures r then lock_row now r else r)"

lemma row_keys [simp]: "la_key (count_failure now r) = la_key r" "la_key (lock_row now r) = la_key r"
  "la_updatedAt (lock_row now r) = la_updatedAt r" "la_updatedAt (count_failure now r) = now"
  by (simp_all add: count_failure_def lock_row_def)

lemma attempt_row_map:
  "attempt_row k (map (\<lambda>r. if la_key r = k' then f r else r) rows) =
     (if k = k' then map_option f (attempt_row k rows) else attempt_row k rows)"
  if "\<And>r. la_key (f r) = la_key r" for f
  unfolding attempt_row_def by (induction rows) (auto simp: that)

lemma attempt_row_upsert:
  "attempt_row k (upsert_failure k' now rows) =
     (if k = k' then Some (case attempt_row k rows of
          None \<Rightarrow> \<lparr>la_key = k, la_failures = 1, la_windowStart = now, la_lockedUntil = None, la_updatedAt = now\<rparr>
        | Some x \<Rightarrow> count_failure now x)
      else attempt_row k rows)"
proof (cases "list_ex (\<lambda>r. la_key r = k') rows")
  case True
  then have "attempt_row k' rows \<noteq> None" by (auto simp: attempt_row_def find_None_iff list_ex_iff)
  with True show ?thesis by (auto simp: upsert_failure_def attempt_row_map)
next
  case False
  then have "attempt_row k' rows = None" by (auto simp: attempt_row_def find_None_iff list_ex_iff)
  with False show ?thesis by (auto simp: upsert_failure_def attempt_row_def find_append split: option.splits)
qed

lemma failures_of_row: "failures_of k rows = (case attempt_row k rows of None \<Rightarrow> 0 | Some r \<Rightarrow> la_failures r)"
  by (simp add: failures_of_def attempt_row_def)

lemma failure_entry_own:
  "k \<noteq> [] \<Longrightarrow> attempt_row k (snd (failure_entry now (Some k, mx) (locked, rows))) = Some (row_after now mx k (attempt_row k rows))"
  by (simp add: failure_entry_def Let_def lock_key_def attempt_row_map attempt_row_upsert failures_of_row row_after_def split: option.splits)

lemma failure_entry_other:
  "key \<noteq> Some k \<Longrightarrow> attempt_row k (snd (failure_entry now (key, mx) (locked, rows))) = attempt_row k rows"
  by (cases key) (auto simp: failure_entry_def Let_def lock_key_def attempt_row_map attempt_row_upsert)

lemma row_after_updated [simp]: "la_updatedAt (row_after now mx k row) = now"
  by (simp add: row_after_def Let_def split: option.splits)

lemma sweep_keeps:
  "attempt_row k rows = Some r \<Longrightarrow> \<not> la_updatedAt r < now - 86400000 \<Longrightarrow>
     attempt_row k (filter (\<lambda>r. \<not> la_updatedAt r < now - 86400000) rows) = Some r"
  unfolding attempt_row_def by (induction rows) (auto split: if_splits)

lemma record_one_row:
  assumes "k \<noteq> []"
  shows "attempt_row k (db_loginAttempts (snd (recordLoginFailure [(Some k, mx)] sweep now d))) =
    Some (row_after now mx k (attempt_row k (db_loginAttempts d)))"
proof -
  obtain locked rows where e: "failure_entry now (Some k, mx) (None, db_loginAttempts d) = (locked, rows)" by force
  then have "attempt_row k rows = Some (row_after now mx k (attempt_row k (db_loginAttempts d)))"
    using failure_entry_own [OF assms, of now mx None "db_loginAttempts d"] by simp
  then show ?thesis using sweep_keeps [of k rows] by (simp add: recordLoginFailure_def e)
qed

section \<open>A run of failures\<close>

definition failures_at :: "string \<Rightarrow> int \<Rightarrow> (millis \<times> bool) list \<Rightarrow> db \<Rightarrow> db" where
  "failures_at k mx ts d = fold (\<lambda>(t, sweep) d. snd (recordLoginFailure [(Some k, mx)] sweep t d)) ts d"

lemma row_after_counting:
  assumes "\<not> window_over t r" and "la_failures r + 1 < mx"
  shows "row_after t mx k (Some r) = count_failure t r"
  using assms by (simp add: row_after_def count_failure_def)

lemma run_row:
  assumes "k \<noteq> []" and "attempt_row k (db_loginAttempts d) = None" and "ts \<noteq> []"
    and "\<forall>t \<in> fst ` set ts. t \<le> fst (hd ts) + LOGIN_WINDOW_MINUTES * 60000" and "int (length ts) < mx"
  shows "attempt_row k (db_loginAttempts (failures_at k mx ts d)) =
    Some \<lparr>la_key = k, la_failures = int (length ts), la_windowStart = fst (hd ts), la_lockedUntil = None, la_updatedAt = fst (last ts)\<rparr>"
  using assms(3-)
proof (induction ts rule: rev_induct)
  case (snoc x ts)
  obtain t s where x: "x = (t, s)" by force
  show ?case
  proof (cases "ts = []")
    case True
    with snoc.prems assms(1,2) show ?thesis by (simp add: failures_at_def x record_one_row row_after_def)
  next
    case False
    let ?r = "\<lparr>la_key = k, la_failures = int (length ts), la_windowStart = fst (hd ts), la_lockedUntil = None, la_updatedAt = fst (last ts)\<rparr>"
    have "attempt_row k (db_loginAttempts (failures_at k mx ts d)) = Some ?r"
      using snoc False by simp
    moreover have "\<not> window_over t ?r" using snoc.prems(2) False by (simp add: window_over_def x)
    ultimately show ?thesis using snoc.prems(3) False assms(1)
      by (simp add: failures_at_def x record_one_row row_after_counting count_failure_def window_over_def)
  qed
qed simp

lemma lock_found:
  assumes "attempt_row k (db_loginAttempts d) = Some r" and "la_lockedUntil r = Some u" and "now < u"
    and "Some k \<in> set keys" and "k \<noteq> []"
  shows "loginLock keys now d \<noteq> None"
proof -
  have "r \<in> set (db_loginAttempts d)" "la_key r = k"
    using find_SomeD [OF assms(1) [unfolded attempt_row_def]] by auto
  moreover have "k \<in> set (present_keys keys)" using assms(4,5) by (force simp: present_keys_def image_iff)
  ultimately have "u \<in> set (active_locks (present_keys keys) now d)"
    using assms(2,3) by (force simp: active_locks_def image_iff)
  then have "js_sort (\<lambda>a b. b - a) (active_locks (present_keys keys) now d) \<noteq> []" by (metis empty_iff list.set(1) set_js_sort)
  moreover have "present_keys keys \<noteq> []" using \<open>k \<in> _\<close> by auto
  ultimately show ?thesis by (auto simp: loginLock_def Let_def split: list.splits)
qed

section \<open>The table as a map\<close>

definition rows_abs :: "login_attempt list \<Rightarrow> string \<rightharpoonup> login_attempt" where
  "rows_abs rows = (\<lambda>k. attempt_row k rows)"

definition throttle_abs :: "db \<Rightarrow> string \<rightharpoonup> login_attempt" where
  "throttle_abs d = rows_abs (db_loginAttempts d)"

definition count_spec :: "millis \<Rightarrow> string option \<times> int \<Rightarrow> (string \<rightharpoonup> login_attempt) \<Rightarrow> string \<rightharpoonup> login_attempt" where
  "count_spec now e m = (case e of (key, mx) \<Rightarrow>
     if truthy key then m(the key \<mapsto> row_after now mx (the key) (m (the key))) else m)"

lemma failure_entry_abs: "rows_abs (snd (failure_entry now e acc)) = count_spec now e (rows_abs (snd acc))"
proof -
  obtain key mx locked rows where *: "e = (key, mx)" "acc = (locked, rows)" by (cases e; cases acc)
  show ?thesis
  proof (cases "truthy key")
    case True
    then obtain k where k: "key = Some k" "k \<noteq> []" by (cases key) auto
    show ?thesis unfolding * k(1) using k(2)
      by (auto simp: fun_eq_iff rows_abs_def count_spec_def failure_entry_own failure_entry_other)
  qed (simp add: * failure_entry_def count_spec_def)
qed

interpretation latest_first: js_comparator "\<lambda>a b :: int. b - a"
  by unfold_locales auto

section \<open>Properties\<close>

text \<open>
  Guessing is stopped. When a key without earlier failures reaches its limit of failures
  within the window of fifteen minutes counted from the first one, it is locked at
  once: every lookup that asks for the key, among any others, reports a lock from then on until
  fifteen minutes after the last failure, whether or not old rows are swept in between.
\<close>

theorem failures_lock_key:
  assumes "k \<noteq> []" and "attempt_row k (db_loginAttempts d) = None" and "ts \<noteq> []"
    and "\<forall>t \<in> fst ` set ts. t \<le> fst (hd ts) + LOGIN_WINDOW_MINUTES * 60000" and "int (length ts) = mx"
    and "now < fst (last ts) + LOGIN_LOCK_MINUTES * 60000" and "Some k \<in> set keys"
  shows "loginLock keys now (failures_at k mx ts d) \<noteq> None"
proof -
  obtain us t s where ts: "ts = us @ [(t, s)]" using assms(3) by (metis rev_exhaust surj_pair)
  have "attempt_row k (db_loginAttempts (failures_at k mx ts d)) =
      Some (row_after t mx k (attempt_row k (db_loginAttempts (failures_at k mx us d))))"
    using assms(1) by (simp add: failures_at_def ts record_one_row)
  moreover have "la_lockedUntil (row_after t mx k (attempt_row k (db_loginAttempts (failures_at k mx us d)))) =
      Some (t + LOGIN_LOCK_MINUTES * 60000)"
  proof (cases "us = []")
    case True
    then show ?thesis using assms(2,5) by (simp add: failures_at_def row_after_def ts lock_row_def)
  next
    case False
    let ?r = "\<lparr>la_key = k, la_failures = int (length us), la_windowStart = fst (hd us), la_lockedUntil = None, la_updatedAt = fst (last us)\<rparr>"
    have "attempt_row k (db_loginAttempts (failures_at k mx us d)) = Some ?r"
      using assms False by (intro run_row) (simp_all add: ts)
    moreover have "\<not> window_over t ?r" using assms(4) False by (simp add: ts window_over_def)
    ultimately show ?thesis using assms(5) by (simp add: row_after_def count_failure_def ts lock_row_def)
  qed
  ultimately show ?thesis using assms(1,6,7) by (intro lock_found [where k = k]) (simp_all add: ts)
qed

theorem failures_lock_key_witness:
  "loginLock [Some ''ip:1'', Some ''account:a''] 900000
     (failures_at ''account:a'' ACCOUNT_MAX_FAILURES [(0, False), (1000, False), (2000, True), (2000, False), (60000, False)] empty_db) \<noteq> None"
  by (rule failures_lock_key)
    (simp_all add: attempt_row_def empty_db_def LOGIN_WINDOW_MINUTES_def LOGIN_LOCK_MINUTES_def ACCOUNT_MAX_FAILURES_def)


text \<open>
  A lock ends when it says it does. A reported lock lies in the future, the seconds sent as
  \<open>Retry-After\<close> cover it without waiting a second too long, and once it is over a
  client without further failures finds no lock on any of its keys.
\<close>

theorem lock_ends:
  assumes "loginLock keys now d = Some (lockedUntil, seconds)"
  shows "now < lockedUntil \<and> lockedUntil \<le> now + seconds * 1000 \<and> (seconds - 1) * 1000 < lockedUntil - now \<and>
    (\<forall>t. lockedUntil \<le> t \<longrightarrow> loginLock keys t d = None)"
proof -
  let ?locks = "\<lambda>t. active_locks (present_keys keys) t d"
  obtain rest where ks: "present_keys keys \<noteq> []" and sorted: "js_sort (\<lambda>a b. b - a) (?locks now) = lockedUntil # rest"
    and sec: "seconds = max 1 (ceil_div (lockedUntil - now) 1000)"
    using assms by (auto simp: loginLock_def Let_def split: if_splits list.splits)
  have mem: "u \<in> set (?locks now) \<longleftrightarrow> u = lockedUntil \<or> u \<in> set rest" for u
    using arg_cong [OF sorted, of set] by auto
  have last: "u \<le> lockedUntil" if "u \<in> set (?locks now)" for u
    using latest_first.sort_sorted [of "?locks now"] that unfolding mem sorted by auto
  have future: "now < lockedUntil" using mem [of lockedUntil] by (auto simp: active_locks_def split: option.splits)
  have sec': "seconds = ceil_div (lockedUntil - now) 1000"
    using ceil_div_pos [of 1000 "lockedUntil - now"] future sec by simp
  have "?locks t = []" if "lockedUntil \<le> t" for t
  proof (rule ccontr)
    assume "?locks t \<noteq> []"
    then obtain u where "u \<in> set (?locks t)" by (metis list.set_sel(1))
    then have "t < u" "u \<in> set (?locks now)" using that future
      by (auto simp: active_locks_def image_iff split: option.splits)
    with last that show False by force
  qed
  then have "\<forall>t. lockedUntil \<le> t \<longrightarrow> loginLock keys t d = None" using ks by (simp add: loginLock_def)
  moreover have "lockedUntil \<le> now + seconds * 1000" using ceil_div_le_iff [of 1000 "lockedUntil - now" seconds] sec' by simp
  moreover have "(seconds - 1) * 1000 < lockedUntil - now"
    using ceil_div_le_iff [of 1000 "lockedUntil - now" "seconds - 1"] sec' by simp
  ultimately show ?thesis using future by blast
qed

theorem lock_ends_witness:
  "loginLock [Some ''k''] 1000 (failures_at ''k'' 1 [(0, False)] empty_db) = Some (900000, 899) \<and>
   loginLock [Some ''k''] 900000 (failures_at ''k'' 1 [(0, False)] empty_db) = None"
proof -
  have *: "loginLock [Some ''k''] 1000 (failures_at ''k'' 1 [(0, False)] empty_db) = Some (900000, 899)" by code_simp
  with lock_ends [OF this] show ?thesis by simp
qed

end
