(* ===== verification/Token_Endpoint.thy ===== *)
theory Token_Endpoint
  imports Ci_Auth Login_Throttle
begin

text \<open>
  The token endpoint \<open>docker login\<close> and every pull and push start from
  (\<open>web/src/app/api/registry/token/route.ts\<close>, \<open>lib/registry-jwt.ts\<close>): the Basic credentials are identified
  behind the sign-in throttle, each requested scope is cut down to what the caller may do, and the
  answer carries what was granted. This is where throttle, credentials, access control,
  redirects and CI identities meet. The record \<open>auth_env\<close> holds what the endpoint calls outside the program: the base64
  decoder, the secret hash, the password verifier of the authentication library, the
  verifier of CI tokens, the instance settings it reads, and the directory server with the account provisioning behind it.
\<close>

section \<open>Identifying the caller\<close>

definition PAT_PREFIX :: string where "PAT_PREFIX = ''chc_pat_''"

definition SA_PREFIX :: string where "SA_PREFIX = ''chc_sa_''"

definition clientIp :: "string option \<Rightarrow> string option \<Rightarrow> string option \<Rightarrow> string option" where
  \<comment> \<open>from the headers \<open>x-forwarded-for\<close>, \<open>x-real-ip\<close> and \<open>cf-connecting-ip\<close>\<close>
  "clientIp forwarded real cf =
     (let ip = (if truthy forwarded then Some (take 64 (js_trim (hd (split_on (CHR '','') (the forwarded)))))
                else map_option (\<lambda>s. take 64 (js_trim s)) (case real of Some r \<Rightarrow> Some r | None \<Rightarrow> cf))
      in if truthy ip then ip else None)"

record refusal =
  rf_error :: string
  rf_retryAfter :: "int option"

datatype ldap_failure = LdapFailure string bool | ApiFailure string | OtherFailure
  \<comment> \<open>\<open>LdapError\<close> with its \<open>invalidCredentials\<close>, an API error of the account hooks, anything else\<close>

record auth_env =
  ae_base64 :: "string \<Rightarrow> string option"
  ae_hash :: "string \<Rightarrow> string"
  ae_verify :: "string \<Rightarrow> string \<Rightarrow> bool"
  ae_hmac :: "string \<Rightarrow> string \<Rightarrow> string \<Rightarrow> int \<Rightarrow> string + ci_claims"
  ae_tokenIssuer :: string
  ae_localSignIn :: string
  ae_ldapEnabled :: bool
  ae_directory :: "string \<Rightarrow> string \<Rightarrow> db \<Rightarrow> (ldap_failure + user) \<times> db"

datatype login_method = ByPassword | ByLdap | ByToken

definition failed :: "millis \<Rightarrow> bool \<Rightarrow> string option \<Rightarrow> string \<Rightarrow> login_method \<Rightarrow> refusal \<Rightarrow> db \<Rightarrow> refusal \<times> db" where
  "failed now sweep ip username m r d =
     (let entries = (ipKey ip, IP_MAX_FAILURES) # (if m = ByToken then [] else [(Some (accountKey username), ACCOUNT_MAX_FAILURES)]) in
      case recordLoginFailure entries sweep now d of
        (Some lockedUntil, d') \<Rightarrow>
          (let retryAfter = max 1 (ceil_div (lockedUntil - now) 1000) in (\<lparr>rf_error = lockMessage retryAfter, rf_retryAfter = Some retryAfter\<rparr>, d'))
      | (None, d') \<Rightarrow> (r, d'))"

definition plain_refusal :: "string \<Rightarrow> refusal" where
  "plain_refusal e = \<lparr>rf_error = e, rf_retryAfter = None\<rparr>"

definition two_factor_refusal :: string where
  "two_factor_refusal = ''this account uses two-factor auth; docker login with an access token instead''"

definition isBanned :: "millis \<Rightarrow> user \<Rightarrow> bool" where
  "isBanned now u = (u_banned u = Some True \<and> (case u_banExpires u of None \<Rightarrow> True | Some t \<Rightarrow> now < t))"

definition identifyViaLdap :: "auth_env \<Rightarrow> millis \<Rightarrow> string \<Rightarrow> string \<Rightarrow> db \<Rightarrow> (string \<times> bool + caller) \<times> db" where
  \<comment> \<open>\<open>Inl\<close> carries the message and \<open>invalidCredentials\<close>\<close>
  "identifyViaLdap E now username password d =
     (case ae_directory E username password d of
        (Inl (LdapFailure message invalid), d') \<Rightarrow> (Inl (if invalid then ''invalid credentials'' else message, invalid), d')
      | (Inl (ApiFailure message), d') \<Rightarrow> (Inl (message, False), d')
      | (Inl OtherFailure, d') \<Rightarrow> (Inl (''directory server unavailable'', False), d')
      | (Inr u, d') \<Rightarrow>
        if isBanned now u then (Inl (''account unavailable'', True), d')
        else if u_twoFactorEnabled u = Some True then (Inl (two_factor_refusal, False), d')
        else (Inr (CallerUser (u_id u) (u_role u = Some ''admin'') None None), d'))"

definition refused_by :: "millis \<Rightarrow> bool \<Rightarrow> string option \<Rightarrow> string \<Rightarrow> login_method \<Rightarrow> string \<Rightarrow> db \<Rightarrow> (refusal + caller) \<times> db" where
  "refused_by now sweep ip username m e d = map_prod Inl id (failed now sweep ip username m (plain_refusal e) d)"

definition identify_directory :: "auth_env \<Rightarrow> millis \<Rightarrow> bool \<Rightarrow> string option \<Rightarrow> string \<Rightarrow> string \<Rightarrow> db \<Rightarrow> (refusal + caller) \<times> db" where
  "identify_directory E now sweep ip username password d =
     (case identifyViaLdap E now username password d of
        (Inl (e, invalid), d') \<Rightarrow> if invalid then refused_by now sweep ip username ByLdap e d' else (Inl (plain_refusal e), d')
      | (Inr c, d') \<Rightarrow> (Inr c, clearLoginFailures (Some (accountKey username)) d'))"

definition identify_password :: "auth_env \<Rightarrow> millis \<Rightarrow> bool \<Rightarrow> string option \<Rightarrow> string \<Rightarrow> string \<Rightarrow> db \<Rightarrow> (refusal + caller) \<times> db" where
  \<comment> \<open>the part of \<open>identify\<close> after the opaque credentials\<close>
  "identify_password E now sweep ip username password d =
     (let u = find (\<lambda>u. u_email u = js_lower username) (db_users d);
          credential = Option.bind u (\<lambda>x. find (\<lambda>a. acc_userId a = u_id x \<and> acc_providerId a = ''credential'') (db_accounts d));
          hash = Option.bind credential acc_password in
      if Option.bind u u_banned = Some True then refused_by now sweep ip username ByPassword ''account unavailable'' d
      else if Option.bind u u_twoFactorEnabled = Some True then (Inl (plain_refusal two_factor_refusal), d)
      else if truthy hash then
        (if ae_localSignIn E \<noteq> ''everyone''
         then (Inl (plain_refusal ''password sign-in is disabled on this registry; docker login with an access token instead''), d)
         else if \<not> ae_verify E (the hash) password then refused_by now sweep ip username ByPassword ''invalid credentials'' d
         else (Inr (CallerUser (u_id (the u)) (u_role (the u) = Some ''admin'') None None), clearLoginFailures (Some (accountKey username)) d))
      else if ae_ldapEnabled E then identify_directory E now sweep ip username password d
      else if u = None then refused_by now sweep ip username ByPassword
        (if CHR ''@'' \<in> set username then ''invalid credentials''
         else ''invalid credentials: use your email address as the username (or an access token as the password)'') d
      else (Inl (plain_refusal ''this account has no password; docker login with an access token instead''), d))"

definition identify :: "auth_env \<Rightarrow> millis \<Rightarrow> bool \<Rightarrow> string option \<Rightarrow> string option \<Rightarrow> db \<Rightarrow> (refusal + caller) \<times> db" where
  "identify E now sweep ip header d =
     (if \<not> (case header of Some h \<Rightarrow> starts_with (js_lower h) ''basic '' | None \<Rightarrow> False) then (Inr Anonymous, d)
      else (case ae_base64 E (drop 6 (the header)) of
          None \<Rightarrow> (Inl (plain_refusal ''malformed authorization header''), d)
        | Some decoded \<Rightarrow>
          (case index_of (CHR '':'') decoded of
             None \<Rightarrow> (Inl (plain_refusal ''malformed basic credentials''), d)
           | Some sep \<Rightarrow>
             (let username = take sep decoded; password = drop (Suc sep) decoded in
              case loginLock [ipKey ip, Some (accountKey username)] now d of
                Some (_, retry) \<Rightarrow> (Inl \<lparr>rf_error = lockMessage retry, rf_retryAfter = Some retry\<rparr>, d)
              | None \<Rightarrow>
                if starts_with password SA_PREFIX then
                  (case identifyServiceAccount (ae_hash E) now password ip d of
                     (Inl e, d') \<Rightarrow> refused_by now sweep ip username ByToken e d'
                   | (Inr c, d') \<Rightarrow> (Inr c, d'))
                else if starts_with password CI_PREFIX then
                  (case identifyCiToken (ae_hmac E) (ae_tokenIssuer E) now password d of
                     Inl e \<Rightarrow> refused_by now sweep ip username ByToken e d
                   | Inr (c, _) \<Rightarrow> (Inr c, d))
                else if starts_with password PAT_PREFIX then
                  (case identifyAccessToken (ae_hash E) now password ip d of
                     (Inl e, d') \<Rightarrow> refused_by now sweep ip username ByToken e d'
                   | (Inr (c, _, _), d') \<Rightarrow> (Inr c, d'))
                else identify_password E now sweep ip username password d))))"

section \<open>Scopes\<close>

datatype grant_type = RepositoryGrant | RegistryGrant

record access_grant =
  ag_type :: grant_type
  ag_name :: string
  ag_actions :: "string list"

fun action_name :: "registry_action \<Rightarrow> string" where
  "action_name RPull = ''pull''"
| "action_name RPush = ''push''"
| "action_name RDelete = ''delete''"

definition VALID_ACTIONS :: "registry_action list" where "VALID_ACTIONS = [RPull, RPush, RDelete]"

definition requested_actions :: "string \<Rightarrow> registry_action list" where
  "requested_actions raw = concat (map (\<lambda>a. if a = ''*'' then VALID_ACTIONS else filter (\<lambda>v. action_name v = a) VALID_ACTIONS)
     (split_on (CHR '','') raw))"

definition catalog_grant :: access_grant where
  "catalog_grant = \<lparr>ag_type = RegistryGrant, ag_name = ''catalog'', ag_actions = [''*'']\<rparr>"

definition granted_actions :: "(string \<Rightarrow> string option) \<Rightarrow> db \<Rightarrow> caller \<Rightarrow> string \<times> string \<Rightarrow> registry_action list \<Rightarrow> registry_action list" where
  "granted_actions url_host d c target requested = (case target of (orgSlug, repoName) \<Rightarrow>
     (case resolveRepositoryRedirect d orgSlug repoName of
        Some moved \<Rightarrow> allowedRepositoryActions url_host d c (rt_orgSlug moved) (rt_repoName moved) (filter (\<lambda>a. a = RPull) requested)
      | None \<Rightarrow>
        (let granted = allowedRepositoryActions url_host d c orgSlug repoName requested in
         if RPull \<in> set granted \<and> RPush \<notin> set granted \<and> RPush \<notin> set requested \<and>
            RPush \<in> set (allowedRepositoryActions url_host d c orgSlug repoName [RPush])
         then granted @ [RPush] else granted)))"

definition scope_grants :: "(string \<Rightarrow> string option) \<Rightarrow> db \<Rightarrow> caller \<Rightarrow> string \<Rightarrow> access_grant list" where
  \<comment> \<open>one round of the loop over the scopes\<close>
  "scope_grants url_host d c scope = (case split_on (CHR '':'') scope of
       [type, name, actionsRaw] \<Rightarrow>
         if type = ''registry'' \<and> name = ''catalog'' then (if mayAccessCatalog d c then [catalog_grant] else [])
         else if type \<noteq> ''repository'' then []
         else (case splitImagePath name of
             None \<Rightarrow> []
           | Some target \<Rightarrow>
             (let granted = granted_actions url_host d c target (requested_actions actionsRaw) in
              if granted = [] then []
              else [\<lparr>ag_type = RepositoryGrant, ag_name = name, ag_actions = map action_name granted\<rparr>]))
     | _ \<Rightarrow> [])"

definition TOKEN_TTL_SECONDS :: int where "TOKEN_TTL_SECONDS = 300"

record token_claims =
  tc_sub :: string
  tc_access :: "access_grant list"
  tc_iat :: int
  tc_nbf :: int
  tc_exp :: int

definition signRegistryToken :: "millis \<Rightarrow> string \<Rightarrow> access_grant list \<Rightarrow> int \<Rightarrow> token_claims" where
  \<comment> \<open>the claims that are signed\<close>
  "signRegistryToken time subject access ttlSeconds =
     (let now = time div 1000
      in \<lparr>tc_sub = subject, tc_access = access, tc_iat = now, tc_nbf = now - 10, tc_exp = now + ttlSeconds\<rparr>)"

definition systemPullToken :: "millis \<Rightarrow> string \<Rightarrow> int \<Rightarrow> token_claims" where
  "systemPullToken time repositoryPath ttlSeconds =
     signRegistryToken time ''user:system'' [\<lparr>ag_type = RepositoryGrant, ag_name = repositoryPath, ag_actions = [''pull'']\<rparr>] ttlSeconds"

definition token_access :: "(string \<Rightarrow> string option) \<Rightarrow> db \<Rightarrow> caller \<Rightarrow> string list \<Rightarrow> access_grant list" where
  "token_access url_host d c scopes =
     (let access = concat (map (scope_grants url_host d c) scopes) in
      if (case c of CallerUser _ isAdmin _ restriction \<Rightarrow> isAdmin \<and> restriction = None | _ \<Rightarrow> False) \<and>
         \<not> list_ex (\<lambda>g. ag_type g = RegistryGrant \<and> ag_name g = ''catalog'') access
      then access @ [catalog_grant] else access)"

definition token_GET :: "(string \<Rightarrow> string option) \<Rightarrow> auth_env \<Rightarrow> millis \<Rightarrow> bool \<Rightarrow> string option \<Rightarrow> string option \<Rightarrow> string list \<Rightarrow> db \<Rightarrow> (refusal + token_claims) \<times> db" where
  \<comment> \<open>\<open>Inl\<close> is answered with status 401 and the seconds as \<open>Retry-After\<close>\<close>
  "token_GET url_host E now sweep ip header scopes d =
     (case identify E now sweep ip header d of
        (Inl r, d') \<Rightarrow> (Inl r, d')
      | (Inr c, d') \<Rightarrow> (Inr (signRegistryToken now (callerSubject c) (token_access url_host d' c scopes) TOKEN_TTL_SECONDS), d'))"


section \<open>Facts\<close>

lemma allowed_pointwise:
  "a \<in> set (allowedRepositoryActions url_host d c orgSlug repoName requested) \<longleftrightarrow>
     a \<in> set requested \<and> a \<in> set (allowedRepositoryActions url_host d c orgSlug repoName [a])"
proof (cases "find_org d orgSlug")
  case (Some g)
  then show ?thesis by (cases "find_proxy d (org_id g)") (auto simp: allowedRepositoryActions_def Let_def)
qed (simp add: allowedRepositoryActions_def)

definition may_do :: "(string \<Rightarrow> string option) \<Rightarrow> db \<Rightarrow> caller \<Rightarrow> string \<times> string \<Rightarrow> registry_action \<Rightarrow> bool" where
  \<comment> \<open>the access rule for one action at a path: the action itself where a repository may be, only a pull of the
      repository a former path leads to\<close>
  "may_do url_host d c target a = (case target of (orgSlug, repoName) \<Rightarrow>
     (case resolveRepositoryRedirect d orgSlug repoName of
        Some t \<Rightarrow> a = RPull \<and> RPull \<in> set (allowedRepositoryActions url_host d c (rt_orgSlug t) (rt_repoName t) [RPull])
      | None \<Rightarrow> a \<in> set (allowedRepositoryActions url_host d c orgSlug repoName [a])))"

lemma granted_cases:
  "a \<in> set (granted_actions url_host d c target requested) \<longleftrightarrow>
     (case target of (orgSlug, repoName) \<Rightarrow>
        (case resolveRepositoryRedirect d orgSlug repoName of
           Some t \<Rightarrow> a \<in> set (allowedRepositoryActions url_host d c (rt_orgSlug t) (rt_repoName t) (filter (\<lambda>a. a = RPull) requested))
         | None \<Rightarrow> a \<in> set (allowedRepositoryActions url_host d c orgSlug repoName requested) \<or>
             a = RPush \<and> RPull \<in> set (allowedRepositoryActions url_host d c orgSlug repoName requested) \<and> RPush \<notin> set requested \<and>
             RPush \<notin> set (allowedRepositoryActions url_host d c orgSlug repoName requested) \<and>
             RPush \<in> set (allowedRepositoryActions url_host d c orgSlug repoName [RPush])))"
  by (cases target, cases "resolveRepositoryRedirect d (fst target) (snd target)") (auto simp: granted_actions_def Let_def)

lemma granted_may:
  assumes "a \<in> set (granted_actions url_host d c target requested)"
  shows "may_do url_host d c target a"
proof -
  obtain orgSlug repoName where t: "target = (orgSlug, repoName)" by fastforce
  show ?thesis
  proof (cases "resolveRepositoryRedirect d orgSlug repoName")
    case None
    then have "a \<in> set (allowedRepositoryActions url_host d c orgSlug repoName [a])"
      using assms allowed_pointwise [of a url_host d c orgSlug repoName requested] by (auto simp only: granted_cases t prod.case option.case)
    then show ?thesis by (simp add: may_do_def t None)
  next
    case (Some r)
    then have "a \<in> set (filter (\<lambda>a. a = RPull) requested) \<and> a \<in> set (allowedRepositoryActions url_host d c (rt_orgSlug r) (rt_repoName r) [a])"
      using assms unfolding granted_cases t prod.case Some option.case by (subst (asm) allowed_pointwise)
    then show ?thesis by (auto simp: may_do_def t Some)
  qed
qed

lemma granted_complete:
  assumes "a \<in> set requested" and "may_do url_host d c target a"
  shows "a \<in> set (granted_actions url_host d c target requested)"
proof -
  obtain orgSlug repoName where t: "target = (orgSlug, repoName)" by fastforce
  show ?thesis
  proof (cases "resolveRepositoryRedirect d orgSlug repoName")
    case None
    then have "a \<in> set (allowedRepositoryActions url_host d c orgSlug repoName requested)"
      using assms by (subst allowed_pointwise) (simp add: may_do_def t)
    then show ?thesis by (simp add: granted_cases t None)
  next
    case (Some r)
    then have "a \<in> set (allowedRepositoryActions url_host d c (rt_orgSlug r) (rt_repoName r) (filter (\<lambda>a. a = RPull) requested))"
      using assms by (subst allowed_pointwise) (auto simp: may_do_def t)
    then show ?thesis by (simp add: granted_cases t Some)
  qed
qed

lemma catalog_admin: "(case c of CallerUser _ isAdmin _ restriction \<Rightarrow> isAdmin \<and> restriction = None | _ \<Rightarrow> False) \<Longrightarrow> mayAccessCatalog d c"
  by (simp add: mayAccessCatalog_def split: caller.splits)

definition sound_grant :: "(string \<Rightarrow> string option) \<Rightarrow> db \<Rightarrow> caller \<Rightarrow> access_grant \<Rightarrow> bool" where
  "sound_grant url_host d c g \<longleftrightarrow> g = catalog_grant \<and> mayAccessCatalog d c \<or>
     ag_type g = RepositoryGrant \<and> (\<exists>target acts. splitImagePath (ag_name g) = Some target \<and> ag_actions g = map action_name acts \<and> acts \<noteq> [] \<and>
       (\<forall>a \<in> set acts. may_do url_host d c target a))"

lemma scope_sound:
  assumes "g \<in> set (scope_grants url_host d c scope)"
  shows "sound_grant url_host d c g"
proof -
  have repository: "sound_grant url_host d c \<lparr>ag_type = RepositoryGrant, ag_name = name, ag_actions = map action_name granted\<rparr>"
    if "splitImagePath name = Some target" "granted = granted_actions url_host d c target (requested_actions raw)" "granted \<noteq> []" for name target granted raw
    using that granted_may [of _ url_host d c target "requested_actions raw"] by (auto simp: sound_grant_def)
  show ?thesis
    using assms unfolding scope_grants_def Let_def
    by (auto intro: repository [OF sym refl] simp: sound_grant_def [of _ _ _ catalog_grant] split: list.splits if_splits option.splits)
qed

lemma access_sound: "g \<in> set (token_access url_host d c scopes) \<Longrightarrow> sound_grant url_host d c g"
  using catalog_admin [of c d] sound_grant_def [of url_host d c catalog_grant]
  by (auto simp: token_access_def Let_def dest: scope_sound split: if_splits)

lemma scope_complete:
  assumes "splitImagePath name = Some target" and "a \<in> set (requested_actions raw)" and "may_do url_host d c target a"
    and "CHR '':'' \<notin> set name" "CHR '':'' \<notin> set raw"
  shows "\<exists>g \<in> set (scope_grants url_host d c (''repository:'' @ name @ '':'' @ raw)). ag_type g = RepositoryGrant \<and> ag_name g = name \<and> action_name a \<in> set (ag_actions g)"
proof -
  have "split_on (CHR '':'') (''repository'' @ CHR '':'' # (name @ CHR '':'' # raw)) = [''repository'', name, raw]"
    using assms(4,5) by (subst split_on_cons, simp, subst split_on_cons) (simp_all add: split_on_atom)
  then have "split_on (CHR '':'') (''repository:'' @ name @ '':'' @ raw) = [''repository'', name, raw]" by simp
  moreover have "a \<in> set (granted_actions url_host d c target (requested_actions raw))" using assms(2,3) by (rule granted_complete)
  ultimately show ?thesis using assms(1) by (auto simp: scope_grants_def Let_def)
qed

text \<open>Signing in with a password or with directory credentials.\<close>

definition password_user :: "auth_env \<Rightarrow> db \<Rightarrow> string \<Rightarrow> string \<Rightarrow> user \<Rightarrow> bool" where
  "password_user E d username password u \<longleftrightarrow> u \<in> set (db_users d) \<and> u_email u = js_lower username \<and> u_banned u \<noteq> Some True \<and>
     u_twoFactorEnabled u \<noteq> Some True \<and> ae_localSignIn E = ''everyone'' \<and>
     (\<exists>a \<in> set (db_accounts d). acc_userId a = u_id u \<and> acc_providerId a = ''credential'' \<and> truthy (acc_password a) \<and> ae_verify E (the (acc_password a)) password)"

definition directory_user :: "auth_env \<Rightarrow> millis \<Rightarrow> db \<Rightarrow> string \<Rightarrow> string \<Rightarrow> user \<Rightarrow> bool" where
  "directory_user E now d username password u \<longleftrightarrow> ae_ldapEnabled E \<and> (\<exists>d'. ae_directory E username password d = (Inr u, d')) \<and>
     \<not> isBanned now u \<and> u_twoFactorEnabled u \<noteq> Some True"

lemma refused_Inl [simp]: "refused_by now sweep ip username m e d \<noteq> (Inr c, d')"
  by (cases "failed now sweep ip username m (plain_refusal e) d") (simp add: refused_by_def)

lemma directory_accepts:
  assumes "identify_directory E now sweep ip username password d = (Inr c, d')" and "ae_ldapEnabled E"
  shows "\<exists>u. c = CallerUser (u_id u) (u_role u = Some ''admin'') None None \<and> directory_user E now d username password u"
  using assms
  by (auto simp: identify_directory_def identifyViaLdap_def directory_user_def split: prod.splits sum.splits if_splits ldap_failure.splits)

lemma password_accepts:
  assumes "identify_password E now sweep ip username password d = (Inr c, d')"
  shows "\<exists>u. c = CallerUser (u_id u) (u_role u = Some ''admin'') None None \<and>
    (password_user E d username password u \<or> directory_user E now d username password u)"
proof (cases "find (\<lambda>u. u_email u = js_lower username) (db_users d)")
  case None
  then show ?thesis using assms directory_accepts [of E now sweep ip username password d c d']
    by (auto simp: identify_password_def Let_def split: if_splits)
next
  case (Some u)
  then have u: "u \<in> set (db_users d)" "u_email u = js_lower username" using find_SomeD [OF Some] by simp_all
  show ?thesis
  proof (cases "find (\<lambda>a. acc_userId a = u_id u \<and> acc_providerId a = ''credential'') (db_accounts d)")
    case None
    then show ?thesis using assms Some directory_accepts [of E now sweep ip username password d c d']
      by (auto simp: identify_password_def Let_def split: if_splits)
  next
    case (Some a)
    with find_SomeD [OF Some] show ?thesis
      using assms \<open>find (\<lambda>u. u_email u = js_lower username) (db_users d) = Some u\<close> u directory_accepts [of E now sweep ip username password d c d']
      by (auto simp: identify_password_def password_user_def Let_def split: if_splits)
  qed
qed

text \<open>The opaque credentials give callers of other kinds.\<close>

lemma service_account_kind: "identifyServiceAccount h now secret ip d \<noteq> (Inr (CallerUser uid adm p r), d')"
  by (auto simp: identifyServiceAccount_def split: option.splits)

lemma ci_kind: "identifyCiToken v i now secret d \<noteq> Inr (CallerUser uid adm p r, x)"
  by (auto simp: identifyCiToken_def ci_caller_def split: sum.splits list.splits)

lemma pat_kind: "identifyAccessToken h now secret ip d \<noteq> (Inr (CallerUser uid adm None r, x, y), d')"
  by (auto simp: identifyAccessToken_def split: option.splits)

lemma identify_decoded:
  assumes "starts_with (js_lower h) ''basic ''" and "ae_base64 E (drop 6 h) = Some (username @ '':'' @ password)" and "CHR '':'' \<notin> set username"
  shows "identify E now sweep ip (Some h) d =
    (case loginLock [ipKey ip, Some (accountKey username)] now d of
       Some (_, retry) \<Rightarrow> (Inl \<lparr>rf_error = lockMessage retry, rf_retryAfter = Some retry\<rparr>, d)
     | None \<Rightarrow>
       if starts_with password SA_PREFIX then
         (case identifyServiceAccount (ae_hash E) now password ip d of
            (Inl e, d') \<Rightarrow> refused_by now sweep ip username ByToken e d'
          | (Inr c, d') \<Rightarrow> (Inr c, d'))
       else if starts_with password CI_PREFIX then
         (case identifyCiToken (ae_hmac E) (ae_tokenIssuer E) now password d of
            Inl e \<Rightarrow> refused_by now sweep ip username ByToken e d
          | Inr (c, _) \<Rightarrow> (Inr c, d))
       else if starts_with password PAT_PREFIX then
         (case identifyAccessToken (ae_hash E) now password ip d of
            (Inl e, d') \<Rightarrow> refused_by now sweep ip username ByToken e d'
          | (Inr (c, _, _), d') \<Rightarrow> (Inr c, d'))
       else identify_password E now sweep ip username password d)"
proof -
  have "index_of (CHR '':'') (username @ '':'' @ password) = Some (length username)"
    using assms(3) by (induction username) auto
  then show ?thesis using assms(1,2) by (simp add: identify_def)
qed


text \<open>The throttle behind the endpoint.\<close>

definition wrong_password :: "auth_env \<Rightarrow> db \<Rightarrow> string \<Rightarrow> string \<Rightarrow> bool" where
  \<comment> \<open>a local account that may sign in with a password, and a password that is not its own\<close>
  "wrong_password E d username password \<longleftrightarrow>
     (case find (\<lambda>u. u_email u = js_lower username) (db_users d) of
        None \<Rightarrow> False
      | Some u \<Rightarrow> u_banned u \<noteq> Some True \<and> u_twoFactorEnabled u \<noteq> Some True \<and> ae_localSignIn E = ''everyone'' \<and>
          (case find (\<lambda>a. acc_userId a = u_id u \<and> acc_providerId a = ''credential'') (db_accounts d) of
             None \<Rightarrow> False
           | Some a \<Rightarrow> truthy (acc_password a) \<and> \<not> ae_verify E (the (acc_password a)) password)) \<and>
     \<not> starts_with password SA_PREFIX \<and> \<not> starts_with password CI_PREFIX \<and> \<not> starts_with password PAT_PREFIX"

lemma wrong_password_refused:
  "wrong_password E d username password \<Longrightarrow>
     identify_password E now sweep ip username password d = refused_by now sweep ip username ByPassword ''invalid credentials'' d"
  by (auto simp: wrong_password_def identify_password_def Let_def split: option.splits)

lemma keys_differ: "ipKey ip \<noteq> Some (accountKey username)"
  by (simp add: ipKey_def accountKey_def)

lemma failed_row:
  assumes "m \<noteq> ByToken"
  shows "attempt_row (accountKey username) (db_loginAttempts (snd (failed now sweep ip username m r d))) =
    Some (row_after now ACCOUNT_MAX_FAILURES (accountKey username) (attempt_row (accountKey username) (db_loginAttempts d)))"
proof -
  let ?k = "accountKey username"
  let ?e = "[(ipKey ip, IP_MAX_FAILURES), (Some ?k, ACCOUNT_MAX_FAILURES)]"
  obtain l1 r1 where 1: "failure_entry now (ipKey ip, IP_MAX_FAILURES) (None, db_loginAttempts d) = (l1, r1)" by force
  obtain l2 r2 where 2: "failure_entry now (Some ?k, ACCOUNT_MAX_FAILURES) (l1, r1) = (l2, r2)" by force
  have "attempt_row ?k r1 = attempt_row ?k (db_loginAttempts d)"
    using failure_entry_other [OF keys_differ [of ip username], of now IP_MAX_FAILURES None "db_loginAttempts d"] 1 by simp
  then have "attempt_row ?k r2 = Some (row_after now ACCOUNT_MAX_FAILURES ?k (attempt_row ?k (db_loginAttempts d)))"
    using failure_entry_own [of ?k now ACCOUNT_MAX_FAILURES l1 r1] 2 by (simp add: accountKey_def)
  then have "attempt_row ?k (db_loginAttempts (snd (recordLoginFailure ?e sweep now d))) =
      Some (row_after now ACCOUNT_MAX_FAILURES ?k (attempt_row ?k (db_loginAttempts d)))"
    using sweep_keeps [of ?k r2] by (simp add: recordLoginFailure_def 1 2)
  then show ?thesis using assms by (auto simp: failed_def Let_def split: prod.split option.split)
qed

lemma limit_locks:
  assumes "\<not> window_over now row" and "ACCOUNT_MAX_FAILURES \<le> la_failures row + 1"
  shows "la_lockedUntil (row_after now ACCOUNT_MAX_FAILURES k (Some row)) = Some (now + LOGIN_LOCK_MINUTES * 60000)"
  using assms by (simp add: row_after_def count_failure_def lock_row_def)

section \<open>Properties\<close>

definition example_env :: auth_env where
  "example_env = \<lparr>ae_base64 = Some, ae_hash = id, ae_verify = (\<lambda>h p. h = p), ae_hmac = example_verify, ae_tokenIssuer = ''iss'',
     ae_localSignIn = ''everyone'', ae_ldapEnabled = False, ae_directory = (\<lambda>_ _ d. (Inl OtherFailure, d))\<rparr>"

definition example_login_db :: db where
  "example_login_db = example_team_db\<lparr>db_users := [example_user\<lparr>u_id := ''u'', u_email := ''a@b''\<rparr>],
     db_accounts := [\<lparr>acc_id = ''c'', acc_issuer = [], acc_accountId = [], acc_providerId = ''credential'', acc_userId = ''u'',
       acc_accessToken = None, acc_refreshToken = None, acc_idToken = None, acc_accessTokenExpiresAt = None, acc_refreshTokenExpiresAt = None,
       acc_scope = None, acc_password = Some ''pw'', acc_createdAt = 0, acc_updatedAt = 0\<rparr>],
     db_loginAttempts := [\<lparr>la_key = ''account:a@b'', la_failures = 4, la_windowStart = 0, la_lockedUntil = None, la_updatedAt = 0\<rparr>]\<rparr>"



text \<open>
  C4. A password never gets around a ban or two-factor authentication: whoever is identified by a password, which
  leaves the token scope empty, is a local account whose own password it is, with local sign-in open to everyone,
  or an account the directory vouches for, in both cases without two-factor authentication and not banned.
\<close>

theorem password_login_guarded:
  assumes "starts_with (js_lower h) ''basic ''" and "ae_base64 E (drop 6 h) = Some (username @ '':'' @ password)" and "CHR '':'' \<notin> set username"
    and "identify E now sweep ip (Some h) d = (Inr (CallerUser uid isAdmin None restriction), d')"
  shows "restriction = None \<and> (\<exists>u. u_id u = uid \<and> isAdmin = (u_role u = Some ''admin'') \<and>
    (password_user E d username password u \<or> directory_user E now d username password u))"
proof -
  have "identify_password E now sweep ip username password d = (Inr (CallerUser uid isAdmin None restriction), d')"
    using assms(4) unfolding identify_decoded [OF assms(1-3)]
    by (auto simp: service_account_kind ci_kind pat_kind split: option.splits prod.splits sum.splits if_splits)
  from password_accepts [OF this] show ?thesis by auto
qed

theorem password_login_guarded_witness:
  "\<exists>d' u. identify example_env 1000 False None (Some ''Basic a@b:pw'') example_login_db = (Inr (CallerUser ''u'' False None None), d') \<and>
     u_id u = ''u'' \<and> password_user example_env example_login_db ''a@b'' ''pw'' u"
proof -
  let ?r = "identify example_env 1000 False None (Some ''Basic a@b:pw'') example_login_db"
  have "fst ?r = Inr (CallerUser ''u'' False None None)" by code_simp
  then have run: "?r = (Inr (CallerUser ''u'' False None None), snd ?r)" by (metis prod.collapse)
  have pre: "starts_with (js_lower ''Basic a@b:pw'') ''basic ''" "ae_base64 example_env (drop 6 ''Basic a@b:pw'') = Some (''a@b'' @ '':'' @ ''pw'')"
    "CHR '':'' \<notin> set ''a@b''" "\<not> ae_ldapEnabled example_env" by code_simp+
  from password_login_guarded [OF pre(1-3) run] run pre(4) show ?thesis by (auto simp: directory_user_def)
qed

text \<open>
  C3. The wrong password that reaches the limit locks the account: until the lock ends every further login under that user
  name is refused, from any address and with any credential, the right password included, whatever the
  environment would have answered, and changes nothing.
\<close>

theorem limit_stops_guessing:
  assumes "starts_with (js_lower h) ''basic ''" and "ae_base64 E (drop 6 h) = Some (username @ '':'' @ password)" and "CHR '':'' \<notin> set username"
    and "wrong_password E d username password" and "loginLock [ipKey ip, Some (accountKey username)] now d = None"
    and "attempt_row (accountKey username) (db_loginAttempts d) = Some row" and "\<not> window_over now row" and "ACCOUNT_MAX_FAILURES \<le> la_failures row + 1"
    and "identify E now sweep ip (Some h) d = (result, d')"
    and "starts_with (js_lower h2) ''basic ''" and "ae_base64 E2 (drop 6 h2) = Some (username @ '':'' @ password2)"
    and "t < now + LOGIN_LOCK_MINUTES * 60000"
  shows "\<exists>retry. identify E2 t sweep2 ip2 (Some h2) d' = (Inl \<lparr>rf_error = lockMessage retry, rf_retryAfter = Some retry\<rparr>, d')"
proof -
  let ?k = "accountKey username"
  have "identify E now sweep ip (Some h) d = refused_by now sweep ip username ByPassword ''invalid credentials'' d"
    using assms(4) wrong_password_refused [OF assms(4)] by (simp add: identify_decoded [OF assms(1-3)] assms(5) wrong_password_def)
  then have "d' = snd (failed now sweep ip username ByPassword (plain_refusal ''invalid credentials'') d)"
    using assms(9) by (metis refused_by_def snd_conv snd_map_prod id_apply)
  then have "attempt_row ?k (db_loginAttempts d') = Some (row_after now ACCOUNT_MAX_FAILURES ?k (Some row))"
    by (simp add: failed_row assms(6))
  from lock_found [OF this limit_locks [OF assms(7,8)] assms(12), of "[ipKey ip2, Some ?k]"]
  have "loginLock [ipKey ip2, Some ?k] t d' \<noteq> None" by (simp add: accountKey_def)
  then show ?thesis by (auto simp: identify_decoded [OF assms(10,11,3)])
qed

theorem limit_stops_guessing_witness:
  "\<exists>retry. let d' = snd (identify example_env 60000 False None (Some ''Basic a@b:no'') example_login_db)
     in identify example_env 120000 False None (Some ''Basic a@b:pw'') d' = (Inl \<lparr>rf_error = lockMessage retry, rf_retryAfter = Some retry\<rparr>, d')"
proof -
  let ?r = "identify example_env 60000 False None (Some ''Basic a@b:no'') example_login_db"
  let ?row = "\<lparr>la_key = ''account:a@b'', la_failures = 4, la_windowStart = 0, la_lockedUntil = None, la_updatedAt = 0\<rparr> :: login_attempt"
  have pre: "starts_with (js_lower ''Basic a@b:no'') ''basic ''" "ae_base64 example_env (drop 6 ''Basic a@b:no'') = Some (''a@b'' @ '':'' @ ''no'')"
    "CHR '':'' \<notin> set ''a@b''" "wrong_password example_env example_login_db ''a@b'' ''no''"
    "loginLock [ipKey None, Some (accountKey ''a@b'')] 60000 example_login_db = None"
    "attempt_row (accountKey ''a@b'') (db_loginAttempts example_login_db) = Some ?row"
    "\<not> window_over 60000 ?row" "ACCOUNT_MAX_FAILURES \<le> la_failures ?row + 1"
    unfolding attempt_row_def by code_simp+
  have pre2: "starts_with (js_lower ''Basic a@b:pw'') ''basic ''" "ae_base64 example_env (drop 6 ''Basic a@b:pw'') = Some (''a@b'' @ '':'' @ ''pw'')"
    "(120000 :: int) < 60000 + LOGIN_LOCK_MINUTES * 60000" by code_simp+
  from limit_stops_guessing [OF pre prod.collapse [symmetric] pre2] show ?thesis by (simp add: Let_def)
qed

end
