(* ===== verification/Scan_Queue.thy ===== *)
theory Scan_Queue
  imports Pull_Policy Access
begin

text \<open>
  Scans and the queue of external scan workers (\<open>web/src/lib/scan.ts\<close>, \<open>scan-tasks.ts\<close>, \<open>rescan.ts\<close>). A push
  becomes a task; a worker claims the oldest due task under a lease of twenty minutes and posts findings or a failure; the
  scheduler's tick releases expired leases and scans in place while no worker is online. The record \<open>scan_env\<close>
  holds what is configured or lies outside: the scanner backend, the JSON parser and the encoding of the stored columns.
  The theorems: the operations keep the queue consistent, and a lease is exclusive: while it lasts nobody else can be given the
  task or report on it, whatever the others do, and its holder can.
\<close>

section \<open>Scans\<close>

record scan_result =
  res_findings :: "finding list"
  res_raw :: json
  res_scannerVersion :: "string option"

record scanner =
  sc_name :: string
  sc_label :: string
  sc_scan :: "string \<Rightarrow> string \<Rightarrow> json \<Rightarrow> string + scan_result"

record scan_env =
  se_lc :: "string \<Rightarrow> string \<Rightarrow> int"
  se_decode :: "vulnerability_scan \<Rightarrow> scan_row"
  se_parse :: "string \<Rightarrow> json option"
  se_findings :: "finding list \<Rightarrow> json"
  se_summary :: "(severity \<Rightarrow> int) \<Rightarrow> json"
  se_trivy :: "json \<Rightarrow> trivy_report"
  se_scanner :: "scanner option"
  se_backend :: string
  se_workers :: bool
  se_workerToken :: string

definition json_truthy :: "json option \<Rightarrow> bool" where
  "json_truthy v = (case v of
       None \<Rightarrow> False | Some JNull \<Rightarrow> False | Some (JBool b) \<Rightarrow> b | Some (JNum n) \<Rightarrow> n \<noteq> 0 | Some (JStr s) \<Rightarrow> s \<noteq> [] | Some _ \<Rightarrow> True)"

definition isArtifactManifest :: "json \<Rightarrow> bool option" where
  \<comment> \<open>\<open>None\<close> where reading the layers throws\<close>
  "isArtifactManifest p =
     map_option (\<lambda>layers.
       let layerTypes = map (\<lambda>l. json_text (json_field l ''mediaType'')) layers;
           config = Option.bind (json_field p ''config'') (\<lambda>c. json_field c ''mediaType'')
       in looksLikeArtifact (json_truthy (json_field p ''subject'')) [] layerTypes (case config of Some (JStr s) \<Rightarrow> Some s | _ \<Rightarrow> None) \<or>
          (layerTypes \<noteq> [] \<and> list_all (\<lambda>mt. mt \<noteq> [] \<and> \<not> (includes_str mt ''image.layer'' \<or> includes_str mt ''image.rootfs'')) layerTypes))
       (json_items (json_field p ''layers''))"

definition resolveRepository :: "db \<Rightarrow> string \<Rightarrow> repository option" where
  "resolveRepository d repositoryPath = (case splitImagePath repositoryPath of
       None \<Rightarrow> None
     | Some (orgSlug, repoName) \<Rightarrow> (case find_org d orgSlug of
           None \<Rightarrow> None
         | Some org \<Rightarrow> find_repo d (org_id org) repoName))"

definition scanned_layers :: "json \<Rightarrow> json list option" where
  "scanned_layers p = map_option (filter (\<lambda>l. json_truthy (json_field l ''digest''))) (json_items (json_field p ''layers''))"

definition stored_payload :: "scan_env \<Rightarrow> db \<Rightarrow> repository \<Rightarrow> string \<Rightarrow> json option" where
  \<comment> \<open>the parsed manifest; \<open>None\<close>: no row or not JSON\<close>
  "stored_payload E d repo digest =
     Option.bind (find (\<lambda>m. man_repositoryId m = repo_id repo \<and> man_digest m = digest) (db_manifests d)) (\<lambda>row. se_parse E (man_payload row))"

definition scanTarget :: "scan_env \<Rightarrow> db \<Rightarrow> string \<Rightarrow> string \<Rightarrow> (string \<times> json \<times> json list) option option" where
  \<comment> \<open>the outer \<open>None\<close> is an exception (a payload that is JSON but not a manifest)\<close>
  "scanTarget E d repositoryPath digest =
     (case resolveRepository d repositoryPath of
        None \<Rightarrow> Some None
      | Some repo \<Rightarrow> (case stored_payload E d repo digest of
            None \<Rightarrow> Some None
          | Some JNull \<Rightarrow> None
          | Some p \<Rightarrow>
              if json_truthy (json_field p ''manifests'') then Some None
              else (case (isArtifactManifest p, scanned_layers p) of
                  (Some artifact, Some layers) \<Rightarrow> if artifact \<or> layers = [] then Some None else Some (Some (repo_id repo, p, layers))
                | _ \<Rightarrow> None)))"

definition setScanState ::
  "millis \<Rightarrow> string \<Rightarrow> string option \<Rightarrow> (vulnerability_scan \<Rightarrow> vulnerability_scan) \<Rightarrow> db \<Rightarrow> db" where
  \<comment> \<open>\<open>upd\<close> sets the columns of \<open>fields\<close>\<close>
  "setScanState now digest repositoryId upd d =
     (let fresh = \<lparr>vs_digest = digest, vs_repositoryId = repositoryId, vs_status = ScanPending, vs_summary = None, vs_report = None,
            vs_findings = None, vs_scanner = None, vs_scannerVersion = None, vs_error = None, vs_createdAt = now, vs_updatedAt = now\<rparr>;
          set' = (\<lambda>s. (upd s)\<lparr>vs_digest := digest, vs_repositoryId := repositoryId, vs_updatedAt := now\<rparr>)
      in d\<lparr>db_scans := (if list_ex (\<lambda>s. vs_digest s = digest) (db_scans d)
             then map (\<lambda>s. if vs_digest s = digest then set' s else s) (db_scans d)
             else db_scans d @ [set' fresh])\<rparr>)"

fun severity_text :: "severity \<Rightarrow> string" where
  "severity_text Critical = ''Critical''"
| "severity_text High = ''High''"
| "severity_text Medium = ''Medium''"
| "severity_text Low = ''Low''"
| "severity_text Negligible = ''Negligible''"
| "severity_text Unknown = ''Unknown''"

fun first_by_key :: "string list \<Rightarrow> finding list \<Rightarrow> finding list" where
  \<comment> \<open>the filter with the set \<open>seen\<close>\<close>
  "first_by_key seen [] = []"
| "first_by_key seen (f # fs) =
     (let key = finding_key (fd_id f) (fd_package f) (fd_version f) in
      if key \<in> set seen then first_by_key seen fs else f # first_by_key (key # seen) fs)"

definition replaceScanFindings :: "string \<Rightarrow> finding list \<Rightarrow> db \<Rightarrow> db" where
  "replaceScanFindings digest findings d =
     d\<lparr>db_scanFindings := filter (\<lambda>r. sf_digest r \<noteq> digest) (db_scanFindings d) @
        map (\<lambda>f. \<lparr>sf_digest = digest, sf_vulnerabilityId = fd_id f, sf_package = fd_package f, sf_version = fd_version f,
               sf_fixedIn = fd_fixedIn f, sf_severity = severity_text (fd_severity f), sf_type = (if fd_type f = [] then ''os'' else fd_type f)\<rparr>)
          (first_by_key [] findings)\<rparr>"

definition storeScanResult :: "scan_env \<Rightarrow> millis \<Rightarrow> string \<Rightarrow> string option \<Rightarrow> string \<Rightarrow> scan_result \<Rightarrow> db \<Rightarrow> db" where
  "storeScanResult E now digest repositoryId scannerName result d =
     replaceScanFindings digest (res_findings result)
       (setScanState now digest repositoryId (\<lambda>s. s\<lparr>vs_status := Scanned, vs_findings := Some (se_findings E (res_findings result)),
          vs_summary := Some (se_summary E (summarizeFindings (res_findings result))), vs_report := Some (res_raw result),
          vs_scanner := Some scannerName, vs_scannerVersion := res_scannerVersion result, vs_error := None\<rparr>) d)"

definition finishScan :: "scan_env \<Rightarrow> millis \<Rightarrow> string \<Rightarrow> string \<Rightarrow> scan_result \<Rightarrow> string \<Rightarrow> db \<Rightarrow> db" where
  \<comment> \<open>a refresh that throws is only logged; the notification is left out\<close>
  "finishScan E now repositoryId digest result scannerName d =
     snd (refreshRepositoryBlocks (se_lc E) (se_decode E) (se_parse E) now repositoryId False
       (storeScanResult E now digest (Some repositoryId) scannerName result d))"

definition runScan :: "scan_env \<Rightarrow> millis \<Rightarrow> string \<Rightarrow> string \<Rightarrow> db \<Rightarrow> db" where
  \<comment> \<open>an exception before the scan leaves the database as it is; every caller only logs it\<close>
  "runScan E now repositoryPath digest d =
     (case se_scanner E of
        None \<Rightarrow> d
      | Some sc \<Rightarrow> (case resolveRepository d repositoryPath of
          None \<Rightarrow> d
        | Some repo \<Rightarrow> (case stored_payload E d repo digest of
            None \<Rightarrow> d
          | Some JNull \<Rightarrow> d
          | Some p \<Rightarrow>
            if json_truthy (json_field p ''manifests'') then d
            else (case (scanned_layers p, isArtifactManifest p) of
                (Some layers, Some artifact) \<Rightarrow>
                  if layers = [] then d
                  else if artifact then d\<lparr>db_scans := filter (\<lambda>s. \<not> (vs_digest s = digest \<and> vs_status s = ScanFailed)) (db_scans d)\<rparr>
                  else (let d1 = setScanState now digest (Some (repo_id repo))
                              (\<lambda>s. s\<lparr>vs_status := ScanIndexing, vs_error := None, vs_scanner := Some (sc_name sc)\<rparr>) d
                        in case sc_scan sc repositoryPath digest p of
                             Inl e \<Rightarrow> setScanState now digest (Some (repo_id repo)) (\<lambda>s. s\<lparr>vs_status := ScanFailed, vs_error := Some e\<rparr>) d1
                           | Inr result \<Rightarrow> finishScan E now (repo_id repo) digest result (sc_name sc) d1)
              | _ \<Rightarrow> d))))"

section \<open>The queue\<close>

definition WORKER_ONLINE_SECONDS :: int where "WORKER_ONLINE_SECONDS = 120"

definition LEASE_MINUTES :: int where "LEASE_MINUTES = 20"

definition MAX_ATTEMPTS :: int where "MAX_ATTEMPTS = 3"

definition INLINE_PER_TICK :: nat where "INLINE_PER_TICK = 3"

record worker_identity =
  wi_name :: string
  wi_hostname :: "string option"
  wi_version :: "string option"
  wi_scannerVersion :: "string option"

record task_payload =
  tp_id :: string
  tp_digest :: string
  tp_repositoryPath :: string
  tp_manifest :: json
  tp_layers :: "json list"
  tp_leaseSeconds :: int
  tp_attempt :: int
    \<comment> \<open>the registry's address and the pull token are left out\<close>

definition workersActive :: "scan_env \<Rightarrow> bool" where
  "workersActive E \<longleftrightarrow> se_backend E = ''trivy'' \<and> se_workers E \<and> se_workerToken E \<noteq> []"

definition update_task :: "string \<Rightarrow> (scan_task \<Rightarrow> scan_task) \<Rightarrow> db \<Rightarrow> db" where
  \<comment> \<open>\<open>UPDATE scan_tasks ... WHERE id = \<close>\<close>
  "update_task i f d = d\<lparr>db_scanTasks := map (\<lambda>t. if st_id t = i then f t else t) (db_scanTasks d)\<rparr>"

definition enqueueScan :: "string \<Rightarrow> millis \<Rightarrow> string \<Rightarrow> string \<Rightarrow> string \<Rightarrow> db \<Rightarrow> db" where
  "enqueueScan newId now repositoryPath digest repositoryId d =
     (let d1 = setScanState now digest (Some repositoryId) (\<lambda>s. s\<lparr>vs_status := ScanPending, vs_error := None, vs_scanner := Some ''trivy''\<rparr>) d
      in d1\<lparr>db_scanTasks := (if list_ex (\<lambda>t. st_digest t = digest) (db_scanTasks d1)
           then map (\<lambda>t. if st_digest t = digest
                  then t\<lparr>st_repositoryId := Some repositoryId, st_repositoryPath := repositoryPath, st_status := TaskQueued, st_attempts := 0,
                         st_availableAt := now, st_leasedBy := None, st_leaseUntil := None, st_lastError := None, st_updatedAt := now\<rparr>
                  else t) (db_scanTasks d1)
           else db_scanTasks d1 @ [\<lparr>st_id = newId, st_digest = digest, st_repositoryId = Some repositoryId, st_repositoryPath = repositoryPath,
                  st_status = TaskQueued, st_attempts = 0, st_availableAt = now, st_leasedBy = None, st_leaseUntil = None, st_lastError = None,
                  st_createdAt = now, st_updatedAt = now\<rparr>])\<rparr>)"

definition startScan :: "scan_env \<Rightarrow> string \<Rightarrow> millis \<Rightarrow> string \<Rightarrow> string \<Rightarrow> db \<Rightarrow> db" where
  "startScan E newId now repositoryPath digest d =
     (if \<not> workersActive E then runScan E now repositoryPath digest d
      else (case scanTarget E d repositoryPath digest of
          None \<Rightarrow> d
        | Some None \<Rightarrow> runScan E now repositoryPath digest d
        | Some (Some (repositoryId, _, _)) \<Rightarrow> enqueueScan newId now repositoryPath digest repositoryId d))"

definition heartbeat :: "millis \<Rightarrow> worker_identity \<Rightarrow> int \<Rightarrow> db \<Rightarrow> db" where
  "heartbeat now w running d =
     d\<lparr>db_scanWorkers := (if list_ex (\<lambda>x. sw_name x = wi_name w) (db_scanWorkers d)
        then map (\<lambda>x. if sw_name x = wi_name w
               then x\<lparr>sw_hostname := wi_hostname w, sw_version := wi_version w, sw_scannerVersion := wi_scannerVersion w,
                      sw_running := running, sw_lastSeenAt := now\<rparr> else x) (db_scanWorkers d)
        else db_scanWorkers d @ [\<lparr>sw_name = wi_name w, sw_hostname = wi_hostname w, sw_version = wi_version w,
               sw_scannerVersion = wi_scannerVersion w, sw_startedAt = now, sw_lastSeenAt = now, sw_running = running, sw_completed = 0,
               sw_failed = 0, sw_lastError = None\<rparr>])\<rparr>"

definition lease_over :: "millis \<Rightarrow> scan_task \<Rightarrow> bool" where
  "lease_over now t \<longleftrightarrow> st_status t = TaskLeased \<and> (case st_leaseUntil t of None \<Rightarrow> False | Some u \<Rightarrow> u < now)"

definition due :: "millis \<Rightarrow> scan_task \<Rightarrow> bool" where
  "due now t \<longleftrightarrow> st_availableAt t \<le> now \<and> (st_status t = TaskQueued \<or> lease_over now t)"

definition oldest :: "scan_task list \<Rightarrow> scan_task list" where
  "oldest ts = js_sort (\<lambda>a b. st_createdAt a - st_createdAt b) ts"

definition lease :: "millis \<Rightarrow> string \<Rightarrow> scan_task \<Rightarrow> scan_task" where
  "lease now name t = t\<lparr>st_status := TaskLeased, st_leasedBy := Some name, st_leaseUntil := Some (now + LEASE_MINUTES * 60000),
     st_attempts := st_attempts t + 1, st_updatedAt := now\<rparr>"

definition give_up :: "millis \<Rightarrow> scan_task \<Rightarrow> scan_task" where
  "give_up now t = t\<lparr>st_status := TaskDone, st_updatedAt := now, st_lastError := Some ''nothing to scan''\<rparr>"

lemma oldest_mem: "oldest (filter P ts) = t # rest \<Longrightarrow> t \<in> set ts \<and> P t"
  by (metis list.set_intros(1) mem_Collect_eq oldest_def set_filter set_js_sort)

lemma give_up_not_due: "\<not> due now (give_up now t)"
  by (simp add: due_def give_up_def lease_over_def)

lemma length_filter_map_le: "(\<And>x. x \<in> set xs \<Longrightarrow> P (f x) \<Longrightarrow> P x) \<Longrightarrow> length (filter P (map f xs)) \<le> length (filter P xs)"
  by (induction xs) auto

lemma length_filter_map_less:
  assumes "t \<in> set xs" "P t" "\<not> P (f t)" "\<And>x. x \<in> set xs \<Longrightarrow> P (f x) \<Longrightarrow> P x"
  shows "length (filter P (map f xs)) < length (filter P xs)"
  using assms
proof (induction xs)
  case (Cons a xs)
  have "length (filter P (map f xs)) \<le> length (filter P xs)" using Cons.prems(4) by (intro length_filter_map_le) simp
  then show ?case using Cons by (auto simp: less_Suc_eq_le)
qed simp

lemma give_up_fewer:
  assumes "t \<in> set (db_scanTasks d)" and "due now t"
  shows "length (filter (due now) (db_scanTasks (update_task (st_id t) (give_up now) (update_task (st_id t) (lease now n) d))))
    < length (filter (due now) (db_scanTasks d))"
proof -
  let ?f = "\<lambda>x. if st_id x = st_id t then give_up now (lease now n x) else x"
  have "db_scanTasks (update_task (st_id t) (give_up now) (update_task (st_id t) (lease now n) d)) = map ?f (db_scanTasks d)"
    by (simp add: update_task_def lease_def)
  moreover have "length (filter (due now) (map ?f (db_scanTasks d))) < length (filter (due now) (db_scanTasks d))"
    using assms by (intro length_filter_map_less [of t]) (simp_all add: give_up_not_due split: if_splits)
  ultimately show ?thesis by (simp only:)
qed

function claimScanTask :: "scan_env \<Rightarrow> millis \<Rightarrow> worker_identity \<Rightarrow> db \<Rightarrow> (string + task_payload option) \<times> db" where
  \<comment> \<open>\<open>Inl\<close> is an exception; the lease is already written then and runs out\<close>
  "claimScanTask E now w d =
     (case oldest (filter (due now) (db_scanTasks d)) of
        [] \<Rightarrow> (Inr None, d)
      | t # _ \<Rightarrow>
        (let d1 = update_task (st_id t) (lease now (wi_name w)) d in
         case scanTarget E d1 (st_repositoryPath t) (st_digest t) of
           None \<Rightarrow> (Inl ''TypeError'', d1)
         | Some None \<Rightarrow> claimScanTask E now w (update_task (st_id t) (give_up now) d1)
         | Some (Some (repositoryId, p, layers)) \<Rightarrow>
           (Inr (Some \<lparr>tp_id = st_id t, tp_digest = st_digest t, tp_repositoryPath = st_repositoryPath t, tp_manifest = p, tp_layers = layers,
                   tp_leaseSeconds = LEASE_MINUTES * 60, tp_attempt = st_attempts t + 1\<rparr>),
            setScanState now (st_digest t) (Some repositoryId) (\<lambda>s. s\<lparr>vs_status := ScanIndexing, vs_error := None, vs_scanner := Some ''trivy''\<rparr>) d1)))"
  by pat_completeness auto

termination
  by (relation "measure (\<lambda>(E, now, w, d). length (filter (due now) (db_scanTasks d)))") (auto dest!: oldest_mem intro!: give_up_fewer)

declare claimScanTask.simps [simp del]

definition leasedTask :: "string \<Rightarrow> worker_identity \<Rightarrow> db \<Rightarrow> scan_task option" where
  "leasedTask i w d = find (\<lambda>t. st_id t = i \<and> st_status t = TaskLeased \<and> st_leasedBy t = Some (wi_name w)) (db_scanTasks d)"

definition update_worker :: "string \<Rightarrow> (scan_worker \<Rightarrow> scan_worker) \<Rightarrow> db \<Rightarrow> db" where
  "update_worker name f d = d\<lparr>db_scanWorkers := map (\<lambda>w. if sw_name w = name then f w else w) (db_scanWorkers d)\<rparr>"

definition completeScanTask :: "scan_env \<Rightarrow> millis \<Rightarrow> string \<Rightarrow> worker_identity \<Rightarrow> finding list option \<Rightarrow> json \<Rightarrow> string option \<Rightarrow> db \<Rightarrow> bool \<times> db" where
  "completeScanTask E now i w findings raw scannerVersion d =
     (case leasedTask i w d of
        None \<Rightarrow> (False, d)
      | Some task \<Rightarrow>
        (let fs = (case findings of Some fs \<Rightarrow> fs | None \<Rightarrow> normalizeTrivyReport (se_lc E) (se_trivy E raw));
             d1 = finishScan E now (nullish (st_repositoryId task) []) (st_digest task)
                    \<lparr>res_findings = fs, res_raw = raw, res_scannerVersion = scannerVersion\<rparr> ''trivy'' d;
             d2 = update_task i (\<lambda>t. t\<lparr>st_status := TaskDone, st_lastError := None, st_updatedAt := now\<rparr>) d1
         in (True, update_worker (wi_name w) (\<lambda>x. x\<lparr>sw_completed := sw_completed x + 1, sw_lastSeenAt := now\<rparr>) d2)))"

definition failScanTask :: "millis \<Rightarrow> string \<Rightarrow> worker_identity \<Rightarrow> string \<Rightarrow> db \<Rightarrow> bool \<times> db" where
  "failScanTask now i w error d =
     (case leasedTask i w d of
        None \<Rightarrow> (False, d)
      | Some task \<Rightarrow>
        (let message = take 1000 error;
             d1 = (if MAX_ATTEMPTS \<le> st_attempts task
                then update_task i (\<lambda>t. t\<lparr>st_status := TaskFailed, st_lastError := Some message, st_updatedAt := now\<rparr>)
                       (setScanState now (st_digest task) (st_repositoryId task) (\<lambda>s. s\<lparr>vs_status := ScanFailed, vs_error := Some message\<rparr>) d)
                else update_task i (\<lambda>t. t\<lparr>st_status := TaskQueued, st_leasedBy := None, st_leaseUntil := None, st_lastError := Some message,
                       st_availableAt := now + 60000 * st_attempts task, st_updatedAt := now\<rparr>) d)
         in (True, update_worker (wi_name w) (\<lambda>x. x\<lparr>sw_failed := sw_failed x + 1, sw_lastError := Some message, sw_lastSeenAt := now\<rparr>) d1)))"

definition onlineWorkerCount :: "millis \<Rightarrow> db \<Rightarrow> nat" where
  "onlineWorkerCount now d = length (filter (\<lambda>w. now - WORKER_ONLINE_SECONDS * 1000 < sw_lastSeenAt w) (db_scanWorkers d))"

definition release :: "millis \<Rightarrow> scan_task \<Rightarrow> scan_task" where
  "release now t = t\<lparr>st_status := TaskQueued, st_leasedBy := None, st_leaseUntil := None, st_updatedAt := now,
     st_lastError := Some (nullish (st_lastError t) ''lease expired'')\<rparr>"

definition inline_lease :: "millis \<Rightarrow> scan_task \<Rightarrow> scan_task" where
  "inline_lease now t = t\<lparr>st_status := TaskLeased, st_leasedBy := Some ''web (inline)'', st_leaseUntil := Some (now + LEASE_MINUTES * 60000),
     st_attempts := st_attempts t + 1, st_updatedAt := now\<rparr>"

definition inline_scan :: "scan_env \<Rightarrow> millis \<Rightarrow> scan_task \<Rightarrow> db \<Rightarrow> db" where
  "inline_scan E now t d =
     update_task (st_id t) (\<lambda>x. x\<lparr>st_status := TaskDone, st_updatedAt := now\<rparr>)
       (runScan E now (st_repositoryPath t) (st_digest t) (update_task (st_id t) (inline_lease now) d))"

definition swept :: "millis \<Rightarrow> scan_task \<Rightarrow> bool" where
  "swept now t \<longleftrightarrow> (st_status t = TaskDone \<or> st_status t = TaskFailed) \<and> st_updatedAt t < now - 7 * 86400000"

definition dispatchScanTasks :: "scan_env \<Rightarrow> millis \<Rightarrow> db \<Rightarrow> (nat \<times> nat) \<times> db" where
  "dispatchScanTasks E now d =
     (let released = length (filter (lease_over now) (db_scanTasks d));
          d1 = d\<lparr>db_scanTasks := map (\<lambda>t. if lease_over now t then release now t else t) (db_scanTasks d)\<rparr>;
          rows = (if \<not> workersActive E \<or> onlineWorkerCount now d1 = 0
             then take INLINE_PER_TICK (oldest (filter (\<lambda>t. st_status t = TaskQueued \<and> st_availableAt t \<le> now) (db_scanTasks d1))) else []);
          d2 = fold (inline_scan E now) rows d1
      in ((released, length rows),
          d2\<lparr>db_scanTasks := filter (\<lambda>t. \<not> swept now t) (db_scanTasks d2),
             db_scanWorkers := filter (\<lambda>w. \<not> sw_lastSeenAt w < now - 30 * 86400000) (db_scanWorkers d2)\<rparr>))"

section \<open>Scanning again on request\<close>

definition rescan_manifest :: "scan_env \<Rightarrow> string \<Rightarrow> millis \<Rightarrow> repository \<Rightarrow> string \<Rightarrow> string \<Rightarrow> json \<Rightarrow> db \<Rightarrow> (bool \<times> string) option \<times> db" where
  \<comment> \<open>the part of \<open>queueRescan\<close> after the manifest is read\<close>
  "rescan_manifest E newId now repo orgSlug digest p d =
     (if (case json_field p ''manifests'' of Some (JArr _) \<Rightarrow> True | _ \<Rightarrow> False)
      then (Some (False, ''Multi-arch indexes are not scanned; their platform variants are.''), d)
      else (case isArtifactManifest p of
          None \<Rightarrow> (None, d)
        | Some True \<Rightarrow> (Some (False, ''Not scanned: this manifest carries no filesystem (an attestation, signature or SBOM).''), d)
        | Some False \<Rightarrow>
          if scanInProgress (map_option (\<lambda>s. (vs_status s, Some (vs_updatedAt s))) (find (\<lambda>s. vs_digest s = digest) (db_scans d))) now
          then (Some (False, ''A scan of this image is already running.''), d)
          else (Some (True, ''Scan queued; the result appears when it finishes.''),
                startScan E newId now (imagePath (Some orgSlug) (repo_name repo)) digest
                  (setScanState now digest (Some (repo_id repo)) (\<lambda>s. s\<lparr>vs_status := ScanPending, vs_error := None\<rparr>) d))))"

definition queueRescan :: "scan_env \<Rightarrow> string \<Rightarrow> millis \<Rightarrow> repository \<Rightarrow> string \<Rightarrow> string \<Rightarrow> db \<Rightarrow> (bool \<times> string) option \<times> db" where
  \<comment> \<open>with the scan that is started after the answer; \<open>None\<close> where reading the manifest throws; the arrow of the first message is spelled \<open>->\<close>\<close>
  "queueRescan E newId now repo orgSlug digest d =
     (if se_scanner E = None then (Some (False, ''Scanning is off (Administration -> Scanning).''), d)
      else (case find (\<lambda>m. man_repositoryId m = repo_id repo \<and> man_digest m = digest) (db_manifests d) of
          None \<Rightarrow> (Some (False, ''This image does not exist (anymore).''), d)
        | Some m \<Rightarrow>
          (let p = (case se_parse E (man_payload m) of None \<Rightarrow> JObj [] | Some v \<Rightarrow> v)
           in if p = JNull then (None, d) else rescan_manifest E newId now repo orgSlug digest p d)))"

section \<open>What the operations leave alone\<close>

lemma tasks_update_task: "db_scanTasks (update_task i f d) = map (\<lambda>t. if st_id t = i then f t else t) (db_scanTasks d)"
  by (simp add: update_task_def)

lemma tasks_setScanState [simp]: "db_scanTasks (setScanState now digest rid upd d) = db_scanTasks d"
  by (simp add: setScanState_def Let_def)

lemma tasks_replaceScanFindings [simp]: "db_scanTasks (replaceScanFindings digest fs d) = db_scanTasks d"
  by (simp add: replaceScanFindings_def)

lemma tasks_refresh [simp]: "db_scanTasks (snd (refreshRepositoryBlocks lc dec parse now rid quiet d)) = db_scanTasks d"
  by (simp add: refreshRepositoryBlocks_def Let_def split: option.split)

lemma tasks_finishScan [simp]: "db_scanTasks (finishScan E now rid digest result name d) = db_scanTasks d"
  by (simp add: finishScan_def storeScanResult_def)

lemma tasks_runScan [simp]: "db_scanTasks (runScan E now path digest d) = db_scanTasks d"
  by (simp add: runScan_def Let_def split: option.split json.split sum.split)

lemma tasks_heartbeat [simp]: "db_scanTasks (heartbeat now w running d) = db_scanTasks d"
  by (simp add: heartbeat_def)

lemma tasks_update_worker [simp]: "db_scanTasks (update_worker name f d) = db_scanTasks d"
  by (simp add: update_worker_def)

section \<open>The invariant of the queue\<close>

definition task_ok :: "scan_task \<Rightarrow> bool" where
  \<comment> \<open>who holds a lease and until when is known; a waiting task has no holder\<close>
  "task_ok t \<longleftrightarrow> (st_status t = TaskQueued \<longrightarrow> st_leasedBy t = None \<and> st_leaseUntil t = None) \<and>
     (st_status t = TaskLeased \<longrightarrow> st_leasedBy t \<noteq> None \<and> st_leaseUntil t \<noteq> None) \<and> 0 \<le> st_attempts t"

definition queue_inv :: "db \<Rightarrow> bool" where
  "queue_inv d \<longleftrightarrow> distinct (map st_id (db_scanTasks d)) \<and> distinct (map st_digest (db_scanTasks d)) \<and> list_all task_ok (db_scanTasks d)"

lemma queue_inv_map:
  assumes "queue_inv d" "db_scanTasks d' = map f (db_scanTasks d)"
    and "\<And>t. t \<in> set (db_scanTasks d) \<Longrightarrow> task_ok t \<Longrightarrow> st_id (f t) = st_id t \<and> st_digest (f t) = st_digest t \<and> task_ok (f t)"
  shows "queue_inv d'"
proof -
  have "map st_id (map f (db_scanTasks d)) = map st_id (db_scanTasks d)" "map st_digest (map f (db_scanTasks d)) = map st_digest (db_scanTasks d)"
    using assms(1, 3) by (auto simp: queue_inv_def list_all_iff)
  moreover have "list_all task_ok (map f (db_scanTasks d))" using assms(1, 3) by (auto simp: queue_inv_def list_all_iff)
  ultimately show ?thesis using assms(1) unfolding queue_inv_def assms(2) by metis
qed

lemma queue_inv_tasks: "queue_inv d \<Longrightarrow> db_scanTasks d' = db_scanTasks d \<Longrightarrow> queue_inv d'"
  by (simp add: queue_inv_def)

lemma queue_inv_filter: "queue_inv d \<Longrightarrow> db_scanTasks d' = filter P (db_scanTasks d) \<Longrightarrow> queue_inv d'"
  by (auto simp: queue_inv_def list_all_iff distinct_map_filter)

definition keeps_tasks_ok :: "(scan_task \<Rightarrow> scan_task) \<Rightarrow> bool" where
  "keeps_tasks_ok f \<longleftrightarrow> (\<forall>t. task_ok t \<longrightarrow> st_id (f t) = st_id t \<and> st_digest (f t) = st_digest t \<and> task_ok (f t))"

lemma queue_inv_update_task: "queue_inv d \<Longrightarrow> keeps_tasks_ok f \<Longrightarrow> queue_inv (update_task i f d)"
  by (rule queue_inv_map [OF _ tasks_update_task]) (auto simp: keeps_tasks_ok_def)

text \<open>Every write of the queue is of this kind.\<close>

lemma task_writes [simp]:
  "keeps_tasks_ok (lease now n)" "keeps_tasks_ok (give_up now)" "keeps_tasks_ok (release now)" "keeps_tasks_ok (inline_lease now)"
  "keeps_tasks_ok (\<lambda>t. t\<lparr>st_status := TaskDone, st_lastError := e, st_updatedAt := now\<rparr>)"
  "keeps_tasks_ok (\<lambda>t. t\<lparr>st_status := TaskDone, st_updatedAt := now\<rparr>)"
  "keeps_tasks_ok (\<lambda>t. t\<lparr>st_status := TaskFailed, st_lastError := e, st_updatedAt := now\<rparr>)"
  "keeps_tasks_ok (\<lambda>t. t\<lparr>st_status := TaskQueued, st_leasedBy := None, st_leaseUntil := None, st_lastError := e, st_availableAt := a, st_updatedAt := now\<rparr>)"
  by (simp_all add: keeps_tasks_ok_def task_ok_def lease_def give_up_def release_def inline_lease_def)

section \<open>Leases\<close>

definition leased_to :: "string \<Rightarrow> string \<Rightarrow> string \<Rightarrow> millis \<Rightarrow> scan_task \<Rightarrow> bool" where
  "leased_to i digest n u t \<longleftrightarrow>
     st_id t = i \<and> st_digest t = digest \<and> st_status t = TaskLeased \<and> st_leasedBy t = Some n \<and> st_leaseUntil t = Some u"

definition held :: "string \<Rightarrow> string \<Rightarrow> string \<Rightarrow> millis \<Rightarrow> db \<Rightarrow> bool" where
  "held i digest n u d \<longleftrightarrow> queue_inv d \<and> list_ex (leased_to i digest n u) (db_scanTasks d)"

lemma held_the_task:
  assumes "held i digest n u d" "t \<in> set (db_scanTasks d)" "st_id t = i"
  shows "leased_to i digest n u t"
  using assms by (auto simp: held_def queue_inv_def list_ex_iff leased_to_def distinct_map dest: inj_onD)

lemma held_the_digest:
  assumes "held i digest n u d" "t \<in> set (db_scanTasks d)" "st_digest t = digest"
  shows "leased_to i digest n u t"
proof -
  obtain t' where t': "t' \<in> set (db_scanTasks d)" "leased_to i digest n u t'" using assms(1) by (auto simp: held_def list_ex_iff)
  then have "t' = t" using assms by (auto simp: held_def queue_inv_def leased_to_def distinct_map dest: inj_onD)
  then show ?thesis using t' by simp
qed

lemma held_update_other:
  assumes "held i digest n u d" "keeps_tasks_ok f" "j \<noteq> i"
  shows "held i digest n u (update_task j f d)"
proof -
  have "queue_inv (update_task j f d)" using assms by (simp add: held_def queue_inv_update_task)
  moreover have "list_ex (leased_to i digest n u) (db_scanTasks (update_task j f d))"
    using assms(1, 3) by (force simp: held_def list_ex_iff tasks_update_task leased_to_def)
  ultimately show ?thesis by (simp add: held_def)
qed

lemma held_tasks: "held i digest n u d \<Longrightarrow> db_scanTasks d' = db_scanTasks d \<Longrightarrow> held i digest n u d'"
  unfolding held_def queue_inv_def by simp

lemma held_not_due: "held i digest n u d \<Longrightarrow> now \<le> u \<Longrightarrow> t \<in> set (db_scanTasks d) \<Longrightarrow> due now t \<Longrightarrow> st_id t \<noteq> i"
  by (auto dest: held_the_task simp: leased_to_def due_def lease_over_def)

text \<open>What claiming does to the database is a chain of writes to tasks that are due.\<close>

lemma give_up_after_lease: "update_task i (give_up now) (update_task i (lease now n) d) = update_task i (give_up now \<circ> lease now n) d"
  by (simp add: update_task_def lease_def)

lemma keeps_tasks_ok_comp: "keeps_tasks_ok f \<Longrightarrow> keeps_tasks_ok g \<Longrightarrow> keeps_tasks_ok (f \<circ> g)"
  by (simp add: keeps_tasks_ok_def)

lemma claim_keeps:
  assumes "Q d"
    and upd: "\<And>d t f. Q d \<Longrightarrow> t \<in> set (db_scanTasks d) \<Longrightarrow> due now t \<Longrightarrow> keeps_tasks_ok f \<Longrightarrow> Q (update_task (st_id t) f d)"
    and same: "\<And>d d'. Q d \<Longrightarrow> db_scanTasks d' = db_scanTasks d \<Longrightarrow> Q d'"
  shows "Q (snd (claimScanTask E now w d))"
  using assms
proof (induction E now w d rule: claimScanTask.induct)
  case (1 E now w d)
  note Q = 1(2) and upd = 1(3) and same = 1(4)
  show ?case
  proof (cases "oldest (filter (due now) (db_scanTasks d))")
    case Nil
    then show ?thesis using Q by (simp add: claimScanTask.simps)
  next
    case (Cons t rest)
    let ?d1 = "update_task (st_id t) (lease now (wi_name w)) d"
    have t: "t \<in> set (db_scanTasks d)" "due now t" using Cons oldest_mem by blast+
    have d1: "Q ?d1" using upd Q t by simp
    have "Q (update_task (st_id t) (give_up now \<circ> lease now (wi_name w)) d)" 
      by (intro upd [OF Q t] keeps_tasks_ok_comp task_writes)
    then have "scanTarget E ?d1 (st_repositoryPath t) (st_digest t) = Some None \<Longrightarrow>
        Q (snd (claimScanTask E now w (update_task (st_id t) (give_up now) ?d1)))"
      using 1(1) [OF Cons refl] upd same by (simp add: give_up_after_lease)
    moreover have "Q (setScanState now dg rid g ?d1)" for dg rid g using same [OF d1] by simp
    ultimately show ?thesis using d1
      by (subst claimScanTask.simps) (auto simp: Cons Let_def split: option.split)
  qed
qed

lemma queue_inv_claim: "queue_inv d \<Longrightarrow> queue_inv (snd (claimScanTask E now w d))"
  by (erule claim_keeps) (auto intro: queue_inv_update_task queue_inv_tasks)

lemma held_claim: "held i digest n u d \<Longrightarrow> now \<le> u \<Longrightarrow> held i digest n u (snd (claimScanTask E now w d))"
  by (erule claim_keeps) (blast intro: held_update_other held_tasks dest: held_not_due)+

lemma held_after_lease:
  assumes "queue_inv d" "t \<in> set (db_scanTasks d)"
  shows "held (st_id t) (st_digest t) n (now + LEASE_MINUTES * 60000) (update_task (st_id t) (lease now n) d)"
proof -
  have "list_ex (leased_to (st_id t) (st_digest t) n (now + LEASE_MINUTES * 60000)) (db_scanTasks (update_task (st_id t) (lease now n) d))"
    unfolding list_ex_iff tasks_update_task using assms(2) by (intro bexI [of _ "lease now n t"]) (auto simp: leased_to_def lease_def)
  then show ?thesis using assms(1) by (simp add: held_def queue_inv_update_task)
qed

lemma claim_handed_step:
  assumes "claimScanTask E now w d = (Inr (Some p), d')"
  obtains t where "t \<in> set (db_scanTasks d)" "due now t"
    "tp_id p = st_id t \<and> tp_digest p = st_digest t \<and> db_scanTasks d' = db_scanTasks (update_task (st_id t) (lease now (wi_name w)) d) \<or>
     (\<exists>rest. oldest (filter (due now) (db_scanTasks d)) = t # rest) \<and>
     scanTarget E (update_task (st_id t) (lease now (wi_name w)) d) (st_repositoryPath t) (st_digest t) = Some None \<and>
     claimScanTask E now w (update_task (st_id t) (give_up now) (update_task (st_id t) (lease now (wi_name w)) d)) = (Inr (Some p), d')"
proof (cases "oldest (filter (due now) (db_scanTasks d))")
  case Nil
  then show ?thesis using assms by (simp add: claimScanTask.simps)
next
  case (Cons t rest)
  have "t \<in> set (db_scanTasks d)" "due now t" using Cons oldest_mem by blast+
  then show ?thesis using assms
    by (subst (asm) claimScanTask.simps) (auto simp: Cons Let_def split: option.splits intro: that [of t])
qed

lemma claim_handed:
  assumes "claimScanTask E now w d = (Inr (Some p), d')" and "Q d"
    and upd: "\<And>d t f. Q d \<Longrightarrow> t \<in> set (db_scanTasks d) \<Longrightarrow> due now t \<Longrightarrow> keeps_tasks_ok f \<Longrightarrow> Q (update_task (st_id t) f d)"
  shows "\<exists>d0 t. Q d0 \<and> t \<in> set (db_scanTasks d0) \<and> due now t \<and> tp_id p = st_id t \<and> tp_digest p = st_digest t \<and>
     db_scanTasks d' = db_scanTasks (update_task (st_id t) (lease now (wi_name w)) d0)"
  using assms
proof (induction E now w d rule: claimScanTask.induct)
  case (1 E now w d)
  obtain t where t: "t \<in> set (db_scanTasks d)" "due now t"
    and next': "tp_id p = st_id t \<and> tp_digest p = st_digest t \<and> db_scanTasks d' = db_scanTasks (update_task (st_id t) (lease now (wi_name w)) d) \<or>
     (\<exists>rest. oldest (filter (due now) (db_scanTasks d)) = t # rest) \<and>
     scanTarget E (update_task (st_id t) (lease now (wi_name w)) d) (st_repositoryPath t) (st_digest t) = Some None \<and>
     claimScanTask E now w (update_task (st_id t) (give_up now) (update_task (st_id t) (lease now (wi_name w)) d)) = (Inr (Some p), d')"
    using 1(2) by (rule claim_handed_step)
  have "Q (update_task (st_id t) (give_up now) (update_task (st_id t) (lease now (wi_name w)) d))"
    unfolding give_up_after_lease by (intro 1(4) 1(3) t keeps_tasks_ok_comp task_writes)
  with next' show ?case using 1(1) [OF _ refl] 1(3, 4) t by blast
qed

lemma claim_holds:
  assumes "claimScanTask E now w d = (Inr (Some p), d')" and "queue_inv d"
  shows "held (tp_id p) (tp_digest p) (wi_name w) (now + LEASE_MINUTES * 60000) d'"
  using claim_handed [of E now w d p d' queue_inv, OF assms] held_after_lease held_tasks
  by (metis queue_inv_update_task)

lemma claim_only_due:
  assumes "claimScanTask E now w d = (Inr (Some p), d')" and "queue_inv d" and "\<And>t. t \<in> set (db_scanTasks d) \<Longrightarrow> st_id t = i \<Longrightarrow> \<not> due now t"
  shows "tp_id p \<noteq> i"
proof -
  let ?Q = "\<lambda>d. queue_inv d \<and> (\<forall>t \<in> set (db_scanTasks d). st_id t = i \<longrightarrow> \<not> due now t)"
  have upd: "?Q (update_task (st_id t) f d)" if "?Q d" "t \<in> set (db_scanTasks d)" "due now t" "keeps_tasks_ok f" for d t f
  proof
    show "queue_inv (update_task (st_id t) f d)" using that by (simp add: queue_inv_update_task)
    show "\<forall>t' \<in> set (db_scanTasks (update_task (st_id t) f d)). st_id t' = i \<longrightarrow> \<not> due now t'"
      using that by (auto simp: tasks_update_task keeps_tasks_ok_def queue_inv_def list_all_iff)
  qed
  have "?Q d" using assms(2, 3) by blast
  then obtain d0 t where "?Q d0" "t \<in> set (db_scanTasks d0)" "due now t" "tp_id p = st_id t"
    using claim_handed [of E now w d p d' ?Q, OF assms(1)] upd by blast
  then show ?thesis by metis
qed

lemma claim_spares_held:
  assumes "claimScanTask E now w d = (Inr (Some p), d')" and "held i digest n u d" and "now \<le> u"
  shows "tp_id p \<noteq> i"
proof (rule claim_only_due [OF assms(1)])
  show "queue_inv d" using assms(2) by (simp add: held_def)
qed (use assms(2, 3) held_not_due in blast)

section \<open>The other operations\<close>

lemma leasedTask_find: "leasedTask i w d = Some t \<Longrightarrow> t \<in> set (db_scanTasks d) \<and> st_id t = i \<and> st_leasedBy t = Some (wi_name w)"
  by (auto simp: leasedTask_def find_Some_iff)

lemma held_leasedTask:
  assumes "held i digest n u d"
  shows "leasedTask i w d \<noteq> None \<longleftrightarrow> wi_name w = n"
proof
  assume "leasedTask i w d \<noteq> None"
  then obtain t where "leasedTask i w d = Some t" by blast
  with assms show "wi_name w = n" using held_the_task [OF assms] leasedTask_find by (fastforce simp: leased_to_def)
next
  assume "wi_name w = n"
  with assms show "leasedTask i w d \<noteq> None" by (auto simp: leasedTask_def find_None_iff held_def list_ex_iff leased_to_def)
qed

lemma report_writes:
  "\<exists>f. keeps_tasks_ok f \<and> db_scanTasks (snd (completeScanTask E now j w fs raw v d)) = db_scanTasks (update_task j f d)"
  if "leasedTask j w d \<noteq> None" for j
  using that by (auto simp: completeScanTask_def Let_def tasks_update_task intro!: exI [of _ "\<lambda>t. t\<lparr>st_status := TaskDone, st_lastError := None, st_updatedAt := now\<rparr>"])

lemma fail_writes:
  assumes "leasedTask j w d \<noteq> None"
  shows "\<exists>f. keeps_tasks_ok f \<and> db_scanTasks (snd (failScanTask now j w e d)) = db_scanTasks (update_task j f d)"
proof -
  obtain t where t: "leasedTask j w d = Some t" using assms by blast
  let ?m = "Some (take 1000 e)"
  let ?f = "if MAX_ATTEMPTS \<le> st_attempts t then (\<lambda>t. t\<lparr>st_status := TaskFailed, st_lastError := ?m, st_updatedAt := now\<rparr>)
    else (\<lambda>x. x\<lparr>st_status := TaskQueued, st_leasedBy := None, st_leaseUntil := None, st_lastError := ?m,
       st_availableAt := now + 60000 * st_attempts t, st_updatedAt := now\<rparr>)"
  have "db_scanTasks (snd (failScanTask now j w e d)) = db_scanTasks (update_task j ?f d)"
    by (simp add: failScanTask_def Let_def t tasks_update_task)
  then show ?thesis by (intro exI [of _ ?f]) simp
qed

lemma report_refused: "leasedTask j w d = None \<Longrightarrow> completeScanTask E now j w fs raw v d = (False, d) \<and> failScanTask now j w e d = (False, d)"
  by (simp add: completeScanTask_def failScanTask_def)

text \<open>A set of databases closed under writes to tasks that are not its own is closed under reports on them.\<close>

lemma report_keeps:
  assumes "Q d" and "\<And>f. keeps_tasks_ok f \<Longrightarrow> leasedTask j w d \<noteq> None \<Longrightarrow> Q (update_task j f d)"
    and same: "\<And>d d'. Q d \<Longrightarrow> db_scanTasks d' = db_scanTasks d \<Longrightarrow> Q d'"
  shows "Q (snd (completeScanTask E now j w fs raw v d))" "Q (snd (failScanTask now j w e d))"
proof -
  have "Q (snd (completeScanTask E now j w fs raw v d)) \<and> Q (snd (failScanTask now j w e d))"
  proof (cases "leasedTask j w d")
    case None
    then show ?thesis using assms(1) report_refused by simp
  next
    case (Some t)
    then have "leasedTask j w d \<noteq> None" by simp
    with assms show ?thesis using report_writes fail_writes by metis
  qed
  then show "Q (snd (completeScanTask E now j w fs raw v d))" "Q (snd (failScanTask now j w e d))" by simp_all
qed

lemma tasks_inline_scan:
  "db_scanTasks (inline_scan E now t d) = db_scanTasks (update_task (st_id t) ((\<lambda>x. x\<lparr>st_status := TaskDone, st_updatedAt := now\<rparr>) \<circ> inline_lease now) d)"
  by (simp add: inline_scan_def tasks_update_task inline_lease_def)

lemma dispatch_keeps:
  assumes "Q d"
    and rel: "\<And>d d'. Q d \<Longrightarrow> db_scanTasks d' = map (\<lambda>t. if lease_over now t then release now t else t) (db_scanTasks d) \<Longrightarrow> Q d'"
    and upd: "\<And>d t f. Q d \<Longrightarrow> R t \<Longrightarrow> keeps_tasks_ok f \<Longrightarrow> Q (update_task (st_id t) f d)"
    and R: "\<And>d t. Q d \<Longrightarrow> t \<in> set (db_scanTasks d) \<Longrightarrow> st_status t = TaskQueued \<Longrightarrow> R t"
    and sweep: "\<And>d d'. Q d \<Longrightarrow> db_scanTasks d' = filter (\<lambda>t. \<not> swept now t) (db_scanTasks d) \<Longrightarrow> Q d'"
    and same: "\<And>d d'. Q d \<Longrightarrow> db_scanTasks d' = db_scanTasks d \<Longrightarrow> Q d'"
  shows "Q (snd (dispatchScanTasks E now d))"
proof -
  let ?d1 = "d\<lparr>db_scanTasks := map (\<lambda>t. if lease_over now t then release now t else t) (db_scanTasks d)\<rparr>"
  let ?rows = "if \<not> workersActive E \<or> onlineWorkerCount now ?d1 = 0
     then take INLINE_PER_TICK (oldest (filter (\<lambda>t. st_status t = TaskQueued \<and> st_availableAt t \<le> now) (db_scanTasks ?d1))) else []"
  have Q1: "Q ?d1" by (rule rel [OF assms(1)]) simp
  have "list_all R ?rows" using R [OF Q1] by (auto simp: list_all_iff oldest_def dest!: in_set_takeD)
  moreover have "list_all R rows \<Longrightarrow> Q d' \<Longrightarrow> Q (fold (inline_scan E now) rows d')" for rows d'
  proof (induction rows arbitrary: d')
    case (Cons t rows)
    have "Q (inline_scan E now t d')"
      using Cons.prems by (intro same [OF _ tasks_inline_scan] upd keeps_tasks_ok_comp task_writes) simp_all
    then show ?case using Cons by simp
  qed simp
  ultimately have "Q (fold (inline_scan E now) ?rows ?d1)" using Q1 by blast
  then show ?thesis unfolding dispatchScanTasks_def Let_def snd_conv by (rule sweep) simp
qed

definition requeued :: "millis \<Rightarrow> string \<Rightarrow> string \<Rightarrow> scan_task \<Rightarrow> scan_task" where
  "requeued now path rid t = t\<lparr>st_repositoryId := Some rid, st_repositoryPath := path, st_status := TaskQueued, st_attempts := 0,
     st_availableAt := now, st_leasedBy := None, st_leaseUntil := None, st_lastError := None, st_updatedAt := now\<rparr>"

lemma tasks_enqueueScan:
  "db_scanTasks (enqueueScan newId now path dg rid d) =
     (if dg \<in> st_digest ` set (db_scanTasks d) then map (\<lambda>t. if st_digest t = dg then requeued now path rid t else t) (db_scanTasks d)
      else db_scanTasks d @ [\<lparr>st_id = newId, st_digest = dg, st_repositoryId = Some rid, st_repositoryPath = path,
         st_status = TaskQueued, st_attempts = 0, st_availableAt = now, st_leasedBy = None, st_leaseUntil = None, st_lastError = None,
         st_createdAt = now, st_updatedAt = now\<rparr>])"
  by (auto simp: enqueueScan_def Let_def list_ex_iff requeued_def)

lemma queue_inv_enqueue:
  assumes "queue_inv d" "newId \<notin> st_id ` set (db_scanTasks d)"
  shows "queue_inv (enqueueScan newId now path dg rid d)"
proof (cases "dg \<in> st_digest ` set (db_scanTasks d)")
  case True
  then show ?thesis
    by (intro queue_inv_map [OF assms(1), of _ "\<lambda>t. if st_digest t = dg then requeued now path rid t else t"])
      (simp_all add: tasks_enqueueScan requeued_def task_ok_def)
next
  case False
  then show ?thesis using assms by (auto simp: queue_inv_def tasks_enqueueScan task_ok_def)
qed

lemma held_enqueue:
  assumes "held i digest n u d" "newId \<notin> st_id ` set (db_scanTasks d)" "dg \<noteq> digest"
  shows "held i digest n u (enqueueScan newId now path dg rid d)"
proof -
  obtain t where t: "t \<in> set (db_scanTasks d)" "leased_to i digest n u t" using assms(1) by (auto simp: held_def list_ex_iff)
  then have "t \<in> set (db_scanTasks (enqueueScan newId now path dg rid d))"
    using assms(3) by (force simp: tasks_enqueueScan leased_to_def)
  with t show ?thesis using assms by (auto simp: held_def list_ex_iff queue_inv_enqueue)
qed

lemma start_keeps:
  assumes "Q d" and "\<And>rid d'. Q d' \<Longrightarrow> db_scanTasks d' = db_scanTasks d \<Longrightarrow> Q (enqueueScan newId now path dg rid d')"
    and same: "\<And>d d'. Q d \<Longrightarrow> db_scanTasks d' = db_scanTasks d \<Longrightarrow> Q d'"
  shows "Q (startScan E newId now path dg d)"
proof -
  have "Q (runScan E now path dg d)" using same [OF assms(1)] by simp
  then show ?thesis using assms(1, 2) by (auto simp: startScan_def split: option.split)
qed

lemma rescan_keeps:
  assumes "Q d" and "\<And>path d'. db_scanTasks d' = db_scanTasks d \<Longrightarrow> Q (startScan E newId now path dg d')"
  shows "Q (snd (queueRescan E newId now repo slug dg d))"
proof -
  have "Q (snd (rescan_manifest E newId now repo slug dg p d))" for p
    using assms(1) assms(2) [OF tasks_setScanState] unfolding rescan_manifest_def by (auto split: option.split bool.split)
  then show ?thesis using assms(1) by (simp add: queueRescan_def Let_def split: option.split)
qed

section \<open>The queue as a state machine\<close>

datatype queue_event =
    EvStart millis string
  | EvBeat millis
  | EvClaim millis
  | EvReport millis string string
  | EvTick millis

inductive queue_step :: "scan_env \<Rightarrow> queue_event \<Rightarrow> db \<Rightarrow> db \<Rightarrow> bool" for E where
  pushed: "newId \<notin> st_id ` set (db_scanTasks d) \<Longrightarrow> queue_step E (EvStart now digest) d (startScan E newId now path digest d)"
| rescan: "newId \<notin> st_id ` set (db_scanTasks d) \<Longrightarrow> queue_step E (EvStart now digest) d (snd (queueRescan E newId now repo slug digest d))"
| beat: "queue_step E (EvBeat now) d (heartbeat now w running d)"
| claim: "queue_step E (EvClaim now) d (snd (claimScanTask E now w d))"
| complete: "queue_step E (EvReport now j (wi_name w)) d (snd (completeScanTask E now j w fs raw v d))"
| fail: "queue_step E (EvReport now j (wi_name w)) d (snd (failScanTask now j w e d))"
| tick: "queue_step E (EvTick now) d (snd (dispatchScanTasks E now d))"

fun spares :: "string \<Rightarrow> string \<Rightarrow> string \<Rightarrow> millis \<Rightarrow> queue_event \<Rightarrow> bool" where
  \<comment> \<open>the events during the lease of task \<open>i\<close> by worker \<open>n\<close> until \<open>u\<close> that are neither its holder's report nor a new push of the digest\<close>
  "spares i digest n u (EvStart now dg) \<longleftrightarrow> dg \<noteq> digest"
| "spares i digest n u (EvBeat now) \<longleftrightarrow> True"
| "spares i digest n u (EvClaim now) \<longleftrightarrow> now \<le> u"
| "spares i digest n u (EvReport now j m) \<longleftrightarrow> \<not> (j = i \<and> m = n)"
| "spares i digest n u (EvTick now) \<longleftrightarrow> now \<le> u"

lemma queue_inv_step: "queue_step E ev d d' \<Longrightarrow> queue_inv d \<Longrightarrow> queue_inv d'"
proof (induction rule: queue_step.induct)
  case (pushed newId d now digest path)
  then show ?case by (intro start_keeps [of queue_inv]) (auto intro: queue_inv_enqueue queue_inv_tasks)
next
  case (rescan newId d now digest repo slug)
  have "queue_inv (startScan E newId now path digest d')" if "db_scanTasks d' = db_scanTasks d" for path d'
    using rescan that by (intro start_keeps [of queue_inv]) (auto intro: queue_inv_enqueue queue_inv_tasks)
  then show ?case by (rule rescan_keeps [of queue_inv, OF rescan(2)])
next
  case (beat now d w running)
  then show ?case by (rule queue_inv_tasks) simp
next
  case (claim now d w)
  then show ?case by (rule queue_inv_claim)
next
  case (complete now j w d fs raw v)
  show ?case by (rule report_keeps(1) [of queue_inv, OF complete queue_inv_update_task [OF complete] queue_inv_tasks])
next
  case (fail now j w d e)
  show ?case by (rule report_keeps(2) [of queue_inv, OF fail queue_inv_update_task [OF fail] queue_inv_tasks])
next
  case (tick now d)
  have rel: "queue_inv d'" if "queue_inv d" "db_scanTasks d' = map (\<lambda>t. if lease_over now t then release now t else t) (db_scanTasks d)" for d d'
    using that task_writes(3) by (intro queue_inv_map [OF that]) (auto simp: keeps_tasks_ok_def)
  show ?case using tick
    by (rule dispatch_keeps [where R = "\<lambda>_. True"]) (auto intro: rel queue_inv_update_task queue_inv_tasks queue_inv_filter)
qed

lemma held_step:
  assumes "queue_step E ev d d'" "spares i digest n u ev" "held i digest n u d"
  shows "held i digest n u d'"
  using assms
proof (induction rule: queue_step.induct)
  case (pushed newId d now dg path)
  then show ?case by (intro start_keeps [of "held i digest n u"]) (auto intro: held_enqueue held_tasks)
next
  case (rescan newId d now dg repo slug)
  have "held i digest n u (startScan E newId now path dg d')" if "db_scanTasks d' = db_scanTasks d" for path d'
    using rescan that by (intro start_keeps [of "held i digest n u"]) (auto intro: held_enqueue held_tasks)
  then show ?case by (rule rescan_keeps [of "held i digest n u", OF rescan(3)])
next
  case (beat now d w running)
  then show ?case by (intro held_tasks [OF _ tasks_heartbeat])
next
  case (claim now d w)
  then show ?case by (simp add: held_claim)
next
  case (complete now j w d fs raw v)
  have "held i digest n u (update_task j f d)" if "keeps_tasks_ok f" "leasedTask j w d \<noteq> None" for f
    using complete that held_leasedTask [OF complete(2)] by (intro held_update_other) auto
  then show ?case by (rule report_keeps(1) [of "held i digest n u", OF complete(2) _ held_tasks])
next
  case (fail now j w d e)
  have "held i digest n u (update_task j f d)" if "keeps_tasks_ok f" "leasedTask j w d \<noteq> None" for f
    using fail that held_leasedTask [OF fail(2)] by (intro held_update_other) auto
  then show ?case by (rule report_keeps(2) [of "held i digest n u", OF fail(2) _ held_tasks])
next
  case (tick now d)
  then have u: "now \<le> u" by simp
  have rel: "held i digest n u d'"
    if "held i digest n u d" and t: "db_scanTasks d' = map (\<lambda>t. if lease_over now t then release now t else t) (db_scanTasks d)" for d d'
  proof -
    have "leased_to i digest n u t \<Longrightarrow> \<not> lease_over now t" for t using u by (simp add: leased_to_def lease_over_def)
    then have "list_ex (leased_to i digest n u) (db_scanTasks d')" using that by (force simp: held_def list_ex_iff)
    moreover have "queue_inv d'"
      using that task_writes(3) by (intro queue_inv_map [OF _ t]) (auto simp: keeps_tasks_ok_def held_def)
    ultimately show ?thesis by (simp add: held_def)
  qed
  have sweep: "held i digest n u d'" if "held i digest n u d" "db_scanTasks d' = filter (\<lambda>t. \<not> swept now t) (db_scanTasks d)" for d d'
    using that by (auto simp: held_def list_ex_iff leased_to_def swept_def intro: queue_inv_filter)
  have queued: "st_id t \<noteq> i" if "held i digest n u d" "t \<in> set (db_scanTasks d)" "st_status t = TaskQueued" for d t
    using held_the_task that by (fastforce simp: leased_to_def)
  show ?case
    by (rule dispatch_keeps [of "held i digest n u" d now "\<lambda>t. st_id t \<noteq> i", OF tick(2) rel held_update_other queued sweep held_tasks])
qed

interpretation queue_runs: step_invariant "\<lambda>d d'. \<exists>ev. queue_step E ev d d'" queue_inv for E
  by unfold_locales (blast intro: queue_inv_step)

interpretation lease_runs: step_invariant "\<lambda>d d'. \<exists>ev. spares i digest n u ev \<and> queue_step E ev d d'" "held i digest n u" for E i digest n u
  by unfold_locales (blast intro: held_step)

text \<open>
  Whatever pushes, rescans, heartbeats, claims, reports and scheduler ticks do, in any order and at any time, the queue has
  one task per digest, task ids stay unique, a waiting task has no holder and a leased one has a holder and an end of its lease.
\<close>
theorem queue_consistent:
  assumes "(\<lambda>d d'. \<exists>ev. queue_step E ev d d')\<^sup>*\<^sup>* d d'" and "queue_inv d"
  shows "queue_inv d'"
  using queue_runs.along_run [OF assms] .

theorem queue_consistent_witness: "queue_inv (heartbeat 0 \<lparr>wi_name = ''w'', wi_hostname = None, wi_version = None, wi_scannerVersion = None\<rparr> 0 empty_db)"
proof -
  fix E
  have "(\<lambda>d d'. \<exists>ev. queue_step E ev d d')\<^sup>*\<^sup>* empty_db
      (heartbeat 0 \<lparr>wi_name = ''w'', wi_hostname = None, wi_version = None, wi_scannerVersion = None\<rparr> 0 empty_db)"
    by (intro r_into_rtranclp exI [of _ "EvBeat 0"] queue_step.beat)
  moreover have "queue_inv empty_db" by (simp add: queue_inv_def empty_db_def)
  ultimately show ?thesis by (rule queue_consistent)
qed

lemma leasedTask_NoneI: "(\<And>t. t \<in> set (db_scanTasks d) \<Longrightarrow> st_id t = j \<Longrightarrow> st_status t \<noteq> TaskLeased) \<Longrightarrow> leasedTask j w d = None"
  by (auto simp: leasedTask_def find_None_iff)

lemma tasks_complete:
  "leasedTask j w d = Some t \<Longrightarrow> db_scanTasks (snd (completeScanTask E now j w fs raw v d)) =
     map (\<lambda>t. if st_id t = j then t\<lparr>st_status := TaskDone, st_lastError := None, st_updatedAt := now\<rparr> else t) (db_scanTasks d)"
  by (simp add: completeScanTask_def Let_def tasks_update_task)

lemma tasks_fail:
  "leasedTask j w d = Some t \<Longrightarrow> db_scanTasks (snd (failScanTask now j w e d)) =
     (if MAX_ATTEMPTS \<le> st_attempts t
      then map (\<lambda>t. if st_id t = j then t\<lparr>st_status := TaskFailed, st_lastError := Some (take 1000 e), st_updatedAt := now\<rparr> else t) (db_scanTasks d)
      else map (\<lambda>x. if st_id x = j then x\<lparr>st_status := TaskQueued, st_leasedBy := None, st_leaseUntil := None, st_lastError := Some (take 1000 e),
             st_availableAt := now + 60000 * st_attempts t, st_updatedAt := now\<rparr> else x) (db_scanTasks d))"
  by (simp add: failScanTask_def Let_def tasks_update_task)

lemma written_task:
  assumes "db_scanTasks d' = map (\<lambda>t. if st_id t = j then f t else t) ts" and "\<And>t. P (f t)" and "t \<in> set (db_scanTasks d')" "st_id t = j"
  shows "P t"
  using assms by (auto split: if_splits)

lemma leasedTask_after_write:
  assumes "db_scanTasks d' = map (\<lambda>t. if st_id t = j then f t else t) ts" and "\<And>t. st_status (f t) \<noteq> TaskLeased"
  shows "leasedTask j w d' = None"
proof (rule leasedTask_NoneI)
  show "st_status t \<noteq> TaskLeased" if "t \<in> set (db_scanTasks d')" "st_id t = j" for t
    using written_task [where P = "\<lambda>t. st_status t \<noteq> TaskLeased", OF assms that] .
qed

lemma claim_spares_written:
  assumes "claimScanTask E now w d = (Inr (Some p), d')" "queue_inv d"
    and "db_scanTasks d = map (\<lambda>t. if st_id t = i then f t else t) ts" and "\<And>t. \<not> due now (f t)"
  shows "tp_id p \<noteq> i"
proof (rule claim_only_due [OF assms(1, 2)])
  show "\<not> due now t" if "t \<in> set (db_scanTasks d)" "st_id t = i" for t
    using written_task [where P = "\<lambda>t. \<not> due now t", OF assms(3, 4) that] .
qed

lemma no_second_report:
  assumes "leasedTask j w d \<noteq> None"
  shows "leasedTask j w' (snd (completeScanTask E now j w fs raw v d)) = None" "leasedTask j w' (snd (failScanTask now j w e d)) = None"
proof -
  obtain t where t: "leasedTask j w d = Some t" using assms by blast
  show "leasedTask j w' (snd (completeScanTask E now j w fs raw v d)) = None"
    by (rule leasedTask_after_write [OF tasks_complete [OF t]]) simp
  show "leasedTask j w' (snd (failScanTask now j w e d)) = None"
  proof (cases "MAX_ATTEMPTS \<le> st_attempts t")
    case True
    show ?thesis by (rule leasedTask_after_write [OF tasks_fail [OF t, unfolded if_P [OF True]]]) simp
  next
    case False
    show ?thesis by (rule leasedTask_after_write [OF tasks_fail [OF t, unfolded if_not_P [OF False]]]) simp
  qed
qed

text \<open>
  C30. A claimed task belongs to its worker for the twenty minutes of its lease: after any sequence of steps of the others (other
  pushes, claims, reports of other workers or on other tasks, scheduler ticks before the end of the lease) no claim hands out that
  task, a report by another worker name is refused without effect, and the holder's own result is accepted; after it, and
  likewise after its failure, a second report is refused.
\<close>
theorem lease_exclusive:
  assumes "claimScanTask E now w d = (Inr (Some p), d1)" and "queue_inv d"
    and "(\<lambda>d d'. \<exists>ev. spares (tp_id p) (tp_digest p) (wi_name w) (now + 1200000) ev \<and> queue_step E ev d d')\<^sup>*\<^sup>* d1 d2"
  shows "(\<forall>later w' q d3. later \<le> now + 1200000 \<and> claimScanTask E later w' d2 = (Inr (Some q), d3) \<longrightarrow> tp_id q \<noteq> tp_id p) \<and>
    (wi_name w' \<noteq> wi_name w \<longrightarrow> completeScanTask E later (tp_id p) w' fs raw v d2 = (False, d2) \<and> failScanTask later (tp_id p) w' e d2 = (False, d2)) \<and>
    fst (completeScanTask E later (tp_id p) w fs raw v d2) \<and>
    (\<forall>d3 \<in> {snd (completeScanTask E later (tp_id p) w fs raw v d2), snd (failScanTask later (tp_id p) w e d2)}.
       completeScanTask E again (tp_id p) w' fs' raw' v' d3 = (False, d3) \<and> failScanTask again (tp_id p) w' e' d3 = (False, d3))"
proof -
  have h: "held (tp_id p) (tp_digest p) (wi_name w) (now + 1200000) d2"
    using lease_runs.along_run [OF assms(3)] claim_holds [OF assms(1, 2)] by (simp add: LEASE_MINUTES_def)
  have lt: "leasedTask (tp_id p) w d2 \<noteq> None" using held_leasedTask [OF h] by simp
  have "fst (completeScanTask E later (tp_id p) w fs raw v d2)" using lt by (auto simp: completeScanTask_def Let_def)
  moreover have "wi_name w' \<noteq> wi_name w \<longrightarrow> leasedTask (tp_id p) w' d2 = None" using held_leasedTask [OF h] by blast
  moreover have "\<forall>later w' q d3. later \<le> now + 1200000 \<and> claimScanTask E later w' d2 = (Inr (Some q), d3) \<longrightarrow> tp_id q \<noteq> tp_id p"
    using claim_spares_held [OF _ h] by blast
  ultimately show ?thesis using no_second_report [OF lt] report_refused by simp
qed

definition example_scan_env :: scan_env where
  "example_scan_env = \<lparr>se_lc = \<lambda>_ _. 0, se_decode = example_decode,
     se_parse = \<lambda>_. Some (JObj [(''layers'', JArr [JObj [(''digest'', JStr ''sha256:l''), (''mediaType'', JStr ''application/vnd.oci.image.layer.v1.tar'')]])]),
     se_findings = \<lambda>_. JArr [], se_summary = \<lambda>_. JNull, se_trivy = \<lambda>_. \<lparr>tp_OS = None, tp_Results = None\<rparr>,
     se_scanner = None, se_backend = ''trivy'', se_workers = True, se_workerToken = ''t''\<rparr>"

definition example_queue :: db where
  "example_queue = enqueueScan ''j'' 0 ''acme/app'' ''sha256:1'' ''r''
     (example_access_db\<lparr>db_manifests := [\<lparr>man_repositoryId = ''r'', man_digest = ''sha256:1'', man_mediaType = ''m'', man_artifactType = None, man_size = 1,
       man_payload = ''{}'', man_configDigest = None, man_subjectDigest = None, man_config = None, man_pushedBy = None, man_createdAt = 0\<rparr>]\<rparr>)"

definition example_worker :: "string \<Rightarrow> worker_identity" where
  "example_worker n = \<lparr>wi_name = n, wi_hostname = None, wi_version = None, wi_scannerVersion = None\<rparr>"

lemma example_queue_inv: "queue_inv example_queue"
  unfolding example_queue_def by (rule queue_inv_enqueue) (simp_all add: queue_inv_def access_examples)

theorem lease_exclusive_witness:
  "\<exists>p d1. claimScanTask example_scan_env 5 (example_worker ''a'') example_queue = (Inr (Some p), d1) \<and>
     completeScanTask example_scan_env 6 (tp_id p) (example_worker ''b'') None JNull None d1 = (False, d1) \<and>
     fst (completeScanTask example_scan_env 6 (tp_id p) (example_worker ''a'') None JNull None d1)"
proof -
  let ?c = "claimScanTask example_scan_env 5 (example_worker ''a'') example_queue"
  have "(case fst ?c of Inr (Some p) \<Rightarrow> True | _ \<Rightarrow> False)" by code_simp
  then obtain p where p: "?c = (Inr (Some p), snd ?c)" by (cases ?c) (auto split: sum.splits option.splits)
  have "wi_name (example_worker ''b'') \<noteq> wi_name (example_worker ''a'')" by (simp add: example_worker_def)
  with lease_exclusive [OF p example_queue_inv rtranclp.rtrancl_refl, of "example_worker ''b''" 6 None JNull None] p show ?thesis by blast
qed

section \<open>The scheduler's tick\<close>

definition done_inline :: "millis \<Rightarrow> scan_task \<Rightarrow> scan_task" where
  "done_inline now t = (inline_lease now t)\<lparr>st_status := TaskDone, st_updatedAt := now\<rparr>"

lemma tasks_inline_done: "db_scanTasks (inline_scan E now t d) = map (\<lambda>x. if st_id x = st_id t then done_inline now x else x) (db_scanTasks d)"
  by (simp add: tasks_inline_scan tasks_update_task done_inline_def)

lemma done_inline_not_due: "\<not> due now (done_inline now t)" and st_id_done_inline: "st_id (done_inline now t) = st_id t"
  by (simp_all add: due_def lease_over_def done_inline_def inline_lease_def)

lemma due_after_inline:
  "filter (due now) (db_scanTasks (fold (inline_scan E now) rows d)) = filter (\<lambda>t. due now t \<and> st_id t \<notin> st_id ` set rows) (db_scanTasks d)"
proof (induction rows arbitrary: d)
  case (Cons r rows)
  have "filter P (map f xs) = filter (\<lambda>t. P t \<and> st_id t \<noteq> st_id r) xs"
    if "P = (\<lambda>t. due now t \<and> st_id t \<notin> st_id ` set rows)" "f = (\<lambda>x. if st_id x = st_id r then done_inline now x else x)" for P f xs
    using that by (induction xs) (auto simp: done_inline_not_due)
  then have "filter (\<lambda>t. due now t \<and> st_id t \<notin> st_id ` set rows) (db_scanTasks (inline_scan E now r d)) =
      filter (\<lambda>t. (due now t \<and> st_id t \<notin> st_id ` set rows) \<and> st_id t \<noteq> st_id r) (db_scanTasks d)"
    unfolding tasks_inline_done by blast
  moreover have "(\<lambda>t. (due now t \<and> st_id t \<notin> st_id ` set rows) \<and> st_id t \<noteq> st_id r) = (\<lambda>t. due now t \<and> st_id t \<notin> st_id ` set (r # rows))" by auto
  ultimately show ?case using Cons [of "inline_scan E now r d"] by simp
qed simp

lemma due_released: "due now (if lease_over now t then release now t else t) \<longleftrightarrow> due now t"
  by (auto simp: due_def lease_over_def release_def)

lemma length_without_rows:
  assumes "distinct (map st_id ts)" "set rows \<subseteq> set (filter P ts)" "distinct rows"
  shows "length (filter (\<lambda>t. P t \<and> st_id t \<notin> st_id ` set rows) ts) = length (filter P ts) - length rows"
proof -
  have dist: "distinct (filter Q ts)" for Q using assms(1) by (simp add: distinct_map)
  have "st_id t \<in> st_id ` set rows \<longleftrightarrow> t \<in> set rows" if "t \<in> set ts" for t
    using assms(1, 2) that by (auto simp: distinct_map dest: inj_onD)
  then have "set (filter (\<lambda>t. P t \<and> st_id t \<notin> st_id ` set rows) ts) = set (filter P ts) - set rows" by auto
  then show ?thesis using assms(2, 3) dist
    by (metis List.finite_set card_Diff_subset distinct_card)
qed



section \<open>Failures\<close>

lemma scan_after_setScanState:
  "\<exists>s. find (\<lambda>s. vs_digest s = digest) (db_scans (setScanState now digest rid upd d)) = Some s \<and> (\<exists>s0. s = (upd s0)\<lparr>vs_digest := digest, vs_repositoryId := rid, vs_updatedAt := now\<rparr>)"
proof (cases "list_ex (\<lambda>s. vs_digest s = digest) (db_scans d)")
  case True
  let ?f = "\<lambda>s. (upd s)\<lparr>vs_digest := digest, vs_repositoryId := rid, vs_updatedAt := now\<rparr>"
  have "\<exists>s s0. find (\<lambda>s. vs_digest s = digest) (map (\<lambda>s. if vs_digest s = digest then ?f s else s) ss) = Some s \<and> s = ?f s0"
    if "list_ex (\<lambda>s. vs_digest s = digest) ss" for ss using that by (induction ss) auto
  with True show ?thesis by (auto simp: setScanState_def Let_def)
next
  case False
  have "find P (xs @ [x]) = Some x" if "\<not> list_ex P xs" "P x" for P :: "vulnerability_scan \<Rightarrow> bool" and xs x
    using that by (induction xs) auto
  with False show ?thesis by (auto simp: setScanState_def Let_def)
qed

text \<open>
  A worker that reports a failure never loses the task silently: before the third attempt the task goes to the queue again and no worker is
  given it before as many minutes have passed as attempts were made; at the third attempt the task is failed for good, no claim
  ever hands it out again, and the scan of the image shows the failure with the first thousand characters of the message.
\<close>
theorem failure_retried_or_final:
  assumes "queue_inv d" and "leasedTask i w d = Some t" and "d' = snd (failScanTask now i w e d)"
  shows "if st_attempts t < 3
    then (\<exists>x \<in> set (db_scanTasks d'). st_id x = i \<and> st_status x = TaskQueued \<and> st_attempts x = st_attempts t) \<and>
      (\<forall>E later w' p d''. later < now + 60000 * st_attempts t \<longrightarrow> claimScanTask E later w' d' = (Inr (Some p), d'') \<longrightarrow> tp_id p \<noteq> i)
    else (\<exists>s. find (\<lambda>s. vs_digest s = st_digest t) (db_scans d') = Some s \<and> vs_status s = ScanFailed \<and> vs_error s = Some (take 1000 e)) \<and>
      (\<forall>E later w' p d''. claimScanTask E later w' d' = (Inr (Some p), d'') \<longrightarrow> tp_id p \<noteq> i)"
proof -
  have inv: "queue_inv d'" unfolding assms(3)
    by (rule report_keeps(2) [of queue_inv, OF assms(1) queue_inv_update_task [OF assms(1)] queue_inv_tasks])
  have t: "t \<in> set (db_scanTasks d)" "st_id t = i" using leasedTask_find [OF assms(2)] by simp_all
  note ts = tasks_fail [OF assms(2), of now e, folded assms(3), unfolded MAX_ATTEMPTS_def]
  show ?thesis
  proof (cases "st_attempts t < 3")
    case True
    then have ts: "db_scanTasks d' = map (\<lambda>x. if st_id x = i then x\<lparr>st_status := TaskQueued, st_leasedBy := None, st_leaseUntil := None,
        st_lastError := Some (take 1000 e), st_availableAt := now + 60000 * st_attempts t, st_updatedAt := now\<rparr> else x) (db_scanTasks d)"
      using ts by simp
    have "\<exists>x \<in> set (db_scanTasks d'). st_id x = i \<and> st_status x = TaskQueued \<and> st_attempts x = st_attempts t"
      unfolding ts set_map bex_simps using t by (intro bexI [of _ t]) simp_all
    moreover have "tp_id p \<noteq> i" if "later < now + 60000 * st_attempts t" "claimScanTask E later w' d' = (Inr (Some p), d'')" for E later w' p d''
      using that(1) by (intro claim_spares_written [OF that(2) inv ts]) (simp add: due_def)
    ultimately show ?thesis using True by auto
  next
    case False
    then have ts: "db_scanTasks d' = map (\<lambda>t. if st_id t = i then t\<lparr>st_status := TaskFailed, st_lastError := Some (take 1000 e), st_updatedAt := now\<rparr> else t) (db_scanTasks d)"
      using ts by simp
    have "db_scans d' = db_scans (setScanState now (st_digest t) (st_repositoryId t) (\<lambda>s. s\<lparr>vs_status := ScanFailed, vs_error := Some (take 1000 e)\<rparr>) d)"
      using False by (simp add: assms(2, 3) failScanTask_def Let_def MAX_ATTEMPTS_def update_worker_def update_task_def)
    then have "\<exists>s. find (\<lambda>s. vs_digest s = st_digest t) (db_scans d') = Some s \<and> vs_status s = ScanFailed \<and> vs_error s = Some (take 1000 e)"
      using scan_after_setScanState [of "st_digest t" now "st_repositoryId t" "\<lambda>s. s\<lparr>vs_status := ScanFailed, vs_error := Some (take 1000 e)\<rparr>" d] by auto
    moreover have "tp_id p \<noteq> i" if "claimScanTask E later w' d' = (Inr (Some p), d'')" for E later w' p d''
      by (rule claim_spares_written [OF that inv ts]) (simp add: due_def lease_over_def)
    ultimately show ?thesis using False by auto
  qed
qed

theorem failure_retried_or_final_witness:
  "\<exists>t. leasedTask ''j'' (example_worker ''a'') (snd (claimScanTask example_scan_env 5 (example_worker ''a'') example_queue)) = Some t \<and> st_attempts t = 1 \<and>
     (\<exists>x \<in> set (db_scanTasks (snd (failScanTask 6 ''j'' (example_worker ''a'') ''boom''
         (snd (claimScanTask example_scan_env 5 (example_worker ''a'') example_queue))))). st_id x = ''j'' \<and> st_status x = TaskQueued)"
proof -
  let ?d = "snd (claimScanTask example_scan_env 5 (example_worker ''a'') example_queue)"
  have "map_option st_attempts (leasedTask ''j'' (example_worker ''a'') ?d) = Some 1" by code_simp
  then obtain t where t: "leasedTask ''j'' (example_worker ''a'') ?d = Some t" "st_attempts t = 1" by auto
  then show ?thesis using failure_retried_or_final [OF queue_inv_claim [OF example_queue_inv] t(1) refl, of 6 "''boom''"] by auto
qed

text \<open>
  The limit of three attempts is only consulted when a worker reports the failure. A task whose holder dies is handed out again as
  often as its lease runs out, whatever the number of attempts already made.
\<close>
lemma expired_lease_handed_out_again:
  assumes "st_status t = TaskLeased" "st_leaseUntil t = Some u" "u < now" "st_availableAt t \<le> now" "db_scanTasks d = [t]"
    and "scanTarget E (update_task (st_id t) (lease now (wi_name w)) d) (st_repositoryPath t) (st_digest t) = Some (Some (rid, p, ls))"
  shows "\<exists>q. fst (claimScanTask E now w d) = Inr (Some q) \<and> tp_id q = st_id t \<and> tp_attempt q = st_attempts t + 1"
proof -
  have "oldest (filter (due now) (db_scanTasks d)) = [t]" using assms by (simp add: due_def lease_over_def oldest_def)
  then show ?thesis using assms(6) by (subst claimScanTask.simps) (simp add: Let_def)
qed

section \<open>Stored findings\<close>

definition row_key :: "scan_finding \<Rightarrow> string" where
  "row_key r = finding_key (sf_vulnerabilityId r) (sf_package r) (sf_version r)"

definition key_of :: "finding \<Rightarrow> string" where
  "key_of f = finding_key (fd_id f) (fd_package f) (fd_version f)"

lemma first_by_key_props:
  "distinct (map key_of (first_by_key seen fs)) \<and> key_of ` set (first_by_key seen fs) = key_of ` set fs - set seen \<and> set (first_by_key seen fs) \<subseteq> set fs"
proof (induction fs arbitrary: seen)
  case (Cons f fs)
  show ?case
  proof (cases "key_of f \<in> set seen")
    case True
    then show ?thesis using Cons [of seen] by (auto simp: key_of_def Let_def)
  next
    case False
    then have "first_by_key seen (f # fs) = f # first_by_key (key_of f # seen) fs" by (simp add: key_of_def Let_def)
    moreover have "key_of f \<notin> key_of ` set (first_by_key (key_of f # seen) fs)" using Cons [of "key_of f # seen"] by simp
    ultimately show ?thesis using Cons [of "key_of f # seen"] False by auto
  qed
qed simp

text \<open>
  Storing a result keeps the searchable table in step with the scan: afterwards the digest's rows have pairwise different
  keys (advisory, package, version), exactly the keys of the findings, the rows of every other digest are untouched, and the
  digest's scan is complete, without error, with the findings and their counts.
\<close>
theorem findings_in_step:
  assumes "d' = storeScanResult E now digest rid name result d"
  shows "(let rows = filter (\<lambda>r. sf_digest r = digest) (db_scanFindings d')
     in distinct (map row_key rows) \<and> row_key ` set rows = key_of ` set (res_findings result)) \<and>
   filter (\<lambda>r. sf_digest r \<noteq> digest) (db_scanFindings d') = filter (\<lambda>r. sf_digest r \<noteq> digest) (db_scanFindings d) \<and>
   (\<exists>s. find (\<lambda>s. vs_digest s = digest) (db_scans d') = Some s \<and> vs_status s = Scanned \<and> vs_error s = None \<and>
      vs_findings s = Some (se_findings E (res_findings result)) \<and> vs_summary s = Some (se_summary E (summarizeFindings (res_findings result))))"
proof -
  define row where "row f = \<lparr>sf_digest = digest, sf_vulnerabilityId = fd_id f, sf_package = fd_package f, sf_version = fd_version f,
     sf_fixedIn = fd_fixedIn f, sf_severity = severity_text (fd_severity f), sf_type = (if fd_type f = [] then ''os'' else fd_type f)\<rparr>" for f :: finding
  have row: "sf_digest (row f) = digest" "row_key (row f) = key_of f" for f by (simp_all add: row_def row_key_def key_of_def)
  have rows: "db_scanFindings d' = filter (\<lambda>r. sf_digest r \<noteq> digest) (db_scanFindings d) @ map row (first_by_key [] (res_findings result))"
    by (simp add: assms storeScanResult_def replaceScanFindings_def setScanState_def Let_def row_def [abs_def])
  have "filter (\<lambda>r. sf_digest r = digest) (db_scanFindings d') = map row (first_by_key [] (res_findings result))"
    unfolding rows by (simp add: filter_map comp_def row)
  moreover have "filter (\<lambda>r. sf_digest r \<noteq> digest) (db_scanFindings d') = filter (\<lambda>r. sf_digest r \<noteq> digest) (db_scanFindings d)"
    unfolding rows by (simp add: filter_map comp_def row)
  moreover have "db_scans d' = db_scans (setScanState now digest rid (\<lambda>s. s\<lparr>vs_status := Scanned, vs_findings := Some (se_findings E (res_findings result)),
          vs_summary := Some (se_summary E (summarizeFindings (res_findings result))), vs_report := Some (res_raw result),
          vs_scanner := Some name, vs_scannerVersion := res_scannerVersion result, vs_error := None\<rparr>) d)"
    by (simp add: assms storeScanResult_def replaceScanFindings_def)
  moreover note scan_after_setScanState [of digest now rid "\<lambda>s. s\<lparr>vs_status := Scanned, vs_findings := Some (se_findings E (res_findings result)),
          vs_summary := Some (se_summary E (summarizeFindings (res_findings result))), vs_report := Some (res_raw result),
          vs_scanner := Some name, vs_scannerVersion := res_scannerVersion result, vs_error := None\<rparr>" d]
  ultimately show ?thesis using first_by_key_props [of "[]" "res_findings result"]
    by (auto simp: Let_def comp_def row image_image)
qed

theorem findings_in_step_witness:
  "row_key ` set (filter (\<lambda>r. sf_digest r = ''sha256:1'') (db_scanFindings (storeScanResult example_scan_env 5 ''sha256:1'' None ''trivy''
     \<lparr>res_findings = [example_finding, example_finding], res_raw = JNull, res_scannerVersion = None\<rparr> empty_db))) = {key_of example_finding}"
  using findings_in_step [OF refl, of "''sha256:1''" example_scan_env 5 None "''trivy''"
     "\<lparr>res_findings = [example_finding, example_finding], res_raw = JNull, res_scannerVersion = None\<rparr>" empty_db] by (simp add: Let_def)

end
