(* ===== verification/Paginate.thy ===== *)
theory Paginate
  imports Prelude
begin

text \<open>
  Pages of a list (\<open>web/src/lib/paginate-shared.ts\<close>): how a page number is read from a URL, clamped, sliced and linked. The
  theorems: the pages of a list put together are the list; the query that counts and slices in parallel gives what slicing the
  whole list gives, stale page numbers included; the row of page numbers always shows the first, the last and the current page and
  never grows beyond its width.
\<close>

datatype query_value = QStr string | QNum int | QBool bool | QNull | QUndefined | QStrs "string list"

definition PAGE_SIZES :: "(string \<times> nat) list" where
  "PAGE_SIZES = [(''audit'', 50), (''cveSearch'', 50), (''blockedImages'', 25), (''exceptions'', 25), (''findings'', 50), (''jobRuns'', 25),
     (''webhookDeliveries'', 10), (''mirrorRuns'', 5), (''mirrorLog'', 50), (''users'', 50), (''organizations'', 50), (''userOrganizations'', 24),
     (''tags'', 50), (''untagged'', 50), (''activity'', 12), (''repositories'', 25), (''search'', 20), (''explore'', 30)]"

definition WEBHOOK_LOG_MAX :: nat where "WEBHOOK_LOG_MAX = 50"

definition text_of :: "query_value \<Rightarrow> string" where
  \<comment> \<open>\<open>String(v ?? "")\<close>, a number or boolean printed\<close>
  "text_of v = (case v of QStr s \<Rightarrow> s | QNum n \<Rightarrow> show_int n | QBool b \<Rightarrow> if b then ''true'' else ''false'' | _ \<Rightarrow> [])"

definition parsePage :: "query_value \<Rightarrow> int" where
  "parsePage v =
     (let first = (case v of QStrs [] \<Rightarrow> QUndefined | QStrs (s # _) \<Rightarrow> QStr s | _ \<Rightarrow> v);
          n = (case first of QNum n \<Rightarrow> Some n | _ \<Rightarrow> num_integer (Number_of (js_trim (text_of first))))
      in case n of Some k \<Rightarrow> if 0 < k \<and> k \<le> max_safe_integer then k else 1 | None \<Rightarrow> 1)"

definition pageParam :: "(string \<times> query_value) list option \<Rightarrow> string \<Rightarrow> int" where
  "pageParam params key = (case params of None \<Rightarrow> 1 | Some ps \<Rightarrow> parsePage (nullish (map_of ps key) QUndefined))"

record page_state =
  pg_page :: int
  pg_pageSize :: int
  pg_total :: int
  pg_pages :: int
  pg_offset :: int
  pg_first :: int
  pg_last :: int
  pg_hasPrev :: bool
  pg_hasNext :: bool

definition page_size :: "int \<Rightarrow> int" where
  \<comment> \<open>\<open>Math.max(1, Math.trunc(n) || 1)\<close>, also for page numbers\<close>
  "page_size n = max 1 n"

definition paginate :: "int \<Rightarrow> int \<Rightarrow> int \<Rightarrow> page_state" where
  "paginate n requestedPage pageSize =
     (let size = page_size pageSize;
          count = max 0 n;
          pages = max 1 (ceil_div count size);
          page = min (page_size requestedPage) pages;
          offset = (page - 1) * size
      in \<lparr>pg_page = page, pg_pageSize = size, pg_total = count, pg_pages = pages, pg_offset = offset,
          pg_first = (if count = 0 then 0 else offset + 1), pg_last = min count (offset + size),
          pg_hasPrev = 1 < page, pg_hasNext = page < pages\<rparr>)"

definition slice_rows :: "'a list \<Rightarrow> int \<Rightarrow> int \<Rightarrow> 'a list" where
  \<comment> \<open>\<open>rows.slice(offset, offset + limit)\<close>, also what \<open>LIMIT\<close> and \<open>OFFSET\<close> select\<close>
  "slice_rows rows limit offset = take (nat limit) (drop (nat offset) rows)"

definition pageSlice :: "'a list \<Rightarrow> int \<Rightarrow> int \<Rightarrow> 'a list \<times> page_state" where
  "pageSlice rows requestedPage pageSize =
     (let state = paginate (int (length rows)) requestedPage pageSize
      in (slice_rows rows (pg_pageSize state) (pg_offset state), state))"

definition paginatedQuery :: "int \<Rightarrow> int \<Rightarrow> int \<Rightarrow> (int \<Rightarrow> int \<Rightarrow> 'a list) \<Rightarrow> 'a list \<times> page_state" where
  "paginatedQuery page pageSize count rows =
     (let size = page_size pageSize;
          requested = page_size page;
          first = rows size ((requested - 1) * size);
          state = paginate count requested size
      in if pg_page state = requested then (first, state) else (rows size (pg_offset state), state))"

definition kept_params :: "(string \<times> query_value) list \<Rightarrow> string \<Rightarrow> (string \<times> string) list" where
  "kept_params params key =
     concat (map (\<lambda>(k, v). if k = key \<or> v = QUndefined \<or> v = QNull \<or> v = QBool False then []
       else map (\<lambda>s. (k, s)) (filter (\<lambda>s. s \<noteq> []) (case v of QStrs ss \<Rightarrow> ss | _ \<Rightarrow> [text_of v]))) params)"

definition pageHref :: "((string \<times> string) list \<Rightarrow> string) \<Rightarrow> string \<Rightarrow> (string \<times> query_value) list option \<Rightarrow> int \<Rightarrow> string \<Rightarrow> string" where
  \<comment> \<open>with the serialisation of \<open>URLSearchParams\<close>\<close>
  "pageHref serialize basePath params page key =
     (let out = kept_params (nullish params []) key @ (if 1 < page then [(key, show_int page)] else []);
          qs = serialize out
      in if qs \<noteq> [] then basePath @ ''?'' @ qs else basePath)"

definition pageWindow :: "int \<Rightarrow> int \<Rightarrow> int \<Rightarrow> int list" where
  \<comment> \<open>\<open>0\<close> is a gap\<close>
  "pageWindow page pages m =
     (if pages \<le> m then [1..pages]
      else (let inner = max 1 (m - 4);
                first = min (max 2 (page - inner div 2)) (pages - inner);
                last = first + inner - 1
            in [1] @ (if 2 < first then [0] else []) @ [first..last] @ (if last < pages - 1 then [0] else []) @ [pages]))"

definition clampPageSize :: "query_value \<Rightarrow> int list \<Rightarrow> int \<Rightarrow> int" where
  "clampPageSize v options fallback = (let n = parsePage v in if n \<in> set options then n else fallback)"

section \<open>Pages put together\<close>

lemma pages_cover: "0 \<le> n \<Longrightarrow> 0 < s \<Longrightarrow> n \<le> ceil_div n s * s"
  using ceil_div_le_iff [of s n "ceil_div n s"] by simp

lemma paginate_bounds:
  "1 \<le> pg_page (paginate n p s) \<and> pg_page (paginate n p s) \<le> pg_pages (paginate n p s) \<and> 1 \<le> pg_pageSize (paginate n p s) \<and>
   0 \<le> pg_offset (paginate n p s)"
proof -
  let ?p = "min (max 1 p) (max 1 (ceil_div (max 0 n) (max 1 s)))"
  have "0 \<le> (?p - 1) * max 1 s" by (intro mult_nonneg_nonneg) auto
  then have "0 \<le> pg_offset (paginate n p s)" by (simp only: paginate_def Let_def page_size_def page_state.simps)
  moreover have "1 \<le> pg_page (paginate n p s)" "pg_page (paginate n p s) \<le> pg_pages (paginate n p s)" "1 \<le> pg_pageSize (paginate n p s)"
    by (simp_all only: paginate_def Let_def page_size_def page_state.simps)
  ultimately show ?thesis by blast
qed

lemma concat_chunks:
  "concat (map (\<lambda>i. take k (drop (i * k) xs)) [0..<m]) = take (m * k) xs"
proof (induction m)
  case (Suc m)
  have "take (Suc m * k) xs = take (m * k) xs @ take k (drop (m * k) xs)" by (simp add: take_add [symmetric] add.commute)
  then show ?case using Suc by simp
qed simp

text \<open>
  Nothing is lost or shown twice between pages: for every list and page size, the slices of the pages one to the
  last, put together, are the list.
\<close>
theorem pages_partition:
  "concat (map (\<lambda>p. fst (pageSlice rows p sz)) [1..pg_pages (snd (pageSlice rows 1 sz))]) = rows"
proof -
  let ?s = "page_size sz" and ?n = "int (length rows)"
  let ?m = "max 1 (ceil_div ?n ?s)"
  have s: "1 \<le> ?s" by (simp add: page_size_def)
  have pages: "pg_pages (snd (pageSlice rows p sz)) = ?m" for p by (simp add: pageSlice_def paginate_def Let_def)
  have slice: "fst (pageSlice rows (int (Suc i)) sz) = take (nat ?s) (drop (i * nat ?s) rows)" if "i < nat ?m" for i
  proof -
    have "min (page_size (int (Suc i))) ?m = int (Suc i)" using that by (simp add: page_size_def)
    moreover have "nat (int i * ?s) = i * nat ?s" using s by (simp add: nat_mult_distrib)
    ultimately show ?thesis by (simp add: pageSlice_def paginate_def slice_rows_def Let_def)
  qed
  have upto: "[1..?m] = map (\<lambda>i. int (Suc i)) [0..<nat ?m]"
    by (rule nth_equalityI) (auto simp: nth_upto)
  have "map (\<lambda>p. fst (pageSlice rows p sz)) [1..?m] = map (\<lambda>i. take (nat ?s) (drop (i * nat ?s) rows)) [0..<nat ?m]"
    unfolding upto map_map by (rule map_cong [OF refl]) (simp add: slice del: of_nat_Suc)
  moreover have "length rows \<le> nat ?m * nat ?s"
  proof -
    have "ceil_div ?n ?s * ?s \<le> ?m * ?s" using s by (intro mult_right_mono) simp_all
    then have "?n \<le> ?m * ?s" using pages_cover [of ?n ?s] s by linarith
    moreover have "int (nat ?m * nat ?s) = ?m * ?s" using s by simp
    ultimately show ?thesis by linarith
  qed
  ultimately show ?thesis unfolding pages by (simp add: concat_chunks)
qed

text \<open>
  The query that counts and slices in parallel is the slice of the whole list: for the count and the \<open>LIMIT\<close>/\<open>OFFSET\<close> query of
  the same rows it returns rows and page state exactly as slicing in memory does, also for a page past the end.
\<close>
theorem paginatedQuery_is_pageSlice:
  "paginatedQuery page sz (int (length rows)) (slice_rows rows) = pageSlice rows page sz"
proof -
  have idem: "paginate n (page_size p) (page_size s) = paginate n p s" for n p s by (simp add: paginate_def page_size_def)
  have "pg_pageSize (paginate n p s) = page_size s" "pg_page (paginate n p s) = page_size p \<Longrightarrow> pg_offset (paginate n p s) = (page_size p - 1) * page_size s" for n p s
    by (simp_all add: paginate_def Let_def)
  then show ?thesis unfolding paginatedQuery_def pageSlice_def Let_def idem by simp
qed

definition window_row :: "int \<Rightarrow> int \<Rightarrow> int \<Rightarrow> int list" where
  \<comment> \<open>the row with gaps: the first page, the pages \<open>a\<close> to \<open>b\<close> and the last one\<close>
  "window_row a b pages = [1] @ (if 2 < a then [0] else []) @ [a..b] @ (if b < pages - 1 then [0] else []) @ [pages]"

lemma window_row_shape:
  assumes "2 \<le> a" and "b < pages"
  shows "int (length (window_row a b pages)) \<le> 4 + max 0 (b - a + 1)"
    and "set (window_row a b pages) \<subseteq> insert 0 (insert 1 (insert pages {a..b}))" and "insert 1 (insert pages {a..b}) \<subseteq> set (window_row a b pages)"
    and "1 < pages \<Longrightarrow> sorted_wrt (<) (filter (\<lambda>p. p \<noteq> 0) (window_row a b pages))"
proof -
  have "filter (\<lambda>p. p \<noteq> 0) [a..b] = [a..b]" by (rule filter_True) (use assms in auto)
  then have "filter (\<lambda>p. p \<noteq> 0) (window_row a b pages) = 1 # [a..b] @ [pages]" if "1 < pages" using that by (simp add: window_row_def)
  then show "1 < pages \<Longrightarrow> sorted_wrt (<) (filter (\<lambda>p. p \<noteq> 0) (window_row a b pages))"
    using assms by (simp add: sorted_wrt_append sorted_wrt_upto)
qed (auto simp: window_row_def)

text \<open>
  The row of page numbers stays narrow and useful: with room for at least five entries it never has more than that, it
  contains the first, the last and the current page, and its numbers without the gap marks increase within the pages.
\<close>
theorem pageWindow_shape:
  assumes "5 \<le> m" and "1 \<le> page" and "page \<le> pages"
  shows "int (length (pageWindow page pages m)) \<le> m \<and> {1, page, pages} \<subseteq> set (pageWindow page pages m) \<and>
    sorted_wrt (<) (filter (\<lambda>p. p \<noteq> 0) (pageWindow page pages m)) \<and> set (pageWindow page pages m) \<subseteq> {0..pages}"
proof (cases "pages \<le> m")
  case True
  have "filter (\<lambda>p. p \<noteq> 0) [1..pages] = [1..pages]" by (rule filter_True) auto
  then show ?thesis using True assms by (auto simp: pageWindow_def sorted_wrt_upto)
next
  case False
  let ?inner = "max 1 (m - 4)"
  let ?first = "min (max 2 (page - ?inner div 2)) (pages - ?inner)"
  let ?last = "?first + ?inner - 1"
  have f: "2 \<le> ?first" "?last < pages" using False assms by auto
  have cur: "page = 1 \<or> page = pages \<or> ?first \<le> page \<and> page \<le> ?last" using assms by auto
  have w: "pageWindow page pages m = window_row ?first ?last pages" using False by (simp add: pageWindow_def window_row_def Let_def)
  have room: "?last - ?first + 5 \<le> m" using assms by simp
  have bounds: "insert 0 (insert 1 (insert pages {?first..?last})) \<subseteq> {0..pages}" using assms f by auto
  have "{1, page, pages} \<subseteq> insert 1 (insert pages {?first..?last})" using cur by auto
  moreover have "int (length (window_row ?first ?last pages)) \<le> m" by (rule order_trans [OF window_row_shape(1) [OF f]]) (use room in linarith)
  moreover have "1 < pages" using False assms by linarith
  ultimately show ?thesis unfolding w
    by (intro conjI window_row_shape(4) [OF f] order_trans [OF window_row_shape(2) [OF f] bounds] order_trans [OF _ window_row_shape(3) [OF f]])
qed

theorem pageWindow_shape_witness: "set (pageWindow 7 20 7) \<subseteq> {0..20} \<and> 7 \<in> set (pageWindow 7 20 7)"
  using pageWindow_shape [of 7 7 20] by simp

end
