(* ===== verification/Compare.thy ===== *)
theory Compare
  imports Scanner
begin

text \<open>
  Comparing two images (\<open>web/src/lib/compare-shared.ts\<close>): layers, configuration, annotations and findings. \<open>JSON.stringify\<close> of a string
  and \<open>localeCompare\<close> are arguments. The theorems: the two-pointer walk over the layers ends and reports every removed and every
  added layer at its place and every shared layer once; the findings are split into added, fixed and unchanged without
  overlap or loss; a configuration row exists for every key of either side and is marked exactly when the sides differ.
\<close>

section \<open>Layers\<close>

record layer_info =
  ly_digest :: string
  ly_size :: int
  ly_mediaType :: "string option"
  ly_command :: "string option"

record history_entry =
  hi_created_by :: "string option"
  hi_empty_layer :: bool

record image_config_inner =
  ic_Env :: "string list option"
  ic_Entrypoint :: "string list option"
  ic_Cmd :: "string list option"
  ic_User :: "string option"
  ic_WorkingDir :: "string option"
  ic_ExposedPorts :: "string list option"
    \<comment> \<open>the keys of the object, also for \<open>Volumes\<close>\<close>
  ic_Labels :: "(string \<times> string) list option"
  ic_Volumes :: "string list option"
  ic_StopSignal :: "string option"

record image_config_view =
  iv_architecture :: "string option"
  iv_os :: "string option"
  iv_variant :: "string option"
  iv_config :: "image_config_inner option"
  iv_history :: "history_entry list option"

definition cleanCommand :: "string option \<Rightarrow> string option" where
  "cleanCommand cmd = (case cmd of
       None \<Rightarrow> None
     | Some c \<Rightarrow>
       if c = [] then None
       else (let nop = ''/bin/sh -c #(nop)''; sh = ''/bin/sh -c'';
                 c1 = (if starts_with c nop then dropWhile js_ws (drop (length nop) c) else c);
                 c2 = (if starts_with c1 sh then ''RUN '' @ dropWhile js_ws (drop (length sh) c1) else c1)
             in Some (js_trim c2)))"

definition layersWithInstructions :: "(string option \<times> int option \<times> string option) list \<Rightarrow> image_config_view option \<Rightarrow> layer_info list" where
  \<comment> \<open>digest, size and media type of the manifest's layers\<close>
  "layersWithInstructions layers config =
     (let commands = map (\<lambda>h. nullish (hi_created_by h) []) (filter (\<lambda>h. \<not> hi_empty_layer h) (nullish (Option.bind config iv_history) []))
      in map (\<lambda>(i, (dg, sz, mt)). \<lparr>ly_digest = nullish dg [], ly_size = nullish sz 0, ly_mediaType = mt,
            ly_command = cleanCommand (if i < length commands then Some (commands ! i) else None)\<rparr>) (enumerate 0 layers))"

datatype layer_change = LAdded | LRemoved | LUnchanged

record layer_diff_row =
  lr_change :: layer_change
  lr_layer :: layer_info
  lr_fromIndex :: "nat option"
  lr_toIndex :: "nat option"

record layer_diff =
  ld_rows :: "layer_diff_row list"
  ld_added :: nat
  ld_removed :: nat
  ld_unchanged :: nat
  ld_addedBytes :: int
  ld_removedBytes :: int

fun first_index :: "string \<Rightarrow> layer_info list \<Rightarrow> nat option" where
  \<comment> \<open>the map of digests to their first position\<close>
  "first_index dg [] = None"
| "first_index dg (l # ls) = (if ly_digest l = dg then Some 0 else map_option Suc (first_index dg ls))"

definition has_digest :: "layer_info list \<Rightarrow> string \<Rightarrow> bool" where
  "has_digest ls dg \<longleftrightarrow> list_ex (\<lambda>l. ly_digest l = dg) ls"

function layer_walk :: "layer_info list \<Rightarrow> layer_info list \<Rightarrow> nat \<Rightarrow> nat \<Rightarrow> layer_diff_row list" where
  \<comment> \<open>the loop; the rows it still emits\<close>
  "layer_walk from to f t =
     (if \<not> (f < length from \<or> t < length to) then []
      else if f < length from \<and> \<not> has_digest to (ly_digest (from ! f))
      then \<lparr>lr_change = LRemoved, lr_layer = from ! f, lr_fromIndex = Some (f + 1), lr_toIndex = None\<rparr> # layer_walk from to (f + 1) t
      else if t < length to \<and> \<not> has_digest from (ly_digest (to ! t))
      then \<lparr>lr_change = LAdded, lr_layer = to ! t, lr_fromIndex = None, lr_toIndex = Some (t + 1)\<rparr> # layer_walk from to f (t + 1)
      else if f < length from \<and> t < length to then
        (if ly_digest (from ! f) = ly_digest (to ! t)
         then \<lparr>lr_change = LUnchanged, lr_layer = to ! t, lr_fromIndex = Some (f + 1), lr_toIndex = Some (t + 1)\<rparr> # layer_walk from to (f + 1) (t + 1)
         else \<lparr>lr_change = LUnchanged, lr_layer = to ! t, lr_fromIndex = Some (nullish (first_index (ly_digest (to ! t)) from) 0 + 1), lr_toIndex = Some (t + 1)\<rparr> #
              layer_walk from to (if has_digest (drop (t + 1) to) (ly_digest (from ! f)) then f else f + 1) (t + 1))
      else if f < length from then layer_walk from to (f + 1) t
      else layer_walk from to f (t + 1))"
  by pat_completeness auto
termination
  by (relation "measure (\<lambda>(from, to, f, t). (length from - f) + (length to - t))") auto

declare layer_walk.simps [simp del]

fun dedup_unchanged :: "string list \<Rightarrow> layer_diff_row list \<Rightarrow> layer_diff_row list" where
  "dedup_unchanged seen [] = []"
| "dedup_unchanged seen (r # rs) =
     (if lr_change r \<noteq> LUnchanged then r # dedup_unchanged seen rs
      else if ly_digest (lr_layer r) \<in> set seen then dedup_unchanged seen rs
      else r # dedup_unchanged (ly_digest (lr_layer r) # seen) rs)"

definition diffLayers :: "layer_info list \<Rightarrow> layer_info list \<Rightarrow> layer_diff" where
  "diffLayers from to =
     (let deduped = dedup_unchanged [] (layer_walk from to 0 0);
          added = filter (\<lambda>r. lr_change r = LAdded) deduped;
          removed = filter (\<lambda>r. lr_change r = LRemoved) deduped
      in \<lparr>ld_rows = deduped, ld_added = length added, ld_removed = length removed,
          ld_unchanged = length deduped - length added - length removed,
          ld_addedBytes = sum_list (map (\<lambda>r. ly_size (lr_layer r)) added), ld_removedBytes = sum_list (map (\<lambda>r. ly_size (lr_layer r)) removed)\<rparr>)"

section \<open>Configuration\<close>

record config_diff_row =
  cr_section :: string
  cr_key :: string
  cr_from :: "string option"
  cr_to :: "string option"
  cr_changed :: bool

definition envMap :: "string list option \<Rightarrow> (string \<times> string) list" where
  "envMap env = fold (\<lambda>e m. case index_of CHR ''='' e of None \<Rightarrow> AList.update e [] m | Some i \<Rightarrow> AList.update (take i e) (drop (i + 1) e) m) (nullish env []) []"

definition joinArgv :: "(string \<Rightarrow> string) \<Rightarrow> string list option \<Rightarrow> string option" where
  \<comment> \<open>with \<open>JSON.stringify\<close> of a string\<close>
  "joinArgv quote v = (case v of
       None \<Rightarrow> None
     | Some as \<Rightarrow> if as = [] then None
         else Some (join_with '' '' (map (\<lambda>a. if list_ex (\<lambda>c. js_ws c \<or> of_char c = (34::nat)) a then quote a else a) as)))"

definition keyedRows :: "string \<Rightarrow> (string \<times> string) list \<Rightarrow> (string \<times> string) list \<Rightarrow> config_diff_row list" where
  "keyedRows section a b =
     map (\<lambda>k. \<lparr>cr_section = section, cr_key = k, cr_from = map_of a k, cr_to = map_of b k, cr_changed = (map_of a k \<noteq> map_of b k)\<rparr>)
       (js_sort code_unit_compare (uniq (map fst a @ map fst b)))"

definition scalarRow :: "string \<Rightarrow> string \<Rightarrow> string option \<Rightarrow> string option \<Rightarrow> config_diff_row" where
  "scalarRow section key from to =
     (let f = none_if_empty from; t = none_if_empty to
      in \<lparr>cr_section = section, cr_key = key, cr_from = f, cr_to = t, cr_changed = (f \<noteq> t)\<rparr>)"

definition platformOf :: "image_config_view option \<Rightarrow> string option" where
  "platformOf c = (case c of
       None \<Rightarrow> None
     | Some v \<Rightarrow>
       if \<not> truthy (iv_os v) \<and> \<not> truthy (iv_architecture v) then None
       else Some (nullish (iv_os v) ''?'' @ ''/'' @ nullish (iv_architecture v) ''?'' @
              (case iv_variant v of Some x \<Rightarrow> if x \<noteq> [] then ''/'' @ x else [] | None \<Rightarrow> [])))"

definition empty_inner :: image_config_inner where
  "empty_inner = \<lparr>ic_Env = None, ic_Entrypoint = None, ic_Cmd = None, ic_User = None, ic_WorkingDir = None, ic_ExposedPorts = None, ic_Labels = None,
     ic_Volumes = None, ic_StopSignal = None\<rparr>"

definition sorted_keys :: "string list option \<Rightarrow> string" where
  "sorted_keys ks = join_with '', '' (js_sort code_unit_compare (nullish ks []))"

definition diffConfig :: "(string \<Rightarrow> string) \<Rightarrow> image_config_view option \<Rightarrow> image_config_view option \<Rightarrow> config_diff_row list" where
  "diffConfig quote from to =
     (let a = nullish (Option.bind from iv_config) empty_inner; b = nullish (Option.bind to iv_config) empty_inner
      in [scalarRow ''entrypoint'' ''Entrypoint'' (joinArgv quote (ic_Entrypoint a)) (joinArgv quote (ic_Entrypoint b)),
          scalarRow ''cmd'' ''Cmd'' (joinArgv quote (ic_Cmd a)) (joinArgv quote (ic_Cmd b)),
          scalarRow ''user'' ''User'' (ic_User a) (ic_User b),
          scalarRow ''workdir'' ''WorkingDir'' (ic_WorkingDir a) (ic_WorkingDir b),
          scalarRow ''ports'' ''ExposedPorts'' (Some (sorted_keys (ic_ExposedPorts a))) (Some (sorted_keys (ic_ExposedPorts b))),
          scalarRow ''volumes'' ''Volumes'' (Some (sorted_keys (ic_Volumes a))) (Some (sorted_keys (ic_Volumes b))),
          scalarRow ''stopsignal'' ''StopSignal'' (ic_StopSignal a) (ic_StopSignal b),
          scalarRow ''platform'' ''Platform'' (platformOf from) (platformOf to)] @
         keyedRows ''env'' (envMap (ic_Env a)) (envMap (ic_Env b)) @
         keyedRows ''labels'' (nullish (ic_Labels a) []) (nullish (ic_Labels b) []))"

definition diffAnnotations :: "(string \<times> string) list option \<Rightarrow> (string \<times> string) list option \<Rightarrow> config_diff_row list" where
  "diffAnnotations from to = keyedRows ''annotations'' (nullish from []) (nullish to [])"

section \<open>Findings\<close>

record cmp_finding =
  cf_id :: string
  cf_name :: string
  cf_severity :: string
  cf_packageName :: string
  cf_packageVersion :: string
  cf_fixedIn :: "string option"
  cf_link :: "string option"

definition FINDING_SEVERITIES :: "string list" where
  "FINDING_SEVERITIES = [''Critical'', ''High'', ''Medium'', ''Low'', ''Negligible'', ''Unknown'']"

fun severity_rank_in :: "string list \<Rightarrow> string \<Rightarrow> int \<Rightarrow> int" where
  "severity_rank_in [] s i = 99"
| "severity_rank_in (x # xs) s i = (if x = s then i else severity_rank_in xs s (i + 1))"

definition findingKey :: "cmp_finding \<Rightarrow> string" where
  "findingKey f = cf_id f @ ''|'' @ cf_packageName f"

definition cmp_finding_order :: "(string \<Rightarrow> string \<Rightarrow> int) \<Rightarrow> cmp_finding \<Rightarrow> cmp_finding \<Rightarrow> int" where
  "cmp_finding_order lc a b =
     cmp_or (severity_rank_in FINDING_SEVERITIES (cf_severity a) 0 - severity_rank_in FINDING_SEVERITIES (cf_severity b) 0)
       (cmp_or (lc (cf_packageName a) (cf_packageName b)) (lc (cf_id a) (cf_id b)))"

definition cmp_sortFindings :: "(string \<Rightarrow> string \<Rightarrow> int) \<Rightarrow> cmp_finding list \<Rightarrow> cmp_finding list" where
  "cmp_sortFindings lc fs = js_sort (cmp_finding_order lc) fs"

record findings_diff =
  fx_added :: "cmp_finding list"
  fx_fixed :: "cmp_finding list"
  fx_unchanged :: "cmp_finding list"
  fx_addedBySeverity :: "(string \<times> int) list"
  fx_fixedBySeverity :: "(string \<times> int) list"

definition by_key :: "cmp_finding list \<Rightarrow> (string \<times> cmp_finding) list" where
  \<comment> \<open>\<open>new Map(fs.map((f) => [findingKey(f), f]))\<close>\<close>
  "by_key fs = fold (\<lambda>f m. AList.update (findingKey f) f m) fs []"

definition count_severities :: "cmp_finding list \<Rightarrow> (string \<times> int) list" where
  "count_severities fs = fold (\<lambda>f m. AList.update (cf_severity f) (nullish (map_of m (cf_severity f)) 0 + 1) m) fs []"

definition diffFindings :: "(string \<Rightarrow> string \<Rightarrow> int) \<Rightarrow> cmp_finding list \<Rightarrow> cmp_finding list \<Rightarrow> findings_diff" where
  "diffFindings lc from to =
     (let a = by_key from; b = by_key to;
          added = cmp_sortFindings lc (filter (\<lambda>f. map_of a (findingKey f) = None) (map snd b));
          fixed = cmp_sortFindings lc (filter (\<lambda>f. map_of b (findingKey f) = None) (map snd a));
          unchanged = cmp_sortFindings lc (filter (\<lambda>f. map_of a (findingKey f) \<noteq> None) (map snd b))
      in \<lparr>fx_added = added, fx_fixed = fixed, fx_unchanged = unchanged, fx_addedBySeverity = count_severities added, fx_fixedBySeverity = count_severities fixed\<rparr>)"

definition commonPlatforms :: "string list \<Rightarrow> string list \<Rightarrow> string list \<times> bool" where
  "commonPlatforms from to =
     (let common = filter (\<lambda>p. p \<in> set from) to
      in if common \<noteq> [] then (common, False) else (uniq (to @ from), True))"

section \<open>The walk over the layers\<close>

definition rows_of :: "layer_change \<Rightarrow> layer_diff_row list \<Rightarrow> layer_diff_row list" where
  "rows_of c rs = filter (\<lambda>r. lr_change r = c) rs"

lemma rows_of_simps [simp]: "rows_of c [] = []" "rows_of c (r # rs) = (if lr_change r = c then r # rows_of c rs else rows_of c rs)"
  by (simp_all add: rows_of_def)

definition gone :: "layer_info list \<Rightarrow> layer_info list \<Rightarrow> nat \<Rightarrow> (layer_info \<times> nat) list" where
  \<comment> \<open>the layers of the first list, from position \<open>f\<close> on, that the second does not have, with their positions from one\<close>
  "gone old new f = map (\<lambda>i. (old ! i, i + 1)) (filter (\<lambda>i. \<not> has_digest new (ly_digest (old ! i))) [f..<length old])"

lemma gone_step:
  "f < length old \<Longrightarrow> gone old new f = (if has_digest new (ly_digest (old ! f)) then [] else [(old ! f, f + 1)]) @ gone old new (f + 1)"
  by (simp add: gone_def upt_conv_Cons)

lemma gone_end: "length old \<le> f \<Longrightarrow> gone old new f = []"
  by (simp add: gone_def)

lemma layer_walk_induct [case_names finished removed added same moved old_left new_left]:
  assumes "\<And>f t. length old \<le> f \<Longrightarrow> length new \<le> t \<Longrightarrow> P f t []"
    and "\<And>f t rows. f < length old \<Longrightarrow> \<not> has_digest new (ly_digest (old ! f)) \<Longrightarrow> P (Suc f) t rows \<Longrightarrow>
      P f t (\<lparr>lr_change = LRemoved, lr_layer = old ! f, lr_fromIndex = Some (Suc f), lr_toIndex = None\<rparr> # rows)"
    and "\<And>f t rows. t < length new \<Longrightarrow> \<not> has_digest old (ly_digest (new ! t)) \<Longrightarrow> P f (Suc t) rows \<Longrightarrow>
      P f t (\<lparr>lr_change = LAdded, lr_layer = new ! t, lr_fromIndex = None, lr_toIndex = Some (Suc t)\<rparr> # rows)"
    and "\<And>f t rows. f < length old \<Longrightarrow> t < length new \<Longrightarrow> has_digest new (ly_digest (old ! f)) \<Longrightarrow> has_digest old (ly_digest (new ! t)) \<Longrightarrow>
      ly_digest (old ! f) = ly_digest (new ! t) \<Longrightarrow> P (Suc f) (Suc t) rows \<Longrightarrow>
      P f t (\<lparr>lr_change = LUnchanged, lr_layer = new ! t, lr_fromIndex = Some (Suc f), lr_toIndex = Some (Suc t)\<rparr> # rows)"
    and "\<And>f t rows i. f < length old \<Longrightarrow> t < length new \<Longrightarrow> has_digest new (ly_digest (old ! f)) \<Longrightarrow> has_digest old (ly_digest (new ! t)) \<Longrightarrow>
      ly_digest (old ! f) \<noteq> ly_digest (new ! t) \<Longrightarrow> P (if has_digest (drop (Suc t) new) (ly_digest (old ! f)) then f else Suc f) (Suc t) rows \<Longrightarrow>
      P f t (\<lparr>lr_change = LUnchanged, lr_layer = new ! t, lr_fromIndex = i, lr_toIndex = Some (Suc t)\<rparr> # rows)"
    and "\<And>f t rows. f < length old \<Longrightarrow> length new \<le> t \<Longrightarrow> has_digest new (ly_digest (old ! f)) \<Longrightarrow> P (Suc f) t rows \<Longrightarrow> P f t rows"
    and "\<And>f t rows. length old \<le> f \<Longrightarrow> t < length new \<Longrightarrow> has_digest old (ly_digest (new ! t)) \<Longrightarrow> P f (Suc t) rows \<Longrightarrow> P f t rows"
  shows "P f t (layer_walk old new f t)"
proof -
  have "P f t (layer_walk old' new' f t)" if "old' = old" "new' = new" for old' new' using that
  proof (induction old' new' f t rule: layer_walk.induct)
    case (1 old' new' f t)
    note walk = layer_walk.simps [of old new f t]
    consider (finished) "length old \<le> f" "length new \<le> t"
      | (removed) "f < length old" "\<not> has_digest new (ly_digest (old ! f))"
      | (added) "length old \<le> f \<or> has_digest new (ly_digest (old ! f))" "t < length new" "\<not> has_digest old (ly_digest (new ! t))"
      | (same) "f < length old" "has_digest new (ly_digest (old ! f))" "t < length new" "has_digest old (ly_digest (new ! t))" "ly_digest (old ! f) = ly_digest (new ! t)"
      | (moved) "f < length old" "has_digest new (ly_digest (old ! f))" "t < length new" "has_digest old (ly_digest (new ! t))" "ly_digest (old ! f) \<noteq> ly_digest (new ! t)"
      | (left) "f < length old" "has_digest new (ly_digest (old ! f))" "length new \<le> t"
      | (right) "length old \<le> f" "t < length new" "has_digest old (ly_digest (new ! t))"
      using le_less_linear [of "length old" f] le_less_linear [of "length new" t] by blast
    then have "P f t (layer_walk old new f t)"
    proof cases
      case finished
      then show ?thesis using assms(1) walk by simp
    next
      case removed
      then show ?thesis using assms(2) [OF removed] 1(1) 1(7, 8) walk by simp
    next
      case added
      then show ?thesis using assms(3) [OF added(2, 3)] 1(2) 1(7, 8) walk by auto
    next
      case same
      then show ?thesis using assms(4) [OF same(1, 3, 2, 4, 5)] 1(3) 1(7, 8) walk by simp
    next
      case moved
      then show ?thesis using assms(5) [OF moved(1, 3, 2, 4, 5)] 1(4) 1(7, 8) walk
        by (cases "has_digest (drop (Suc t) new) (ly_digest (old ! f))") simp_all
    next
      case left
      then show ?thesis using assms(6) [OF left(1, 3, 2)] 1(5) 1(7, 8) walk by simp
    next
      case right
      then show ?thesis using assms(7) [OF right] 1(6) 1(7, 8) walk by simp
    qed
    then show ?case by (simp only: 1(7, 8))
  qed
  then show ?thesis by simp
qed

lemma walk_removed:
  "map (\<lambda>r. (lr_layer r, lr_fromIndex r)) (rows_of LRemoved (layer_walk old new f t)) = map (\<lambda>(l, i). (l, Some i)) (gone old new f)"
  by (rule layer_walk_induct [where P = "\<lambda>f t rows. map (\<lambda>r. (lr_layer r, lr_fromIndex r)) (rows_of LRemoved rows) = map (\<lambda>(l, i). (l, Some i)) (gone old new f)"])
    (simp_all add: gone_step gone_end split: if_splits)

lemma walk_added:
  "map (\<lambda>r. (lr_layer r, lr_toIndex r)) (rows_of LAdded (layer_walk old new f t)) = map (\<lambda>(l, i). (l, Some i)) (gone new old t)"
  by (rule layer_walk_induct [where P = "\<lambda>f t rows. map (\<lambda>r. (lr_layer r, lr_toIndex r)) (rows_of LAdded rows) = map (\<lambda>(l, i). (l, Some i)) (gone new old t)"])
    (simp_all add: gone_step gone_end)

definition shared :: "layer_info list \<Rightarrow> layer_info list \<Rightarrow> string set" where
  "shared old new = {dg. has_digest old dg \<and> has_digest new dg}"

definition walk_inv :: "layer_info list \<Rightarrow> layer_info list \<Rightarrow> nat \<Rightarrow> nat \<Rightarrow> string set \<Rightarrow> bool" where
  \<comment> \<open>the shared digests passed in the second list have been reported; one passed only in the first list and not yet reported does
    not occur in the rest of the second\<close>
  "walk_inv old new f t E \<longleftrightarrow> (\<forall>dg \<in> shared old new. has_digest (take t new) dg \<longrightarrow> dg \<in> E) \<and>
     (\<forall>dg \<in> shared old new. has_digest (take f old) dg \<longrightarrow> dg \<in> E \<or> \<not> has_digest (drop t new) dg)"

definition unchanged_digests :: "layer_diff_row list \<Rightarrow> string set" where
  "unchanged_digests rs = (\<lambda>r. ly_digest (lr_layer r)) ` set (rows_of LUnchanged rs)"

lemma unchanged_digests_simps [simp]:
  "unchanged_digests [] = {}" "unchanged_digests (r # rs) = (if lr_change r = LUnchanged then insert (ly_digest (lr_layer r)) (unchanged_digests rs) else unchanged_digests rs)"
  by (simp_all add: unchanged_digests_def)

lemma has_digest_take_Suc: "t < length ls \<Longrightarrow> has_digest (take (Suc t) ls) dg \<longleftrightarrow> has_digest (take t ls) dg \<or> ly_digest (ls ! t) = dg"
  by (auto simp: has_digest_def take_Suc_conv_app_nth)

lemma has_digest_drop: "t < length ls \<Longrightarrow> has_digest (drop t ls) dg \<longleftrightarrow> ly_digest (ls ! t) = dg \<or> has_digest (drop (Suc t) ls) dg"
  by (simp add: has_digest_def Cons_nth_drop_Suc [symmetric])

lemma has_digest_nth: "t < length ls \<Longrightarrow> has_digest ls (ly_digest (ls ! t))"
  by (auto simp: has_digest_def list_ex_iff)

lemma has_digest_end: "length ls \<le> t \<Longrightarrow> has_digest (take t ls) dg \<longleftrightarrow> has_digest ls dg" "length ls \<le> t \<Longrightarrow> \<not> has_digest (drop t ls) dg"
  by (simp_all add: has_digest_def)

lemmas walk_facts = has_digest_take_Suc has_digest_drop has_digest_nth has_digest_end

lemma walk_unchanged: "walk_inv old new f t E \<Longrightarrow> E \<union> unchanged_digests (layer_walk old new f t) = E \<union> shared old new"
proof -
  have "\<forall>E. walk_inv old new f t E \<longrightarrow> E \<union> unchanged_digests (layer_walk old new f t) = E \<union> shared old new"
  proof (rule layer_walk_induct [where P = "\<lambda>f t rows. \<forall>E. walk_inv old new f t E \<longrightarrow> E \<union> unchanged_digests rows = E \<union> shared old new"], goal_cases)
    case (4 f t rows)
    have "walk_inv old new (Suc f) (Suc t) (insert (ly_digest (new ! t)) E)" if "walk_inv old new f t E" for E
      using that 4(1-5) by (auto simp: walk_inv_def walk_facts shared_def)
    note inv = this
    have mem: "ly_digest (new ! t) \<in> shared old new" using 4(2, 4) has_digest_nth [of t new] by (simp add: shared_def)
    show ?case
    proof (intro allI impI)
      fix E assume "walk_inv old new f t E"
      from mp [OF spec [OF 4(6)] inv [OF this]] mem
      show "E \<union> unchanged_digests (\<lparr>lr_change = LUnchanged, lr_layer = new ! t, lr_fromIndex = Some (Suc f), lr_toIndex = Some (Suc t)\<rparr> # rows) = E \<union> shared old new" by auto
    qed
  next
    case (5 f t rows i)
    let ?f = "if has_digest (drop (Suc t) new) (ly_digest (old ! f)) then f else Suc f"
    have "walk_inv old new ?f (Suc t) (insert (ly_digest (new ! t)) E)" if "walk_inv old new f t E" for E
      using that 5(1-5) by (auto simp: walk_inv_def walk_facts shared_def)
    note inv = this
    have mem: "ly_digest (new ! t) \<in> shared old new" using 5(2, 4) has_digest_nth [of t new] by (simp add: shared_def)
    show ?case
    proof (intro allI impI)
      fix E assume "walk_inv old new f t E"
      from mp [OF spec [OF 5(6)] inv [OF this]] mem
      show "E \<union> unchanged_digests (\<lparr>lr_change = LUnchanged, lr_layer = new ! t, lr_fromIndex = i, lr_toIndex = Some (Suc t)\<rparr> # rows) = E \<union> shared old new" by auto
    qed
  qed (auto simp: walk_inv_def walk_facts shared_def)
  then show "walk_inv old new f t E \<Longrightarrow> E \<union> unchanged_digests (layer_walk old new f t) = E \<union> shared old new" by blast
qed

lemma dedup_other: "c \<noteq> LUnchanged \<Longrightarrow> rows_of c (dedup_unchanged seen rs) = rows_of c rs"
  by (induction rs arbitrary: seen) auto

lemma dedup_same:
  "unchanged_digests (dedup_unchanged seen rs) = unchanged_digests rs - set seen \<and> distinct (map (\<lambda>r. ly_digest (lr_layer r)) (rows_of LUnchanged (dedup_unchanged seen rs)))"
proof (induction rs arbitrary: seen)
  case (Cons r rs)
  have "ly_digest (lr_layer r) \<notin> (\<lambda>r. ly_digest (lr_layer r)) ` set (rows_of LUnchanged (dedup_unchanged (ly_digest (lr_layer r) # seen) rs))"
    using Cons [of "ly_digest (lr_layer r) # seen"] by (auto simp: unchanged_digests_def)
  then show ?case using Cons [of seen] Cons [of "ly_digest (lr_layer r) # seen"] by auto
qed simp

text \<open>
  The comparison of layers is complete and exact: the removed rows are the layers of the old image whose digest the new one lacks, in
  order and with their positions; the added rows likewise for the new image; and every digest both images have is reported as
  unchanged exactly once, however the layers were reordered or repeated.
\<close>
theorem diffLayers_exact:
  "let rows = ld_rows (diffLayers old new) in
    map (\<lambda>r. (lr_layer r, lr_fromIndex r)) (rows_of LRemoved rows) = map (\<lambda>(l, i). (l, Some i)) (gone old new 0) \<and>
    map (\<lambda>r. (lr_layer r, lr_toIndex r)) (rows_of LAdded rows) = map (\<lambda>(l, i). (l, Some i)) (gone new old 0) \<and>
    unchanged_digests rows = shared old new \<and> distinct (map (\<lambda>r. ly_digest (lr_layer r)) (rows_of LUnchanged rows))"
proof -
  have rows: "ld_rows (diffLayers old new) = dedup_unchanged [] (layer_walk old new 0 0)" by (simp add: diffLayers_def Let_def)
  have "walk_inv old new 0 0 {}" by (simp add: walk_inv_def has_digest_def)
  from walk_unchanged [OF this] show ?thesis
    unfolding rows Let_def using dedup_same [of "[]"] by (simp add: dedup_other walk_removed walk_added)
qed

section \<open>Findings and configuration\<close>

definition current_findings :: "cmp_finding list \<Rightarrow> cmp_finding set" where
  \<comment> \<open>of findings with the same key the last one counts\<close>
  "current_findings fs = ran (map_of (map (\<lambda>f. (findingKey f, f)) (rev fs)))"

lemma by_key_map: "map_of (by_key fs) = map_of (map (\<lambda>f. (findingKey f, f)) (rev fs))"
proof -
  have "map_of (fold (\<lambda>f m. AList.update (findingKey f) f m) fs m) = map_of m ++ map_of (map (\<lambda>f. (findingKey f, f)) (rev fs))" for m
    by (induction fs arbitrary: m) (simp_all add: update_conv')
  then show ?thesis by (simp add: by_key_def)
qed

lemma by_key_distinct: "distinct (map fst (by_key fs))"
proof -
  have "distinct (map fst m) \<Longrightarrow> distinct (map fst (fold (\<lambda>f m. AList.update (findingKey f) f m) fs m))" for m
    by (induction fs arbitrary: m) (simp_all add: distinct_update)
  then show ?thesis by (simp add: by_key_def)
qed

lemma by_key_set: "set (map snd (by_key fs)) = current_findings fs"
  by (simp add: current_findings_def by_key_map [symmetric] ran_distinct by_key_distinct)

lemma by_key_None: "map_of (by_key fs) k = None \<longleftrightarrow> k \<notin> findingKey ` set fs"
  by (simp add: by_key_map map_of_eq_None_iff image_image)

text \<open>
  The comparison of findings is a partition: added and unchanged findings together are the current findings of the new image, split by whether the
  old image has a finding with the same advisory and package, and the fixed ones are those of the old image that the new one
  no longer has.
\<close>
theorem diffFindings_partition:
  "let D = diffFindings lc old new in
    set (fx_added D) = {f \<in> current_findings new. findingKey f \<notin> findingKey ` set old} \<and>
    set (fx_unchanged D) = {f \<in> current_findings new. findingKey f \<in> findingKey ` set old} \<and>
    set (fx_fixed D) = {f \<in> current_findings old. findingKey f \<notin> findingKey ` set new}"
proof -
  have sets: "{x \<in> snd ` set (by_key fs). P x} = {f \<in> current_findings fs. P f}" for fs P using by_key_set [of fs] by simp
  show ?thesis
    by (simp add: diffFindings_def Let_def cmp_sortFindings_def by_key_None sets del: not_None_eq)
qed

text \<open>
  A table of settings has one row per name that either image sets, with the values of both sides, and marks exactly the rows where they differ.
\<close>
theorem keyedRows_complete:
  "distinct (map cr_key (keyedRows sec a b)) \<and> set (map cr_key (keyedRows sec a b)) = fst ` set a \<union> fst ` set b \<and>
   list_all (\<lambda>r. cr_from r = map_of a (cr_key r) \<and> cr_to r = map_of b (cr_key r) \<and> (cr_changed r \<longleftrightarrow> map_of a (cr_key r) \<noteq> map_of b (cr_key r))) (keyedRows sec a b)"
proof -
  have "map cr_key (keyedRows sec a b) = js_sort code_unit_compare (uniq (map fst a @ map fst b))" by (simp add: keyedRows_def comp_def)
  then show ?thesis by (simp add: distinct_map_js_sort [of id, simplified] image_Un) (simp add: keyedRows_def list_all_iff)
qed

end
