(* ===== verification/Signing_Keys.thy ===== *)
theory Signing_Keys
  imports Token_Endpoint
begin

text \<open>
  The keys that sign registry tokens (\<open>web/src/lib/signing-keys.ts\<close>, \<open>crypto.ts\<close>): the newest active key of the database
  signs, the key file is the fall-back, a key is retired once another one signs, and the registry trusts a retired key for ten more minutes.
  The cipher, the key parser, the fingerprint and the key file are fields of the record \<open>key_env\<close>.
  The theorems: along any sequence of rotations a token verifies until it expires, provided it lives no longer than the ten minutes;
  retiring never changes the signer; a generated key signs at once.
\<close>

section \<open>Secrets at rest\<close>

record cipher =
  cp_seal :: "string \<Rightarrow> string \<times> string \<times> string"
    \<comment> \<open>the initialisation vector, tag and data of the cipher, in base64url\<close>
  cp_open :: "string \<Rightarrow> string \<Rightarrow> string \<Rightarrow> string option"
    \<comment> \<open>\<open>None\<close> where decryption throws\<close>

definition encryptSecret :: "cipher \<Rightarrow> string \<Rightarrow> string" where
  "encryptSecret C plain = (case cp_seal C plain of (iv, tag, data) \<Rightarrow> join_with '':'' [''v1'', iv, tag, data])"

definition decryptSecret :: "cipher \<Rightarrow> string option \<Rightarrow> string option" where
  "decryptSecret C stored = (case stored of
       None \<Rightarrow> None
     | Some s \<Rightarrow>
       if s = [] then None
       else (case split_on CHR '':'' s of
           v # ivB # tagB # dataB # _ \<Rightarrow> if v \<noteq> ''v1'' \<or> ivB = [] \<or> tagB = [] \<or> dataB = [] then None else cp_open C ivB tagB dataB
         | _ \<Rightarrow> None))"

definition cipher_ok :: "cipher \<Rightarrow> string \<Rightarrow> bool" where
  \<comment> \<open>what the code relies on: the parts are base64url text, and opening what was sealed gives it back\<close>
  "cipher_ok C plain \<longleftrightarrow> (case cp_seal C plain of (iv, tag, data) \<Rightarrow>
     iv \<noteq> [] \<and> tag \<noteq> [] \<and> data \<noteq> [] \<and> CHR '':'' \<notin> set iv \<union> set tag \<union> set data \<and> cp_open C iv tag data = Some plain)"

section \<open>Keys\<close>

definition KEY_DROP_WINDOW_MS :: millis where "KEY_DROP_WINDOW_MS = 10 * 60 * 1000"

record key_env =
  ke_cipher :: cipher
  ke_createPrivateKey :: "string \<Rightarrow> string option"
  ke_fingerprint :: "string \<Rightarrow> string"
    \<comment> \<open>of the public half of a private key\<close>
  ke_file :: "string option"

record signing_key_row =
  sk_kid :: string
  sk_fingerprint :: string
  sk_algorithm :: string
  sk_createdAt :: millis
  sk_activatedAt :: "millis option"
  sk_retiredAt :: "millis option"
  sk_createdBy :: "string option"

definition toRow :: "token_signing_key \<Rightarrow> signing_key_row" where
  "toRow k = \<lparr>sk_kid = key_kid k, sk_fingerprint = key_kid k, sk_algorithm = key_algorithm k, sk_createdAt = key_createdAt k,
     sk_activatedAt = key_activatedAt k, sk_retiredAt = key_retiredAt k, sk_createdBy = key_createdBy k\<rparr>"

definition listSigningKeys :: "db \<Rightarrow> signing_key_row list" where
  "listSigningKeys d = map toRow (js_sort (\<lambda>a b. key_createdAt b - key_createdAt a) (db_signingKeys d))"

definition activation_order :: "token_signing_key \<Rightarrow> token_signing_key \<Rightarrow> int" where
  \<comment> \<open>\<open>ORDER BY activated_at DESC, created_at DESC\<close>, where \<open>NULL\<close> comes first\<close>
  "activation_order a b =
     cmp_or (case (key_activatedAt a, key_activatedAt b) of (None, None) \<Rightarrow> 0 | (None, Some _) \<Rightarrow> - 1 | (Some _, None) \<Rightarrow> 1 | (Some x, Some y) \<Rightarrow> y - x)
       (key_createdAt b - key_createdAt a)"

definition newestActiveKey :: "db \<Rightarrow> token_signing_key option" where
  "newestActiveKey d = (case js_sort activation_order (filter (\<lambda>k. key_retiredAt k = None) (db_signingKeys d)) of [] \<Rightarrow> None | k # _ \<Rightarrow> Some k)"

definition fileKeyInfo :: "key_env \<Rightarrow> string option" where
  \<comment> \<open>the fingerprint; path and error text are left out\<close>
  "fileKeyInfo E = map_option (ke_fingerprint E) (Option.bind (ke_file E) (ke_createPrivateKey E))"

datatype key_source = FromDatabase | FromFile

record active_signer =
  as_kid :: string
  as_key :: string
  as_source :: key_source

record signer_cache =
  parsedKeys :: "(string \<times> string) list"
  fileKey :: "(string \<times> string) option"

definition invalidateSignerCache :: "signer_cache \<Rightarrow> signer_cache" where
  "invalidateSignerCache c = \<lparr>parsedKeys = [], fileKey = None\<rparr>"

definition file_signer :: "key_env \<Rightarrow> signer_cache \<Rightarrow> (string + active_signer) \<times> signer_cache" where
  "file_signer E c = (case fileKey c of
       Some (kid, key) \<Rightarrow> (Inr \<lparr>as_kid = kid, as_key = key, as_source = FromFile\<rparr>, c)
     | None \<Rightarrow> (case Option.bind (ke_file E) (ke_createPrivateKey E) of
           None \<Rightarrow> (Inl ''key file'', c)
         | Some key \<Rightarrow> (let kid = ke_fingerprint E key
             in (Inr \<lparr>as_kid = kid, as_key = key, as_source = FromFile\<rparr>, c\<lparr>fileKey := Some (kid, key)\<rparr>))))"

definition activeSigner :: "key_env \<Rightarrow> signer_cache \<Rightarrow> db \<Rightarrow> (string + active_signer) \<times> signer_cache" where
  \<comment> \<open>\<open>Inl\<close> where reading the key file throws\<close>
  "activeSigner E c d = (case newestActiveKey d of
       None \<Rightarrow> file_signer E c
     | Some row \<Rightarrow> (case map_of (parsedKeys c) (key_kid row) of
           Some key \<Rightarrow> (Inr \<lparr>as_kid = key_kid row, as_key = key, as_source = FromDatabase\<rparr>, c)
         | None \<Rightarrow> (case decryptSecret (ke_cipher E) (Some (key_privateKeyEncrypted row)) of
               None \<Rightarrow> file_signer E c
             | Some pem \<Rightarrow>
               if pem = [] then file_signer E c
               else (case ke_createPrivateKey E pem of
                   None \<Rightarrow> file_signer E c
                 | Some key \<Rightarrow> (Inr \<lparr>as_kid = key_kid row, as_key = key, as_source = FromDatabase\<rparr>,
                     c\<lparr>parsedKeys := AList.update (key_kid row) key (parsedKeys c)\<rparr>)))))"

definition generateSigningKey :: "key_env \<Rightarrow> string \<Rightarrow> string \<Rightarrow> string \<Rightarrow> string option \<Rightarrow> millis \<Rightarrow> signer_cache \<Rightarrow> db \<Rightarrow> signing_key_row \<times> signer_cache \<times> db" where
  \<comment> \<open>of the new key pair: the public and the private key as text and the fingerprint of the public key\<close>
  "generateSigningKey E publicKeyPem privateKeyPem kid createdBy now c d =
     (let row = \<lparr>key_kid = kid, key_publicKeyPem = publicKeyPem, key_privateKeyEncrypted = encryptSecret (ke_cipher E) privateKeyPem,
            key_algorithm = ''ES256'', key_createdAt = now, key_activatedAt = Some now, key_retiredAt = None, key_createdBy = createdBy\<rparr>
      in (toRow row, invalidateSignerCache c, d\<lparr>db_signingKeys := db_signingKeys d @ [row]\<rparr>))"

definition retireSigningKey :: "millis \<Rightarrow> string \<Rightarrow> signer_cache \<Rightarrow> db \<Rightarrow> (string + signing_key_row) \<times> signer_cache \<times> db" where
  "retireSigningKey now kid c d =
     (case find (\<lambda>k. key_kid k = kid) (db_signingKeys d) of
        None \<Rightarrow> (Inl ''Unknown key.'', c, d)
      | Some row \<Rightarrow>
        if key_retiredAt row \<noteq> None then (Inl ''This key is already retired.'', c, d)
        else if map_option key_kid (newestActiveKey d) = Some kid
        then (Inl ''This key signs tokens right now. Generate a new key first, wait longer than five minutes, then retire this one.'', c, d)
        else (Inr (toRow (row\<lparr>key_retiredAt := Some now\<rparr>)), invalidateSignerCache c,
              d\<lparr>db_signingKeys := map (\<lambda>k. if key_kid k = kid \<and> key_retiredAt k = None then k\<lparr>key_retiredAt := Some now\<rparr> else k) (db_signingKeys d)\<rparr>))"

definition trustedFingerprints :: "key_env \<Rightarrow> millis \<Rightarrow> db \<Rightarrow> string list" where
  "trustedFingerprints E now d =
     (let cutoff = now - KEY_DROP_WINDOW_MS;
          out = map key_kid (filter (\<lambda>k. case key_retiredAt k of None \<Rightarrow> True | Some r \<Rightarrow> cutoff < r) (db_signingKeys d))
      in uniq (out @ (case fileKeyInfo E of None \<Rightarrow> [] | Some f \<Rightarrow> [f])))"

section \<open>Secrets can be read again\<close>

lemma secret_roundtrip: "cipher_ok C plain \<Longrightarrow> decryptSecret C (Some (encryptSecret C plain)) = Some plain"
  by (auto simp: cipher_ok_def decryptSecret_def encryptSecret_def split_on_cons split_on_atom split: prod.splits)

section \<open>The signer\<close>

context js_comparator
begin

lemma insert_by_least: "(\<And>y. y \<in> set ys \<Longrightarrow> cmp x y \<le> 0) \<Longrightarrow> insert_by cmp x ys = x # ys"
  by (cases ys) simp_all

lemma filter_insert_by:
  "sorted_wrt (\<lambda>x y. cmp x y \<le> 0) ys \<Longrightarrow> filter P (insert_by cmp x ys) = (if P x then insert_by cmp x (filter P ys) else filter P ys)"
proof (induction ys)
  case (Cons y ys)
  show ?case
  proof (cases "cmp x y \<le> 0")
    case True
    then have "\<And>z. z \<in> set ys \<Longrightarrow> cmp x z \<le> 0" using Cons.prems cmp_trans by auto
    then have "insert_by cmp x (filter P ys) = x # filter P ys" by (intro insert_by_least) simp
    then show ?thesis using True by simp
  next
    case False
    then show ?thesis using Cons by simp
  qed
qed simp

lemma filter_js_sort: "filter P (js_sort cmp xs) = js_sort cmp (filter P xs)"
  by (induction xs) (simp_all add: filter_insert_by sort_sorted)

lemma first_of_sort: "js_sort cmp xs = x # ys \<Longrightarrow> z \<in> set xs \<Longrightarrow> cmp x z \<le> 0"
  using sort_sorted [of xs] set_js_sort [of cmp xs] cmp_refl by (metis set_ConsD sorted_wrt.simps(2))

end

interpretation by_activation: js_comparator activation_order
  by unfold_locales (auto simp: activation_order_def cmp_or_def split: option.splits if_splits)

lemma newestActive_mem: "newestActiveKey d = Some k \<Longrightarrow> k \<in> set (db_signingKeys d) \<and> key_retiredAt k = None"
  by (metis (mono_tags, lifting) list.case_eq_if list.set_sel(1) mem_Collect_eq newestActiveKey_def option.discI option.inject set_filter set_js_sort)

lemma newestActive_None: "newestActiveKey d = None \<longleftrightarrow> (\<forall>k \<in> set (db_signingKeys d). key_retiredAt k \<noteq> None)"
proof -
  have "js_sort activation_order xs = [] \<longleftrightarrow> xs = []" for xs by (metis length_0_conv length_js_sort)
  then have "newestActiveKey d = None \<longleftrightarrow> filter (\<lambda>k. key_retiredAt k = None) (db_signingKeys d) = []"
    unfolding newestActiveKey_def by (metis list.case_eq_if option.discI)
  then show ?thesis by (simp add: filter_empty_conv)
qed

text \<open>
  Retiring a key never takes the signer away: whatever key an administrator names, the key that signs afterwards is the one that
  signed before; a refused request changes nothing, and an accepted one retires exactly the named key.
\<close>
theorem retire_keeps_signer:
  assumes "retireSigningKey now kid c d = (r, c', d')"
  shows "newestActiveKey d' = newestActiveKey d \<and>
    (case r of Inl _ \<Rightarrow> d' = d
     | Inr _ \<Rightarrow> map_option key_kid (newestActiveKey d) \<noteq> Some kid \<and>
         db_signingKeys d' = map (\<lambda>k. if key_kid k = kid \<and> key_retiredAt k = None then k\<lparr>key_retiredAt := Some now\<rparr> else k) (db_signingKeys d))"
proof (cases r)
  case (Inl e)
  then show ?thesis using assms by (auto simp: retireSigningKey_def split: option.splits if_splits)
next
  case (Inr row)
  let ?f = "\<lambda>k. if key_kid k = kid \<and> key_retiredAt k = None then k\<lparr>key_retiredAt := Some now\<rparr> else k"
  have other: "map_option key_kid (newestActiveKey d) \<noteq> Some kid" and d': "db_signingKeys d' = map ?f (db_signingKeys d)"
    using assms Inr by (auto simp: retireSigningKey_def split: option.splits if_splits)
  have "filter (\<lambda>k. key_retiredAt k = None) (map ?f ks) = filter (\<lambda>k. key_kid k \<noteq> kid) (filter (\<lambda>k. key_retiredAt k = None) ks)" for ks :: "token_signing_key list"
    by (induction ks) auto
  then have active: "js_sort activation_order (filter (\<lambda>k. key_retiredAt k = None) (db_signingKeys d')) =
      filter (\<lambda>k. key_kid k \<noteq> kid) (js_sort activation_order (filter (\<lambda>k. key_retiredAt k = None) (db_signingKeys d)))"
    unfolding d' by_activation.filter_js_sort by simp
  have "newestActiveKey d' = newestActiveKey d"
    unfolding newestActiveKey_def active using other
    by (cases "js_sort activation_order (filter (\<lambda>k. key_retiredAt k = None) (db_signingKeys d))") (simp_all add: newestActiveKey_def)
  then show ?thesis using Inr other d' by simp
qed

text \<open>
  A generated key signs from the next token on: provided no stored key carries a later time, the active signer after
  the generation is the new key, read back from the encrypted column.
\<close>
theorem generated_key_signs:
  assumes "generateSigningKey E pub priv kid by' now c d = (row, c', d')"
    and "\<forall>k \<in> set (db_signingKeys d). \<exists>a. key_activatedAt k = Some a \<and> a < now"
    and "cipher_ok (ke_cipher E) priv" and "priv \<noteq> []" and "ke_createPrivateKey E priv = Some key"
  shows "fst (activeSigner E c' d') = Inr \<lparr>as_kid = kid, as_key = key, as_source = FromDatabase\<rparr>"
proof -
  define new where "new = \<lparr>key_kid = kid, key_publicKeyPem = pub, key_privateKeyEncrypted = encryptSecret (ke_cipher E) priv,
     key_algorithm = ''ES256'', key_createdAt = now, key_activatedAt = Some now, key_retiredAt = None, key_createdBy = by'\<rparr>"
  have d': "db_signingKeys d' = db_signingKeys d @ [new]" and c': "parsedKeys c' = []"
    using assms(1) by (auto simp: generateSigningKey_def new_def Let_def invalidateSignerCache_def)
  obtain k where k: "newestActiveKey d' = Some k"
    using newestActive_None [of d'] by (cases "newestActiveKey d'") (auto simp: d' new_def)
  then obtain ys where s: "js_sort activation_order (filter (\<lambda>k. key_retiredAt k = None) (db_signingKeys d')) = k # ys"
    by (auto simp: newestActiveKey_def split: list.splits)
  have "activation_order k new \<le> 0" by (rule by_activation.first_of_sort [OF s]) (simp add: d' new_def)
  moreover have "k = new \<or> (\<exists>a. key_activatedAt k = Some a \<and> a < now)" using newestActive_mem [OF k] assms(2) by (auto simp: d')
  ultimately have "k = new" by (auto simp: activation_order_def new_def cmp_or_def split: if_splits)
  then show ?thesis using k c' assms(3-5) secret_roundtrip [OF assms(3)] by (simp add: activeSigner_def new_def)
qed

section \<open>Rotation\<close>

inductive key_step :: "key_env \<Rightarrow> millis \<Rightarrow> db \<Rightarrow> db \<Rightarrow> bool" for E t where
  generate: "t \<le> now \<Longrightarrow> key_step E t d (snd (snd (generateSigningKey E pub priv kid by' now c d)))"
| retire: "t \<le> now \<Longrightarrow> key_step E t d (snd (snd (retireSigningKey now kid c d)))"

definition kept_since :: "millis \<Rightarrow> string \<Rightarrow> db \<Rightarrow> bool" where
  "kept_since t kid d \<longleftrightarrow> list_ex (\<lambda>k. key_kid k = kid \<and> (case key_retiredAt k of None \<Rightarrow> True | Some r \<Rightarrow> t \<le> r)) (db_signingKeys d)"

lemma kept_since_step: "key_step E t d d' \<Longrightarrow> kept_since t kid d \<Longrightarrow> kept_since t kid d'"
proof (induction rule: key_step.induct)
  case (generate now d pub priv kid' by' c)
  then show ?case by (simp add: kept_since_def generateSigningKey_def Let_def)
next
  case (retire now d kid' c)
  let ?f = "\<lambda>k. if key_kid k = kid' \<and> key_retiredAt k = None then k\<lparr>key_retiredAt := Some now\<rparr> else k"
  let ?kept = "\<lambda>k. key_kid k = kid \<and> (case key_retiredAt k of None \<Rightarrow> True | Some r \<Rightarrow> t \<le> r)"
  have "list_ex ?kept (map ?f ks)" if "list_ex ?kept ks" for ks :: "token_signing_key list" using that retire(1) by (induction ks) auto
  moreover have "db_signingKeys (snd (snd (retireSigningKey now kid' c d))) \<in> {db_signingKeys d, map ?f (db_signingKeys d)}"
    by (simp add: retireSigningKey_def split: option.split)
  ultimately show ?case using retire(2) unfolding kept_since_def by auto
qed

interpretation key_runs: step_invariant "key_step E t" "kept_since t kid" for E t kid
  by unfold_locales (rule kept_since_step)

lemma kept_trusted: "kept_since t kid d \<Longrightarrow> now < t + KEY_DROP_WINDOW_MS \<Longrightarrow> kid \<in> set (trustedFingerprints E now d)"
  by (force simp: kept_since_def trustedFingerprints_def list_ex_iff Let_def image_iff split: option.splits)

lemma file_signer_kid:
  "fst (file_signer E c) = Inr s \<Longrightarrow> fileKey c = None \<or> (\<exists>key. Option.bind (ke_file E) (ke_createPrivateKey E) = Some key \<and> fileKey c = Some (ke_fingerprint E key, key)) \<Longrightarrow>
     fileKeyInfo E = Some (as_kid s)"
  by (auto simp: file_signer_def fileKeyInfo_def Let_def split: option.splits)

definition cache_ok :: "key_env \<Rightarrow> signer_cache \<Rightarrow> bool" where
  \<comment> \<open>a cached file key is the one of the file\<close>
  "cache_ok E c \<longleftrightarrow> (case fileKey c of None \<Rightarrow> True
     | Some (kid, key) \<Rightarrow> Option.bind (ke_file E) (ke_createPrivateKey E) = Some key \<and> kid = ke_fingerprint E key)"

lemma signer_kept_or_file:
  assumes "fst (activeSigner E c d) = Inr s" and "cache_ok E c"
  shows "kept_since t (as_kid s) d \<or> fileKeyInfo E = Some (as_kid s)"
proof -
  have fallback: "fileKeyInfo E = Some (as_kid s)" if "fst (file_signer E c) = Inr s"
    using that assms(2) by (intro file_signer_kid) (auto simp: cache_ok_def split: option.splits)
  show ?thesis
  proof (cases "newestActiveKey d")
    case None
    then show ?thesis using assms(1) fallback by (simp add: activeSigner_def)
  next
    case (Some k)
    then have "kept_since t (key_kid k) d" using newestActive_mem [OF Some] by (auto simp: kept_since_def list_ex_iff intro!: bexI [of _ k])
    then show ?thesis using assms(1) fallback Some by (auto simp: activeSigner_def split: option.splits if_splits)
  qed
qed

text \<open>
  C19. Rotation never breaks clients: a token signed at time \<open>t\<close> by the active signer names a key the registry trusts until the token expires, whatever keys
  are generated and retired in between, for every lifetime below the ten minutes a retired key is kept; so for
  every token of the token endpoint.
\<close>
theorem tokens_stay_verifiable:
  assumes "fst (activeSigner E c d) = Inr s" and "cache_ok E c" and "(key_step E t)\<^sup>*\<^sup>* d d'"
    and "0 < ttl" and "ttl < 600" and "now \<le> tc_exp (signRegistryToken t sub access ttl) * 1000"
  shows "as_kid s \<in> set (trustedFingerprints E now d') \<and> TOKEN_TTL_SECONDS < 600"
proof -
  have "now < t + KEY_DROP_WINDOW_MS"
  proof -
    have "t div 1000 * 1000 \<le> t" by simp
    then show ?thesis using assms(5, 6) by (simp add: signRegistryToken_def Let_def KEY_DROP_WINDOW_MS_def algebra_simps)
  qed
  moreover have "kept_since t (as_kid s) d' \<or> fileKeyInfo E = Some (as_kid s)"
    using signer_kept_or_file [OF assms(1, 2)] key_runs.along_run [OF assms(3)] by blast
  moreover have "as_kid s \<in> set (trustedFingerprints E now d')" if "fileKeyInfo E = Some (as_kid s)"
    using that by (simp add: trustedFingerprints_def Let_def)
  ultimately show ?thesis using kept_trusted by (auto simp: TOKEN_TTL_SECONDS_def)
qed

section \<open>An example rotation\<close>

definition plain_env :: key_env where
  "plain_env = \<lparr>ke_cipher = \<lparr>cp_seal = \<lambda>p. (''iv'', ''tag'', p), cp_open = \<lambda>_ _ data. Some data\<rparr>, ke_createPrivateKey = Some,
     ke_fingerprint = \<lambda>k. ''sha256-'' @ k, ke_file = Some ''file''\<rparr>"

definition no_cache :: signer_cache where
  "no_cache = \<lparr>parsedKeys = [], fileKey = None\<rparr>"

definition first_key :: db where
  "first_key = snd (snd (generateSigningKey plain_env ''pub1'' ''one'' ''k1'' None 1000 no_cache empty_db))"

definition second_key :: db where
  "second_key = snd (snd (generateSigningKey plain_env ''pub2'' ''two'' ''k2'' None 2000 no_cache first_key))"

definition first_retired :: db where
  "first_retired = snd (snd (retireSigningKey 3000 ''k1'' no_cache second_key))"

theorem retire_keeps_signer_witness: "newestActiveKey first_retired = newestActiveKey second_key"
  using retire_keeps_signer [of 3000 "''k1''" no_cache second_key "fst (retireSigningKey 3000 ''k1'' no_cache second_key)"
    "fst (snd (retireSigningKey 3000 ''k1'' no_cache second_key))" first_retired]
  unfolding first_retired_def by simp

theorem generated_key_signs_witness:
  "fst (activeSigner plain_env no_cache second_key) = Inr \<lparr>as_kid = ''k2'', as_key = ''two'', as_source = FromDatabase\<rparr>"
proof -
  have "generateSigningKey plain_env ''pub2'' ''two'' ''k2'' None 2000 no_cache first_key =
      (fst (generateSigningKey plain_env ''pub2'' ''two'' ''k2'' None 2000 no_cache first_key), no_cache, second_key)"
    by (simp add: generateSigningKey_def Let_def second_key_def invalidateSignerCache_def no_cache_def)
  then show ?thesis
    by (rule generated_key_signs) (simp_all add: first_key_def generateSigningKey_def Let_def empty_db_def cipher_ok_def plain_env_def)
qed

lemma rotation_steps: "(key_step plain_env 1000)\<^sup>*\<^sup>* first_key first_retired"
proof -
  have "key_step plain_env 1000 first_key second_key" unfolding second_key_def by (rule key_step.generate) simp
  moreover have "key_step plain_env 1000 second_key first_retired" unfolding first_retired_def by (rule key_step.retire) simp
  ultimately show ?thesis by auto
qed

theorem tokens_stay_verifiable_witness: "''k1'' \<in> set (trustedFingerprints plain_env 301000 first_retired)"
proof -
  have signer: "fst (activeSigner plain_env no_cache first_key) = Inr \<lparr>as_kid = ''k1'', as_key = ''one'', as_source = FromDatabase\<rparr>" by code_simp
  have "cache_ok plain_env no_cache" by (simp add: cache_ok_def no_cache_def)
  from tokens_stay_verifiable [OF signer this rotation_steps, of 300 301000] show ?thesis by (simp add: signRegistryToken_def)
qed

text \<open>
  The ten minutes cover the tokens of five minutes, not the pull tokens of two hours that scan tasks are handed: after the rotation above, with a
  key retired two seconds after the token was signed, such a token has an hour left when its key is no longer trusted.
\<close>
lemma long_token_loses_its_key:
  "''k1'' \<notin> set (trustedFingerprints plain_env 3600000 first_retired) \<and> 3600000 < tc_exp (systemPullToken 1000 ''org/repo'' 7200) * 1000"
  by code_simp

end
