(* ===== verification/Rate_Limit.thy ===== *)
theory Rate_Limit
  imports Schema
begin

text \<open>
  Request limits (\<open>web/src/lib/rate-limit-shared.ts\<close>, \<open>api/rate-limit.ts\<close>): the syntax of a limit and of the list of trusted
  proxies, and the fixed windows in which the REST API counts requests per caller in \<open>rate_limit_counters\<close>. The clock is an argument.
  The theorems: a limit is read as it is written; in one window of at most a day exactly the first requests of a caller up to the limit are
  answered, whatever other callers do.
\<close>

section \<open>The syntax of limits\<close>

record rate_limit =
  rt_count :: int
  rt_windowSeconds :: int

definition UNIT_SECONDS :: "char \<Rightarrow> int option" where
  "UNIT_SECONDS c = map_of [(CHR ''s'', 1), (CHR ''m'', 60), (CHR ''h'', 3600), (CHR ''d'', 86400)] c"

definition LIMIT_RE :: "string \<Rightarrow> (string \<times> string \<times> char) option" where
  \<comment> \<open>the groups of \<open>/^\s*(\d+)\s*\/\s*(\d+)\s*([smhd])\s*$/\<close>\<close>
  "LIMIT_RE text =
     (let s = dropWhile js_ws text;
          d1 = takeWhile is_digit s;
          r1 = dropWhile js_ws (dropWhile is_digit s)
      in if d1 = [] then None
         else (case r1 of
             CHR ''/'' # r \<Rightarrow>
               (let s2 = dropWhile js_ws r;
                    d2 = takeWhile is_digit s2;
                    r2 = dropWhile js_ws (dropWhile is_digit s2)
                in if d2 = [] then None
                   else (case r2 of
                       u # r3 \<Rightarrow> if UNIT_SECONDS u \<noteq> None \<and> dropWhile js_ws r3 = [] then Some (d1, d2, u) else None
                     | [] \<Rightarrow> None))
           | _ \<Rightarrow> None))"

definition parseRateLimit :: "string \<Rightarrow> string + rate_limit option" where
  \<comment> \<open>\<open>Inl\<close> carries the error; the numbers stay exact above 2^53\<close>
  "parseRateLimit text =
     (if js_trim text = [] then Inr None
      else (case LIMIT_RE text of
          None \<Rightarrow> Inl ([char_of (34::nat)] @ js_trim text @ [char_of (34::nat)] @ '' is not a limit; use <count>/<window> such as 100/6h'')
        | Some (m1, m2, m3) \<Rightarrow>
          (let count = int (read_digits m1); n = int (read_digits m2)
           in if max_safe_integer < count \<or> count \<le> 0 then Inl ''The count must be a positive whole number.''
              else if n \<le> 0 then Inl ''The window must be positive.''
              else Inr (Some \<lparr>rt_count = count, rt_windowSeconds = n * (case UNIT_SECONDS m3 of Some k \<Rightarrow> k | None \<Rightarrow> 0)\<rparr>))))"

definition formatWindow :: "int \<Rightarrow> string" where
  "formatWindow seconds =
     (if seconds mod 86400 = 0 then show_int (seconds div 86400) @ ''d''
      else if seconds mod 3600 = 0 then show_int (seconds div 3600) @ ''h''
      else if seconds mod 60 = 0 then show_int (seconds div 60) @ ''m''
      else show_int seconds @ ''s'')"

definition UNIT_WORDS :: "(int \<times> string) list" where
  "UNIT_WORDS = [(86400, ''day''), (3600, ''hour''), (60, ''minute''), (1, ''second'')]"

definition describeRateLimit :: "rate_limit option \<Rightarrow> string \<Rightarrow> string" where
  "describeRateLimit limit noun = (case limit of
       None \<Rightarrow> ''unlimited''
     | Some l \<Rightarrow>
       (let (size, word) = (case find (\<lambda>(s, _). rt_windowSeconds l mod s = 0) UNIT_WORDS of Some p \<Rightarrow> p | None \<Rightarrow> (1, ''second''));
            n = rt_windowSeconds l div size;
            unit = (if n = 1 then word else word @ ''s'');
            singular = (if ends_with noun ''s'' then butlast noun else noun)
        in show_int (rt_count l) @ '' '' @ (if rt_count l = 1 then singular else noun) @ '' per '' @ (if n = 1 then [] else show_int n @ '' '') @ unit))"

definition ipv4_part :: "string \<Rightarrow> bool" where
  \<comment> \<open>\<open>25[0-5]|2[0-4]\d|1\d\d|[1-9]?\d\<close>\<close>
  "ipv4_part s \<longleftrightarrow> s \<noteq> [] \<and> list_all is_digit s \<and> length s \<le> 3 \<and> (1 < length s \<longrightarrow> hd s \<noteq> CHR ''0'') \<and> read_digits s \<le> 255"

definition IPV4_RE :: "string \<Rightarrow> bool" where
  "IPV4_RE s \<longleftrightarrow> length (split_on CHR ''.'' s) = 4 \<and> list_all ipv4_part (split_on CHR ''.'' s)"

definition hex_char :: "char \<Rightarrow> bool" where
  "hex_char c \<longleftrightarrow> is_digit c \<or> lower_char c \<in> set ''abcdef''"

definition IPV6_RE :: "string \<Rightarrow> bool" where
  "IPV6_RE s \<longleftrightarrow> s \<noteq> [] \<and> list_all (\<lambda>c. hex_char c \<or> c = CHR '':'' \<or> c = CHR ''.'') s"

fun count_double_colon :: "string \<Rightarrow> nat" where
  \<comment> \<open>\<open>s.split("::").length - 1\<close>\<close>
  "count_double_colon (a # b # s) = (if a = CHR '':'' \<and> b = CHR '':'' then Suc (count_double_colon s) else count_double_colon (b # s))"
| "count_double_colon _ = 0"

definition isAddress :: "string \<Rightarrow> bool" where
  "isAddress s \<longleftrightarrow> IPV4_RE s \<or> (IPV6_RE s \<and> CHR '':'' \<in> set s \<and> Suc (count_double_colon s) \<le> 2)"

definition proxy_entry_error :: "string \<Rightarrow> string option" where
  "proxy_entry_error e = (case split_on CHR ''/'' e of
       [addr] \<Rightarrow> if isAddress addr then None else Some (e @ '' is not a CIDR or IP address.'')
     | [addr, prefix] \<Rightarrow>
         if \<not> isAddress addr then Some (e @ '' is not a CIDR or IP address.'')
         else if prefix = [] \<or> \<not> list_all is_digit prefix \<or> (if CHR '':'' \<in> set addr then 128 else 32) < read_digits prefix
         then Some (e @ '' has an invalid prefix length.'') else None
     | _ \<Rightarrow> Some (e @ '' is not a CIDR or IP address.''))"

definition parseTrustedProxies :: "string \<Rightarrow> string list \<times> string option" where
  \<comment> \<open>the entries and the first error; the quotation marks of the message are left out\<close>
  "parseTrustedProxies text =
     (let entries = filter (\<lambda>e. e \<noteq> []) (split_runs (\<lambda>c. js_ws c \<or> c = CHR '','' \<or> c = CHR '';'') text)
      in (entries, Option.bind (find (\<lambda>e. proxy_entry_error e \<noteq> None) entries) proxy_entry_error))"

section \<open>Counting requests\<close>

datatype api_caller = ApiUser string bool | ApiSa string | ApiAnonymous
  \<comment> \<open>the user's id and whether it is an instance administrator\<close>

record ratelimit_settings =
  rl_apiAnonymous :: string
  rl_apiAuthenticated :: string

record rate_limit_state =
  rs_limit :: rate_limit
  rs_count :: int
  rs_resetAt :: int

definition keyFor :: "api_caller \<Rightarrow> string option \<Rightarrow> string" where
  "keyFor c ip = (case c of
       ApiUser u _ \<Rightarrow> ''api|user:'' @ u
     | ApiSa s \<Rightarrow> ''api|sa:'' @ s
     | ApiAnonymous \<Rightarrow> ''api|ip:'' @ nullish ip ''unknown'')"

definition pruneOpportunistically :: "millis \<Rightarrow> millis \<Rightarrow> db \<Rightarrow> millis \<times> db" where
  \<comment> \<open>\<open>lastPrune\<close> and the database; the deletion runs on its own\<close>
  "pruneOpportunistically now lastPrune d =
     (if now - lastPrune < 3600000 then (lastPrune, d)
      else (now, d\<lparr>db_rateCounters := filter (\<lambda>r. \<not> (starts_with (rc_key r) ''api|'' \<and> rc_windowStart r < now - 86400000)) (db_rateCounters d)\<rparr>))"

definition count_request :: "string \<Rightarrow> millis \<Rightarrow> db \<Rightarrow> int \<times> db" where
  \<comment> \<open>the upsert and the count it returns\<close>
  "count_request key start d =
     (case find (\<lambda>r. rc_key r = key) (db_rateCounters d) of
        None \<Rightarrow> (1, d\<lparr>db_rateCounters := db_rateCounters d @ [\<lparr>rc_key = key, rc_windowStart = start, rc_count = 1\<rparr>]\<rparr>)
      | Some r \<Rightarrow>
        (let n = (if rc_windowStart r = start then rc_count r + 1 else 1)
         in (n, d\<lparr>db_rateCounters := map (\<lambda>x. if rc_key x = key then x\<lparr>rc_windowStart := start, rc_count := n\<rparr> else x) (db_rateCounters d)\<rparr>)))"

definition limit_for :: "ratelimit_settings \<Rightarrow> api_caller \<Rightarrow> rate_limit option" where
  "limit_for S c = (case parseRateLimit (if c = ApiAnonymous then rl_apiAnonymous S else rl_apiAuthenticated S) of Inr l \<Rightarrow> l | Inl _ \<Rightarrow> None)"

definition window_start :: "rate_limit \<Rightarrow> millis \<Rightarrow> int" where
  \<comment> \<open>in seconds\<close>
  "window_start limit now = now div (1000 * rt_windowSeconds limit) * rt_windowSeconds limit"

definition checkApiRateLimit ::
  "ratelimit_settings \<Rightarrow> api_caller \<Rightarrow> string option \<Rightarrow> millis \<Rightarrow> millis \<times> db \<Rightarrow> (int + rate_limit_state option) \<times> (millis \<times> db)" where
  \<comment> \<open>\<open>Inl\<close> is the answer 429 with the seconds of \<open>Retry-After\<close>\<close>
  "checkApiRateLimit S c ip now st =
     (if (case c of ApiUser _ admin \<Rightarrow> admin | _ \<Rightarrow> False) then (Inr None, st)
      else (case limit_for S c of
          None \<Rightarrow> (Inr None, st)
        | Some limit \<Rightarrow>
          (let start = window_start limit now;
               resetAt = start + rt_windowSeconds limit;
               (count, d1) = count_request (keyFor c ip) (start * 1000) (snd st);
               st' = pruneOpportunistically now (fst st) d1
           in if rt_count limit < count then (Inl (max 1 (resetAt - now div 1000)), st')
              else (Inr (Some \<lparr>rs_limit = limit, rs_count = count, rs_resetAt = resetAt\<rparr>), st'))))"

definition rateLimitHeaders :: "rate_limit_state option \<Rightarrow> (string \<times> string) list" where
  "rateLimitHeaders st = (case st of
       None \<Rightarrow> []
     | Some s \<Rightarrow> [(''X-RateLimit-Limit'', show_int (rt_count (rs_limit s))),
                 (''X-RateLimit-Remaining'', show_int (max 0 (rt_count (rs_limit s) - rs_count s))),
                 (''X-RateLimit-Reset'', show_int (rs_resetAt s))])"

section \<open>A limit is read as it is written\<close>

lemma takeWhile_digits: "list_all is_digit ds \<Longrightarrow> \<not> is_digit c \<Longrightarrow> takeWhile is_digit (ds @ c # r) = ds \<and> dropWhile is_digit (ds @ c # r) = c # r"
  by (induction ds) auto

lemma LIMIT_RE_digits:
  assumes "list_all is_digit a" "a \<noteq> []" "list_all is_digit b" "b \<noteq> []" "UNIT_SECONDS u \<noteq> None"
  shows "LIMIT_RE (a @ CHR ''/'' # b @ [u]) = Some (a, b, u)"
proof -
  have ws: "\<not> js_ws c" if "is_digit c" for c using that not_ws_digit by blast
  have u: "\<not> js_ws u" "\<not> is_digit u" using assms(5) by (auto simp: UNIT_SECONDS_def js_ws_def is_digit_def split: if_splits)
  have s1: "\<not> js_ws CHR ''/''" "\<not> is_digit CHR ''/''" by (simp_all add: js_ws_def is_digit_def)
  have da: "dropWhile js_ws (a @ r) = a @ r" "dropWhile js_ws (b @ r) = b @ r" for r
    using assms(1-4) ws by (cases a; cases b; auto)+
  show ?thesis unfolding LIMIT_RE_def Let_def da
    using assms takeWhile_digits [OF assms(1) s1(2), of "b @ [u]"] takeWhile_digits [OF assms(3) u(2), of "[]"] u s1 by (simp add: da)
qed

lemma show_int_digits: "0 \<le> n \<Longrightarrow> list_all is_digit (show_int n) \<and> show_int n \<noteq> [] \<and> int (read_digits (show_int n)) = n"
  using show_nat_digits [of "nat n"] by (simp add: show_int_def read_show_nat list_all_iff)

text \<open>
  A limit is read back as it is printed: for every positive count that a number can hold and every positive window, parsing the
  count, a slash and the formatted window gives the limit again.
\<close>
theorem rate_limit_roundtrip:
  assumes "0 < rt_count l" and "rt_count l \<le> max_safe_integer" and "0 < rt_windowSeconds l"
  shows "parseRateLimit (show_int (rt_count l) @ ''/'' @ formatWindow (rt_windowSeconds l)) = Inr (Some l)"
proof -
  let ?c = "show_int (rt_count l)"
  have parse: "parseRateLimit (?c @ ''/'' @ show_int n @ [u]) = Inr (Some l)"
    if "0 < n" "UNIT_SECONDS u = Some k" "n * k = rt_windowSeconds l" for n u k
  proof -
    have d: "list_all is_digit ?c" "?c \<noteq> []" "int (read_digits ?c) = rt_count l"
      "list_all is_digit (show_int n)" "show_int n \<noteq> []" "int (read_digits (show_int n)) = n"
      using show_int_digits [of "rt_count l"] show_int_digits [of n] assms that by auto
    have re: "LIMIT_RE (?c @ CHR ''/'' # show_int n @ [u]) = Some (?c, show_int n, u)"
      by (rule LIMIT_RE_digits) (use d that in auto)
    have "js_trim (?c @ CHR ''/'' # show_int n @ [u]) \<noteq> []"
    proof -
      obtain x xs where "?c = x # xs" using d(2) by (cases ?c) auto
      moreover from this have "\<not> js_ws x" using d(1) not_ws_digit by simp
      ultimately show ?thesis by (auto simp: js_trim_def dropWhile_eq_Nil_conv)
    qed
    then show ?thesis using re d assms that by (simp add: parseRateLimit_def)
  qed
  let ?w = "rt_windowSeconds l"
  have split: "k dvd ?w \<Longrightarrow> 0 < k \<Longrightarrow> 0 < ?w div k \<and> ?w div k * k = ?w" for k
    using assms(3) by (auto simp: pos_imp_zdiv_pos_iff zdvd_imp_le)
  have unit: "parseRateLimit (?c @ ''/'' @ show_int (?w div k) @ [u]) = Inr (Some l)" if "?w mod k = 0" "0 < k" "UNIT_SECONDS u = Some k" for k u
    using parse [of "?w div k" u k] split [of k] that by (simp add: dvd_eq_mod_eq_0)
  have units: "UNIT_SECONDS (CHR ''d'') = Some 86400" "UNIT_SECONDS (CHR ''h'') = Some 3600" "UNIT_SECONDS (CHR ''m'') = Some 60" "UNIT_SECONDS (CHR ''s'') = Some 1"
    by code_simp+
  consider "?w mod 86400 = 0" | "?w mod 86400 \<noteq> 0" "?w mod 3600 = 0" | "?w mod 86400 \<noteq> 0" "?w mod 3600 \<noteq> 0" "?w mod 60 = 0"
    | "?w mod 86400 \<noteq> 0" "?w mod 3600 \<noteq> 0" "?w mod 60 \<noteq> 0" by blast
  then show ?thesis
  proof cases
    case 1
    then show ?thesis using unit [OF 1 _ units(1)] by (simp add: formatWindow_def)
  next
    case 2
    then show ?thesis using unit [OF 2(2) _ units(2)] by (simp add: formatWindow_def)
  next
    case 3
    then show ?thesis using unit [OF 3(3) _ units(3)] by (simp add: formatWindow_def)
  next
    case 4
    then show ?thesis using parse [OF assms(3) units(4)] by (simp add: formatWindow_def)
  qed
qed

theorem rate_limit_roundtrip_witness: "parseRateLimit ''100/6h'' = Inr (Some \<lparr>rt_count = 100, rt_windowSeconds = 21600\<rparr>)"
proof -
  have "show_int 100 @ ''/'' @ formatWindow 21600 = ''100/6h''" by code_simp
  with rate_limit_roundtrip [of "\<lparr>rt_count = 100, rt_windowSeconds = 21600\<rparr>"] show ?thesis by (simp add: max_safe_integer_def)
qed

section \<open>One window\<close>

type_synonym api_request = "api_caller \<times> string option \<times> millis"

fun serve_all :: "ratelimit_settings \<Rightarrow> api_request list \<Rightarrow> millis \<times> db \<Rightarrow> (int + rate_limit_state option) list \<times> (millis \<times> db)" where
  "serve_all S [] st = ([], st)"
| "serve_all S ((c, ip, now) # rs) st =
     (let (r, st1) = checkApiRateLimit S c ip now st; (out, st2) = serve_all S rs st1 in (r # out, st2))"

definition limited :: "ratelimit_settings \<Rightarrow> api_caller \<Rightarrow> bool" where
  "limited S c \<longleftrightarrow> (case c of ApiUser _ admin \<Rightarrow> \<not> admin | _ \<Rightarrow> True) \<and> limit_for S c \<noteq> None"

definition counts_for :: "ratelimit_settings \<Rightarrow> string \<Rightarrow> api_request \<Rightarrow> bool" where
  "counts_for S k r \<longleftrightarrow> (case r of (c, ip, _) \<Rightarrow> limited S c \<and> keyFor c ip = k)"

definition answered :: "int + rate_limit_state option \<Rightarrow> bool" where
  "answered r \<longleftrightarrow> \<not> isl r"

definition used :: "string \<Rightarrow> millis \<Rightarrow> db \<Rightarrow> int" where
  "used k start d = (case find (\<lambda>r. rc_key r = k) (db_rateCounters d) of
     Some r \<Rightarrow> if rc_windowStart r = start then rc_count r else 0 | None \<Rightarrow> 0)"

definition keys_ok :: "db \<Rightarrow> bool" where
  "keys_ok d \<longleftrightarrow> distinct (map rc_key (db_rateCounters d))"

lemma keyFor_same_limit: "keyFor c ip = keyFor c' ip' \<Longrightarrow> limit_for S c = limit_for S c'"
  by (auto simp: keyFor_def limit_for_def split: api_caller.splits)

lemma find_counter_update:
  "find (\<lambda>r. rc_key r = k) (map (\<lambda>x. if rc_key x = key then x\<lparr>rc_windowStart := s, rc_count := n\<rparr> else x) rs) =
     map_option (\<lambda>x. if k = key then x\<lparr>rc_windowStart := s, rc_count := n\<rparr> else x) (find (\<lambda>r. rc_key r = k) rs)" for rs :: "rate_limit_counter list"
  by (induction rs) auto

lemma count_request_other: "k \<noteq> key \<Longrightarrow> used k start (snd (count_request key s d)) = used k start d"
  by (simp add: count_request_def used_def find_append find_counter_update Let_def option.map_ident split: option.split)

lemma count_request_used:
  assumes "count_request key start d = (n, d')" and "keys_ok d"
  shows "keys_ok d'" and "n = used key start d + 1" and "used k start d' = (if k = key then n else used k start d)"
proof -
  have ids: "map rc_key (map (\<lambda>x. if rc_key x = key then x\<lparr>rc_windowStart := start, rc_count := n\<rparr> else x) rs) = map rc_key rs"
    for n and rs :: "rate_limit_counter list" by (induction rs) auto
  show "keys_ok d'"
  proof (cases "find (\<lambda>r. rc_key r = key) (db_rateCounters d)")
    case None
    then have "d' = d\<lparr>db_rateCounters := db_rateCounters d @ [\<lparr>rc_key = key, rc_windowStart = start, rc_count = 1\<rparr>]\<rparr>"
      using assms(1) by (simp add: count_request_def)
    then show ?thesis using assms(2) None by (auto simp: keys_ok_def find_None_iff)
  next
    case (Some r)
    then have "db_rateCounters d' = map (\<lambda>x. if rc_key x = key then x\<lparr>rc_windowStart := start, rc_count := n\<rparr> else x) (db_rateCounters d)"
      using assms(1) by (auto simp: count_request_def Let_def)
    then show ?thesis using assms(2) unfolding keys_ok_def by (simp only: ids)
  qed
  show "n = used key start d + 1"
    using assms(1) by (auto simp: count_request_def used_def Let_def split: option.splits if_splits)
  show "used k start d' = (if k = key then n else used k start d)"
  proof (cases "find (\<lambda>r. rc_key r = key) (db_rateCounters d)")
    case None
    then have "n = 1 \<and> d' = d\<lparr>db_rateCounters := db_rateCounters d @ [\<lparr>rc_key = key, rc_windowStart = start, rc_count = 1\<rparr>]\<rparr>"
      using assms(1) by (simp add: count_request_def)
    then show ?thesis using None by (simp add: used_def find_append split: option.split)
  next
    case (Some r)
    then have "db_rateCounters d' = map (\<lambda>x. if rc_key x = key then x\<lparr>rc_windowStart := start, rc_count := n\<rparr> else x) (db_rateCounters d)"
      using assms(1) by (auto simp: count_request_def Let_def)
    then have "find (\<lambda>r. rc_key r = k) (db_rateCounters d') =
        map_option (\<lambda>x. if k = key then x\<lparr>rc_windowStart := start, rc_count := n\<rparr> else x) (find (\<lambda>r. rc_key r = k) (db_rateCounters d))"
      by (simp only: find_counter_update)
    then show ?thesis using Some by (simp add: used_def split: option.split)
  qed
qed

lemma used_filter: "keys_ok d \<Longrightarrow> (\<And>r. rc_key r = k \<Longrightarrow> rc_windowStart r = start \<Longrightarrow> P r) \<Longrightarrow>
    used k start (d\<lparr>db_rateCounters := filter P (db_rateCounters d)\<rparr>) = used k start d"
proof -
  assume P: "\<And>r. rc_key r = k \<Longrightarrow> rc_windowStart r = start \<Longrightarrow> P r" and "keys_ok d"
  have "(case find (\<lambda>r. rc_key r = k) (filter P rs) of Some r \<Rightarrow> if rc_windowStart r = start then rc_count r else 0 | None \<Rightarrow> 0) =
      (case find (\<lambda>r. rc_key r = k) rs of Some r \<Rightarrow> if rc_windowStart r = start then rc_count r else 0 | None \<Rightarrow> 0)"
    if "distinct (map rc_key rs)" for rs :: "rate_limit_counter list" using that
  proof (induction rs)
    case (Cons r rs)
    show ?case
    proof (cases "rc_key r = k \<and> \<not> P r")
      case True
      then have "\<forall>x \<in> set rs. rc_key x \<noteq> k" using Cons.prems by (auto simp: image_iff)
      then have "find (\<lambda>r. rc_key r = k) (filter P rs) = None" by (simp add: find_None_iff)
      then show ?thesis using True P by auto
    next
      case False
      then show ?thesis using Cons by auto
    qed
  qed simp
  then show ?thesis using \<open>keys_ok d\<close> by (simp add: used_def keys_ok_def)
qed

lemma prune_used:
  assumes "keys_ok d" and "now < start + 86400000"
  shows "keys_ok (snd (pruneOpportunistically now lp d))" and "used k start (snd (pruneOpportunistically now lp d)) = used k start d"
proof -
  show "keys_ok (snd (pruneOpportunistically now lp d))"
    using assms(1) by (simp add: pruneOpportunistically_def keys_ok_def distinct_map_filter)
  show "used k start (snd (pruneOpportunistically now lp d)) = used k start d"
    using used_filter [OF assms(1), of k start "\<lambda>r. \<not> (starts_with (rc_key r) ''api|'' \<and> rc_windowStart r < now - 86400000)"] assms(2)
    by (simp add: pruneOpportunistically_def)
qed

lemma window_start_bounds:
  assumes "0 < rt_windowSeconds l"
  shows "window_start l now * 1000 \<le> now" and "now < (window_start l now + rt_windowSeconds l) * 1000"
proof -
  let ?w = "1000 * rt_windowSeconds l"
  have "now div ?w * ?w + now mod ?w = now" "0 \<le> now mod ?w" "now mod ?w < ?w" using assms by (simp_all only: div_mult_mod_eq pos_mod_sign pos_mod_bound mult_pos_pos zero_less_numeral)
  moreover have "window_start l now * 1000 = now div ?w * ?w" by (simp add: window_start_def)
  ultimately show "window_start l now * 1000 \<le> now" "now < (window_start l now + rt_windowSeconds l) * 1000"
    by (simp_all add: algebra_simps)
qed

lemma check_step:
  assumes "limit_for S c0 = Some l" "k = keyFor c0 ip0" "rt_windowSeconds l \<le> 86400" "start = ws * 1000"
    and "start \<le> now" "now < (ws + rt_windowSeconds l) * 1000" "window_start l now = ws" "keys_ok (snd st)"
    and run: "checkApiRateLimit S c ip now st = (r, st')"
  shows "keys_ok (snd st')"
    and "counts_for S k (c, ip, now) \<Longrightarrow> (answered r \<longleftrightarrow> used k start (snd st) < rt_count l) \<and> used k start (snd st') = used k start (snd st) + 1"
    and "\<not> counts_for S k (c, ip, now) \<Longrightarrow> used k start (snd st') = used k start (snd st)"
proof -
  have in_day: "now < start + 86400000" using assms(3, 4, 6) by simp
  consider (free) "st' = st" "\<not> limited S c" | (counted) l' n d1 where "limited S c" "limit_for S c = Some l'"
      "count_request (keyFor c ip) (window_start l' now * 1000) (snd st) = (n, d1)" "st' = pruneOpportunistically now (fst st) d1"
      "answered r \<longleftrightarrow> \<not> rt_count l' < n"
  proof (cases "limited S c")
    case False
    then have "st' = st" using run by (auto simp: checkApiRateLimit_def limited_def split: api_caller.splits if_splits)
    then show thesis using False that(1) by blast
  next
    case True
    then obtain l' where l': "limit_for S c = Some l'" by (auto simp: limited_def)
    obtain n d1 where n: "count_request (keyFor c ip) (window_start l' now * 1000) (snd st) = (n, d1)" by fastforce
    have "\<not> (case c of ApiUser _ admin \<Rightarrow> admin | _ \<Rightarrow> False)" using True by (auto simp: limited_def split: api_caller.splits)
    then have "st' = pruneOpportunistically now (fst st) d1 \<and> (answered r \<longleftrightarrow> \<not> rt_count l' < n)"
      using run l' n by (auto simp: checkApiRateLimit_def answered_def Let_def split: if_splits)
    then show thesis using True l' n that(2) by blast
  qed
  then have "keys_ok (snd st') \<and> (if counts_for S k (c, ip, now)
      then (answered r \<longleftrightarrow> used k start (snd st) < rt_count l) \<and> used k start (snd st') = used k start (snd st) + 1
      else used k start (snd st') = used k start (snd st))"
  proof cases
    case free
    then show ?thesis using assms(8) by (simp add: counts_for_def)
  next
    case counted
    note cr = count_request_used [OF counted(3) assms(8)]
    note pr = prune_used [OF cr(1) in_day, where lp = "fst st", folded counted(4)]
    show ?thesis
    proof (cases "keyFor c ip = k")
      case True
      then have "l' = l" using counted(2) assms(1, 2) keyFor_same_limit [of c ip c0 ip0 S] by simp
      then have s: "window_start l' now * 1000 = start" using assms(4, 7) by simp
      show ?thesis using True counted(1, 5) cr(2) cr(3) [of k] pr(1) pr(2) [of k] \<open>l' = l\<close> unfolding s by (auto simp: counts_for_def)
    next
      case False
      have "used k start d1 = used k start (snd st)"
        using count_request_other [of k "keyFor c ip" start "window_start l' now * 1000" "snd st"] False counted(3) by simp
      then show ?thesis using False pr by (simp add: counts_for_def)
    qed
  qed
  then show "keys_ok (snd st')"
    "counts_for S k (c, ip, now) \<Longrightarrow> (answered r \<longleftrightarrow> used k start (snd st) < rt_count l) \<and> used k start (snd st') = used k start (snd st) + 1"
    "\<not> counts_for S k (c, ip, now) \<Longrightarrow> used k start (snd st') = used k start (snd st)" by (simp_all split: if_splits)
qed

lemma serve_all_counts:
  assumes "limit_for S c0 = Some l" "k = keyFor c0 ip0" "0 < rt_windowSeconds l" "rt_windowSeconds l \<le> 86400"
    and "\<forall>(c, ip, now) \<in> set rs. window_start l now = ws" and "keys_ok (snd st)"
  shows "map (answered \<circ> snd) (filter (counts_for S k \<circ> fst) (zip rs (fst (serve_all S rs st)))) =
    map (\<lambda>i. used k (ws * 1000) (snd st) + int i < rt_count l) [0..<length (filter (counts_for S k) rs)]"
  using assms(5, 6)
proof (induction rs arbitrary: st)
  case (Cons q rs)
  obtain c ip now where q: "q = (c, ip, now)" by (cases q)
  obtain r st1 where run: "checkApiRateLimit S c ip now st = (r, st1)" by (cases "checkApiRateLimit S c ip now st")
  have ws: "window_start l now = ws" using Cons.prems q by simp
  note step = check_step [OF assms(1, 2, 4) refl _ _ ws Cons.prems(2) run, unfolded ws [symmetric], OF window_start_bounds [OF assms(3)], unfolded ws]
  note IH = Cons.IH [OF _ step(1)]
  have "fst (serve_all S (q # rs) st) = r # fst (serve_all S rs st1)" by (simp add: q run Let_def split: prod.split)
  then show ?case using IH step(2, 3) Cons.prems q
    by (cases "counts_for S k q") (simp_all add: upt_conv_Cons map_Suc_upt [symmetric] comp_def algebra_simps del: upt_Suc)
qed simp

text \<open>
  C39. The request limit is exact: in a window of at most a day, whatever requests of other callers come in between, exactly the first
  requests of a caller up to the limit are answered and every later one in that window is refused with 429.
\<close>
theorem limit_exact_in_window:
  assumes "limit_for S c = Some l" and "0 < rt_windowSeconds l" and "rt_windowSeconds l \<le> 86400"
    and "\<forall>(c, ip, now) \<in> set rs. window_start l now = ws" and "keys_ok d"
    and "\<forall>r \<in> set (db_rateCounters d). rc_key r = keyFor c ip \<longrightarrow> rc_windowStart r \<noteq> ws * 1000"
  shows "map (answered \<circ> snd) (filter (counts_for S (keyFor c ip) \<circ> fst) (zip rs (fst (serve_all S rs (lastPrune, d))))) =
    map (\<lambda>i. int i < rt_count l) [0..<length (filter (counts_for S (keyFor c ip)) rs)]"
proof -
  have "used (keyFor c ip) (ws * 1000) d = 0"
    using assms(6) by (auto simp: used_def find_Some_iff split: option.splits)
  then show ?thesis using serve_all_counts [OF assms(1) refl assms(2-4), of "(lastPrune, d)" ip] assms(5) by simp
qed

definition anonymous_only :: "string \<Rightarrow> ratelimit_settings" where
  "anonymous_only limit = \<lparr>rl_apiAnonymous = limit, rl_apiAuthenticated = []\<rparr>"

theorem limit_exact_in_window_witness:
  "let rs = [(ApiAnonymous, Some ''a'', 1000), (ApiAnonymous, Some ''b'', 2000), (ApiAnonymous, Some ''a'', 3000), (ApiAnonymous, Some ''a'', 4000)];
       S = anonymous_only ''2/1m''
   in map (answered \<circ> snd) (filter (counts_for S (keyFor ApiAnonymous (Some ''a'')) \<circ> fst) (zip rs (fst (serve_all S rs (0, empty_db))))) = [True, True, False]"
proof -
  let ?rs = "[(ApiAnonymous, Some ''a'', 1000), (ApiAnonymous, Some ''b'', 2000), (ApiAnonymous, Some ''a'', 3000), (ApiAnonymous, Some ''a'', 4000)] :: api_request list"
  have l: "limit_for (anonymous_only ''2/1m'') ApiAnonymous = Some \<lparr>rt_count = 2, rt_windowSeconds = 60\<rparr>" by code_simp
  have n: "length (filter (counts_for (anonymous_only ''2/1m'') (keyFor ApiAnonymous (Some ''a''))) ?rs) = 3" by code_simp
  show ?thesis
    using limit_exact_in_window [OF l, of ?rs 0 empty_db "Some ''a''" 0] unfolding Let_def n
    by (simp add: window_start_def keys_ok_def empty_db_def upt_conv_Cons)
qed

text \<open>
  A window longer than a day loses its counter while it runs, since the pruning compares its start with the clock: with one request in
  three days, the request on the second day is refused, and the one after it is answered again.
\<close>
lemma long_window_restarts:
  "map answered (fst (serve_all (anonymous_only ''1/3d'')
     [(ApiAnonymous, Some ''a'', 1000), (ApiAnonymous, Some ''a'', 172800000), (ApiAnonymous, Some ''a'', 172801000)] (0, empty_db))) = [True, False, True]"
  by code_simp

end
