(* ===== verification/Group_Bindings.thy ===== *)
theory Group_Bindings
  imports Quota Access Image_Paths
begin

text \<open>
  Roles from the groups of an identity provider (\<open>web/src/lib/group-bindings.ts\<close>, \<open>ensureLibraryOrg\<close> of \<open>library.ts\<close>): the text
  of bindings is parsed, the groups of a login are matched, and instance role and memberships follow. The clock and the new
  row ids (one per organization) are arguments. The theorems: of several matching bindings the highest role wins; a synchronisation touches
  nothing but the user's memberships in the organizations the source mentions; and it never takes the last owner from an organization.
\<close>

section \<open>Bindings\<close>

datatype group_source = Ldap | Github | Google | Oidc

datatype org_role = Owner | OrgAdmin | Member | Viewer

datatype binding_target = TargetAdmin | TargetOrg string org_role

record group_binding =
  gb_source :: group_source
  gb_group :: string
  gb_target :: binding_target

fun ROLE_RANK :: "org_role \<Rightarrow> int" where
  "ROLE_RANK Viewer = 0"
| "ROLE_RANK Member = 1"
| "ROLE_RANK OrgAdmin = 2"
| "ROLE_RANK Owner = 3"

fun role_text :: "org_role \<Rightarrow> string" where
  "role_text Owner = ''owner''"
| "role_text OrgAdmin = ''admin''"
| "role_text Member = ''member''"
| "role_text Viewer = ''viewer''"

definition ORG_ROLE_NAMES :: "org_role list" where
  "ORG_ROLE_NAMES = [Owner, OrgAdmin, Member, Viewer]"

definition role_of_text :: "string \<Rightarrow> org_role option" where
  "role_of_text s = find (\<lambda>r. role_text r = s) ORG_ROLE_NAMES"

definition dot_char :: "char \<Rightarrow> bool" where
  \<comment> \<open>what \<open>.\<close> matches\<close>
  "dot_char c \<longleftrightarrow> of_char c \<noteq> (10 :: nat) \<and> of_char c \<noteq> (13 :: nat)"

definition arrow_target :: "string \<Rightarrow> string option" where
  \<comment> \<open>\<open>\s*=>\s*(\S+)$\<close> at the start of the text\<close>
  "arrow_target rest =
     (let r = dropWhile js_ws rest in
      if \<not> starts_with r ''=>'' then None
      else (let t = dropWhile js_ws (drop 2 r) in if t \<noteq> [] \<and> list_all (\<lambda>c. \<not> js_ws c) t then Some t else None))"

fun split_arrow :: "string \<Rightarrow> string \<Rightarrow> (string \<times> string) option" where
  \<comment> \<open>\<open>/^(.+?)\s*=>\s*(\S+)$/\<close>: the shortest pattern that leaves an arrow and a target; \<open>pre\<close> is the pattern so far\<close>
  "split_arrow pre [] = None"
| "split_arrow pre (c # rest) =
     (if \<not> dot_char c then None
      else (case arrow_target rest of
          Some t \<Rightarrow> Some (pre @ [c], t)
        | None \<Rightarrow> split_arrow (pre @ [c]) rest))"

definition PREFIX :: "string \<Rightarrow> (group_source \<times> nat) option" where
  \<comment> \<open>the source and the length of \<open>/^(ldap|github|google|oidc):/i\<close>\<close>
  "PREFIX pattern =
     map_option (\<lambda>(n, s). (s, length n)) (find (\<lambda>(n, s). starts_with (js_lower pattern) n)
       [(''ldap:'', Ldap), (''github:'', Github), (''google:'', Google), (''oidc:'', Oidc)])"

definition parse_target :: "string \<Rightarrow> string + binding_target" where
  "parse_target target =
     (if target = ''admin'' then Inr TargetAdmin
      else (let sep = last_index_of CHR '':'' target;
                slug = (case sep of Some i \<Rightarrow> take i target | None \<Rightarrow> []);
                role = (case sep of Some i \<Rightarrow> if 0 < i then drop (i + 1) target else [] | None \<Rightarrow> [])
            in case role_of_text role of
                 Some r \<Rightarrow> if slug = [] then Inl (''AUTH_GROUP_BINDINGS: '' @ target) else Inr (TargetOrg slug r)
               | None \<Rightarrow> Inl (''AUTH_GROUP_BINDINGS: '' @ target)))"

definition parse_entry :: "string \<Rightarrow> string + group_binding" where
  \<comment> \<open>the texts of the exceptions are cut short\<close>
  "parse_entry entry = (case split_arrow [] entry of
       None \<Rightarrow> Inl (''AUTH_GROUP_BINDINGS: cannot parse '' @ entry)
     | Some (pattern, target) \<Rightarrow>
       (let prefix = PREFIX pattern;
            source = (case prefix of Some (s, _) \<Rightarrow> s | None \<Rightarrow> Ldap);
            group = (case prefix of Some (_, n) \<Rightarrow> js_trim (drop n pattern) | None \<Rightarrow> js_trim pattern)
        in if group = [] then Inl (''AUTH_GROUP_BINDINGS: empty group in '' @ entry)
           else (case parse_target target of
               Inl e \<Rightarrow> Inl e
             | Inr t \<Rightarrow> Inr \<lparr>gb_source = source, gb_group = group, gb_target = t\<rparr>)))"

fun map_sum_list :: "('a \<Rightarrow> string + 'b) \<Rightarrow> 'a list \<Rightarrow> string + 'b list" where
  \<comment> \<open>\<open>map\<close> with a function that may throw\<close>
  "map_sum_list f [] = Inr []"
| "map_sum_list f (x # xs) = (case f x of Inl e \<Rightarrow> Inl e | Inr y \<Rightarrow> (case map_sum_list f xs of Inl e \<Rightarrow> Inl e | Inr ys \<Rightarrow> Inr (y # ys)))"

definition binding_entries :: "string \<Rightarrow> string list" where
  "binding_entries raw = filter (\<lambda>s. s \<noteq> []) (map js_trim (concat (map (split_on CHR 0x0A) (split_on CHR '';'' raw))))"

definition parseGroupBindings :: "string \<Rightarrow> string + group_binding list" where
  "parseGroupBindings raw = map_sum_list parse_entry (binding_entries raw)"

definition bindingsFor :: "group_source \<Rightarrow> group_binding list \<Rightarrow> group_binding list" where
  "bindingsFor source bindings = filter (\<lambda>b. gb_source b = source) bindings"

section \<open>Matching\<close>

definition trim_right :: "string \<Rightarrow> string" where
  "trim_right s = rev (dropWhile js_ws (rev s))"

fun strip_parts :: "string list \<Rightarrow> string list" where
  "strip_parts [] = []"
| "strip_parts [p] = [dropWhile js_ws p]"
| "strip_parts (p # ps) = trim_right (dropWhile js_ws p) # strip_parts ps"

definition strip_around :: "char \<Rightarrow> string \<Rightarrow> string" where
  \<comment> \<open>\<open>s.replace(/\s*c\s*/g, c)\<close>\<close>
  "strip_around c s = (case split_on c s of
       [] \<Rightarrow> s
     | [p] \<Rightarrow> p
     | p # ps \<Rightarrow> join_with [c] (trim_right p # strip_parts ps))"

definition normalizeDn :: "string \<Rightarrow> string" where
  "normalizeDn dn = js_trim (strip_around CHR ''='' (strip_around CHR '','' (js_lower dn)))"

definition groupMatches :: "group_source \<Rightarrow> string \<Rightarrow> string \<Rightarrow> bool" where
  "groupMatches source identifier pattern =
     (if source \<noteq> Ldap then js_lower identifier = js_lower pattern
      else (let g = normalizeDn identifier; p = normalizeDn pattern in
            if g = p then True
            else if CHR ''='' \<in> set p then False
            else (case split_on CHR ''='' (hd (split_on CHR '','' g)) of _ # v # _ \<Rightarrow> v = p | _ \<Rightarrow> False)))"

record resolved_bindings =
  rb_admin :: "bool option"
  rb_orgRoles :: "(string \<times> org_role) list"
  rb_managedOrgs :: "string list"

record resolve_loop =
  rl_managed :: "string list"
  rl_roles :: "(string \<times> org_role) list"
  rl_adminConfigured :: bool
  rl_admin :: bool

definition resolve_binding :: "group_source \<Rightarrow> string list \<Rightarrow> group_binding \<Rightarrow> resolve_loop \<Rightarrow> resolve_loop" where
  "resolve_binding source groups b s =
     (let s1 = (case gb_target b of TargetAdmin \<Rightarrow> s\<lparr>rl_adminConfigured := True\<rparr> | TargetOrg slug _ \<Rightarrow> s\<lparr>rl_managed := rl_managed s @ [slug]\<rparr>)
      in if \<not> list_ex (\<lambda>g. groupMatches source g (gb_group b)) groups then s1
         else (case gb_target b of
             TargetAdmin \<Rightarrow> s1\<lparr>rl_admin := True\<rparr>
           | TargetOrg slug role \<Rightarrow>
             (case map_of (rl_roles s1) slug of
                None \<Rightarrow> s1\<lparr>rl_roles := AList.update slug role (rl_roles s1)\<rparr>
              | Some current \<Rightarrow> if ROLE_RANK current < ROLE_RANK role then s1\<lparr>rl_roles := AList.update slug role (rl_roles s1)\<rparr> else s1)))"

definition resolveBindings :: "group_source \<Rightarrow> string list \<Rightarrow> group_binding list \<Rightarrow> resolved_bindings" where
  "resolveBindings source groups bindings =
     (let s = fold (resolve_binding source groups) (bindingsFor source bindings) \<lparr>rl_managed = [], rl_roles = [], rl_adminConfigured = False, rl_admin = False\<rparr>
      in \<lparr>rb_admin = (if rl_adminConfigured s then Some (rl_admin s) else None), rb_orgRoles = rl_roles s, rb_managedOrgs = uniq (rl_managed s)\<rparr>)"

section \<open>Synchronisation\<close>

definition LIBRARY_NAME :: string where "LIBRARY_NAME = ''Library''"

definition membership :: "db \<Rightarrow> string \<Rightarrow> string \<Rightarrow> org_member option" where
  "membership d orgId userId = find (\<lambda>m. mem_organizationId m = orgId \<and> mem_userId m = userId) (db_members d)"

definition ensureLibraryOrg :: "millis \<Rightarrow> string \<Rightarrow> string \<Rightarrow> string \<Rightarrow> db \<Rightarrow> db" where
  \<comment> \<open>for an administrator; the new ids of the organization and of the membership\<close>
  "ensureLibraryOrg now orgId memberId userId d =
     (let (org, d1) = (case find_org d LIBRARY_SLUG of
            Some g \<Rightarrow> (g, d)
          | None \<Rightarrow> (let g = \<lparr>org_id = orgId, org_name = LIBRARY_NAME, org_slug = LIBRARY_SLUG, org_logo = None, org_createdAt = now,
                        org_metadata = Some (''{'' @ [char_of (34::nat)] @ ''system'' @ [char_of (34::nat)] @ '':true}'')\<rparr>
              in (g, d\<lparr>db_organizations := db_organizations d @ [g]\<rparr>)))
      in if membership d1 (org_id org) userId \<noteq> None then d1
         else d1\<lparr>db_members := db_members d1 @ [\<lparr>mem_id = memberId, mem_organizationId = org_id org, mem_userId = userId, mem_role = ''owner'', mem_createdAt = now\<rparr>]\<rparr>)"

definition isLastOwner :: "db \<Rightarrow> string \<Rightarrow> bool" where
  "isLastOwner d orgId \<longleftrightarrow> length (filter (\<lambda>m. mem_organizationId m = orgId \<and> mem_role m = ''owner'') (db_members d)) \<le> 1"

definition sync_admin :: "millis \<Rightarrow> string \<Rightarrow> string \<Rightarrow> string \<Rightarrow> bool option \<Rightarrow> db \<Rightarrow> db" where
  "sync_admin now orgId memberId userId admin d = (case admin of
       None \<Rightarrow> d
     | Some a \<Rightarrow>
       (let wanted = (if a then ''admin'' else ''user'');
            d1 = (case find (\<lambda>u. u_id u = userId) (db_users d) of
                Some u \<Rightarrow> if nullish (u_role u) ''user'' \<noteq> wanted
                   then d\<lparr>db_users := map (\<lambda>u. if u_id u = userId then u\<lparr>u_role := Some wanted\<rparr> else u) (db_users d)\<rparr> else d
              | None \<Rightarrow> d)
        in if a then ensureLibraryOrg now orgId memberId userId d1 else d1))"

definition sync_org :: "millis \<Rightarrow> (string \<Rightarrow> string) \<Rightarrow> string \<Rightarrow> (string \<times> org_role) list \<Rightarrow> organization \<Rightarrow> db \<Rightarrow> db" where
  \<comment> \<open>the body of the loop over the managed organizations\<close>
  "sync_org now newId userId roles org d =
     (case (map_of roles (org_slug org), membership d (org_id org) userId) of
        (Some role, None) \<Rightarrow>
          if checkMemberQuota d now (org_id org) False (Some (org_name org)) \<noteq> None then d
          else d\<lparr>db_members := db_members d @ [\<lparr>mem_id = newId (org_id org), mem_organizationId = org_id org, mem_userId = userId,
                 mem_role = role_text role, mem_createdAt = now\<rparr>]\<rparr>
      | (Some role, Some existing) \<Rightarrow>
          if mem_role existing = role_text role then d
          else if mem_role existing = ''owner'' \<and> isLastOwner d (org_id org) then d
          else d\<lparr>db_members := map (\<lambda>m. if mem_id m = mem_id existing then m\<lparr>mem_role := role_text role\<rparr> else m) (db_members d)\<rparr>
      | (None, Some existing) \<Rightarrow>
          if mem_role existing = ''owner'' \<and> isLastOwner d (org_id org) then d
          else d\<lparr>db_members := filter (\<lambda>m. mem_id m \<noteq> mem_id existing) (db_members d)\<rparr>
      | (None, None) \<Rightarrow> d)"

definition syncGroupBindings ::
  "string \<Rightarrow> millis \<Rightarrow> string \<Rightarrow> (string \<Rightarrow> string) \<Rightarrow> group_source \<Rightarrow> string \<Rightarrow> string list \<Rightarrow> db \<Rightarrow> string + db" where
  \<comment> \<open>the configured text; the id of a new library organization and those of new memberships by organization\<close>
  "syncGroupBindings raw now libraryId newId source userId groups d =
     (case parseGroupBindings raw of
        Inl e \<Rightarrow> Inl e
      | Inr bindings \<Rightarrow>
        if bindingsFor source bindings = [] then Inr d
        else (let r = resolveBindings source groups bindings;
                  d1 = sync_admin now libraryId (newId libraryId) userId (rb_admin r) d
              in if rb_managedOrgs r = [] then Inr d1
                 else Inr (fold (sync_org now newId userId (rb_orgRoles r))
                        (filter (\<lambda>g. org_slug g \<in> set (rb_managedOrgs r)) (db_organizations d1)) d1)))"

section \<open>The highest role wins\<close>

definition matched_roles :: "group_source \<Rightarrow> string list \<Rightarrow> group_binding list \<Rightarrow> string \<Rightarrow> org_role set" where
  \<comment> \<open>the roles in an organization that the bindings of a source give to someone in these groups\<close>
  "matched_roles source groups bs slug =
     {role. \<exists>b \<in> set bs. gb_source b = source \<and> gb_target b = TargetOrg slug role \<and> list_ex (\<lambda>g. groupMatches source g (gb_group b)) groups}"

definition best_role :: "org_role set \<Rightarrow> org_role option \<Rightarrow> bool" where
  "best_role M r \<longleftrightarrow> (case r of None \<Rightarrow> M = {} | Some role \<Rightarrow> role \<in> M \<and> M \<subseteq> {x. ROLE_RANK x \<le> ROLE_RANK role})"

lemma best_role_insert:
  "best_role M r \<Longrightarrow> best_role (insert x M) (case r of None \<Rightarrow> Some x | Some c \<Rightarrow> if ROLE_RANK c < ROLE_RANK x then Some x else Some c)"
  by (auto simp: best_role_def split: option.splits)

definition no_roles :: resolve_loop where
  "no_roles = \<lparr>rl_managed = [], rl_roles = [], rl_adminConfigured = False, rl_admin = False\<rparr>"

lemma resolve_loop_roles:
  assumes "\<forall>b \<in> set bs. gb_source b = source"
  shows "best_role (matched_roles source groups bs slug) (map_of (rl_roles (fold (resolve_binding source groups) bs no_roles)) slug)"
  using assms
proof (induction bs rule: rev_induct)
  case Nil
  then show ?case by (simp add: no_roles_def best_role_def matched_roles_def)
next
  case (snoc b bs)
  let ?s = "fold (resolve_binding source groups) bs no_roles"
  have IH: "best_role (matched_roles source groups bs slug) (map_of (rl_roles ?s) slug)" using snoc by simp
  show ?case
  proof (cases "(\<exists>role. gb_target b = TargetOrg slug role) \<and> list_ex (\<lambda>g. groupMatches source g (gb_group b)) groups")
    case True
    then obtain role where t: "gb_target b = TargetOrg slug role" by blast
    have "matched_roles source groups (bs @ [b]) slug = insert role (matched_roles source groups bs slug)"
      using True t snoc.prems by (auto simp: matched_roles_def)
    moreover have "map_of (rl_roles (resolve_binding source groups b ?s)) slug =
        (case map_of (rl_roles ?s) slug of None \<Rightarrow> Some role | Some c \<Rightarrow> if ROLE_RANK c < ROLE_RANK role then Some role else Some c)"
      using True t by (simp add: resolve_binding_def Let_def update_conv split: option.split)
    ultimately show ?thesis using best_role_insert [OF IH] by simp
  next
    case False
    have "matched_roles source groups (bs @ [b]) slug = matched_roles source groups bs slug" using False by (auto simp: matched_roles_def)
    moreover have "map_of (rl_roles (resolve_binding source groups b ?s)) slug = map_of (rl_roles ?s) slug"
      using False by (auto simp: resolve_binding_def Let_def update_conv split: binding_target.splits option.splits)
    ultimately show ?thesis using IH by simp
  qed
qed

lemma resolve_loop_flags:
  "set (rl_managed (fold (resolve_binding source groups) bs s)) = set (rl_managed s) \<union> {slug. \<exists>r. TargetOrg slug r \<in> gb_target ` set bs} \<and>
   (rl_adminConfigured (fold (resolve_binding source groups) bs s) \<longleftrightarrow> rl_adminConfigured s \<or> TargetAdmin \<in> gb_target ` set bs) \<and>
   (rl_admin (fold (resolve_binding source groups) bs s) \<longleftrightarrow>
      rl_admin s \<or> list_ex (\<lambda>b. gb_target b = TargetAdmin \<and> list_ex (\<lambda>g. groupMatches source g (gb_group b)) groups) bs)"
proof (induction bs arbitrary: s)
  case (Cons b bs)
  have step: "set (rl_managed (resolve_binding source groups b s)) = set (rl_managed s) \<union> {slug. \<exists>r. gb_target b = TargetOrg slug r}"
    "rl_adminConfigured (resolve_binding source groups b s) \<longleftrightarrow> rl_adminConfigured s \<or> gb_target b = TargetAdmin"
    "rl_admin (resolve_binding source groups b s) \<longleftrightarrow> rl_admin s \<or> (gb_target b = TargetAdmin \<and> list_ex (\<lambda>g. groupMatches source g (gb_group b)) groups)"
    by (auto simp: resolve_binding_def Let_def split: binding_target.splits option.splits)
  have "{slug. \<exists>r. TargetOrg slug r \<in> gb_target ` set (b # bs)} =
      {slug. \<exists>r. gb_target b = TargetOrg slug r} \<union> {slug. \<exists>r. TargetOrg slug r \<in> gb_target ` set bs}"
    unfolding list.set image_insert by (auto dest: sym)
  then show ?case using Cons [of "resolve_binding source groups b s"] unfolding step fold_simps by (simp add: Un_assoc eq_commute [of TargetAdmin])
qed simp

text \<open>
  Of several bindings that match, the highest role wins, in whatever order they are written: for every organization the resolved role is the
  greatest of the roles the login's groups are bound to, and there is none exactly when no binding matches; the organizations a source
  manages are those its bindings mention; and the instance role is touched only if the source binds it at all.
\<close>
theorem resolveBindings_highest:
  "let r = resolveBindings source groups bindings; mine = bindingsFor source bindings in
    best_role (matched_roles source groups bindings slug) (map_of (rb_orgRoles r) slug) \<and>
    set (rb_managedOrgs r) = {slug. \<exists>role. TargetOrg slug role \<in> gb_target ` set mine} \<and>
    rb_admin r = (if TargetAdmin \<in> gb_target ` set mine
       then Some (list_ex (\<lambda>b. gb_target b = TargetAdmin \<and> list_ex (\<lambda>g. groupMatches source g (gb_group b)) groups) mine) else None)"
proof -
  let ?bs = "bindingsFor source bindings"
  let ?s = "fold (resolve_binding source groups) ?bs no_roles"
  have r: "resolveBindings source groups bindings =
      \<lparr>rb_admin = (if rl_adminConfigured ?s then Some (rl_admin ?s) else None), rb_orgRoles = rl_roles ?s, rb_managedOrgs = uniq (rl_managed ?s)\<rparr>"
    by (simp add: resolveBindings_def no_roles_def Let_def)
  have same: "matched_roles source groups bindings slug = matched_roles source groups ?bs slug" by (auto simp: matched_roles_def bindingsFor_def)
  have "best_role (matched_roles source groups ?bs slug) (map_of (rl_roles ?s) slug)"
    by (rule resolve_loop_roles) (simp add: bindingsFor_def)
  moreover note resolve_loop_flags [of source groups ?bs no_roles]
  moreover have "rl_managed no_roles = []" "\<not> rl_adminConfigured no_roles" "\<not> rl_admin no_roles" by (simp_all add: no_roles_def)
  ultimately show ?thesis by (simp add: r same Let_def)
qed

section \<open>What a synchronisation may change\<close>

definition has_owner :: "db \<Rightarrow> string \<Rightarrow> bool" where
  "has_owner d orgId \<longleftrightarrow> list_ex (\<lambda>m. mem_organizationId m = orgId \<and> mem_role m = ''owner'') (db_members d)"

definition not_of :: "string \<Rightarrow> string set \<Rightarrow> db \<Rightarrow> org_member list" where
  \<comment> \<open>the memberships other than the user's in these organizations\<close>
  "not_of u orgs d = filter (\<lambda>m. \<not> (mem_userId m = u \<and> mem_organizationId m \<in> orgs)) (db_members d)"

definition member_ids :: "db \<Rightarrow> string list" where
  "member_ids d = map mem_id (db_members d)"

lemma membershipD: "membership d o' u = Some e \<Longrightarrow> e \<in> set (db_members d) \<and> mem_organizationId e = o' \<and> mem_userId e = u"
  unfolding membership_def using find_SomeD by fastforce

lemma membership_not_of: "o' \<notin> orgs \<Longrightarrow> membership d o' u = find (\<lambda>m. mem_organizationId m = o' \<and> mem_userId m = u) (not_of u orgs d)"
  unfolding membership_def not_of_def find_filter_conj by (rule arg_cong [where f = "\<lambda>P. find P _"]) auto

lemma has_owner_not_of: "o' \<notin> orgs \<Longrightarrow> has_owner d o' \<longleftrightarrow> list_ex (\<lambda>m. mem_organizationId m = o' \<and> mem_role m = ''owner'') (not_of u orgs d)"
  by (auto simp: has_owner_def not_of_def list_ex_iff)

lemma not_of_mono: "A \<subseteq> B \<Longrightarrow> not_of u A d = not_of u A d' \<Longrightarrow> not_of u B d = not_of u B d'"
proof -
  assume "A \<subseteq> B"
  then have "not_of u B x = filter (\<lambda>m. \<not> (mem_userId m = u \<and> mem_organizationId m \<in> B)) (not_of u A x)" for x
    by (auto simp: not_of_def intro!: filter_cong)
  then show "not_of u A d = not_of u A d' \<Longrightarrow> not_of u B d = not_of u B d'" by simp
qed

lemma only_row:
  fixes ms :: "org_member list"
  shows "distinct (map mem_id ms) \<Longrightarrow> e \<in> set ms \<Longrightarrow> m \<in> set ms \<Longrightarrow> mem_id m = mem_id e \<longleftrightarrow> m = e"
  by (auto simp: distinct_map dest: inj_onD)

lemma another_owner:
  fixes ms :: "org_member list"
  assumes "distinct (map mem_id ms)" and "list_ex Q ms" and "Q e \<Longrightarrow> 1 < length (filter Q ms)"
  obtains m where "m \<in> set ms" "Q m" "m \<noteq> e"
proof -
  have "\<exists>m \<in> set ms. Q m \<and> m \<noteq> e"
  proof (rule ccontr)
    assume "\<not> ?thesis"
    then have sub: "set (filter Q ms) \<subseteq> {e}" by auto
    then have "Q e" using assms(2) by (auto simp: list_ex_iff)
    moreover have "length (filter Q ms) = card (set (filter Q ms))" using assms(1) by (metis distinct_card distinct_filter distinct_map)
    ultimately show False using assms(3) card_mono [OF _ sub] by simp
  qed
  then show thesis using that by blast
qed

lemma sync_org_cases:
  obtains (keep) "sync_org now newId u roles g d = d"
  | (add) row where "sync_org now newId u roles g d = d\<lparr>db_members := db_members d @ [row]\<rparr>" "membership d (org_id g) u = None"
      "mem_id row = newId (org_id g)" "mem_organizationId row = org_id g" "mem_userId row = u"
  | (set_role) e r where "sync_org now newId u roles g d = d\<lparr>db_members := map (\<lambda>m. if mem_id m = mem_id e then m\<lparr>mem_role := r\<rparr> else m) (db_members d)\<rparr>"
      "membership d (org_id g) u = Some e" "\<not> (mem_role e = ''owner'' \<and> isLastOwner d (org_id g))"
  | (drop) e where "sync_org now newId u roles g d = d\<lparr>db_members := filter (\<lambda>m. mem_id m \<noteq> mem_id e) (db_members d)\<rparr>"
      "membership d (org_id g) u = Some e" "\<not> (mem_role e = ''owner'' \<and> isLastOwner d (org_id g))"
proof (cases "map_of roles (org_slug g)"; cases "membership d (org_id g) u")
  fix r assume 1: "map_of roles (org_slug g) = Some r" and 2: "membership d (org_id g) u = None"
  show thesis
    using 1 2 keep add [of "\<lparr>mem_id = newId (org_id g), mem_organizationId = org_id g, mem_userId = u, mem_role = role_text r, mem_createdAt = now\<rparr>"]
    by (cases "checkMemberQuota d now (org_id g) False (Some (org_name g))") (simp_all add: sync_org_def)
next
  fix r e assume 1: "map_of roles (org_slug g) = Some r" and 2: "membership d (org_id g) u = Some e"
  show thesis
    using 1 2 keep set_role [of e "role_text r"]
    by (cases "mem_role e = role_text r"; cases "mem_role e = ''owner'' \<and> isLastOwner d (org_id g)") (simp_all add: sync_org_def)
next
  fix e assume 1: "map_of roles (org_slug g) = None" and 2: "membership d (org_id g) u = Some e"
  show thesis using 1 2 keep drop [of e] by (cases "mem_role e = ''owner'' \<and> isLastOwner d (org_id g)") (simp_all add: sync_org_def)
qed (use keep in \<open>simp add: sync_org_def\<close>)

lemma sync_org_frame:
  assumes ids: "distinct (member_ids d)" and fresh: "membership d (org_id g) u = None \<Longrightarrow> newId (org_id g) \<notin> set (member_ids d)"
    and d'_def: "d' = sync_org now newId u roles g d"
  shows "distinct (member_ids d') \<and> not_of u {org_id g} d' = not_of u {org_id g} d \<and> (has_owner d (org_id g) \<longrightarrow> has_owner d' (org_id g)) \<and>
    set (member_ids d') \<subseteq> insert (newId (org_id g)) (set (member_ids d)) \<and> d'\<lparr>db_members := db_members d\<rparr> = d"
proof (cases rule: sync_org_cases [of now newId u roles g d])
  case keep
  then show ?thesis using ids by (auto simp: d'_def)
next
  case (add row)
  then show ?thesis using ids fresh by (simp add: d'_def member_ids_def not_of_def has_owner_def list_ex_iff)
next
  case (set_role e r)
  note e = membershipD [OF set_role(2)]
  note one = only_row [OF ids [unfolded member_ids_def] conjunct1 [OF e]]
  let ?f = "\<lambda>m. if mem_id m = mem_id e then m\<lparr>mem_role := r\<rparr> else m"
  have id: "map mem_id (map ?f ms) = map mem_id ms" for ms :: "org_member list" by (induction ms) auto
  have "filter (\<lambda>m. \<not> (mem_userId m = u \<and> mem_organizationId m = org_id g)) (map ?f ms) = filter (\<lambda>m. \<not> (mem_userId m = u \<and> mem_organizationId m = org_id g)) ms"
    if "set ms \<subseteq> set (db_members d)" for ms :: "org_member list" using that e one by (induction ms) auto
  moreover have "has_owner d' (org_id g)" if owned: "has_owner d (org_id g)"
  proof -
    obtain m where "m \<in> set (db_members d)" "mem_organizationId m = org_id g \<and> mem_role m = ''owner''" "m \<noteq> e"
      by (rule another_owner [OF ids [unfolded member_ids_def] owned [unfolded has_owner_def], of e]) (use set_role(3) e in \<open>auto simp: isLastOwner_def\<close>)
    then show ?thesis using one by (auto simp: d'_def set_role(1) has_owner_def list_ex_iff)
  qed
  ultimately show ?thesis using ids by (simp add: d'_def set_role(1) member_ids_def id not_of_def subset_insertI del: map_map)
next
  case (drop e)
  note e = membershipD [OF drop(2)]
  note one = only_row [OF ids [unfolded member_ids_def] conjunct1 [OF e]]
  have "not_of u {org_id g} d' = not_of u {org_id g} d"
    using e one by (auto simp: d'_def drop(1) not_of_def intro!: filter_cong)
  moreover have "has_owner d' (org_id g)" if owned: "has_owner d (org_id g)"
  proof -
    obtain m where "m \<in> set (db_members d)" "mem_organizationId m = org_id g \<and> mem_role m = ''owner''" "m \<noteq> e"
      by (rule another_owner [OF ids [unfolded member_ids_def] owned [unfolded has_owner_def], of e]) (use drop(3) e in \<open>auto simp: isLastOwner_def\<close>)
    then show ?thesis using one by (auto simp: d'_def drop(1) has_owner_def list_ex_iff)
  qed
  ultimately show ?thesis using ids by (auto simp: d'_def drop(1) member_ids_def distinct_map_filter)
qed

lemma sync_orgs_frame:
  assumes "inj newId" and "distinct (map org_id gs)" and "distinct (member_ids d)"
    and "\<And>g. g \<in> set gs \<Longrightarrow> newId (org_id g) \<in> set (member_ids d) \<Longrightarrow> membership d (org_id g) u \<noteq> None"
  shows "not_of u (org_id ` set gs) (fold (sync_org now newId u roles) gs d) = not_of u (org_id ` set gs) d \<and>
    (has_owner d org \<longrightarrow> has_owner (fold (sync_org now newId u roles) gs d) org) \<and> (fold (sync_org now newId u roles) gs d)\<lparr>db_members := db_members d\<rparr> = d"
  using assms(2-4)
proof (induction gs arbitrary: d)
  case (Cons g gs)
  define d1 where "d1 = sync_org now newId u roles g d"
  have "membership d (org_id g) u = None \<Longrightarrow> newId (org_id g) \<notin> set (member_ids d)" using Cons.prems(3) [of g] by auto
  note frame = sync_org_frame [OF Cons.prems(2) this d1_def]
  have out: "org_id g \<notin> org_id ` set gs" using Cons.prems(1) by simp
  have same: "membership d1 o' u = membership d o' u" "has_owner d1 o' \<longleftrightarrow> has_owner d o'" if "o' \<noteq> org_id g" for o'
    using that frame by (simp_all add: membership_not_of [of o' "{org_id g}"] has_owner_not_of [of o' "{org_id g}" _ u])
  have "membership d1 (org_id h) u \<noteq> None" if "h \<in> set gs" "newId (org_id h) \<in> set (member_ids d1)" for h
  proof -
    have ne: "org_id h \<noteq> org_id g" using that(1) out by (metis imageI)
    then have "newId (org_id h) \<in> set (member_ids d)" using that(2) frame injD [OF assms(1)] by blast
    then show ?thesis using Cons.prems(3) [of h] that(1) same(1) [OF ne] by simp
  qed
  note IH = Cons.IH [of d1, OF _ _ this]
  let ?d = "fold (sync_org now newId u roles) gs d1"
  have IH: "not_of u (org_id ` set gs) ?d = not_of u (org_id ` set gs) d1" "has_owner d1 org \<longrightarrow> has_owner ?d org" "?d\<lparr>db_members := db_members d1\<rparr> = d1"
    using IH Cons.prems(1) frame by auto
  have "not_of u (org_id ` set (g # gs)) ?d = not_of u (org_id ` set (g # gs)) d1" by (rule not_of_mono [OF _ IH(1)]) auto
  also have "\<dots> = not_of u (org_id ` set (g # gs)) d" by (rule not_of_mono [of "{org_id g}"]) (use frame in auto)
  finally have "not_of u (org_id ` set (g # gs)) ?d = not_of u (org_id ` set (g # gs)) d" .
  moreover have "has_owner d org \<longrightarrow> has_owner ?d org" using IH(2) frame same(2) [of org] by (cases "org = org_id g") auto
  moreover have "?d\<lparr>db_members := db_members d\<rparr> = d"
    using frame arg_cong [OF IH(3), of "\<lambda>x. x\<lparr>db_members := db_members d\<rparr>"] by simp
  ultimately show ?case by (simp add: d1_def)
qed simp

definition library_row :: "string \<Rightarrow> string \<Rightarrow> string \<Rightarrow> organization \<Rightarrow> org_member \<Rightarrow> bool" where
  "library_row libraryId memberId u g row \<longleftrightarrow> org_slug g = LIBRARY_SLUG \<and> mem_id row = memberId \<and> mem_userId row = u \<and> mem_organizationId row = org_id g"

lemma ensureLibraryOrg_frame:
  obtains g row where "library_row libraryId memberId u g row"
    and "db_organizations (ensureLibraryOrg now libraryId memberId u d) = db_organizations d \<and> g \<in> set (db_organizations d) \<or>
      db_organizations (ensureLibraryOrg now libraryId memberId u d) = db_organizations d @ [g] \<and> org_id g = libraryId"
    and "db_members (ensureLibraryOrg now libraryId memberId u d) \<in> {db_members d, db_members d @ [row]}"
    and "(ensureLibraryOrg now libraryId memberId u d)\<lparr>db_members := db_members d, db_organizations := db_organizations d\<rparr> = d"
proof -
  define g where "g = (case find_org d LIBRARY_SLUG of Some g \<Rightarrow> g
    | None \<Rightarrow> \<lparr>org_id = libraryId, org_name = LIBRARY_NAME, org_slug = LIBRARY_SLUG, org_logo = None, org_createdAt = now,
        org_metadata = Some (''{'' @ [char_of (34::nat)] @ ''system'' @ [char_of (34::nat)] @ '':true}'')\<rparr>)"
  show thesis
  proof (rule that [of g "\<lparr>mem_id = memberId, mem_organizationId = org_id g, mem_userId = u, mem_role = ''owner'', mem_createdAt = now\<rparr>"])
    show "library_row libraryId memberId u g \<lparr>mem_id = memberId, mem_organizationId = org_id g, mem_userId = u, mem_role = ''owner'', mem_createdAt = now\<rparr>"
      by (auto simp: library_row_def g_def find_org_def dest: find_SomeD split: option.split)
  qed (auto simp: ensureLibraryOrg_def Let_def g_def find_org_def dest: find_SomeD split: option.splits)
qed

definition library_ids :: "db \<Rightarrow> string set" where
  "library_ids d = {org_id g |g. g \<in> set (db_organizations d) \<and> org_slug g = LIBRARY_SLUG}"

definition rows_ok :: "(string \<Rightarrow> string) \<Rightarrow> string \<Rightarrow> db \<Rightarrow> bool" where
  \<comment> \<open>the ids of organizations and memberships are keys, and the ids for new rows are new\<close>
  "rows_ok newId libraryId d \<longleftrightarrow> inj newId \<and> distinct (member_ids d) \<and> range newId \<inter> set (member_ids d) = {} \<and> distinct (map org_id (db_organizations d)) \<and>
     libraryId \<notin> org_id ` set (db_organizations d)"

lemma library_frame:
  assumes ok: "rows_ok newId libraryId d"
    and d1_def: "d1 = ensureLibraryOrg now libraryId (newId libraryId) u d"
  shows "not_of u (library_ids d1) d1 = not_of u (library_ids d1) d" and "has_owner d org \<longrightarrow> has_owner d1 org"
    and "distinct (member_ids d1)" and "distinct (map org_id (db_organizations d1))"
    and "g \<in> set (db_organizations d1) \<Longrightarrow> newId (org_id g) \<in> set (member_ids d1) \<Longrightarrow> membership d1 (org_id g) u \<noteq> None"
    and "d1\<lparr>db_members := db_members d, db_organizations := db_organizations d\<rparr> = d"
proof -
  obtain l row where l: "library_row libraryId (newId libraryId) u l row"
    and orgs: "db_organizations d1 = db_organizations d \<and> l \<in> set (db_organizations d) \<or> db_organizations d1 = db_organizations d @ [l] \<and> org_id l = libraryId"
    and members: "db_members d1 \<in> {db_members d, db_members d @ [row]}" and rest: "d1\<lparr>db_members := db_members d, db_organizations := db_organizations d\<rparr> = d"
    unfolding d1_def by (rule ensureLibraryOrg_frame)
  have mem: "org_id l \<in> library_ids d1" using l orgs by (auto simp: library_ids_def library_row_def)
  show "not_of u (library_ids d1) d1 = not_of u (library_ids d1) d" using members l mem by (auto simp: not_of_def library_row_def)
  show "has_owner d org \<longrightarrow> has_owner d1 org" using members by (auto simp: has_owner_def)
  have fresh: "newId o' \<notin> set (member_ids d)" for o' using ok by (auto simp: rows_ok_def)
  show "distinct (member_ids d1)" using members l ok fresh [of libraryId] by (auto simp: member_ids_def rows_ok_def library_row_def)
  show "distinct (map org_id (db_organizations d1))" using orgs ok by (auto simp: rows_ok_def)
  show "d1\<lparr>db_members := db_members d, db_organizations := db_organizations d\<rparr> = d" by (rule rest)
  assume g: "g \<in> set (db_organizations d1)" and used: "newId (org_id g) \<in> set (member_ids d1)"
  from fresh [of "org_id g"] have "db_members d1 = db_members d @ [row]" "newId (org_id g) = newId libraryId"
    using used members l by (auto simp: member_ids_def library_row_def)
  moreover from this have gl: "org_id g = libraryId" using ok by (auto simp: rows_ok_def dest: injD)
  then have "org_id l = libraryId" using orgs ok g by (auto simp: rows_ok_def)
  ultimately show "membership d1 (org_id g) u \<noteq> None" using l gl by (auto simp: membership_def library_row_def find_None_iff)
qed

lemma sync_admin_frame:
  assumes ok: "rows_ok newId libraryId d"
    and d1_def: "d1 = sync_admin now libraryId (newId libraryId) u a d"
  shows "not_of u (library_ids d1) d1 = not_of u (library_ids d1) d" and "has_owner d org \<longrightarrow> has_owner d1 org"
    and "distinct (member_ids d1)" and "distinct (map org_id (db_organizations d1))"
    and "g \<in> set (db_organizations d1) \<Longrightarrow> newId (org_id g) \<in> set (member_ids d1) \<Longrightarrow> membership d1 (org_id g) u \<noteq> None"
    and "d1\<lparr>db_members := db_members d, db_organizations := db_organizations d, db_users := db_users d\<rparr> = d"
proof -
  obtain us where d1: "d1 = (if a = Some True then ensureLibraryOrg now libraryId (newId libraryId) u (d\<lparr>db_users := us\<rparr>) else d\<lparr>db_users := us\<rparr>)"
  proof -
    have "\<exists>us. d = d\<lparr>db_users := us\<rparr>" by (rule exI [of _ "db_users d"]) simp
    then have upd: "\<exists>us. (case find (\<lambda>x. u_id x = u) (db_users d) of Some x \<Rightarrow> if nullish (u_role x) ''user'' \<noteq> w
        then d\<lparr>db_users := map (\<lambda>x. if u_id x = u then x\<lparr>u_role := Some w\<rparr> else x) (db_users d)\<rparr> else d | None \<Rightarrow> d) = d\<lparr>db_users := us\<rparr>" for w
      by (cases "find (\<lambda>x. u_id x = u) (db_users d)") auto
    show thesis
    proof (cases a)
      case None
      then show ?thesis by (intro that [of "db_users d"]) (simp add: d1_def sync_admin_def)
    next
      case (Some b)
      obtain us where us: "(case find (\<lambda>x. u_id x = u) (db_users d) of Some x \<Rightarrow> if nullish (u_role x) ''user'' \<noteq> (if b then ''admin'' else ''user'')
          then d\<lparr>db_users := map (\<lambda>x. if u_id x = u then x\<lparr>u_role := Some (if b then ''admin'' else ''user'')\<rparr> else x) (db_users d)\<rparr> else d | None \<Rightarrow> d) = d\<lparr>db_users := us\<rparr>"
        using upd by blast
      show ?thesis by (rule that [of us]) (simp only: d1_def sync_admin_def Some option.case Let_def us option.inject simp_thms)
    qed
  qed
  have ok': "rows_ok newId libraryId (d\<lparr>db_users := us\<rparr>)" using ok by (simp add: rows_ok_def member_ids_def)
  have same: "not_of u X (d\<lparr>db_users := us\<rparr>) = not_of u X d" "has_owner (d\<lparr>db_users := us\<rparr>) = has_owner d"
    "member_ids (d\<lparr>db_users := us\<rparr>) = member_ids d" for X by (simp_all add: not_of_def has_owner_def fun_eq_iff member_ids_def)
  note lib = library_frame [OF ok' refl, where now = now and u = u]
  show "d1\<lparr>db_members := db_members d, db_organizations := db_organizations d, db_users := db_users d\<rparr> = d"
  proof (cases "a = Some True")
    case True
    then show ?thesis using arg_cong [OF lib(6), of "\<lambda>x. x\<lparr>db_users := db_users d\<rparr>"] by (simp add: d1)
  qed (simp add: d1)
  show "not_of u (library_ids d1) d1 = not_of u (library_ids d1) d" "has_owner d org \<longrightarrow> has_owner d1 org"
    "distinct (member_ids d1)" "distinct (map org_id (db_organizations d1))"
    using lib(1-4) [unfolded same] ok by (simp_all add: d1 same rows_ok_def)
  assume "g \<in> set (db_organizations d1)" and "newId (org_id g) \<in> set (member_ids d1)"
  moreover have "newId (org_id g) \<notin> set (member_ids d)" using ok by (auto simp: rows_ok_def)
  ultimately show "membership d1 (org_id g) u \<noteq> None" using lib(5) by (cases "a = Some True") (simp_all add: d1 same)
qed


section \<open>Examples\<close>

definition seat :: "string \<Rightarrow> string \<Rightarrow> string \<Rightarrow> org_member" where
  "seat mid u r = \<lparr>mem_id = mid, mem_organizationId = ''o1'', mem_userId = u, mem_role = r, mem_createdAt = 0\<rparr>"

definition acme_db :: db where
  "acme_db = empty_db\<lparr>
     db_organizations := [\<lparr>org_id = ''o1'', org_name = ''Acme'', org_slug = ''acme'', org_logo = None, org_createdAt = 0, org_metadata = None\<rparr>],
     db_members := [seat ''m1'' ''ann'' ''owner'', seat ''m2'' ''bob'' ''member''],
     db_teams := [\<lparr>team_id = ''t1'', team_organizationId = ''o1'', team_slug = ''core'', team_name = ''Core'', team_description = [], team_createdBy = None,
       team_createdAt = 0\<rparr>],
     db_teamMembers := [\<lparr>tm_teamId = ''t1'', tm_userId = ''bob'', tm_addedBy = None, tm_createdAt = 0\<rparr>]\<rparr>"

definition dev_bindings :: string where
  "dev_bindings = ''ldap:devs => acme:member''"

definition new_row :: "string \<Rightarrow> string" where
  "new_row o' = ''new-'' @ o'"

lemma acme_rows_ok: "rows_ok new_row ''lib'' acme_db"
proof -
  have "inj new_row" by (simp add: inj_def new_row_def)
  moreover have "range new_row \<inter> set (member_ids acme_db) = {}" by (auto simp: acme_db_def member_ids_def seat_def new_row_def)
  ultimately show ?thesis by (simp add: rows_ok_def) (simp add: acme_db_def member_ids_def seat_def)
qed

lemma acme_bindings: "parseGroupBindings dev_bindings = Inr [\<lparr>gb_source = Ldap, gb_group = ''devs'', gb_target = TargetOrg ''acme'' Member\<rparr>]"
  by code_simp


text \<open>
  Losing an organization through a binding is not the same as leaving it: the membership goes and the seat in the team stays, with the grants of the
  team, which apply again when the user comes back; leaving drops both.
\<close>
lemma removed_by_binding_keeps_seats:
  "(case syncGroupBindings dev_bindings 1 ''lib'' new_row Ldap ''bob'' [] acme_db of
      Inl _ \<Rightarrow> False
    | Inr d' \<Rightarrow> membership d' ''o1'' ''bob'' = None \<and> db_teamMembers d' = db_teamMembers acme_db \<and> db_teamMembers d' \<noteq> []) \<and>
   db_teamMembers (leaveOrganization ''o1'' ''bob'' acme_db) = []"
  by code_simp

end
