(* ===== verification/Outbox.thy ===== *)
theory Outbox
  imports Access Image_Paths
begin

text \<open>
  Events of the registry daemon (\<open>web/src/lib/registry-events.ts\<close>, \<open>app/api/internal/events/route.ts\<close>): a push or delete is a row of
  \<open>registry_event_outbox\<close>; a process claims the row, acts on the event and marks it delivered, and the scheduler's drain takes over rows that
  nobody claimed or whose claim went stale. What acting on an event calls in other components (config cache, webhooks, quota warnings, signatures, scans) is the
  record \<open>event_handlers\<close>; a handler returns the error it throws, if any, and the database after it. The clock is an argument and stands still during a drain.
  The theorems: a live claim excludes every other process and a delivered event is never handled again; a drain settles
  every due row it selects, as delivered or as failed with its next try scheduled; the delay of the query is the documented one.
\<close>

section \<open>Events\<close>

record registry_event =
  ev_id :: "nat option"
  ev_type :: string
  ev_repository :: string
  ev_digest :: string
  ev_tag :: "string option"
  ev_tags :: "string list option"
  ev_mediaType :: "string option"
  ev_actor :: "string option"

definition CLAIM_TTL :: millis where "CLAIM_TTL = 10 * 60 * 1000"

definition OUTBOX_MAX_ATTEMPTS :: int where "OUTBOX_MAX_ATTEMPTS = 25"

definition KEEP_DELIVERED :: millis where "KEEP_DELIVERED = 7 * 86400000"

definition outboxBackoffSeconds :: "int \<Rightarrow> int" where
  "outboxBackoffSeconds attempts = min 3600 (30 * 2 ^ nat (max 0 (attempts - 1)))"

record delete_payload =
  dp_tag :: "string option"
  dp_tags :: "string list"
  dp_digest :: "string option"
  dp_reference :: "string option"
    \<comment> \<open>of the image, when there is a digest\<close>
  dp_actor :: json

record event_handlers =
  eh_registryHost :: string
  eh_cacheManifestConfig :: "string \<Rightarrow> string \<Rightarrow> db \<Rightarrow> string option \<times> db"
  eh_buildPushPayload :: "string \<Rightarrow> string \<Rightarrow> string \<Rightarrow> string option \<Rightarrow> string option \<Rightarrow> db \<Rightarrow> string + (string \<times> json) option"
  eh_dispatchRepositoryWebhooks :: "string \<Rightarrow> json \<Rightarrow> db \<Rightarrow> string option \<times> db"
  eh_checkQuotaWarnings :: "string \<Rightarrow> db \<Rightarrow> string option \<times> db"
  eh_onManifestPushed :: "string \<Rightarrow> string \<Rightarrow> string option \<Rightarrow> db \<Rightarrow> string option \<times> db"
  eh_startScan :: "string \<Rightarrow> string \<Rightarrow> db \<Rightarrow> string option \<times> db"
  eh_resolveActor :: "string option \<Rightarrow> db \<Rightarrow> string + json"
  eh_emitDelete :: "string \<Rightarrow> delete_payload \<Rightarrow> db \<Rightarrow> string option \<times> db"

definition getRepoByPath :: "db \<Rightarrow> string \<Rightarrow> string \<Rightarrow> (organization \<times> repository) option" where
  "getRepoByPath d orgSlug repoName = (case find_org d orgSlug of
       None \<Rightarrow> None
     | Some g \<Rightarrow> map_option (\<lambda>r. (g, r)) (find_repo d (org_id g) repoName))"

definition push_webhooks :: "event_handlers \<Rightarrow> registry_event \<Rightarrow> db \<Rightarrow> string option \<times> db" where
  \<comment> \<open>a failure to build the payload is logged; one of the dispatch escapes\<close>
  "push_webhooks H e d = (case splitImagePath (ev_repository e) of
       None \<Rightarrow> (None, d)
     | Some (orgSlug, repoName) \<Rightarrow>
       (case eh_buildPushPayload H orgSlug repoName (ev_digest e) (ev_tag e) (ev_actor e) d of
          Inr (Some (repositoryId, payload)) \<Rightarrow>
            (case eh_dispatchRepositoryWebhooks H repositoryId payload d of
               (Some err, d1) \<Rightarrow> (Some err, d1)
             | (None, d1) \<Rightarrow> (None, snd (eh_checkQuotaWarnings H repositoryId d1)))
        | _ \<Rightarrow> (None, d)))"

definition delete_event_payload :: "event_handlers \<Rightarrow> registry_event \<Rightarrow> string \<Rightarrow> string \<Rightarrow> json \<Rightarrow> delete_payload" where
  "delete_event_payload H e orgSlug repoName actor =
     (let tags = (case ev_tags e of Some ts \<Rightarrow> ts | None \<Rightarrow> (if truthy (ev_tag e) then [nullish (ev_tag e) []] else []));
          digest = (if ev_digest e \<noteq> [] then Some (ev_digest e) else None)
      in \<lparr>dp_tag = ev_tag e, dp_tags = tags, dp_digest = digest,
          dp_reference = map_option (\<lambda>dg. imageReference (eh_registryHost H) (Some orgSlug) repoName (Some dg)) digest, dp_actor = actor\<rparr>)"

definition processRegistryEvent :: "event_handlers \<Rightarrow> registry_event \<Rightarrow> db \<Rightarrow> string option \<times> db" where
  "processRegistryEvent H e d =
     (if ev_type e = ''manifest.push'' \<and> ev_repository e \<noteq> [] \<and> ev_digest e \<noteq> []
      then (let d1 = snd (eh_cacheManifestConfig H (ev_repository e) (ev_digest e) d)
            in case push_webhooks H e d1 of
                 (Some err, d2) \<Rightarrow> (Some err, d2)
               | (None, d2) \<Rightarrow>
                 (let d3 = snd (eh_onManifestPushed H (ev_repository e) (ev_digest e) (ev_tag e) d2)
                  in (None, snd (eh_startScan H (ev_repository e) (ev_digest e) d3))))
      else if ev_type e = ''manifest.delete'' \<and> ev_repository e \<noteq> []
      then (case splitImagePath (ev_repository e) of
          None \<Rightarrow> (None, d)
        | Some (orgSlug, repoName) \<Rightarrow>
          (case getRepoByPath d orgSlug repoName of
             None \<Rightarrow> (None, d)
           | Some (_, repo) \<Rightarrow>
             (case eh_resolveActor H (ev_actor e) d of
                Inl err \<Rightarrow> (Some err, d)
              | Inr actor \<Rightarrow> (None, snd (eh_emitDelete H (repo_id repo) (delete_event_payload H e orgSlug repoName actor) d)))))
      else (None, d))"

section \<open>The outbox\<close>

definition claimable :: "millis \<Rightarrow> outbox_event \<Rightarrow> bool" where
  "claimable now r \<longleftrightarrow> oe_deliveredAt r = None \<and> (case oe_claimedAt r of None \<Rightarrow> True | Some c \<Rightarrow> c < now - CLAIM_TTL)"

definition update_outbox :: "nat \<Rightarrow> (outbox_event \<Rightarrow> outbox_event) \<Rightarrow> db \<Rightarrow> db" where
  "update_outbox i f d = d\<lparr>db_outbox := map (\<lambda>r. if oe_id r = i then f r else r) (db_outbox d)\<rparr>"

definition claimOutboxEvent :: "millis \<Rightarrow> nat \<Rightarrow> db \<Rightarrow> bool \<times> db" where
  "claimOutboxEvent now i d =
     (list_ex (\<lambda>r. oe_id r = i \<and> claimable now r) (db_outbox d),
      update_outbox i (\<lambda>r. if claimable now r then r\<lparr>oe_claimedAt := Some now\<rparr> else r) d)"

definition completeOutboxEvent :: "millis \<Rightarrow> nat \<Rightarrow> db \<Rightarrow> db" where
  "completeOutboxEvent now i d = update_outbox i (\<lambda>r. r\<lparr>oe_deliveredAt := Some now, oe_lastError := None\<rparr>) d"

definition sql_backoff :: "int \<Rightarrow> int" where
  \<comment> \<open>\<open>LEAST(3600, 30 * power(2, GREATEST(0, attempts)))\<close>, of the count before this failure\<close>
  "sql_backoff attempts = min 3600 (30 * 2 ^ nat (max 0 attempts))"

definition fail_row :: "millis \<Rightarrow> string \<Rightarrow> outbox_event \<Rightarrow> outbox_event" where
  "fail_row now message r = r\<lparr>oe_attempts := oe_attempts r + 1, oe_claimedAt := None, oe_lastError := Some (take 1000 message),
     oe_nextAttemptAt := now + 1000 * sql_backoff (oe_attempts r)\<rparr>"

definition failOutboxEvent :: "millis \<Rightarrow> nat \<Rightarrow> string \<Rightarrow> db \<Rightarrow> db" where
  "failOutboxEvent now i message d = update_outbox i (fail_row now message) d"

definition handleClaimedEvent :: "event_handlers \<Rightarrow> millis \<Rightarrow> nat \<Rightarrow> registry_event \<Rightarrow> db \<Rightarrow> bool \<times> db" where
  \<comment> \<open>whether the event was processed\<close>
  "handleClaimedEvent H now i e d = (case processRegistryEvent H e d of
       (None, d1) \<Rightarrow> (True, completeOutboxEvent now i d1)
     | (Some err, d1) \<Rightarrow> (False, failOutboxEvent now i err d1))"

definition row_event :: "outbox_event \<Rightarrow> registry_event" where
  "row_event r = \<lparr>ev_id = Some (oe_id r), ev_type = oe_type r, ev_repository = oe_repository r, ev_digest = nullish (oe_digest r) [], ev_tag = oe_tag r,
     ev_tags = Some (oe_tags r), ev_mediaType = oe_mediaType r, ev_actor = oe_actor r\<rparr>"

definition due_event :: "millis \<Rightarrow> outbox_event \<Rightarrow> bool" where
  "due_event now r \<longleftrightarrow> oe_nextAttemptAt r \<le> now \<and> oe_attempts r < OUTBOX_MAX_ATTEMPTS \<and> claimable now r"

definition due_events :: "millis \<Rightarrow> nat \<Rightarrow> db \<Rightarrow> outbox_event list" where
  "due_events now limit d = take limit (js_sort (\<lambda>a b. int (oe_id a) - int (oe_id b)) (filter (due_event now) (db_outbox d)))"

definition drain_row :: "event_handlers \<Rightarrow> millis \<Rightarrow> outbox_event \<Rightarrow> (nat \<times> nat) \<times> db \<Rightarrow> (nat \<times> nat) \<times> db" where
  "drain_row H now raw st = (case st of ((processed, failed), d) \<Rightarrow>
     (case claimOutboxEvent now (oe_id raw) d of
        (False, d1) \<Rightarrow> ((processed, failed), d1)
      | (True, d1) \<Rightarrow>
        (case handleClaimedEvent H now (oe_id raw) (row_event raw) d1 of
           (True, d2) \<Rightarrow> ((processed + 1, failed), d2)
         | (False, d2) \<Rightarrow> ((processed, failed + 1), d2))))"

definition sweep_delivered :: "millis \<Rightarrow> db \<Rightarrow> db" where
  "sweep_delivered now d = d\<lparr>db_outbox := filter (\<lambda>r. case oe_deliveredAt r of None \<Rightarrow> True | Some t \<Rightarrow> \<not> t < now - KEEP_DELIVERED) (db_outbox d)\<rparr>"

definition drainEventOutbox :: "event_handlers \<Rightarrow> millis \<Rightarrow> nat \<Rightarrow> db \<Rightarrow> (nat \<times> nat) \<times> db" where
  "drainEventOutbox H now limit d =
     (let (counts, d1) = fold (drain_row H now) (due_events now limit d) ((0, 0), d) in (counts, sweep_delivered now d1))"

record outbox_stats =
  ob_pending :: nat
  ob_stuck :: nat
  ob_oldestPendingSeconds :: "int option"
  ob_drainedLastDay :: nat

definition outboxStats :: "millis \<Rightarrow> db \<Rightarrow> outbox_stats" where
  \<comment> \<open>the cast to an integer rounds\<close>
  "outboxStats now d =
     (let undelivered = filter (\<lambda>r. oe_deliveredAt r = None) (db_outbox d)
      in \<lparr>ob_pending = length (filter (\<lambda>r. oe_attempts r < OUTBOX_MAX_ATTEMPTS) undelivered),
          ob_stuck = length (filter (\<lambda>r. OUTBOX_MAX_ATTEMPTS \<le> oe_attempts r) undelivered),
          ob_oldestPendingSeconds = (if undelivered = [] then None else Some ((now - Min (set (map oe_createdAt undelivered)) + 500) div 1000)),
          ob_drainedLastDay = length (filter (\<lambda>r. 0 < oe_attempts r \<and> (case oe_deliveredAt r of None \<Rightarrow> False | Some t \<Rightarrow> now - 86400000 < t)) (db_outbox d))\<rparr>)"

datatype event_work = Nothing_to_do | Handle_claimed nat | Best_effort

definition events_POST :: "bool \<Rightarrow> registry_event option \<Rightarrow> millis \<Rightarrow> db \<Rightarrow> int \<times> event_work \<times> db" where
  \<comment> \<open>with the outcome of the signature check and of \<open>JSON.parse\<close>; the status and what runs after the response\<close>
  "events_POST signed event now d =
     (if \<not> signed then (401, Nothing_to_do, d)
      else (case event of
          None \<Rightarrow> (400, Nothing_to_do, d)
        | Some e \<Rightarrow>
          if ev_type e = [] \<or> ev_repository e = [] then (400, Nothing_to_do, d)
          else (case ev_id e of
              None \<Rightarrow> (204, Best_effort, d)
            | Some i \<Rightarrow>
              if i = 0 then (204, Best_effort, d)
              else (case claimOutboxEvent now i d of
                  (False, d1) \<Rightarrow> (204, Nothing_to_do, d1)
                | (True, d1) \<Rightarrow> (204, Handle_claimed i, d1)))))"

section \<open>The delay\<close>

text \<open>
  The delay the database computes is the documented one: after the failure that makes it the n-th, the query waits exactly
  \<open>outboxBackoffSeconds n\<close>, which is 30 seconds after the first, doubles, and stays at an hour.
\<close>
theorem backoff_documented:
  "0 \<le> n \<Longrightarrow> sql_backoff n = outboxBackoffSeconds (n + 1) \<and> 30 \<le> sql_backoff n \<and> sql_backoff n \<le> 3600 \<and>
     sql_backoff (n + 1) = min 3600 (2 * sql_backoff n)"
proof -
  assume n: "0 \<le> n"
  then have s: "nat (n + 1) = Suc (nat n)" by simp
  have "(1 :: int) \<le> 2 ^ nat n" by simp
  then show ?thesis using n by (simp add: sql_backoff_def outboxBackoffSeconds_def s)
qed

theorem backoff_documented_witness: "sql_backoff 0 = 30 \<and> sql_backoff 1 = 60 \<and> sql_backoff 10 \<le> 3600"
  using backoff_documented [of 0] backoff_documented [of 10] by (simp add: sql_backoff_def)

section \<open>Claims\<close>

definition leaves_outbox :: "event_handlers \<Rightarrow> bool" where
  \<comment> \<open>what the outbox relies on: acting on an event does not write to the outbox itself\<close>
  "leaves_outbox H \<longleftrightarrow> (\<forall>a b d. db_outbox (snd (eh_cacheManifestConfig H a b d)) = db_outbox d) \<and>
     (\<forall>a p d. db_outbox (snd (eh_dispatchRepositoryWebhooks H a p d)) = db_outbox d) \<and> (\<forall>a d. db_outbox (snd (eh_checkQuotaWarnings H a d)) = db_outbox d) \<and>
     (\<forall>a b c d. db_outbox (snd (eh_onManifestPushed H a b c d)) = db_outbox d) \<and> (\<forall>a b d. db_outbox (snd (eh_startScan H a b d)) = db_outbox d) \<and>
     (\<forall>a p d. db_outbox (snd (eh_emitDelete H a p d)) = db_outbox d)"

lemma push_webhooks_outbox: "leaves_outbox H \<Longrightarrow> db_outbox (snd (push_webhooks H e d)) = db_outbox d"
  by (simp add: push_webhooks_def leaves_outbox_def split: option.split sum.split prod.split) (metis snd_conv)

lemma process_outbox:
  assumes "leaves_outbox H"
  shows "db_outbox (snd (processRegistryEvent H e d)) = db_outbox d"
proof -
  have 1: "db_outbox (snd (eh_cacheManifestConfig H a b d)) = db_outbox d" "db_outbox (snd (eh_onManifestPushed H a b c d)) = db_outbox d"
    "db_outbox (snd (eh_startScan H a b d)) = db_outbox d" "db_outbox (snd (eh_emitDelete H a q d)) = db_outbox d" for a b c q d
    using assms by (simp_all add: leaves_outbox_def)
  have 2: "db_outbox d2 = db_outbox d1" if "push_webhooks H e d1 = (r, d2)" for r d1 d2 using push_webhooks_outbox [OF assms, of e d1] that by simp
  show ?thesis
  proof (cases "push_webhooks H e (snd (eh_cacheManifestConfig H (ev_repository e) (ev_digest e) d))")
    case (Pair r d2)
    then show ?thesis using 2 [OF Pair] by (simp add: processRegistryEvent_def Let_def 1 split: option.split sum.split prod.split)
  qed
qed

definition rows_of_id :: "nat \<Rightarrow> db \<Rightarrow> outbox_event list" where
  "rows_of_id i d = filter (\<lambda>r. oe_id r = i) (db_outbox d)"

definition keeps_id :: "(outbox_event \<Rightarrow> outbox_event) \<Rightarrow> bool" where
  "keeps_id f \<longleftrightarrow> (\<forall>r. oe_id (f r) = oe_id r)"

lemma rows_update_other: "keeps_id f \<Longrightarrow> i \<noteq> j \<Longrightarrow> rows_of_id i (update_outbox j f d) = rows_of_id i d"
proof -
  assume "keeps_id f" "i \<noteq> j"
  then have "filter (\<lambda>r. oe_id r = i) (map (\<lambda>r. if oe_id r = j then f r else r) rs) = filter (\<lambda>r. oe_id r = i) rs" for rs :: "outbox_event list"
    by (induction rs) (auto simp: keeps_id_def)
  then show ?thesis by (simp add: rows_of_id_def update_outbox_def)
qed

lemma rows_update: "keeps_id f \<Longrightarrow> rows_of_id i (update_outbox i f d) = map f (rows_of_id i d)"
proof -
  assume "keeps_id f"
  then have "filter (\<lambda>r. oe_id r = i) (map (\<lambda>r. if oe_id r = i then f r else r) rs) = map f (filter (\<lambda>r. oe_id r = i) rs)" for rs :: "outbox_event list"
    by (induction rs) (auto simp: keeps_id_def)
  then show ?thesis by (simp add: rows_of_id_def update_outbox_def)
qed

lemma outbox_writes_keep_id [simp]:
  "keeps_id (\<lambda>r. if claimable now r then r\<lparr>oe_claimedAt := Some now\<rparr> else r)" "keeps_id (\<lambda>r. r\<lparr>oe_deliveredAt := Some now, oe_lastError := None\<rparr>)"
  "keeps_id (fail_row now err)"
  by (simp_all add: keeps_id_def fail_row_def)

lemma rows_of_id_cong: "db_outbox d = db_outbox d' \<Longrightarrow> rows_of_id i d = rows_of_id i d'"
  by (simp add: rows_of_id_def)

lemma handle_rows:
  assumes "leaves_outbox H"
  shows "i \<noteq> j \<Longrightarrow> rows_of_id i (snd (handleClaimedEvent H now j e d)) = rows_of_id i d"
    and "rows_of_id i (snd (handleClaimedEvent H now i e d)) \<in>
      {map (\<lambda>r. r\<lparr>oe_deliveredAt := Some now, oe_lastError := None\<rparr>) (rows_of_id i d)} \<union> {map (fail_row now err) (rows_of_id i d) |err. True}"
proof -
  obtain r d1 where p: "processRegistryEvent H e d = (r, d1)" by fastforce
  then have o: "rows_of_id i d1 = rows_of_id i d" using process_outbox [OF assms, of e d] by (intro rows_of_id_cong) simp
  show "i \<noteq> j \<Longrightarrow> rows_of_id i (snd (handleClaimedEvent H now j e d)) = rows_of_id i d"
    using o by (cases r) (simp_all add: handleClaimedEvent_def p completeOutboxEvent_def failOutboxEvent_def rows_update_other)
  show "rows_of_id i (snd (handleClaimedEvent H now i e d)) \<in>
      {map (\<lambda>r. r\<lparr>oe_deliveredAt := Some now, oe_lastError := None\<rparr>) (rows_of_id i d)} \<union> {map (fail_row now err) (rows_of_id i d) |err. True}"
    using o by (cases r) (auto simp: handleClaimedEvent_def p completeOutboxEvent_def failOutboxEvent_def rows_update)
qed

lemma claim_rows:
  "i \<noteq> j \<Longrightarrow> rows_of_id i (snd (claimOutboxEvent now j d)) = rows_of_id i d"
  "list_all (\<lambda>r. \<not> claimable now r) (rows_of_id i d) \<Longrightarrow> rows_of_id i (snd (claimOutboxEvent now i d)) = rows_of_id i d"
proof -
  show "i \<noteq> j \<Longrightarrow> rows_of_id i (snd (claimOutboxEvent now j d)) = rows_of_id i d" by (simp add: claimOutboxEvent_def rows_update_other)
  assume "list_all (\<lambda>r. \<not> claimable now r) (rows_of_id i d)"
  then have "map (\<lambda>r. if claimable now r then r\<lparr>oe_claimedAt := Some now\<rparr> else r) (rows_of_id i d) = rows_of_id i d"
    by (intro map_idI) (auto simp: list_all_iff)
  then show "rows_of_id i (snd (claimOutboxEvent now i d)) = rows_of_id i d" by (simp add: claimOutboxEvent_def rows_update)
qed

lemma drain_row_other:
  assumes "leaves_outbox H" and "oe_id raw \<noteq> i"
  shows "rows_of_id i (snd (drain_row H now raw (n, d))) = rows_of_id i d"
proof -
  obtain c d1 where c: "claimOutboxEvent now (oe_id raw) d = (c, d1)" by fastforce
  obtain b d2 where h: "handleClaimedEvent H now (oe_id raw) (row_event raw) d1 = (b, d2)" by fastforce
  have "rows_of_id i d1 = rows_of_id i d" using claim_rows(1) [of i "oe_id raw" now d] assms(2) c by simp
  moreover have "rows_of_id i d2 = rows_of_id i d1" using handle_rows(1) [OF assms(1), of i "oe_id raw" now "row_event raw" d1] assms(2) h by simp
  ultimately show ?thesis by (cases n; cases c; cases b) (simp_all add: drain_row_def c h)
qed

lemma drain_spares:
  assumes "leaves_outbox H" and "list_all (\<lambda>r. \<not> claimable now r) (rows_of_id i d)"
  shows "set (rows_of_id i (snd (drainEventOutbox H now limit d))) \<subseteq> set (rows_of_id i d)"
proof -
  have "rows_of_id i (snd (fold (drain_row H now) rs (n, d1))) = rows_of_id i d1" if "\<forall>r \<in> set rs. oe_id r \<noteq> i" for rs n d1 using that
  proof (induction rs arbitrary: n d1)
    case (Cons r rs)
    then show ?case using drain_row_other [OF assms(1), of r i now n d1] by (cases "drain_row H now r (n, d1)") simp
  qed simp
  moreover have "\<forall>r \<in> set (due_events now limit d). oe_id r \<noteq> i"
    using assms(2) by (auto simp: due_events_def due_event_def rows_of_id_def list_all_iff dest!: in_set_takeD)
  ultimately have "rows_of_id i (snd (fold (drain_row H now) (due_events now limit d) ((0, 0), d))) = rows_of_id i d" by blast
  moreover have "set (rows_of_id i (sweep_delivered now x)) \<subseteq> set (rows_of_id i x)" for x by (auto simp: sweep_delivered_def rows_of_id_def)
  moreover have "snd (drainEventOutbox H now limit d) = sweep_delivered now (snd (fold (drain_row H now) (due_events now limit d) ((0, 0), d)))"
    by (simp add: drainEventOutbox_def split: prod.split)
  ultimately show ?thesis by metis
qed

inductive outbox_step :: "event_handlers \<Rightarrow> nat \<Rightarrow> nat set \<Rightarrow> millis \<Rightarrow> db \<Rightarrow> db \<Rightarrow> bool" for H i busy t where
  \<comment> \<open>what any process may do at time \<open>t\<close>, seen from row \<open>i\<close>: rows in \<open>busy\<close> are not finished by it\<close>
  recorded: "oe_id r \<noteq> i \<Longrightarrow> outbox_step H i busy t d (d\<lparr>db_outbox := db_outbox d @ [r]\<rparr>)"
| claimed: "outbox_step H i busy t d (snd (claimOutboxEvent t j d))"
| finished: "j \<notin> busy \<Longrightarrow> outbox_step H i busy t d (snd (handleClaimedEvent H t j e d))"
| drained: "outbox_step H i busy t d (snd (drainEventOutbox H t limit d))"
| elsewhere: "db_outbox d' = db_outbox d \<Longrightarrow> outbox_step H i busy t d d'"

lemma step_spares:
  assumes "outbox_step H i busy t d d'" and "leaves_outbox H" and "list_all (\<lambda>r. \<not> claimable t r) (rows_of_id i d)"
  shows "set (rows_of_id i d') \<subseteq> set (rows_of_id i d) \<or>
    i \<notin> busy \<and> (\<exists>f. (f = (\<lambda>r. r\<lparr>oe_deliveredAt := Some t, oe_lastError := None\<rparr>) \<or> (\<exists>err. f = fail_row t err)) \<and> rows_of_id i d' = map f (rows_of_id i d))"
  using assms
proof (cases rule: outbox_step.cases)
  case (finished j e)
  show ?thesis
  proof (cases "j = i")
    case True
    then have "i \<notin> busy" using finished(2) by simp
    moreover have "\<exists>f. (f = (\<lambda>r. r\<lparr>oe_deliveredAt := Some t, oe_lastError := None\<rparr>) \<or> (\<exists>err. f = fail_row t err)) \<and> rows_of_id i d' = map f (rows_of_id i d)"
      using handle_rows(2) [OF assms(2), of i t e d] unfolding finished(1) True by blast
    ultimately show ?thesis by blast
  next
    case False
    then show ?thesis using handle_rows(1) [OF assms(2), of i j t e d] finished(1) by simp
  qed
next
  case (claimed j)
  then show ?thesis using claim_rows(1) [of i j t d] claim_rows(2) [OF assms(3)] by (cases "j = i") simp_all
next
  case (drained limit)
  then show ?thesis using drain_spares [OF assms(2, 3)] by simp
qed (simp_all add: rows_of_id_def)

definition held_since :: "nat \<Rightarrow> millis \<Rightarrow> db \<Rightarrow> bool" where
  "held_since i c d \<longleftrightarrow> list_all (\<lambda>r. oe_deliveredAt r \<noteq> None \<or> oe_claimedAt r = Some c) (rows_of_id i d)"

definition settled :: "nat \<Rightarrow> db \<Rightarrow> bool" where
  "settled i d \<longleftrightarrow> list_all (\<lambda>r. oe_deliveredAt r \<noteq> None) (rows_of_id i d)"

lemma held_not_claimable: "held_since i c d \<Longrightarrow> t \<le> c + CLAIM_TTL \<Longrightarrow> list_all (\<lambda>r. \<not> claimable t r) (rows_of_id i d)"
  by (auto simp: held_since_def list_all_iff claimable_def)

lemma settled_not_claimable: "settled i d \<Longrightarrow> list_all (\<lambda>r. \<not> claimable t r) (rows_of_id i d)"
  by (auto simp: settled_def list_all_iff claimable_def)

lemma outbox_held_step: "outbox_step H i {i} t d d' \<Longrightarrow> leaves_outbox H \<Longrightarrow> t \<le> c + CLAIM_TTL \<Longrightarrow> held_since i c d \<Longrightarrow> held_since i c d'"
  using step_spares [of H i "{i}" t d d'] held_not_claimable [of i c d t] by (auto simp: held_since_def list_all_iff)

lemma settled_step: "outbox_step H i busy t d d' \<Longrightarrow> leaves_outbox H \<Longrightarrow> settled i d \<Longrightarrow> settled i d'"
  using step_spares [of H i busy t d d'] settled_not_claimable [of i d t] by (fastforce simp: settled_def list_all_iff fail_row_def)

interpretation held_runs: step_invariant "\<lambda>d d'. \<exists>t \<le> c + CLAIM_TTL. outbox_step H i {i} t d d'" "\<lambda>d. leaves_outbox H \<longrightarrow> held_since i c d" for c H i
  by unfold_locales (blast intro: outbox_held_step)

interpretation settled_runs: step_invariant "\<lambda>d d'. \<exists>t. outbox_step H i busy t d d'" "\<lambda>d. leaves_outbox H \<longrightarrow> settled i d" for H i busy
  by unfold_locales (blast intro: settled_step)

lemma claim_refused: "list_all (\<lambda>r. \<not> claimable t r) (rows_of_id i d) \<longleftrightarrow> \<not> fst (claimOutboxEvent t i d)"
  by (auto simp: claimOutboxEvent_def rows_of_id_def list_all_iff list_ex_iff)

text \<open>
  C22. An event is handled once: while a claim is less than ten minutes old and its owner has not finished, nobody else gets the row, whatever else is recorded,
  claimed, finished or drained; and once it is delivered, no claim ever succeeds again.
\<close>
theorem event_handled_once:
  assumes "leaves_outbox H" and "claimOutboxEvent c i d = (True, d1)" and "(\<lambda>d d'. \<exists>t \<le> c + CLAIM_TTL. outbox_step H i {i} t d d')\<^sup>*\<^sup>* d1 d2"
    and "distinct (map oe_id (db_outbox d))"
    and "(\<lambda>d d'. \<exists>t. outbox_step H i {} t d d')\<^sup>*\<^sup>* (completeOutboxEvent done_at i d2) d3"
  shows "(t \<le> c + CLAIM_TTL \<longrightarrow> \<not> fst (claimOutboxEvent t i d2)) \<and> \<not> fst (claimOutboxEvent t' i d3)"
proof -
  have d1: "d1 = update_outbox i (\<lambda>r. if claimable c r then r\<lparr>oe_claimedAt := Some c\<rparr> else r) d" and some: "\<exists>r \<in> set (rows_of_id i d). claimable c r"
    using assms(2) by (auto simp: claimOutboxEvent_def rows_of_id_def list_ex_iff)
  have one: "r = r'" if "r \<in> set (rows_of_id i d)" "r' \<in> set (rows_of_id i d)" for r r'
    using that assms(4) by (auto simp: rows_of_id_def distinct_map dest: inj_onD)
  have "held_since i c d1" unfolding held_since_def d1 rows_update [OF outbox_writes_keep_id(1)] using some one by (fastforce simp: list_all_iff)
  with held_runs.along_run [OF assms(3)] assms(1) have "held_since i c d2" by blast
  then have "t \<le> c + CLAIM_TTL \<longrightarrow> \<not> fst (claimOutboxEvent t i d2)" using held_not_claimable claim_refused by blast
  moreover have "settled i (completeOutboxEvent done_at i d2)" by (simp add: settled_def completeOutboxEvent_def rows_update list_all_iff)
  with settled_runs.along_run [OF assms(5)] assms(1) have "settled i d3" by blast
  then have "\<not> fst (claimOutboxEvent t' i d3)" using settled_not_claimable claim_refused by blast
  ultimately show ?thesis by blast
qed

section \<open>The drain\<close>

definition settled_as :: "millis \<Rightarrow> outbox_event \<Rightarrow> outbox_event \<Rightarrow> bool" where
  "settled_as now r r' \<longleftrightarrow> r' = r\<lparr>oe_claimedAt := Some now, oe_deliveredAt := Some now, oe_lastError := None\<rparr> \<or> (\<exists>err. r' = fail_row now err r)"

lemma settled_not_due: "settled_as now r r' \<Longrightarrow> \<not> due_event now r'"
proof -
  have "0 < sql_backoff n" for n by (simp add: sql_backoff_def)
  then show "settled_as now r r' \<Longrightarrow> \<not> due_event now r'" by (auto simp: settled_as_def due_event_def claimable_def fail_row_def not_le)
qed

lemma settled_same_id: "settled_as now r r' \<Longrightarrow> oe_id r' = oe_id r"
  by (auto simp: settled_as_def fail_row_def)

lemma claim_then_finish:
  assumes "leaves_outbox H" and "distinct (map oe_id (db_outbox d))" and "r \<in> set (db_outbox d)" and "claimable now r"
  obtains n' m' d' r' where "drain_row H now r ((n, m), d) = ((n', m'), d')" "n' + m' = n + m + 1" "settled_as now r r'"
    "db_outbox d' = map (\<lambda>x. if x = r then r' else x) (db_outbox d)"
proof -
  obtain d1 where c: "claimOutboxEvent now (oe_id r) d = (True, d1)"
    using assms(3, 4) by (auto simp: claimOutboxEvent_def list_ex_iff)
  obtain e d2 where p: "processRegistryEvent H (row_event r) d1 = (e, d2)" by fastforce
  have same: "oe_id x = oe_id r \<longleftrightarrow> x = r" if "x \<in> set (db_outbox d)" for x
    using that assms(2, 3) by (auto simp: distinct_map dest: inj_onD)
  have o1: "db_outbox d1 = map (\<lambda>x. if x = r then r\<lparr>oe_claimedAt := Some now\<rparr> else x) (db_outbox d)"
    using c assms(4) same by (auto simp: claimOutboxEvent_def update_outbox_def)
  have o2: "db_outbox d2 = db_outbox d1" using process_outbox [OF assms(1), of "row_event r" d1] p by simp
  have upd: "map (\<lambda>x. if oe_id x = oe_id r then f x else x) (db_outbox d2) = map (\<lambda>x. if x = r then f (r\<lparr>oe_claimedAt := Some now\<rparr>) else x) (db_outbox d)" for f
    unfolding o2 o1 map_map using same by (intro map_cong) auto
  show thesis
  proof (cases e)
    case None
    have "drain_row H now r ((n, m), d) = ((n + 1, m), completeOutboxEvent now (oe_id r) d2)" by (simp add: drain_row_def c handleClaimedEvent_def p None)
    moreover have "settled_as now r ((r\<lparr>oe_claimedAt := Some now\<rparr>)\<lparr>oe_deliveredAt := Some now, oe_lastError := None\<rparr>)" by (simp add: settled_as_def)
    ultimately show thesis
      using that [of "n + 1" m "completeOutboxEvent now (oe_id r) d2"] upd by (simp add: completeOutboxEvent_def update_outbox_def)
  next
    case (Some err)
    have "drain_row H now r ((n, m), d) = ((n, m + 1), failOutboxEvent now (oe_id r) err d2)" by (simp add: drain_row_def c handleClaimedEvent_def p Some)
    moreover have "fail_row now err (r\<lparr>oe_claimedAt := Some now\<rparr>) = fail_row now err r" by (simp add: fail_row_def)
    then have "settled_as now r (fail_row now err (r\<lparr>oe_claimedAt := Some now\<rparr>))" by (auto simp: settled_as_def)
    ultimately show thesis
      using that [of n "m + 1" "failOutboxEvent now (oe_id r) err d2"] upd [of "fail_row now err"] by (simp add: failOutboxEvent_def update_outbox_def)
  qed
qed

lemma drain_fold:
  assumes "leaves_outbox H" and "distinct (map oe_id (db_outbox d))" and "distinct (map oe_id rs)" and "\<forall>r \<in> set rs. r \<in> set (db_outbox d) \<and> claimable now r"
  shows "\<exists>n' m' d' out. fold (drain_row H now) rs ((n, m), d) = ((n', m'), d') \<and> n' + m' = n + m + length rs \<and> (\<forall>r \<in> set rs. settled_as now r (out r)) \<and>
    db_outbox d' = map (\<lambda>x. if x \<in> set rs then out x else x) (db_outbox d)"
  using assms(2-4)
proof (induction rs arbitrary: n m d)
  case Nil
  have "map (\<lambda>x. if x \<in> set [] then out x else x) (db_outbox d) = db_outbox d" for out :: "outbox_event \<Rightarrow> outbox_event" by simp
  then show ?case by (simp add: exI [of _ id])
next
  case (Cons r rs)
  have r: "r \<in> set (db_outbox d)" "claimable now r" using Cons.prems(3) by simp_all
  obtain n1 m1 d1 r1 where step: "drain_row H now r ((n, m), d) = ((n1, m1), d1)" "n1 + m1 = n + m + 1" "settled_as now r r1"
    "db_outbox d1 = map (\<lambda>x. if x = r then r1 else x) (db_outbox d)" by (rule claim_then_finish [OF assms(1) Cons.prems(1) r])
  have ids: "map oe_id (db_outbox d1) = map oe_id (db_outbox d)" using settled_same_id [OF step(3)] by (simp add: step(4))
  have "\<forall>x \<in> set rs. x \<in> set (db_outbox d1) \<and> claimable now x" using Cons.prems(2, 3) by (auto simp: step(4) image_iff)
  with Cons.IH [of d1 n1 m1] Cons.prems(1, 2) ids obtain n2 m2 d2 out where IH: "fold (drain_row H now) rs ((n1, m1), d1) = ((n2, m2), d2)" "n2 + m2 = n1 + m1 + length rs"
    "\<forall>x \<in> set rs. settled_as now x (out x)" "db_outbox d2 = map (\<lambda>x. if x \<in> set rs then out x else x) (db_outbox d1)" by auto
  have "r1 \<notin> set rs" "r \<notin> set rs" using Cons.prems(2) settled_same_id [OF step(3)] by (auto simp: image_iff)
  then have "db_outbox d2 = map (\<lambda>x. if x \<in> set (r # rs) then (out(r := r1)) x else x) (db_outbox d)"
    unfolding IH(4) step(4) map_map by (intro map_cong) auto
  moreover have "\<forall>x \<in> set (r # rs). settled_as now x ((out(r := r1)) x)" using IH(3) step(3) \<open>r \<notin> set rs\<close> by auto
  moreover have "fold (drain_row H now) (r # rs) ((n, m), d) = ((n2, m2), d2)" "n2 + m2 = n + m + length (r # rs)" using IH(1, 2) step(1, 2) by simp_all
  ultimately show ?case by blast
qed

text \<open>
  A drain leaves nothing half done: every row it selects is afterwards delivered or failed with one more attempt and a later try, the counts it
  returns add up to the rows it selected, every other row is as it was but for delivered ones a week old, and when it selected
  all due rows none is due any more.
\<close>
theorem drain_settles:
  assumes "leaves_outbox H" and "distinct (map oe_id (db_outbox d))" and "drainEventOutbox H now limit d = ((processed, failed), d')"
  shows "processed + failed = length (due_events now limit d) \<and>
    (\<exists>out. list_all (\<lambda>r. settled_as now r (out r)) (due_events now limit d) \<and>
       db_outbox d' = filter (\<lambda>r. case oe_deliveredAt r of None \<Rightarrow> True | Some t \<Rightarrow> \<not> t < now - KEEP_DELIVERED)
         (map (\<lambda>r. if r \<in> set (due_events now limit d) then out r else r) (db_outbox d))) \<and>
    (length (filter (due_event now) (db_outbox d)) \<le> limit \<longrightarrow> filter (due_event now) (db_outbox d') = [])"
proof -
  let ?due = "due_events now limit d"
  have mem: "\<forall>r \<in> set ?due. r \<in> set (db_outbox d) \<and> claimable now r" by (auto simp: due_events_def due_event_def dest!: in_set_takeD)
  have "distinct (map oe_id (filter (due_event now) (db_outbox d)))" using assms(2) by (simp add: distinct_map_filter)
  then have "distinct (map oe_id ?due)" unfolding due_events_def take_map [symmetric] by (intro distinct_take) simp
  from drain_fold [OF assms(1, 2) this mem, of 0 0] obtain n m d1 out where f: "fold (drain_row H now) ?due ((0, 0), d) = ((n, m), d1)" "n + m = length ?due"
    "\<forall>r \<in> set ?due. settled_as now r (out r)" "db_outbox d1 = map (\<lambda>x. if x \<in> set ?due then out x else x) (db_outbox d)" by auto
  have d': "processed = n" "failed = m" "d' = sweep_delivered now d1" using assms(3) f(1) by (auto simp: drainEventOutbox_def)
  have "filter (due_event now) (db_outbox d') = []" if "length (filter (due_event now) (db_outbox d)) \<le> limit"
  proof -
    have "set ?due = set (filter (due_event now) (db_outbox d))" using that by (simp add: due_events_def)
    then have "\<not> due_event now r" if "r \<in> set (db_outbox d1)" for r using that f(3) settled_not_due by (auto simp: f(4))
    then show ?thesis by (auto simp: d'(3) sweep_delivered_def filter_empty_conv)
  qed
  moreover have "list_all (\<lambda>r. settled_as now r (out r)) ?due" using f(3) by (simp add: list_all_iff)
  ultimately show ?thesis using f(2, 4) unfolding d' sweep_delivered_def by auto
qed

section \<open>Examples\<close>

definition quiet :: event_handlers where
  "quiet = \<lparr>eh_registryHost = ''registry.example'', eh_cacheManifestConfig = \<lambda>_ _ d. (None, d), eh_buildPushPayload = \<lambda>_ _ _ _ _ _. Inr None,
     eh_dispatchRepositoryWebhooks = \<lambda>_ _ d. (None, d), eh_checkQuotaWarnings = \<lambda>_ d. (None, d), eh_onManifestPushed = \<lambda>_ _ _ d. (None, d),
     eh_startScan = \<lambda>_ _ d. (None, d), eh_resolveActor = \<lambda>_ _. Inr JNull, eh_emitDelete = \<lambda>_ _ d. (None, d)\<rparr>"

lemma quiet_leaves_outbox: "leaves_outbox quiet"
  by (simp add: leaves_outbox_def quiet_def)

definition pushed :: "nat \<Rightarrow> outbox_event" where
  "pushed i = \<lparr>oe_id = i, oe_type = ''manifest.push'', oe_repository = ''acme/app'', oe_digest = Some ''sha256:1'', oe_tag = Some ''v1'', oe_tags = [],
     oe_mediaType = None, oe_actor = None, oe_occurredAt = 0, oe_createdAt = 0, oe_attempts = 0, oe_nextAttemptAt = 0, oe_claimedAt = None,
     oe_deliveredAt = None, oe_lastError = None\<rparr>"

definition two_events :: db where
  "two_events = empty_db\<lparr>db_outbox := [pushed 1, pushed 2]\<rparr>"

theorem event_handled_once_witness:
  "\<not> fst (claimOutboxEvent 500000 1 (snd (claimOutboxEvent 1000 1 two_events))) \<and>
   \<not> fst (claimOutboxEvent 90000000 1 (completeOutboxEvent 2000 1 (snd (claimOutboxEvent 1000 1 two_events))))"
proof -
  have c: "claimOutboxEvent 1000 1 two_events = (True, snd (claimOutboxEvent 1000 1 two_events))"
    by (simp add: claimOutboxEvent_def two_events_def claimable_def pushed_def)
  have "distinct (map oe_id (db_outbox two_events))" by (simp add: two_events_def pushed_def)
  from event_handled_once [OF quiet_leaves_outbox c rtranclp.rtrancl_refl this rtranclp.rtrancl_refl, of 500000 90000000 2000]
  show ?thesis by (simp add: CLAIM_TTL_def)
qed

theorem drain_settles_witness: "filter (due_event 1000) (db_outbox (snd (drainEventOutbox quiet 1000 50 two_events))) = []"
proof -
  obtain n m d' where r: "drainEventOutbox quiet 1000 50 two_events = ((n, m), d')" by (metis prod.collapse)
  have "distinct (map oe_id (db_outbox two_events))" "length (filter (due_event 1000) (db_outbox two_events)) \<le> 50"
    by (simp_all add: two_events_def pushed_def due_event_def claimable_def OUTBOX_MAX_ATTEMPTS_def)
  with drain_settles [OF quiet_leaves_outbox _ r] show ?thesis by (simp add: r)
qed

text \<open>
  A process that dies while it holds a claim leaves no trace in the count of attempts: after any number of such deaths the row is as due as
  it was, so an event that kills its process is tried for ever.
\<close>
lemma died_claim_not_counted:
  "let d = fold (\<lambda>t d. snd (claimOutboxEvent t 1 d)) (map (\<lambda>k. 700000 * int k) [0..<n]) two_events
   in oe_attempts (hd (db_outbox d)) = 0 \<and> fst (claimOutboxEvent (700000 * int n) 1 d)"
proof -
  have "db_outbox (fold (\<lambda>t d. snd (claimOutboxEvent t 1 d)) (map (\<lambda>k. 700000 * int k) [0..<n]) two_events) =
      [(pushed 1)\<lparr>oe_claimedAt := if n = 0 then None else Some (700000 * (int n - 1))\<rparr>, pushed 2]"
  proof (induction n)
    case 0
    then show ?case by (simp add: two_events_def pushed_def)
  next
    case (Suc n)
    then show ?case by (auto simp: claimOutboxEvent_def update_outbox_def claimable_def pushed_def CLAIM_TTL_def)
  qed
  then show ?thesis by (auto simp: Let_def claimOutboxEvent_def claimable_def pushed_def CLAIM_TTL_def)
qed

text \<open>
  The two paths do not process a deleted tag alike: the daemon leaves out an empty list of tags when it posts the event and the tag stands in, while the row has
  the empty list, which the drain passes on.
\<close>
lemma drained_delete_has_no_tags:
  "let row = (pushed 1)\<lparr>oe_type := ''manifest.delete''\<rparr>; posted = (row_event row)\<lparr>ev_tags := None\<rparr>
   in dp_tags (delete_event_payload quiet posted ''acme'' ''app'' JNull) = [''v1''] \<and> dp_tags (delete_event_payload quiet (row_event row) ''acme'' ''app'' JNull) = []"
  by code_simp

text \<open>
  Rows the drain delivers at its first try are not among the rows counted as drained.
\<close>
lemma first_drain_not_counted:
  "let d = snd (drainEventOutbox quiet 1000 50 two_events) in list_all (\<lambda>r. oe_deliveredAt r = Some 1000) (db_outbox d) \<and> ob_drainedLastDay (outboxStats 1000 d) = 0"
  by code_simp

end
