(* ===== verification/Jobs.thy ===== *)
theory Jobs
  imports Scan_Queue Outbox Quota Token_Endpoint
begin

text \<open>
  Background jobs and their schedules (\<open>web/src/lib/jobs.ts\<close>, \<open>scheduler.ts\<close>, \<open>schedules.ts\<close>, \<open>jobs-auth.ts\<close>, \<open>app/api/jobs/[job]/route.ts\<close>). A run of a
  job is a row of \<open>job_runs\<close>; the scheduler's tick drains the outbox, dispatches scan tasks, closes runs that never ended and starts the schedules that are due.
  Retention, quota enforcement, re-scans and the pruning of untagged manifests are the modelled operations; the other jobs and the cron parser are
  fields of \<open>job_env\<close>. The theorems: a tick starts exactly the due schedules whose job is not running, each once, and moves them to a
  later slot; a run that died blocks its schedule for six hours at most; the jobs API admits administrators only.
\<close>

section \<open>Parameters\<close>

definition unit_ms :: "char \<Rightarrow> int option" where
  "unit_ms c = map_of [(CHR ''s'', 1000), (CHR ''m'', 60000), (CHR ''h'', 3600000), (CHR ''d'', 86400000)] c"

definition job_durationToMs :: "string option \<Rightarrow> int \<Rightarrow> int" where
  "job_durationToMs v fallbackMs =
     (if \<not> truthy v then fallbackMs
      else (let t = js_trim (nullish v []) in
            if length t < 2 \<or> \<not> list_all is_digit (butlast t) then fallbackMs
            else (case unit_ms (last t) of None \<Rightarrow> fallbackMs | Some k \<Rightarrow> int (read_digits (butlast t)) * k)))"

definition clamp_number :: "int \<Rightarrow> int \<Rightarrow> int \<Rightarrow> string \<Rightarrow> int" where
  \<comment> \<open>\<open>Math.max(lo, Math.min(hi, Number(v) || fallback))\<close>; the texts that give a fraction are left out\<close>
  "clamp_number lo hi fallback v =
     (case Number_of v of
        Infinite negative \<Rightarrow> if negative then lo else max lo hi
      | NaN \<Rightarrow> max lo (min hi fallback)
      | n \<Rightarrow> (case num_integer n of
          Some k \<Rightarrow> max lo (min hi (if k = 0 then fallback else k))
        | None \<Rightarrow> max lo (min hi fallback)))"

type_synonym job_params = "(string \<times> string) list"

definition JOBS :: "(string \<times> job_params) list" where
  \<comment> \<open>name, and the parameters with their defaults; titles and descriptions are left out\<close>
  "JOBS = [(''gc'', [(''grace'', ''1h'')]), (''scan-stale'', [(''olderThan'', ''7d''), (''limit'', ''50'')]), (''prune-untagged'', [(''olderThan'', ''14d'')]),
     (''mirror-sync'', []), (''proxy-evict'', [(''unusedFor'', ''30d''), (''dryRun'', ''false'')]),
     (''retention'', [(''dryRun'', ''true''), (''organization'', []), (''repository'', [])]),
     (''quota-enforce'', [(''graceDays'', ''14''), (''dryRun'', ''true''), (''organization'', [])]), (''scan-normalize'', [(''limit'', ''200'')]),
     (''exceptions-expire'', []), (''token-expiry'', [(''withinDays'', ''7'')]), (''reverify-signatures'', [(''organization'', [])])]"

definition merge_params :: "job_params \<Rightarrow> job_params \<Rightarrow> job_params" where
  "merge_params documented given = map (\<lambda>(n, dflt). (n, nullish (map_of given n) dflt)) documented"

section \<open>Jobs\<close>

record job_env =
  je_scan :: scan_env
  je_lc :: "string \<Rightarrow> string \<Rightarrow> int"
  je_asc :: "string \<Rightarrow> string \<Rightarrow> int"
  je_registry :: registry
  je_fuel :: nat
  je_retention :: "retention_result \<Rightarrow> json"
  je_enforce :: "enforce_result \<Rightarrow> json"
  je_scanningEnabled :: bool
  je_newTask :: "string \<Rightarrow> string"
    \<comment> \<open>the id of a new scan task, by digest\<close>
  je_other :: "string \<Rightarrow> job_params \<Rightarrow> millis \<Rightarrow> db \<Rightarrow> (string + json) \<times> db"
    \<comment> \<open>the jobs whose components are not modelled\<close>

definition param :: "job_params \<Rightarrow> string \<Rightarrow> string option" where
  "param ps n = map_of ps n"

definition stale_candidates :: "job_env \<Rightarrow> millis \<Rightarrow> db \<Rightarrow> (string \<times> string) list" where
  \<comment> \<open>path and digest of the newest tag of each image whose scan is missing, failed or older than the cutoff\<close>
  "stale_candidates E cutoff d =
     (let joined = concat (map (\<lambda>t. concat (map (\<lambda>r. concat (map (\<lambda>g. concat (map (\<lambda>m. [(org_slug g @ ''/'' @ repo_name r, t)])
             (filter (\<lambda>m. man_repositoryId m = tag_repositoryId t \<and> man_digest m = tag_manifestDigest t \<and>
                          \<not> includes_str (man_mediaType m) ''index'' \<and> \<not> includes_str (man_mediaType m) ''list'') (db_manifests d))))
             (filter (\<lambda>g. org_id g = repo_organizationId r) (db_organizations d))))
             (filter (\<lambda>r. repo_id r = tag_repositoryId t) (db_repositories d)))) (db_tags d));
          stale = filter (\<lambda>(p, t). case find (\<lambda>s. vs_digest s = tag_manifestDigest t) (db_scans d) of
               None \<Rightarrow> True | Some s \<Rightarrow> vs_updatedAt s < cutoff \<or> vs_status s = ScanFailed) joined;
          ordered = js_sort (\<lambda>a b. cmp_or (je_asc E (tag_manifestDigest (snd a)) (tag_manifestDigest (snd b))) (tag_updatedAt (snd b) - tag_updatedAt (snd a))) stale
      in map (\<lambda>(p, t). (p, tag_manifestDigest t)) (fold (\<lambda>c acc. if list_ex (\<lambda>x. tag_manifestDigest (snd x) = tag_manifestDigest (snd c)) acc then acc else acc @ [c]) ordered []))"

definition scan_stale :: "job_env \<Rightarrow> job_params \<Rightarrow> millis \<Rightarrow> db \<Rightarrow> (string + json) \<times> db" where
  "scan_stale E ps now d =
     (if \<not> je_scanningEnabled E then (Inl ''Scanning is off (Administration -> Scanning)'', d)
      else (let cutoff = now - job_durationToMs (param ps ''olderThan'') (7 * 86400000);
                rows = take (nat (clamp_number 1 500 50 (nullish (param ps ''limit'') []))) (stale_candidates E cutoff d);
                d1 = fold (\<lambda>(path, digest). startScan (je_scan E) (je_newTask E digest) now path digest) rows d
            in (Inr (JObj [(''candidates'', JNum (int (length rows))), (''scanned'', JNum (int (length rows))), (''failed'', JNum 0)]), d1)))"

definition prunable :: "millis \<Rightarrow> db \<Rightarrow> manifest \<Rightarrow> bool" where
  "prunable cutoff d m \<longleftrightarrow> man_createdAt m < cutoff \<and>
     \<not> list_ex (\<lambda>t. tag_repositoryId t = man_repositoryId m \<and> tag_manifestDigest t = man_digest m) (db_tags d) \<and>
     \<not> list_ex (\<lambda>r. mr_repositoryId r = man_repositoryId m \<and> mr_refDigest r = man_digest m) (db_manifestRefs d)"

definition prune_untagged :: "job_params \<Rightarrow> millis \<Rightarrow> db \<Rightarrow> (string + json) \<times> db" where
  \<comment> \<open>with the rows that cascade\<close>
  "prune_untagged ps now d =
     (let cutoff = now - job_durationToMs (param ps ''olderThan'') (14 * 86400000);
          gone = filter (prunable cutoff d) (db_manifests d);
          hit = (\<lambda>rid dg. list_ex (\<lambda>m. man_repositoryId m = rid \<and> man_digest m = dg) gone)
      in (Inr (JObj [(''pruned'', JNum (int (length gone)))]),
          d\<lparr>db_manifests := filter (\<lambda>m. \<not> prunable cutoff d m) (db_manifests d),
            db_manifestRefs := filter (\<lambda>r. \<not> hit (mr_repositoryId r) (mr_manifestDigest r)) (db_manifestRefs d),
            db_manifestBlocks := filter (\<lambda>b. \<not> hit (mb_repositoryId b) (mb_digest b)) (db_manifestBlocks d),
            db_tags := filter (\<lambda>t. \<not> hit (tag_repositoryId t) (tag_manifestDigest t)) (db_tags d),
            db_signatures := filter (\<lambda>s. \<not> hit (ms_repositoryId s) (ms_signatureDigest s) \<and> \<not> hit (ms_repositoryId s) (ms_manifestDigest s)) (db_signatures d)\<rparr>))"

definition retention_job :: "job_env \<Rightarrow> job_params \<Rightarrow> millis \<Rightarrow> db \<Rightarrow> (string + json) \<times> db" where
  "retention_job E ps now d =
     (let (r, w) = runRetention (je_lc E) (je_asc E) (je_registry E) (param ps ''dryRun'' \<noteq> Some ''false'')
            (none_if_empty (param ps ''organization'')) (none_if_empty (param ps ''repository'')) ''user:system'' now (d, [])
      in (Inr (je_retention E r), fst w))"

definition quota_grace :: "job_params \<Rightarrow> int" where
  "quota_grace ps = clamp_number 0 365 14 (nullish (param ps ''graceDays'') ''undefined'')"

definition quota_job :: "job_env \<Rightarrow> job_params \<Rightarrow> millis \<Rightarrow> db \<Rightarrow> (string + json) \<times> db" where
  \<comment> \<open>\<open>Inl\<close> where the bound on the planner's recursion is too small\<close>
  "quota_job E ps now d =
     (case runQuotaEnforcement (je_fuel E) (je_lc E) (je_asc E) (je_registry E) (quota_grace ps) (param ps ''dryRun'' \<noteq> Some ''false'')
            (none_if_empty (param ps ''organization'')) ''user:system'' now (d, []) of
        None \<Rightarrow> (Inl ''Maximum call stack size exceeded'', d)
      | Some st \<Rightarrow> (Inr (je_enforce E (es_result st)), fst (es_world st)))"

definition run_of :: "job_env \<Rightarrow> string \<Rightarrow> job_params \<Rightarrow> millis \<Rightarrow> db \<Rightarrow> (string + json) \<times> db" where
  "run_of E name ps now d =
     (if name = ''scan-stale'' then scan_stale E ps now d
      else if name = ''prune-untagged'' then prune_untagged ps now d
      else if name = ''retention'' then retention_job E ps now d
      else if name = ''quota-enforce'' then quota_job E ps now d
      else je_other E name ps now d)"

section \<open>Runs\<close>

definition start_run :: "string \<Rightarrow> millis \<Rightarrow> string \<Rightarrow> job_params \<Rightarrow> string \<Rightarrow> db \<Rightarrow> db" where
  "start_run runId now name ps triggeredBy d =
     d\<lparr>db_jobRuns := db_jobRuns d @ [\<lparr>jr_id = runId, jr_job = name, jr_status = JobRunning, jr_params = ps, jr_result = None, jr_error = None,
        jr_triggeredBy = triggeredBy, jr_startedAt = now, jr_finishedAt = None\<rparr>]\<rparr>"

definition finish_run :: "string \<Rightarrow> millis \<Rightarrow> string + json \<Rightarrow> db \<Rightarrow> db" where
  "finish_run runId now r d = d\<lparr>db_jobRuns := map (\<lambda>x. if jr_id x = runId then (case r of
        Inr result \<Rightarrow> x\<lparr>jr_status := JobSucceeded, jr_result := Some result, jr_finishedAt := Some now\<rparr>
      | Inl err \<Rightarrow> x\<lparr>jr_status := JobFailed, jr_error := Some err, jr_finishedAt := Some now\<rparr>) else x) (db_jobRuns d)\<rparr>"

definition runJob :: "job_env \<Rightarrow> string \<Rightarrow> millis \<Rightarrow> string \<Rightarrow> job_params \<Rightarrow> string \<Rightarrow> db \<Rightarrow> (string + (string + json)) \<times> db" where
  \<comment> \<open>the outer \<open>Inl\<close> is the exception for an unknown job; the notice of a failed run is not part of the state\<close>
  "runJob E runId now name ps triggeredBy d =
     (case map_of JOBS name of
        None \<Rightarrow> (Inl (''unknown job '' @ name), d)
      | Some documented \<Rightarrow>
        (let merged = merge_params documented ps;
             (r, d1) = run_of E name merged now (start_run runId now name merged triggeredBy d)
         in (Inr r, finish_run runId now r d1)))"

section \<open>Schedules\<close>

record cron_env =
  ce_next :: "string \<Rightarrow> string \<Rightarrow> millis \<Rightarrow> millis option"
    \<comment> \<open>the next time of an expression in a zone; \<open>None\<close> where the parser throws\<close>
  ce_error :: "string \<Rightarrow> string \<Rightarrow> string option"
    \<comment> \<open>the parser's complaint about an expression\<close>
  ce_zone :: "string \<Rightarrow> bool"

definition squeeze :: "string \<Rightarrow> string" where
  \<comment> \<open>\<open>cron.trim().replace(/\s+/g, " ")\<close>\<close>
  "squeeze s = join_with '' '' (split_runs js_ws (js_trim s))"

definition nextRun :: "cron_env \<Rightarrow> string \<Rightarrow> string \<Rightarrow> millis \<Rightarrow> millis option" where
  "nextRun C cron timezone t = ce_next C (squeeze cron) timezone t"

definition validateCron :: "cron_env \<Rightarrow> string \<Rightarrow> string \<Rightarrow> string option" where
  "validateCron C cron timezone =
     (let parts = filter (\<lambda>f. f \<noteq> []) (split_runs js_ws (js_trim cron)) in
      if length parts \<noteq> 5 then Some ''Use five fields: minute hour day-of-month month day-of-week.''
      else ce_error C (join_with '' '' parts) timezone)"

definition set_schedule :: "string \<Rightarrow> (job_schedule \<Rightarrow> job_schedule) \<Rightarrow> db \<Rightarrow> db" where
  "set_schedule name f d = d\<lparr>db_jobSchedules := map (\<lambda>s. if js_job s = name then f s else s) (db_jobSchedules d)\<rparr>"

definition saveSchedule :: "cron_env \<Rightarrow> millis \<Rightarrow> string \<Rightarrow> string \<Rightarrow> job_params \<Rightarrow> bool \<Rightarrow> string \<Rightarrow> string \<Rightarrow> db \<Rightarrow> string option \<times> db" where
  "saveSchedule C now name cron0 ps enabled timezone0 updatedBy d =
     (case map_of JOBS name of
        None \<Rightarrow> (Some ''Unknown job.'', d)
      | Some documented \<Rightarrow>
        (let timezone = (if js_trim timezone0 \<noteq> [] then js_trim timezone0 else ''UTC''); cron = squeeze cron0 in
         if \<not> ce_zone C timezone then (Some (''\"'' @ timezone @ ''\" is not a valid IANA time zone (for example Europe/Berlin).''), d)
         else (case validateCron C cron timezone of
             Some invalid \<Rightarrow> (Some (''Invalid cron expression: '' @ invalid), d)
           | None \<Rightarrow>
             (let given = concat (map (\<lambda>(n, _). let v = js_trim (nullish (map_of ps n) []) in if v \<noteq> [] then [(n, v)] else []) documented);
                  nextAt = (if enabled then nextRun C cron timezone now else None);
                  upd = (\<lambda>s. s\<lparr>js_cron := cron, js_params := given, js_enabled := enabled, js_timezone := timezone, js_nextRunAt := nextAt,
                             js_updatedBy := Some updatedBy, js_updatedAt := now\<rparr>)
              in (None,
                  if list_ex (\<lambda>s. js_job s = name) (db_jobSchedules d) then set_schedule name upd d
                  else d\<lparr>db_jobSchedules := db_jobSchedules d @ [\<lparr>js_job = name, js_cron = cron, js_params = given, js_enabled = enabled, js_timezone = timezone,
                         js_lastRunAt = None, js_nextRunAt = nextAt, js_lastStatus = None, js_updatedBy = Some updatedBy, js_updatedAt = now\<rparr>]\<rparr>)))))"

definition STUCK_AFTER :: millis where "STUCK_AFTER = 6 * 3600000"

definition stuck :: "millis \<Rightarrow> job_run \<Rightarrow> bool" where
  "stuck now r \<longleftrightarrow> jr_status r = JobRunning \<and> jr_startedAt r < now - STUCK_AFTER"

definition failStuckRuns :: "millis \<Rightarrow> db \<Rightarrow> job_run list \<times> db" where
  \<comment> \<open>the runs that are notified, and the database\<close>
  "failStuckRuns now d =
     (filter (stuck now) (db_jobRuns d),
      d\<lparr>db_jobRuns := map (\<lambda>r. if stuck now r then r\<lparr>jr_status := JobFailed, jr_finishedAt := Some now,
          jr_error := Some ''marked failed by the scheduler: still running after 6 hours''\<rparr> else r) (db_jobRuns d)\<rparr>)"

definition due_schedule :: "millis \<Rightarrow> job_schedule \<Rightarrow> bool" where
  "due_schedule now s \<longleftrightarrow> js_enabled s \<and> (case js_nextRunAt s of None \<Rightarrow> True | Some t \<Rightarrow> t \<le> now)"

definition job_running :: "db \<Rightarrow> string \<Rightarrow> bool" where
  "job_running d name \<longleftrightarrow> list_ex (\<lambda>r. jr_job r = name \<and> jr_status r = JobRunning) (db_jobRuns d)"

definition status_text :: "string + json \<Rightarrow> string" where
  "status_text r = (case r of Inr _ \<Rightarrow> ''succeeded'' | Inl _ \<Rightarrow> ''failed'')"

definition run_schedule :: "job_env \<Rightarrow> cron_env \<Rightarrow> (string \<Rightarrow> string) \<Rightarrow> millis \<Rightarrow> job_schedule \<Rightarrow> db \<Rightarrow> db" where
  \<comment> \<open>the body of the loop; \<open>newRun\<close> gives the id of a new run of a job\<close>
  "run_schedule E C newRun now s d =
     (let name = js_job s in
      case nextRun C (js_cron s) (js_timezone s) now of
        None \<Rightarrow> set_schedule name (\<lambda>x. x\<lparr>js_enabled := False, js_lastStatus := Some ''disabled: invalid cron''\<rparr>) d
      | Some nxt \<Rightarrow>
        if js_nextRunAt s = None then set_schedule name (\<lambda>x. x\<lparr>js_nextRunAt := Some nxt\<rparr>) d
        else if map_of JOBS name = None then set_schedule name (\<lambda>x. x\<lparr>js_nextRunAt := Some nxt, js_lastStatus := Some ''skipped: unknown job''\<rparr>) d
        else if job_running d name then set_schedule name (\<lambda>x. x\<lparr>js_lastStatus := Some ''skipped: already running''\<rparr>) d
        else (let d1 = set_schedule name (\<lambda>x. x\<lparr>js_lastRunAt := Some now, js_nextRunAt := Some nxt\<rparr>) d
              in case runJob E (newRun name) now name (js_params s) ''schedule'' d1 of
                   (Inr r, d2) \<Rightarrow> set_schedule name (\<lambda>x. x\<lparr>js_lastStatus := Some (status_text r)\<rparr>) d2
                 | (Inl err, d2) \<Rightarrow> set_schedule name (\<lambda>x. x\<lparr>js_lastStatus := Some (''failed: '' @ err)\<rparr>) d2))"

definition runDue :: "job_env \<Rightarrow> cron_env \<Rightarrow> (string \<Rightarrow> string) \<Rightarrow> millis \<Rightarrow> db \<Rightarrow> db" where
  "runDue E C newRun now d = fold (run_schedule E C newRun now) (filter (due_schedule now) (db_jobSchedules d)) d"

definition tick :: "job_env \<Rightarrow> cron_env \<Rightarrow> event_handlers \<Rightarrow> bool \<Rightarrow> bool \<Rightarrow> (string \<Rightarrow> string) \<Rightarrow> millis \<Rightarrow> db \<Rightarrow> db" where
  \<comment> \<open>whether this replica gets the lock, and whether schedules run here\<close>
  "tick E C H hasLock enabled newRun now d =
     (if \<not> hasLock then d
      else (let d1 = snd (drainEventOutbox H now 50 d);
                d2 = snd (dispatchScanTasks (je_scan E) now d1)
            in if enabled then runDue E C newRun now (snd (failStuckRuns now d2)) else d2))"

section \<open>The jobs API\<close>

definition bearer_token :: "string option \<Rightarrow> string" where
  \<comment> \<open>\<open>authorization?.replace(/^Bearer\s+/i, "").trim()\<close>\<close>
  "bearer_token authorization = (case authorization of
       None \<Rightarrow> []
     | Some a \<Rightarrow> js_trim (if starts_with (js_lower a) ''bearer'' \<and> js_ws (hd (drop 6 a @ ''x'')) then dropWhile js_ws (drop 6 a) else a))"

definition authenticateJobsRequest :: "(string \<Rightarrow> string) \<Rightarrow> string \<Rightarrow> millis \<Rightarrow> string option \<Rightarrow> string option \<Rightarrow> db \<Rightarrow> (string + string) \<times> db" where
  \<comment> \<open>with the configured token and the address of the client; \<open>Inr\<close> carries \<open>triggeredBy\<close>\<close>
  "authenticateJobsRequest hashSecret jobsApiToken now authorization ip d =
     (let token = bearer_token authorization in
      if token = [] then (Inl ''missing bearer token'', d)
      else if jobsApiToken \<noteq> [] \<and> token = jobsApiToken then (Inr ''api-token'', d)
      else if starts_with token PAT_PREFIX then
        (case identifyAccessToken hashSecret now token ip d of
           (Inl err, d1) \<Rightarrow> (Inl err, d1)
         | (Inr (c, pat, u), d1) \<Rightarrow>
           if pat_scope pat \<noteq> ScopeWrite then (Inl ''a read & write access token is required'', d1)
           else if (case c of CallerUser _ _ _ restriction \<Rightarrow> restriction \<noteq> None | _ \<Rightarrow> False)
           then (Inl ''a token limited to one organization cannot use the jobs API'', d1)
           else if u_role u \<noteq> Some ''admin'' then (Inl ''token does not belong to an administrator'', d1)
           else (Inr (''user:'' @ u_id u), d1))
      else (Inl ''invalid credential'', d))"

definition jobs_POST :: "job_env \<Rightarrow> (string \<Rightarrow> string) \<Rightarrow> string \<Rightarrow> string \<Rightarrow> millis \<Rightarrow> string option \<Rightarrow> string option \<Rightarrow> string \<Rightarrow> job_params \<Rightarrow> db \<Rightarrow> int \<times> db" where
  \<comment> \<open>the status; with \<open>wait=false\<close> the answer is 202 and the same run follows\<close>
  "jobs_POST E hashSecret jobsApiToken runId now authorization ip name ps d =
     (case authenticateJobsRequest hashSecret jobsApiToken now authorization ip d of
        (Inl _, d1) \<Rightarrow> (401, d1)
      | (Inr triggeredBy, d1) \<Rightarrow>
        if map_of JOBS name = None then (404, d1)
        else (case runJob E runId now name ps triggeredBy d1 of
            (Inr (Inr _), d2) \<Rightarrow> (200, d2)
          | (_, d2) \<Rightarrow> (500, d2)))"

section \<open>What a tick starts\<close>

definition runs_of :: "string \<Rightarrow> db \<Rightarrow> job_run list" where
  "runs_of n d = filter (\<lambda>r. jr_job r = n) (db_jobRuns d)"

definition schedules_of :: "string \<Rightarrow> db \<Rightarrow> job_schedule list" where
  "schedules_of n d = filter (\<lambda>s. js_job s = n) (db_jobSchedules d)"

definition run_ids :: "db \<Rightarrow> string set" where
  "run_ids d = jr_id ` set (db_jobRuns d)"

definition leaves_jobs :: "job_env \<Rightarrow> string \<Rightarrow> bool" where
  \<comment> \<open>what the scheduler relies on: the work of a job does not write to the tables of jobs\<close>
  "leaves_jobs E n \<longleftrightarrow> (\<forall>ps now d. db_jobRuns (snd (run_of E n ps now d)) = db_jobRuns d \<and> db_jobSchedules (snd (run_of E n ps now d)) = db_jobSchedules d)"

definition starts_now :: "cron_env \<Rightarrow> millis \<Rightarrow> db \<Rightarrow> job_schedule \<Rightarrow> bool" where
  "starts_now C now d s \<longleftrightarrow> due_schedule now s \<and> js_nextRunAt s \<noteq> None \<and> nextRun C (js_cron s) (js_timezone s) now \<noteq> None \<and>
     map_of JOBS (js_job s) \<noteq> None \<and> \<not> job_running d (js_job s)"

lemma set_schedule_tables [simp]:
  "db_jobRuns (set_schedule n f d) = db_jobRuns d" "runs_of j (set_schedule n f d) = runs_of j d" "run_ids (set_schedule n f d) = run_ids d"
  by (simp_all add: set_schedule_def runs_of_def run_ids_def)

lemma schedules_of_set:
  "(\<And>x. js_job (f x) = js_job x) \<Longrightarrow> schedules_of j (set_schedule n f d) = (if j = n then map f (schedules_of j d) else schedules_of j d)"
proof -
  assume f: "\<And>x. js_job (f x) = js_job x"
  have "filter (\<lambda>s. js_job s = j) (map (\<lambda>s. if js_job s = n then f s else s) ss) =
      (if j = n then map f (filter (\<lambda>s. js_job s = j) ss) else filter (\<lambda>s. js_job s = j) ss)" for ss
    by (induction ss) (auto simp: f)
  then show ?thesis by (simp add: schedules_of_def set_schedule_def)
qed

definition closed_row :: "string \<Rightarrow> millis \<Rightarrow> string \<Rightarrow> job_params \<Rightarrow> string \<Rightarrow> string + json \<Rightarrow> job_run" where
  "closed_row runId now n ps by' r = \<lparr>jr_id = runId, jr_job = n, jr_status = (case r of Inr _ \<Rightarrow> JobSucceeded | Inl _ \<Rightarrow> JobFailed), jr_params = ps,
     jr_result = (case r of Inr x \<Rightarrow> Some x | Inl _ \<Rightarrow> None), jr_error = (case r of Inr _ \<Rightarrow> None | Inl e \<Rightarrow> Some e), jr_triggeredBy = by',
     jr_startedAt = now, jr_finishedAt = Some now\<rparr>"

lemma runJob_row:
  assumes "map_of JOBS n = Some documented" and "leaves_jobs E n" and "runId \<notin> run_ids d"
  obtains r where "fst (runJob E runId now n ps by' d) = Inr r"
    "db_jobRuns (snd (runJob E runId now n ps by' d)) = db_jobRuns d @ [closed_row runId now n (merge_params documented ps) by' r]"
    "db_jobSchedules (snd (runJob E runId now n ps by' d)) = db_jobSchedules d"
proof -
  let ?m = "merge_params documented ps"
  obtain r d1 where run: "run_of E n ?m now (start_run runId now n ?m by' d) = (r, d1)" by fastforce
  have keep: "db_jobRuns d1 = db_jobRuns (start_run runId now n ?m by' d)" "db_jobSchedules d1 = db_jobSchedules (start_run runId now n ?m by' d)"
    using assms(2) run unfolding leaves_jobs_def by (metis snd_conv)+
  have same: "map (\<lambda>x. if jr_id x = runId then f x else x) (db_jobRuns d) = db_jobRuns d" for f :: "job_run \<Rightarrow> job_run"
    using assms(3) by (intro map_idI) (auto simp: run_ids_def)
  have eq: "runJob E runId now n ps by' d = (Inr r, finish_run runId now r d1)" by (simp add: runJob_def assms(1) run Let_def)
  have "db_jobRuns (finish_run runId now r d1) = db_jobRuns d @ [closed_row runId now n ?m by' r]"
    unfolding finish_run_def keep(1) start_run_def by (cases r) (simp_all add: same closed_row_def)
  moreover have "db_jobSchedules (finish_run runId now r d1) = db_jobSchedules d" by (simp add: finish_run_def keep(2) start_run_def)
  ultimately show thesis using that [of r] by (simp add: eq)
qed

text \<open>
  Every run is recorded and closed: for a known job one row is added, with the documented parameters and nothing else, and when the call returns it is
  succeeded with the result or failed with the error of the job; other rows are untouched, and an unknown job adds nothing.
\<close>
theorem runJob_recorded:
  assumes "leaves_jobs E n" and "runId \<notin> run_ids d" and "runJob E runId now n ps by' d = (res, d')"
  shows "case map_of JOBS n of
      None \<Rightarrow> isl res \<and> d' = d
    | Some documented \<Rightarrow> (\<exists>r. res = Inr r \<and> db_jobRuns d' = db_jobRuns d @ [closed_row runId now n (merge_params documented ps) by' r]) \<and>
        map fst (merge_params documented ps) = map fst documented"
proof (cases "map_of JOBS n")
  case None
  then show ?thesis using assms(3) by (auto simp: runJob_def)
next
  case (Some documented)
  obtain r where "fst (runJob E runId now n ps by' d) = Inr r"
    "db_jobRuns (snd (runJob E runId now n ps by' d)) = db_jobRuns d @ [closed_row runId now n (merge_params documented ps) by' r]"
    by (rule runJob_row [OF Some assms(1, 2)])
  then show ?thesis using Some assms(3) by (auto simp: merge_params_def)
qed

lemma run_schedule_cases [consumes 2, case_names skipped started]:
  assumes "leaves_jobs E (js_job s)" and "newRun (js_job s) \<notin> run_ids d"
  obtains (skipped) f where "db_jobRuns (run_schedule E C newRun now s d) = db_jobRuns d"
      "db_jobSchedules (run_schedule E C newRun now s d) = db_jobSchedules (set_schedule (js_job s) f d)" "\<And>x. js_job (f x) = js_job x"
      "due_schedule now s \<Longrightarrow> \<not> starts_now C now d s"
  | (started) f row nxt where "db_jobRuns (run_schedule E C newRun now s d) = db_jobRuns d @ [row]"
      "db_jobSchedules (run_schedule E C newRun now s d) = db_jobSchedules (set_schedule (js_job s) f d)" "\<And>x. js_job (f x) = js_job x"
      "\<And>x. js_nextRunAt (f x) = Some nxt" "nextRun C (js_cron s) (js_timezone s) now = Some nxt" "due_schedule now s \<Longrightarrow> starts_now C now d s"
      "jr_id row = newRun (js_job s)" "jr_job row = js_job s" "jr_status row \<noteq> JobRunning" "jr_triggeredBy row = ''schedule''"
proof (cases "nextRun C (js_cron s) (js_timezone s) now")
  case None
  then show thesis
    using skipped [of "\<lambda>x. x\<lparr>js_enabled := False, js_lastStatus := Some ''disabled: invalid cron''\<rparr>"] by (simp add: run_schedule_def starts_now_def)
next
  case (Some nxt)
  consider (fresh) "js_nextRunAt s = None" | (unknown) "js_nextRunAt s \<noteq> None" "map_of JOBS (js_job s) = None"
    | (busy) "js_nextRunAt s \<noteq> None" "map_of JOBS (js_job s) \<noteq> None" "job_running d (js_job s)"
    | (go) documented where "js_nextRunAt s \<noteq> None" "map_of JOBS (js_job s) = Some documented" "\<not> job_running d (js_job s)" by fastforce
  then show thesis
  proof cases
    case fresh
    then show thesis using Some skipped [of "\<lambda>x. x\<lparr>js_nextRunAt := Some nxt\<rparr>"] by (simp add: run_schedule_def starts_now_def)
  next
    case unknown
    then show thesis using Some skipped [of "\<lambda>x. x\<lparr>js_nextRunAt := Some nxt, js_lastStatus := Some ''skipped: unknown job''\<rparr>"]
      by (simp add: run_schedule_def starts_now_def del: not_None_eq)
  next
    case busy
    then show thesis using Some skipped [of "\<lambda>x. x\<lparr>js_lastStatus := Some ''skipped: already running''\<rparr>"]
      by (simp add: run_schedule_def starts_now_def del: not_None_eq)
  next
    case go
    let ?d1 = "set_schedule (js_job s) (\<lambda>x. x\<lparr>js_lastRunAt := Some now, js_nextRunAt := Some nxt\<rparr>) d"
    have "newRun (js_job s) \<notin> run_ids ?d1" using assms(2) by simp
    from runJob_row [OF go(2) assms(1) this, where now = now and ps = "js_params s" and by' = "''schedule''"] obtain r where
      r: "fst (runJob E (newRun (js_job s)) now (js_job s) (js_params s) ''schedule'' ?d1) = Inr r"
        "db_jobRuns (snd (runJob E (newRun (js_job s)) now (js_job s) (js_params s) ''schedule'' ?d1)) =
           db_jobRuns ?d1 @ [closed_row (newRun (js_job s)) now (js_job s) (merge_params documented (js_params s)) ''schedule'' r]"
        "db_jobSchedules (snd (runJob E (newRun (js_job s)) now (js_job s) (js_params s) ''schedule'' ?d1)) = db_jobSchedules ?d1" by metis
    obtain d2 where d2: "runJob E (newRun (js_job s)) now (js_job s) (js_params s) ''schedule'' ?d1 = (Inr r, d2)" using r(1) by (metis prod.collapse)
    have run: "run_schedule E C newRun now s d = set_schedule (js_job s) (\<lambda>x. x\<lparr>js_lastStatus := Some (status_text r)\<rparr>) d2"
      using go Some d2 by (simp add: run_schedule_def Let_def del: not_None_eq)
    let ?row = "closed_row (newRun (js_job s)) now (js_job s) (merge_params documented (js_params s)) ''schedule'' r"
    let ?f = "\<lambda>x. x\<lparr>js_lastRunAt := Some now, js_nextRunAt := Some nxt, js_lastStatus := Some (status_text r)\<rparr>"
    show thesis
    proof (rule started [of ?row ?f nxt])
      show "db_jobRuns (run_schedule E C newRun now s d) = db_jobRuns d @ [?row]" using r(2) by (simp add: run d2)
      have "db_jobSchedules d2 = db_jobSchedules ?d1" using r(3) by (simp add: d2)
      then show "db_jobSchedules (run_schedule E C newRun now s d) = db_jobSchedules (set_schedule (js_job s) ?f d)"
        unfolding run by (simp add: set_schedule_def)
      show "due_schedule now s \<Longrightarrow> starts_now C now d s" using go Some by (simp add: starts_now_def)
    qed (simp_all add: Some closed_row_def split: sum.split)
  qed
qed

definition outcome :: "cron_env \<Rightarrow> millis \<Rightarrow> job_schedule \<Rightarrow> db \<Rightarrow> db \<Rightarrow> bool" where
  \<comment> \<open>what a tick does about a due schedule: one closed run and the next slot, or no run\<close>
  "outcome C now s d d' \<longleftrightarrow>
     (if starts_now C now d s
      then (\<exists>row nxt. runs_of (js_job s) d' = runs_of (js_job s) d @ [row] \<and> jr_status row \<noteq> JobRunning \<and> jr_triggeredBy row = ''schedule'' \<and>
              nextRun C (js_cron s) (js_timezone s) now = Some nxt \<and> list_all (\<lambda>x. js_nextRunAt x = Some nxt) (schedules_of (js_job s) d'))
      else runs_of (js_job s) d' = runs_of (js_job s) d)"

lemma run_schedule_frame:
  assumes "leaves_jobs E (js_job s)" and "newRun (js_job s) \<notin> run_ids d"
    and d1_def: "d1 = run_schedule E C newRun now s d"
  shows "n \<noteq> js_job s \<Longrightarrow> runs_of n d1 = runs_of n d \<and> schedules_of n d1 = schedules_of n d" and "run_ids d1 \<subseteq> insert (newRun (js_job s)) (run_ids d)"
    and "due_schedule now s \<Longrightarrow> outcome C now s d d1"
proof -
  have "(n \<noteq> js_job s \<longrightarrow> runs_of n d1 = runs_of n d \<and> schedules_of n d1 = schedules_of n d) \<and> run_ids d1 \<subseteq> insert (newRun (js_job s)) (run_ids d) \<and>
      (due_schedule now s \<longrightarrow> outcome C now s d d1)"
    using assms(1, 2)
  proof (cases rule: run_schedule_cases [where s = s and newRun = newRun and d = d and C = C and now = now])
    case (skipped f)
    have "schedules_of n d1 = schedules_of n (set_schedule (js_job s) f d)" by (simp add: schedules_of_def d1_def skipped(2))
    then show ?thesis using skipped schedules_of_set [of f n "js_job s" d] by (auto simp: d1_def runs_of_def run_ids_def outcome_def)
  next
    case (started f row nxt)
    have "schedules_of k d1 = schedules_of k (set_schedule (js_job s) f d)" for k by (simp add: schedules_of_def d1_def started(2))
    then have sch: "schedules_of k d1 = (if k = js_job s then map f (schedules_of k d) else schedules_of k d)" for k using schedules_of_set started(3) by simp
    have "outcome C now s d d1" if "due_schedule now s"
      unfolding outcome_def sch using started(1, 4-10) that by (simp add: d1_def runs_of_def list_all_iff)
    then show ?thesis using started(1, 7, 8) sch by (auto simp: d1_def runs_of_def run_ids_def)
  qed
  then show "n \<noteq> js_job s \<Longrightarrow> runs_of n d1 = runs_of n d \<and> schedules_of n d1 = schedules_of n d" "run_ids d1 \<subseteq> insert (newRun (js_job s)) (run_ids d)"
    "due_schedule now s \<Longrightarrow> outcome C now s d d1" by blast+
qed

lemma outcome_cong:
  "runs_of (js_job s) d1 = runs_of (js_job s) d2 \<Longrightarrow> schedules_of (js_job s) d1 = schedules_of (js_job s) d2 \<Longrightarrow> outcome C now s d d1 \<longleftrightarrow> outcome C now s d d2"
  by (simp add: outcome_def)

lemma runs_update: "db_jobRuns (d\<lparr>db_jobRuns := rs\<rparr>) = rs"
  by simp

lemma starts_now_cong: "runs_of (js_job s) d = runs_of (js_job s) d' \<Longrightarrow> starts_now C now d s \<longleftrightarrow> starts_now C now d' s"
proof -
  have "job_running x n \<longleftrightarrow> list_ex (\<lambda>r. jr_status r = JobRunning) (runs_of n x)" for x n by (auto simp: job_running_def runs_of_def list_ex_iff)
  then show "runs_of (js_job s) d = runs_of (js_job s) d' \<Longrightarrow> starts_now C now d s \<longleftrightarrow> starts_now C now d' s" by (simp add: starts_now_def)
qed

lemma run_schedules:
  assumes "inj newRun" and "distinct (map js_job ss)" and "\<forall>s \<in> set ss. leaves_jobs E (js_job s) \<and> newRun (js_job s) \<notin> run_ids d"
  shows "(n \<notin> js_job ` set ss \<longrightarrow> runs_of n (fold (run_schedule E C newRun now) ss d) = runs_of n d \<and>
            schedules_of n (fold (run_schedule E C newRun now) ss d) = schedules_of n d) \<and>
    (s \<in> set ss \<and> due_schedule now s \<longrightarrow> outcome C now s d (fold (run_schedule E C newRun now) ss d))"
  using assms(2, 3)
proof (induction ss arbitrary: d n s)
  case (Cons s0 ss)
  let ?d1 = "run_schedule E C newRun now s0 d"
  let ?d' = "fold (run_schedule E C newRun now) ss ?d1"
  have ok: "leaves_jobs E (js_job s0)" "newRun (js_job s0) \<notin> run_ids d" using Cons.prems(2) by simp_all
  note frame = run_schedule_frame [where s = s0 and newRun = newRun and d = d and C = C and now = now, OF ok refl]
  have out: "js_job x \<noteq> js_job s0" if "x \<in> set ss" for x using that Cons.prems(1) by (metis distinct.simps(2) image_eqI list.set_map list.simps(9))
  have "\<forall>x \<in> set ss. leaves_jobs E (js_job x) \<and> newRun (js_job x) \<notin> run_ids ?d1"
    using Cons.prems(2) frame(2) out injD [OF assms(1)] by fastforce
  with Cons.prems(1) have IH: "n \<notin> js_job ` set ss \<longrightarrow> runs_of n ?d' = runs_of n ?d1 \<and> schedules_of n ?d' = schedules_of n ?d1"
    "s \<in> set ss \<and> due_schedule now s \<longrightarrow> outcome C now s ?d1 ?d'" for n s using Cons.IH [of ?d1 n s] by auto
  have "outcome C now s d ?d'" if "s \<in> set (s0 # ss)" "due_schedule now s"
  proof (cases "s = s0")
    case True
    then have "js_job s \<notin> js_job ` set ss" using out by fastforce
    then show ?thesis using frame(3) IH(1) [of "js_job s"] that(2) True outcome_cong [of s ?d' ?d1] by simp
  next
    case False
    then have s: "s \<in> set ss" using that(1) by simp
    then have "runs_of (js_job s) ?d1 = runs_of (js_job s) d" using frame(1) out by blast
    then have "outcome C now s ?d1 ?d' \<longleftrightarrow> outcome C now s d ?d'" using starts_now_cong [of s ?d1 d C now] by (simp only: outcome_def)
    then show ?thesis using IH(2) [of s] s that(2) by simp
  qed
  then show ?case using IH(1) [of n] frame(1) [of n] by auto
qed simp

definition scheduler_ok :: "job_env \<Rightarrow> (string \<Rightarrow> string) \<Rightarrow> db \<Rightarrow> bool" where
  \<comment> \<open>one schedule per job, new ids for new runs, and jobs that leave the scheduler's tables alone\<close>
  "scheduler_ok E newRun d \<longleftrightarrow> inj newRun \<and> distinct (map js_job (db_jobSchedules d)) \<and>
     (\<forall>s \<in> set (db_jobSchedules d). leaves_jobs E (js_job s) \<and> newRun (js_job s) \<notin> run_ids d)"

lemma due_outcome:
  "scheduler_ok E newRun d \<Longrightarrow> s \<in> set (db_jobSchedules d) \<Longrightarrow> due_schedule now s \<Longrightarrow> outcome C now s d (runDue E C newRun now d)"
  unfolding runDue_def scheduler_ok_def
  using run_schedules [of newRun "filter (due_schedule now) (db_jobSchedules d)" E d "js_job s" C now s] by (auto simp: distinct_map_filter)

text \<open>
  C11. A tick starts what is due, once: for every schedule, one run is added exactly when the schedule is enabled and its slot has come, its expression is valid, its
  job is known and not already running; the run is closed and marked as scheduled, and the schedule moves to its next slot; in every other
  case, running jobs included, no run of that job is added.
\<close>
theorem due_jobs_run_once:
  assumes "scheduler_ok E newRun d" and "s \<in> set (db_jobSchedules d)"
  shows "let d' = runDue E C newRun now d; n = js_job s in
    (starts_now C now d s \<longrightarrow> length (runs_of n d') = length (runs_of n d) + 1 \<and> jr_triggeredBy (last (runs_of n d')) = ''schedule'' \<and>
       jr_status (last (runs_of n d')) \<noteq> JobRunning \<and> list_all (\<lambda>x. js_nextRunAt x = nextRun C (js_cron s) (js_timezone s) now) (schedules_of n d')) \<and>
    (\<not> starts_now C now d s \<longrightarrow> runs_of n d' = runs_of n d)"
proof (cases "due_schedule now s")
  case True
  then show ?thesis using due_outcome [OF assms True, of C] by (auto simp: outcome_def Let_def split: if_splits)
next
  case False
  then have "js_job s \<notin> js_job ` set (filter (due_schedule now) (db_jobSchedules d))"
    using assms by (auto simp: scheduler_ok_def distinct_map dest: inj_onD)
  then have "runs_of (js_job s) (runDue E C newRun now d) = runs_of (js_job s) d"
    using run_schedules [of newRun "filter (due_schedule now) (db_jobSchedules d)" E d "js_job s" C now s] assms(1)
    by (auto simp: runDue_def scheduler_ok_def distinct_map_filter)
  then show ?thesis using False by (simp add: starts_now_def Let_def)
qed


section \<open>Pruning untagged manifests\<close>

text \<open>
  The pruning job spares what is in use: every manifest that carries a tag, is listed by an index or is younger than the age stays, with its tags; and the job
  removes no manifest but the old ones without a tag and an index.
\<close>
theorem prune_spares_used:
  assumes "prune_untagged ps now d = (r, d')"
  shows "db_tags d' = db_tags d \<and> db_manifests d' = filter (\<lambda>m. \<not> prunable (now - job_durationToMs (param ps ''olderThan'') (14 * 86400000)) d m) (db_manifests d) \<and>
    r = Inr (JObj [(''pruned'', JNum (int (length (db_manifests d) - length (db_manifests d'))))])"
proof -
  let ?p = "prunable (now - job_durationToMs (param ps ''olderThan'') (14 * 86400000)) d"
  have len: "length (filter ?p ms) = length ms - length (filter (\<lambda>m. \<not> ?p m) ms)" for ms using sum_length_filter_compl [of ?p ms] by linarith
  have "\<not> list_ex (\<lambda>m. man_repositoryId m = tag_repositoryId t \<and> man_digest m = tag_manifestDigest t) (filter ?p (db_manifests d))"
    if "t \<in> set (db_tags d)" for t using that by (auto simp: prunable_def list_ex_iff)
  then have "filter (\<lambda>t. \<not> list_ex (\<lambda>m. man_repositoryId m = tag_repositoryId t \<and> man_digest m = tag_manifestDigest t) (filter ?p (db_manifests d))) (db_tags d) = db_tags d"
    by (intro filter_True) blast
  moreover have "r = Inr (JObj [(''pruned'', JNum (int (length (filter ?p (db_manifests d)))))])" "db_manifests d' = filter (\<lambda>m. \<not> ?p m) (db_manifests d)"
    "db_tags d' = filter (\<lambda>t. \<not> list_ex (\<lambda>m. man_repositoryId m = tag_repositoryId t \<and> man_digest m = tag_manifestDigest t) (filter ?p (db_manifests d))) (db_tags d)"
    using arg_cong [OF assms, of fst] arg_cong [OF assms, of "\<lambda>x. db_manifests (snd x)"] arg_cong [OF assms, of "\<lambda>x. db_tags (snd x)"]
    by (simp_all add: prune_untagged_def Let_def)
  ultimately show ?thesis by (simp only: len)
qed

section \<open>Who may run jobs\<close>

text \<open>
  The jobs API is for administrators: a request is admitted only with the configured token, or with an unexpired read and write access token, not limited to an organization, whose
  owner is an administrator who is not banned; a refused request starts no run.
\<close>
theorem jobs_api_guarded:
  "case authenticateJobsRequest hashSecret jobsApiToken now authorization ip d of
     (Inl _, d1) \<Rightarrow> fst (jobs_POST E hashSecret jobsApiToken runId now authorization ip name ps d) = 401 \<and>
       db_jobRuns (snd (jobs_POST E hashSecret jobsApiToken runId now authorization ip name ps d)) = db_jobRuns d
   | (Inr who, _) \<Rightarrow> bearer_token authorization = jobsApiToken \<and> jobsApiToken \<noteq> [] \<and> who = ''api-token'' \<or>
       (\<exists>pat u. pat \<in> set (db_accessTokens d) \<and> pat_tokenHash pat = hashSecret (bearer_token authorization) \<and> \<not> isExpired (pat_expiresAt pat) now \<and>
          pat_scope pat = ScopeWrite \<and> normalizeRestriction (pat_organizationId pat) (pat_repositoryIds pat) = None \<and>
          u \<in> set (db_users d) \<and> u_id u = pat_userId pat \<and> u_role u = Some ''admin'' \<and> u_banned u \<noteq> Some True \<and> who = ''user:'' @ u_id u)"
proof -
  let ?t = "bearer_token authorization"
  have touch: "db_jobRuns (snd (identifyAccessToken hashSecret now ?t ip d)) = db_jobRuns d"
    by (simp add: identifyAccessToken_def touchAccessToken_def Let_def split: option.split)
  obtain res d1 where a: "authenticateJobsRequest hashSecret jobsApiToken now authorization ip d = (res, d1)" by fastforce
  show ?thesis
  proof (cases res)
    case (Inl e)
    have "db_jobRuns d1 = db_jobRuns d" using a touch
      by (cases "identifyAccessToken hashSecret now ?t ip d") (auto simp: authenticateJobsRequest_def Let_def split: if_splits sum.splits)
    then show ?thesis by (simp add: a Inl jobs_POST_def)
  next
    case (Inr who)
    show ?thesis
    proof (cases "jobsApiToken \<noteq> [] \<and> ?t = jobsApiToken")
      case True
      then show ?thesis using a Inr by (auto simp: authenticateJobsRequest_def Let_def split: if_splits)
    next
      case False
      then obtain c pat u d2 where i: "identifyAccessToken hashSecret now ?t ip d = (Inr (c, pat, u), d2)" and who: "who = ''user:'' @ u_id u"
        and ok: "pat_scope pat = ScopeWrite" "u_role u = Some ''admin''" "\<not> (case c of CallerUser _ _ _ restriction \<Rightarrow> restriction \<noteq> None | _ \<Rightarrow> False)"
        using a Inr by (auto simp: authenticateJobsRequest_def Let_def split: if_splits sum.splits prod.splits)
      from i have "find (\<lambda>p. pat_tokenHash p = hashSecret ?t) (db_accessTokens d) = Some pat" "find (\<lambda>u. u_id u = pat_userId pat) (db_users d) = Some u"
        "\<not> isExpired (pat_expiresAt pat) now" "u_banned u \<noteq> Some True"
        "c = CallerUser (u_id u) (u_role u = Some ''admin'') (Some (pat_scope pat)) (normalizeRestriction (pat_organizationId pat) (pat_repositoryIds pat))"
        by (auto simp: identifyAccessToken_def split: option.splits if_splits)
      then show ?thesis using who ok by (auto simp: a Inr dest!: find_SomeD)
    qed
  qed
qed

section \<open>Examples\<close>

definition counting_env :: job_env where
  \<comment> \<open>jobs that report how many runs are going on\<close>
  "counting_env = \<lparr>je_scan = example_scan_env, je_lc = \<lambda>_ _. 0, je_asc = \<lambda>_ _. 0, je_registry = example_registry, je_fuel = 0, je_retention = \<lambda>_. JNull,
     je_enforce = \<lambda>_. JNull, je_scanningEnabled = False, je_newTask = \<lambda>_. [],
     je_other = \<lambda>_ _ _ d. (Inr (JNum (int (length (filter (\<lambda>r. jr_status r = JobRunning) (db_jobRuns d))))), d)\<rparr>"

definition hourly :: cron_env where
  "hourly = \<lparr>ce_next = \<lambda>_ _ t. Some (t + 3600000), ce_error = \<lambda>_ _. None, ce_zone = \<lambda>_. True\<rparr>"

definition gc_run :: "millis \<Rightarrow> job_run" where
  "gc_run t = \<lparr>jr_id = ''r0'', jr_job = ''gc'', jr_status = JobRunning, jr_params = [], jr_result = None, jr_error = None, jr_triggeredBy = ''schedule'',
     jr_startedAt = t, jr_finishedAt = None\<rparr>"

definition gc_schedule :: job_schedule where
  "gc_schedule = \<lparr>js_job = ''gc'', js_cron = ''0 * * * *'', js_params = [], js_enabled = True, js_timezone = ''UTC'', js_lastRunAt = None,
     js_nextRunAt = Some 0, js_lastStatus = None, js_updatedBy = None, js_updatedAt = 0\<rparr>"

definition gc_due :: db where
  "gc_due = empty_db\<lparr>db_jobSchedules := [gc_schedule]\<rparr>"

definition gc_died :: db where
  "gc_died = gc_due\<lparr>db_jobRuns := [gc_run 0]\<rparr>"

definition run_named :: "string \<Rightarrow> string" where
  "run_named n = ''run-'' @ n"

lemma gc_leaves_jobs: "leaves_jobs counting_env ''gc''"
  by (simp add: leaves_jobs_def run_of_def counting_env_def)

lemma gc_scheduler_ok: "scheduler_ok counting_env run_named gc_due" "scheduler_ok counting_env run_named gc_died"
  using gc_leaves_jobs by (simp_all add: scheduler_ok_def gc_died_def gc_due_def gc_schedule_def empty_db_def run_ids_def gc_run_def run_named_def inj_def)

theorem runJob_recorded_witness: "length (db_jobRuns (snd (runJob counting_env ''r1'' 5 ''gc'' [] ''api-token'' gc_due))) = 1"
proof -
  obtain res d' where r: "runJob counting_env ''r1'' 5 ''gc'' [] ''api-token'' gc_due = (res, d')" by fastforce
  have none: "db_jobRuns gc_due = []" by (simp add: gc_due_def empty_db_def)
  then have "''r1'' \<notin> run_ids gc_due" by (simp add: run_ids_def)
  from runJob_recorded [OF gc_leaves_jobs this r] show ?thesis by (auto simp: r JOBS_def none)
qed

theorem due_jobs_run_once_witness: "length (runs_of ''gc'' (runDue counting_env hourly run_named 10 gc_due)) = 1"
proof -
  have s: "gc_schedule \<in> set (db_jobSchedules gc_due)" by (simp add: gc_due_def)
  have "starts_now hourly 10 gc_due gc_schedule"
    by (simp add: starts_now_def due_schedule_def nextRun_def hourly_def JOBS_def job_running_def gc_due_def gc_schedule_def empty_db_def)
  moreover have "runs_of ''gc'' gc_due = []" by (simp add: runs_of_def gc_due_def empty_db_def)
  ultimately show ?thesis using due_jobs_run_once [OF gc_scheduler_ok(1) s, of hourly 10] by (simp add: Let_def gc_schedule_def)
qed


text \<open>
  Only the scheduler looks for a run in progress: with garbage collection running, the tick adds no run, but a run started through the API or the admin page finds two going on.
\<close>
lemma manual_run_overlaps:
  "fst (runJob counting_env ''r1'' 10 ''gc'' [] ''user:1'' gc_died) = Inr (Inr (JNum 2)) \<and> db_jobRuns (runDue counting_env hourly run_named 10 gc_died) = [gc_run 0]"
  by code_simp

text \<open>
  The bounds of the grace period include zero, but a zero is read as a missing number: the job waits fourteen days.
\<close>
lemma zero_grace_is_fourteen_days: "quota_grace [(''graceDays'', ''0'')] = 14 \<and> quota_grace [(''graceDays'', ''1'')] = 1"
  by code_simp

definition attached_signature :: db where
  "attached_signature = empty_db\<lparr>
     db_manifests := [\<lparr>man_repositoryId = ''r'', man_digest = ''sha256:image'', man_mediaType = ''m'', man_artifactType = None, man_size = 1, man_payload = [],
        man_configDigest = None, man_subjectDigest = None, man_config = None, man_pushedBy = None, man_createdAt = 0\<rparr>,
       \<lparr>man_repositoryId = ''r'', man_digest = ''sha256:sig'', man_mediaType = ''m'', man_artifactType = None, man_size = 1, man_payload = [],
        man_configDigest = None, man_subjectDigest = Some ''sha256:image'', man_config = None, man_pushedBy = None, man_createdAt = 0\<rparr>],
     db_tags := [\<lparr>tag_repositoryId = ''r'', tag_name = ''v1'', tag_manifestDigest = ''sha256:image'', tag_createdAt = 0, tag_updatedAt = 0,
        tag_proxyCheckedAt = None, tag_lastPulledAt = None\<rparr>],
     db_signatures := [\<lparr>ms_repositoryId = ''r'', ms_manifestDigest = ''sha256:image'', ms_signatureDigest = ''sha256:sig'', ms_kind = KindSignature,
        ms_status = SigVerified, ms_keyId = None, ms_userKeyId = None, ms_identityId = None, ms_identity = None, ms_details = None, ms_checkedAt = 0\<rparr>]\<rparr>"

text \<open>
  A signature attached through its subject has no tag: after two weeks the job removes it from a tagged image, and with it the record that the image was verified.
\<close>
lemma prune_drops_signatures:
  "let d = snd (prune_untagged [(''olderThan'', ''14d'')] (15 * 86400000) attached_signature)
   in map man_digest (db_manifests d) = [''sha256:image''] \<and> db_signatures d = [] \<and> db_tags d = db_tags attached_signature"
  by code_simp

theorem prune_spares_used_witness: "db_tags (snd (prune_untagged [] 0 attached_signature)) = db_tags attached_signature"
  using prune_spares_used [of "[]" 0 attached_signature "fst (prune_untagged [] 0 attached_signature)" "snd (prune_untagged [] 0 attached_signature)"] by simp

end
