(* ===== verification/Webhooks.thy ===== *)
theory Webhooks
  imports Repo_Actions Signing_Keys Paginate
begin

text \<open>
  Webhooks (\<open>web/src/lib/webhooks-shared.ts\<close>, \<open>webhooks.ts\<close>, \<open>app/actions/webhooks.ts\<close>): the events, the templates of custom bodies, the request that is sent, its retries, the
  log of deliveries and the management of hooks. Serialising and parsing JSON, the message of the chat formats, the MAC, base64, the cipher, the URL parser and the
  network are fields of \<open>http_env\<close>; the network answers the n-th attempt at a request. Deliveries that the code runs in parallel are run one
  after the other. The theorems: an event reaches exactly the enabled hooks of its repository and organization that subscribe to
  it, once each; three attempts at most, and what is recorded is the last one; no log and no list of hooks grows beyond its limit; a template is sent in its own shape.
\<close>

section \<open>Events and formats\<close>

definition WEBHOOK_EVENTS :: "(string \<times> bool) list" where
  \<comment> \<open>the events, and whether only organizations have them\<close>
  "WEBHOOK_EVENTS = [(''push'', False), (''delete'', False), (''scan.completed'', False), (''scan.blocked'', False), (''signature.blocked'', False),
     (''mirror.completed'', False), (''mirror.failed'', False), (''retention.completed'', False), (''repository.renamed'', False),
     (''repository.transferred'', False), (''quota.warning'', True), (''quota.exceeded'', True), (''quota.pruned'', True)]"

definition isWebhookEvent :: "string \<Rightarrow> bool" where
  "isWebhookEvent v \<longleftrightarrow> v \<in> set (map fst WEBHOOK_EVENTS)"

datatype webhook_scope = RepositoryScope string | OrganizationScope string

definition eventsForScope :: "webhook_scope \<Rightarrow> string list" where
  "eventsForScope scope = map fst (filter (\<lambda>(_, orgOnly). (case scope of OrganizationScope _ \<Rightarrow> True | _ \<Rightarrow> False) \<or> \<not> orgOnly) WEBHOOK_EVENTS)"

definition WEBHOOK_FORMATS :: "string list" where
  "WEBHOOK_FORMATS = [''json'', ''custom'', ''none'', ''slack'', ''discord'', ''teams'', ''text'']"

definition isWebhookFormat :: "string \<Rightarrow> bool" where
  "isWebhookFormat v \<longleftrightarrow> v \<in> set WEBHOOK_FORMATS"

definition formatAllowsMethod :: "string \<Rightarrow> bool" where
  "formatAllowsMethod f \<longleftrightarrow> f \<in> {''json'', ''none'', ''custom''}"

definition MAX_WEBHOOKS_PER_REPO :: nat where "MAX_WEBHOOKS_PER_REPO = 5"

definition MAX_WEBHOOKS_PER_ORG :: nat where "MAX_WEBHOOKS_PER_ORG = 10"

section \<open>Templates\<close>

definition PAYLOAD_TEMPLATE_MAX :: nat where "PAYLOAD_TEMPLATE_MAX = 20000"

definition WEBHOOK_PLACEHOLDERS :: "string list" where
  "WEBHOOK_PLACEHOLDERS = [''event'', ''repository'', ''organization'', ''tag'', ''digest'', ''reference'', ''registry'', ''actor'', ''timestamp'', ''deliveryId'', ''event.<path>'']"

definition key_char :: "char \<Rightarrow> bool" where
  "key_char c \<longleftrightarrow> is_lower_alnum (lower_char c) \<and> of_char c < (128 :: nat) \<or> c = CHR ''_'' \<or> c = CHR ''.''"

definition PLACEHOLDER :: "string \<Rightarrow> (string \<times> string) option" where
  \<comment> \<open>\<open>\{\{\s*([A-Za-z0-9_.]+)\s*\}\}\<close> at the start of the text: the name, and the text after it\<close>
  "PLACEHOLDER s =
     (if \<not> starts_with s ''{{'' then None
      else (let r = dropWhile js_ws (drop 2 s); key = takeWhile key_char r; r2 = dropWhile js_ws (dropWhile key_char r)
            in if key \<noteq> [] \<and> starts_with r2 ''}}'' then Some (key, drop 2 r2) else None))"

lemma PLACEHOLDER_shorter: "PLACEHOLDER s = Some (k, r) \<Longrightarrow> length r < length s"
proof -
  assume a: "PLACEHOLDER s = Some (k, r)"
  let ?r = "dropWhile js_ws (drop 2 s)"
  have "starts_with s ''{{''" "r = drop 2 (dropWhile js_ws (dropWhile key_char ?r))" using a by (auto simp: PLACEHOLDER_def Let_def split: if_splits)
  moreover have "length (dropWhile js_ws (dropWhile key_char ?r)) \<le> length (drop 2 s)"
    by (meson length_dropWhile_le order_trans)
  moreover have "2 \<le> length s" using calculation(1) by (auto simp: starts_with_iff)
  ultimately show "length r < length s" by simp
qed

function replace_placeholders :: "(string \<Rightarrow> string) \<Rightarrow> string \<Rightarrow> string" where
  \<comment> \<open>\<open>value.replace(PLACEHOLDER, f)\<close>\<close>
  "replace_placeholders f [] = []"
| "replace_placeholders f (c # s) = (case PLACEHOLDER (c # s) of
       Some (key, rest) \<Rightarrow> f key @ replace_placeholders f rest
     | None \<Rightarrow> c # replace_placeholders f s)"
  by pat_completeness auto
termination
  by (relation "measure (\<lambda>(f, s). length s)") (auto dest: PLACEHOLDER_shorter)

function placeholders_of :: "string \<Rightarrow> string list" where
  \<comment> \<open>\<open>template.matchAll(PLACEHOLDER)\<close>\<close>
  "placeholders_of [] = []"
| "placeholders_of (c # s) = (case PLACEHOLDER (c # s) of Some (key, rest) \<Rightarrow> key # placeholders_of rest | None \<Rightarrow> placeholders_of s)"
  by pat_completeness auto
termination
  by (relation "measure length") (auto dest: PLACEHOLDER_shorter)

definition json_prop :: "json option \<Rightarrow> string \<Rightarrow> json option" where
  \<comment> \<open>\<open>v?.[name]\<close>; \<open>None\<close> is undefined\<close>
  "json_prop v name = (case v of
       Some (JObj kvs) \<Rightarrow> map_of kvs name
     | Some (JArr xs) \<Rightarrow> (if name = ''length'' then Some (JNum (int (length xs)))
         else if name \<noteq> [] \<and> list_all is_digit name \<and> show_nat (read_digits name) = name \<and> read_digits name < length xs then Some (xs ! read_digits name) else None)
     | _ \<Rightarrow> None)"

definition coalesce :: "json option \<Rightarrow> json option \<Rightarrow> json option" where
  \<comment> \<open>\<open>a ?? b\<close>\<close>
  "coalesce a b = (if a = None \<or> a = Some JNull then b else a)"

fun walk_path :: "json option \<Rightarrow> string list \<Rightarrow> json option" where
  "walk_path v [] = v"
| "walk_path v (part # parts) = (case v of Some (JObj _) \<Rightarrow> walk_path (json_prop v part) parts | Some (JArr _) \<Rightarrow> walk_path (json_prop v part) parts | _ \<Rightarrow> None)"

definition lookup :: "json \<Rightarrow> string \<Rightarrow> json option" where
  "lookup e key =
     (let at = json_prop (Some e); text = (\<lambda>v. coalesce v (Some (JStr []))) in
      if key = ''event'' then Some e
      else if key = ''repository'' then text (json_prop (at ''repository'') ''path'')
      else if key = ''organization'' then text (coalesce (json_prop (at ''organization'') ''slug'') (json_prop (at ''repository'') ''organization''))
      else if key = ''tag'' then text (at ''tag'')
      else if key = ''digest'' then text (coalesce (json_prop (at ''image'') ''digest'') (at ''digest''))
      else if key = ''reference'' then text (json_prop (at ''image'') ''reference'')
      else if key = ''registry'' then text (at ''registry'')
      else if key = ''actor'' then text (coalesce (coalesce (json_prop (at ''actor'') ''name'') (json_prop (at ''actor'') ''label'')) (json_prop (at ''actor'') ''type''))
      else if key = ''timestamp'' then text (at ''timestamp'')
      else if key = ''deliveryId'' then text (at ''deliveryId'')
      else if starts_with key ''event.'' then walk_path (Some e) (split_on CHR ''.'' (drop 6 key))
      else None)"

definition text_json :: "(json \<Rightarrow> string) \<Rightarrow> json \<Rightarrow> string" where
  "text_json stringify v = (case v of
       JStr s \<Rightarrow> s | JNum n \<Rightarrow> show_int n | JBool b \<Rightarrow> if b then ''true'' else ''false'' | JNull \<Rightarrow> [] | _ \<Rightarrow> stringify v)"

definition asText :: "(json \<Rightarrow> string) \<Rightarrow> json option \<Rightarrow> string \<Rightarrow> string" where
  \<comment> \<open>the name of an event is a text\<close>
  "asText stringify v key = (case v of
       None \<Rightarrow> []
     | Some (JObj kvs) \<Rightarrow> if key = ''event'' then (case map_of kvs ''event'' of Some n \<Rightarrow> text_json stringify n | None \<Rightarrow> []) else stringify (JObj kvs)
     | Some x \<Rightarrow> text_json stringify x)"

definition render_text :: "(json \<Rightarrow> string) \<Rightarrow> json \<Rightarrow> string \<Rightarrow> json" where
  "render_text stringify e s = (case PLACEHOLDER s of
       Some (key, []) \<Rightarrow> (case lookup e key of
           None \<Rightarrow> JStr [] | Some (JStr t) \<Rightarrow> JStr t | Some v \<Rightarrow> v)
     | _ \<Rightarrow> JStr (replace_placeholders (\<lambda>key. asText stringify (lookup e key) key) s))"

primrec renderValue :: "(json \<Rightarrow> string) \<Rightarrow> json \<Rightarrow> json \<Rightarrow> json" where
  "renderValue S e JNull = JNull"
| "renderValue S e (JBool b) = JBool b"
| "renderValue S e (JNum n) = JNum n"
| "renderValue S e (JStr s) = render_text S e s"
| "renderValue S e (JArr xs) = JArr (map (renderValue S e) xs)"
| "renderValue S e (JObj kvs) = JObj (map (map_prod id (renderValue S e)) kvs)"

definition renderPayloadTemplate :: "(json \<Rightarrow> string) \<Rightarrow> (string \<Rightarrow> string + json) \<Rightarrow> string \<Rightarrow> json \<Rightarrow> string + json" where
  \<comment> \<open>\<open>Inl\<close> carries the complaint of \<open>JSON.parse\<close>\<close>
  "renderPayloadTemplate S parse template e = map_sum id (renderValue S e) (parse template)"

definition validatePayloadTemplate :: "(string \<Rightarrow> string + json) \<Rightarrow> string \<Rightarrow> string option" where
  "validatePayloadTemplate parse template =
     (if js_trim template = [] then Some ''Enter the JSON body to send.''
      else if PAYLOAD_TEMPLATE_MAX < length template then Some ''The payload template is limited to 20000 characters.''
      else (case parse template of
          Inl msg \<Rightarrow> Some (''The payload template is not valid JSON: '' @ msg)
        | Inr j \<Rightarrow>
          if \<not> (case j of JArr _ \<Rightarrow> True | JObj _ \<Rightarrow> True | _ \<Rightarrow> False) then Some ''The payload template must be a JSON object or array.''
          else map_option (\<lambda>key. ''Unknown placeholder {{'' @ key @ ''}}.'')
            (find (\<lambda>key. key \<notin> set WEBHOOK_PLACEHOLDERS \<and> \<not> starts_with key ''event.'') (placeholders_of template))))"

section \<open>Payloads\<close>

definition repository_block :: "string \<Rightarrow> organization \<Rightarrow> repository \<Rightarrow> json" where
  "repository_block appUrl g r = JObj [(''id'', JStr (repo_id r)), (''name'', JStr (repo_name r)), (''path'', JStr (imagePath (Some (org_slug g)) (repo_name r))),
     (''organization'', JObj [(''slug'', JStr (org_slug g)), (''name'', JStr (org_name g))]),
     (''visibility'', JStr (case repo_visibility r of Public \<Rightarrow> ''public'' | Private \<Rightarrow> ''private'')),
     (''url'', JStr (appUrl @ ''/'' @ org_slug g @ ''/'' @ repo_name r))]"

definition repositoryInfo :: "string \<Rightarrow> db \<Rightarrow> string \<Rightarrow> (json \<times> string) option" where
  "repositoryInfo appUrl d repositoryId = (case find (\<lambda>r. repo_id r = repositoryId) (db_repositories d) of
       None \<Rightarrow> None
     | Some r \<Rightarrow> map_option (\<lambda>g. (repository_block appUrl g r, org_id g)) (find (\<lambda>g. org_id g = repo_organizationId r) (db_organizations d)))"

record event_stamp =
  es_deliveryId :: string
  es_timestamp :: string
  es_registry :: string

definition envelope_of :: "event_stamp \<Rightarrow> string \<Rightarrow> json \<Rightarrow> (string \<times> json) list" where
  "envelope_of S event repository = [(''event'', JStr event), (''deliveryId'', JStr (es_deliveryId S)), (''timestamp'', JStr (es_timestamp S)),
     (''registry'', JStr (es_registry S)), (''repository'', repository)]"

definition merge_fields :: "(string \<times> json) list \<Rightarrow> (string \<times> json) list \<Rightarrow> (string \<times> json) list" where
  \<comment> \<open>\<open>{ ...a, ...b }\<close>\<close>
  "merge_fields a b = fold (\<lambda>(k, v) m. AList.update k v m) b a"


definition payload_text :: "json \<Rightarrow> string \<Rightarrow> string" where
  \<comment> \<open>a field of the envelope that is a text\<close>
  "payload_text payload key = (case json_prop (Some payload) key of Some (JStr s) \<Rightarrow> s | _ \<Rightarrow> [])"

definition CI_ISSUERS :: "(string \<times> string) list" where
  "CI_ISSUERS = [(''https://token.actions.githubusercontent.com'', ''GitHub Actions''), (''https://gitlab.com'', ''GitLab.com'')]"

definition ciActorLabel :: "string \<Rightarrow> string \<Rightarrow> string \<Rightarrow> string" where
  "ciActorLabel issuer organizationSlug name =
     (let plain = (if ends_with issuer ''/'' then butlast issuer else issuer)
      in nullish (map_of CI_ISSUERS plain) ''CI'' @ '' '' @ [CHR 0xB7] @ '' '' @ serviceAccountHandle organizationSlug name)"

definition serviceAccountLabel :: "db \<Rightarrow> string \<Rightarrow> string option" where
  "serviceAccountLabel d i = (case filter (\<lambda>a. sa_id a = i \<and> org_by_id d (sa_organizationId a) \<noteq> None) (db_serviceAccounts d) of
       [] \<Rightarrow> None
     | a # _ \<Rightarrow> map_option (\<lambda>g. serviceAccountHandle (org_slug g) (sa_name a)) (org_by_id d (sa_organizationId a)))"

definition ciIdentityLabel :: "db \<Rightarrow> string \<Rightarrow> string option" where
  "ciIdentityLabel d i = (case filter (\<lambda>a. ci_id a = i \<and> org_by_id d (ci_organizationId a) \<noteq> None) (db_ciIdentities d) of
       [] \<Rightarrow> None
     | a # _ \<Rightarrow> map_option (\<lambda>g. ciActorLabel (ci_issuer a) (org_slug g) (ci_name a)) (org_by_id d (ci_organizationId a)))"

record webhook_actor =
  wa_type :: string
  wa_id :: "string option"
  wa_name :: "string option"

definition resolveActor :: "db \<Rightarrow> string option \<Rightarrow> webhook_actor option" where
  "resolveActor d actor =
     (if \<not> truthy actor then None
      else (let parts = split_on CHR '':'' (the actor); type = parts ! 0; i = (if 1 < length parts then parts ! 1 else []) in
        if type = ''user'' \<and> i \<noteq> []
        then Some \<lparr>wa_type = type, wa_id = Some i, wa_name = map_option u_name (find (\<lambda>u. u_id u = i) (db_users d))\<rparr>
        else if type = ''sa'' \<and> i = ''ci''
        then (let identityId = drop 6 (the actor) in Some \<lparr>wa_type = ''ci'', wa_id = Some identityId, wa_name = ciIdentityLabel d identityId\<rparr>)
        else if type = ''sa'' \<and> i \<noteq> [] then Some \<lparr>wa_type = ''service_account'', wa_id = Some i, wa_name = serviceAccountLabel d i\<rparr>
        else if type = ''mirror'' \<and> i \<noteq> [] then Some \<lparr>wa_type = ''mirror'', wa_id = Some i, wa_name = None\<rparr>
        else Some \<lparr>wa_type = ''anonymous'', wa_id = None, wa_name = None\<rparr>))"

section \<open>Delivery\<close>

record http_request =
  rq_method :: string
  rq_url :: string
  rq_headers :: "(string \<times> string) list"
  rq_body :: "string option"

record http_env =
  he_stringify :: "json \<Rightarrow> string"
  he_parse :: "string \<Rightarrow> string + json"
  he_chat :: "string \<Rightarrow> json \<Rightarrow> json"
    \<comment> \<open>\<open>encodeChatMessage(format, chatMessage(payload))\<close>\<close>
  he_hmac :: "string \<Rightarrow> string \<Rightarrow> string"
  he_base64 :: "string \<Rightarrow> string"
  he_cipher :: cipher
  he_protocol :: "string \<Rightarrow> string option"
    \<comment> \<open>\<open>new URL(url).protocol\<close>; \<open>None\<close> where the constructor throws\<close>
  he_fetch :: "http_request \<Rightarrow> nat \<Rightarrow> string + int \<times> string"
    \<comment> \<open>the n-th attempt at a request: the message of the exception, or status and text\<close>

definition sendsBody :: "webhook \<Rightarrow> bool" where
  "sendsBody h \<longleftrightarrow> wh_method h \<noteq> ''GET'' \<and> wh_format h \<noteq> ''none''"

definition delivery_body :: "http_env \<Rightarrow> webhook \<Rightarrow> json \<Rightarrow> string + string" where
  \<comment> \<open>\<open>Inl\<close> is \<open>templateError\<close>\<close>
  "delivery_body E h payload =
     (if \<not> sendsBody h then Inr []
      else if wh_format h = ''custom''
      then (case renderPayloadTemplate (he_stringify E) (he_parse E) (nullish (wh_payloadTemplate h) ''{}'') payload of
              Inl msg \<Rightarrow> Inl (''payload template: '' @ msg)
            | Inr j \<Rightarrow> Inr (he_stringify E j))
      else if wh_format h \<noteq> [] \<and> wh_format h \<noteq> ''json'' then Inr (he_stringify E (he_chat E (wh_format h) payload))
      else Inr (he_stringify E payload))"

definition auth_header :: "http_env \<Rightarrow> webhook \<Rightarrow> (string \<times> string) list" where
  "auth_header E h =
     (let secret = decryptSecret (he_cipher E) (wh_authSecret h) in
      if \<not> truthy secret then []
      else if wh_authType h = ''bearer'' then [(''Authorization'', ''Bearer '' @ the secret)]
      else if wh_authType h = ''basic'' then [(''Authorization'', ''Basic '' @ he_base64 E (the secret))]
      else if wh_authType h = ''header'' \<and> truthy (wh_authHeaderName h) then [(the (wh_authHeaderName h), the secret)]
      else [])"

definition set_headers :: "(string \<times> string) list \<Rightarrow> (string \<times> string) list \<Rightarrow> (string \<times> string) list" where
  "set_headers extra hs = fold (\<lambda>(k, v). AList.update k v) extra hs"

definition delivery_headers :: "http_env \<Rightarrow> webhook \<Rightarrow> json \<Rightarrow> string \<Rightarrow> (string \<times> string) list" where
  "delivery_headers E h payload body =
     (let own = (if sendsBody h then [(''Content-Type'', ''application/json'')] else []) @
            [(''User-Agent'', ''Chicoree-Webhooks/1.0''), (''X-Chicoree-Event'', payload_text payload ''event''),
             (''X-Chicoree-Delivery'', payload_text payload ''deliveryId'')];
          signingKey = decryptSecret (he_cipher E) (wh_signingSecret h);
          signature = (if truthy signingKey then [(''X-Chicoree-Signature'', ''sha256='' @ he_hmac E (the signingKey) body)] else [])
      in set_headers (auth_header E h) (set_headers signature (set_headers (wh_headers h) own)))"

record delivery_state =
  oc_statusCode :: "int option"
  oc_error :: "string option"
  oc_snippet :: "string option"
  oc_attempts :: nat

fun attempt_loop :: "(nat \<Rightarrow> string + int \<times> string) \<Rightarrow> nat list \<Rightarrow> delivery_state \<Rightarrow> delivery_state" where
  \<comment> \<open>the list holds the pauses before the attempts, in milliseconds\<close>
  "attempt_loop net [] r = r"
| "attempt_loop net (delay # delays) r = (case net (oc_attempts r) of
       Inr (status, text) \<Rightarrow>
         (let r' = \<lparr>oc_statusCode = Some status, oc_error = None, oc_snippet = Some (take 500 text), oc_attempts = Suc (oc_attempts r)\<rparr> in
          if status < 500 then r' else attempt_loop net delays (r'\<lparr>oc_error := Some (''HTTP '' @ show_int status)\<rparr>))
     | Inl msg \<Rightarrow> attempt_loop net delays (r\<lparr>oc_error := Some msg, oc_statusCode := None, oc_attempts := Suc (oc_attempts r)\<rparr>))"

definition RETRY_DELAYS :: "nat list" where "RETRY_DELAYS = [0, 2000, 6000]"

definition delivery_request :: "http_env \<Rightarrow> webhook \<Rightarrow> json \<Rightarrow> string \<Rightarrow> http_request" where
  "delivery_request E h payload body = \<lparr>rq_method = wh_method h, rq_url = wh_url h, rq_headers = delivery_headers E h payload body,
     rq_body = (if sendsBody h then Some body else None)\<rparr>"

definition delivery_outcome :: "http_env \<Rightarrow> webhook \<Rightarrow> json \<Rightarrow> delivery_state" where
  "delivery_outcome E h payload = (case delivery_body E h payload of
       Inl msg \<Rightarrow> \<lparr>oc_statusCode = None, oc_error = Some msg, oc_snippet = None, oc_attempts = 0\<rparr>
     | Inr body \<Rightarrow> attempt_loop (he_fetch E (delivery_request E h payload body)) RETRY_DELAYS
         \<lparr>oc_statusCode = None, oc_error = None, oc_snippet = None, oc_attempts = 0\<rparr>)"

definition outcome_ok :: "delivery_state \<Rightarrow> bool" where
  "outcome_ok r \<longleftrightarrow> (case oc_statusCode r of None \<Rightarrow> False | Some s \<Rightarrow> 200 \<le> s \<and> s < 300)"

definition outcome_failure :: "delivery_state \<Rightarrow> string option" where
  "outcome_failure r = (if outcome_ok r then None
     else Some (nullish (oc_error r) (''HTTP '' @ (case oc_statusCode r of None \<Rightarrow> ''null'' | Some s \<Rightarrow> show_int s))))"

record delivery_stamp =
  ds_id :: string
  ds_started :: millis
  ds_now :: millis

definition delivery_row :: "http_env \<Rightarrow> delivery_stamp \<Rightarrow> webhook \<Rightarrow> json \<Rightarrow> webhook_delivery" where
  "delivery_row E t h payload =
     (let r = delivery_outcome E h payload in
      \<lparr>wd_id = ds_id t, wd_webhookId = wh_id h, wd_event = payload_text payload ''event'', wd_payload = payload, wd_statusCode = oc_statusCode r,
       wd_ok = outcome_ok r, wd_attempts = int (oc_attempts r), wd_durationMs = Some (ds_now t - ds_started t), wd_error = outcome_failure r,
       wd_responseSnippet = oc_snippet r, wd_createdAt = ds_now t\<rparr>)"

definition newest_deliveries :: "webhook_delivery list \<Rightarrow> webhook_delivery list" where
  \<comment> \<open>\<open>ORDER BY created_at DESC LIMIT 50\<close>\<close>
  "newest_deliveries log = take WEBHOOK_LOG_MAX (js_sort (\<lambda>a b. wd_createdAt b - wd_createdAt a) log)"

definition hook_log :: "db \<Rightarrow> string \<Rightarrow> webhook_delivery list" where
  "hook_log d hookId = filter (\<lambda>x. wd_webhookId x = hookId) (db_webhookDeliveries d)"

definition prune_log :: "string \<Rightarrow> db \<Rightarrow> db" where
  "prune_log hookId d = (let keep = map wd_id (newest_deliveries (hook_log d hookId)) in
     d\<lparr>db_webhookDeliveries := filter (\<lambda>x. \<not> (wd_webhookId x = hookId \<and> wd_id x \<notin> set keep)) (db_webhookDeliveries d)\<rparr>)"

definition mark_hook :: "delivery_state \<Rightarrow> millis \<Rightarrow> string \<Rightarrow> db \<Rightarrow> db" where
  "mark_hook r now hookId d = d\<lparr>db_webhooks := map (\<lambda>h. if wh_id h = hookId
     then h\<lparr>wh_lastStatus := oc_statusCode r, wh_lastDeliveredAt := Some now, wh_lastError := outcome_failure r\<rparr> else h) (db_webhooks d)\<rparr>"

record webhook_failed =
  wf_hookId :: string
  wf_deliveryId :: string
  wf_eventName :: string
  wf_statusCode :: "int option"
  wf_error :: string
  wf_attempts :: nat

definition deliverWebhook :: "http_env \<Rightarrow> delivery_stamp \<Rightarrow> webhook \<Rightarrow> json \<Rightarrow> db \<Rightarrow> (string + webhook_failed option) \<times> db" where
  \<comment> \<open>\<open>Inr\<close> carries the notice for the managers; the foreign key refuses a delivery to a hook that is gone\<close>
  "deliverWebhook E t h payload d =
     (let r = delivery_outcome E h payload; event = payload_text payload ''event'' in
      if wh_id h \<notin> set (map wh_id (db_webhooks d)) then (Inl ''foreign key'', d)
      else (Inr (if \<not> outcome_ok r \<and> event \<noteq> ''test''
               then Some \<lparr>wf_hookId = wh_id h, wf_deliveryId = ds_id t, wf_eventName = event, wf_statusCode = oc_statusCode r,
                 wf_error = nullish (outcome_failure r) ''delivery failed'', wf_attempts = oc_attempts r\<rparr> else None),
            prune_log (wh_id h) (mark_hook r (ds_now t) (wh_id h)
              (d\<lparr>db_webhookDeliveries := db_webhookDeliveries d @ [delivery_row E t h payload]\<rparr>))))"

section \<open>Fan-out\<close>

definition organization_hooks :: "db \<Rightarrow> string \<Rightarrow> webhook list" where
  "organization_hooks d organizationId =
     filter (\<lambda>h. wh_organizationId h = Some organizationId \<and> wh_repositoryId h = None \<and> wh_enabled h) (db_webhooks d)"

definition hooksForRepository :: "db \<Rightarrow> string \<Rightarrow> string \<Rightarrow> webhook list" where
  "hooksForRepository d repositoryId organizationId =
     filter (\<lambda>h. wh_repositoryId h = Some repositoryId \<and> wh_enabled h) (db_webhooks d) @ organization_hooks d organizationId"

definition subscribed :: "webhook \<Rightarrow> string \<Rightarrow> bool" where
  "subscribed h event \<longleftrightarrow> (if event = ''test'' then ''push'' else event) \<in> set (wh_events h)"

definition deliver_each :: "http_env \<Rightarrow> (string \<Rightarrow> delivery_stamp) \<Rightarrow> json \<Rightarrow> webhook list \<Rightarrow> db \<Rightarrow> db" where
  \<comment> \<open>a delivery that throws is logged to the console\<close>
  "deliver_each E T payload hooks d = fold (\<lambda>h d'. snd (deliverWebhook E (T (wh_id h)) h payload d')) hooks d"

definition deliverAll :: "http_env \<Rightarrow> (string \<Rightarrow> delivery_stamp) \<Rightarrow> webhook list \<Rightarrow> json \<Rightarrow> db \<Rightarrow> db" where
  "deliverAll E T hooks payload d = deliver_each E T payload (filter (\<lambda>h. subscribed h (payload_text payload ''event'')) hooks) d"

definition dispatchRepositoryWebhooks :: "http_env \<Rightarrow> (string \<Rightarrow> delivery_stamp) \<Rightarrow> string \<Rightarrow> json \<Rightarrow> db \<Rightarrow> db" where
  "dispatchRepositoryWebhooks E T repositoryId payload d = (case repo_by_id d repositoryId of
       None \<Rightarrow> d
     | Some repo \<Rightarrow> deliverAll E T (hooksForRepository d repositoryId (repo_organizationId repo)) payload d)"

definition dispatchOrganizationWebhooks :: "http_env \<Rightarrow> (string \<Rightarrow> delivery_stamp) \<Rightarrow> string \<Rightarrow> json \<Rightarrow> db \<Rightarrow> db" where
  "dispatchOrganizationWebhooks E T organizationId payload d = deliverAll E T (organization_hooks d organizationId) payload d"

definition emitRepositoryEvent ::
  "http_env \<Rightarrow> event_stamp \<Rightarrow> string \<Rightarrow> (string \<Rightarrow> delivery_stamp) \<Rightarrow> string \<Rightarrow> string \<Rightarrow> (string \<times> json) list \<Rightarrow> db \<Rightarrow> db" where
  "emitRepositoryEvent E S appUrl T repositoryId event data d = (case repositoryInfo appUrl d repositoryId of
       None \<Rightarrow> d
     | Some (repository, organizationId) \<Rightarrow>
         deliverAll E T (hooksForRepository d repositoryId organizationId) (JObj (merge_fields data (envelope_of S event repository))) d)"

definition emitOrganizationEvent ::
  "http_env \<Rightarrow> event_stamp \<Rightarrow> (string \<Rightarrow> delivery_stamp) \<Rightarrow> string \<Rightarrow> string \<Rightarrow> (string \<times> json) list \<Rightarrow> db \<Rightarrow> db" where
  "emitOrganizationEvent E S T organizationId event data d = (case org_by_id d organizationId of
       None \<Rightarrow> d
     | Some g \<Rightarrow> dispatchOrganizationWebhooks E T organizationId
         (JObj (merge_fields (merge_fields data (envelope_of S event JNull))
            [(''organization'', JObj [(''slug'', JStr (org_slug g)), (''name'', JStr (org_name g))])])) d)"

section \<open>Managing hooks\<close>

definition in_scope :: "webhook_scope \<Rightarrow> webhook \<Rightarrow> bool" where
  \<comment> \<open>\<open>scopeWhere\<close>\<close>
  "in_scope scope h = (case scope of
       RepositoryScope i \<Rightarrow> wh_repositoryId h = Some i
     | OrganizationScope i \<Rightarrow> wh_organizationId h = Some i \<and> wh_repositoryId h = None)"

definition maxWebhooks :: "webhook_scope \<Rightarrow> nat" where
  "maxWebhooks scope = (case scope of RepositoryScope _ \<Rightarrow> MAX_WEBHOOKS_PER_REPO | OrganizationScope _ \<Rightarrow> MAX_WEBHOOKS_PER_ORG)"

definition countWebhooks :: "db \<Rightarrow> webhook_scope \<Rightarrow> nat" where
  "countWebhooks d scope = length (filter (in_scope scope) (db_webhooks d))"

definition findScopedWebhook :: "db \<Rightarrow> webhook_scope \<Rightarrow> string \<Rightarrow> webhook option" where
  "findScopedWebhook d scope i = find (\<lambda>h. wh_id h = i \<and> in_scope scope h) (db_webhooks d)"

type_synonym form = "(string \<times> string) list"

definition form_get :: "form \<Rightarrow> string \<Rightarrow> string \<Rightarrow> string" where
  \<comment> \<open>\<open>String(formData.get(name) ?? other)\<close>\<close>
  "form_get f name other = nullish (map_of f name) other"

definition form_getAll :: "form \<Rightarrow> string \<Rightarrow> string list" where
  "form_getAll f name = map snd (filter (\<lambda>(k, _). k = name) f)"

definition requireScope :: "db \<Rightarrow> actor \<Rightarrow> form \<Rightarrow> string + webhook_scope \<times> organization \<times> repository option" where
  "requireScope d a f =
     (let repositoryId = form_get f ''repositoryId'' []; organizationId = form_get f ''organizationId'' [];
          refused = ''Only organization owners and admins can manage webhooks.'' in
      if repositoryId \<noteq> []
      then (case repo_by_id d repositoryId of
              None \<Rightarrow> Inl ''Repository not found.''
            | Some repo \<Rightarrow>
              if \<not> has_role d a (repo_organizationId repo) MANAGER_ROLES then Inl refused
              else (case org_by_id d (repo_organizationId repo) of
                  None \<Rightarrow> Inl ''Organization not found.''
                | Some g \<Rightarrow> Inr (RepositoryScope repositoryId, g, Some repo)))
      else if organizationId \<noteq> []
      then (case org_by_id d organizationId of
              None \<Rightarrow> Inl ''Organization not found.''
            | Some g \<Rightarrow>
              if \<not> has_role d a (org_id g) MANAGER_ROLES then Inl refused
              else Inr (OrganizationScope organizationId, g, None))
      else Inl ''Missing repository or organization.'')"

definition header_name :: "string \<Rightarrow> bool" where
  \<comment> \<open>\<open>^[A-Za-z0-9-]+$\<close>\<close>
  "header_name s \<longleftrightarrow> s \<noteq> [] \<and> list_all (\<lambda>c. is_lower_alnum (lower_char c) \<and> of_char c < (128 :: nat) \<or> c = CHR ''-'') s"

definition parse_header :: "string \<Rightarrow> (string \<times> string) option" where
  "parse_header line = (case index_of CHR '':'' line of
       None \<Rightarrow> None
     | Some idx \<Rightarrow>
       if idx = 0 then None
       else (let name = js_trim (take idx line); v = js_trim (drop (idx + 1) line) in if header_name name \<and> v \<noteq> [] then Some (name, v) else None))"

definition parseHeaders :: "string \<Rightarrow> (string \<times> string) list" where
  "parseHeaders raw = set_headers (List.map_filter parse_header (split_on (CHR 0x0A) raw)) []"

record webhook_base =
  wb_name :: string
  wb_url :: string
  wb_method :: string
  wb_format :: string
  wb_payloadTemplate :: "string option"
  wb_headers :: "(string \<times> string) list"
  wb_authType :: string
  wb_authHeaderName :: "string option"
  wb_events :: "string list"

definition form_base :: "webhook_scope \<Rightarrow> form \<Rightarrow> webhook_base" where
  "form_base scope f =
     (let format = form_get f ''format'' ''json''; authType = form_get f ''authType'' ''none'' in
      \<lparr>wb_name = js_trim (form_get f ''name'' []), wb_url = js_trim (form_get f ''url'' []),
       wb_method = (if formatAllowsMethod format then form_get f ''method'' ''POST'' else ''POST''), wb_format = format,
       wb_payloadTemplate = (if format = ''custom'' then Some (js_trim (form_get f ''payloadTemplate'' [])) else None),
       wb_headers = parseHeaders (form_get f ''headers'' []), wb_authType = authType,
       wb_authHeaderName = (if authType = ''header'' then Some (js_trim (form_get f ''authHeaderName'' [])) else None),
       wb_events = filter (\<lambda>e. isWebhookEvent e \<and> e \<in> set (eventsForScope scope)) (uniq (form_getAll f ''events''))\<rparr>)"

definition base_problem :: "http_env \<Rightarrow> webhook_base \<Rightarrow> string option" where
  \<comment> \<open>the checks of the fields, in the order of the code\<close>
  "base_problem E b =
     (if wb_name b = [] \<or> 64 < length (wb_name b) then Some ''Give the webhook a name (up to 64 characters).''
      else (case he_protocol E (wb_url b) of
          None \<Rightarrow> Some ''Enter a valid URL.''
        | Some protocol \<Rightarrow>
          if protocol \<notin> {''http:'', ''https:''} then Some ''Webhook URLs must be http(s).''
          else if \<not> isWebhookFormat (wb_format b) then Some ''Invalid format.''
          else (case (if wb_format b = ''custom'' then validatePayloadTemplate (he_parse E) (nullish (wb_payloadTemplate b) []) else None) of
              Some problem \<Rightarrow> Some problem
            | None \<Rightarrow>
              if wb_method b \<notin> {''GET'', ''POST'', ''PUT'', ''PATCH''} then Some ''Invalid method.''
              else if wb_authType b \<notin> {''none'', ''bearer'', ''basic'', ''header''} then Some ''Invalid authentication type.''
              else if wb_authType b = ''header'' \<and> \<not> header_name (nullish (wb_authHeaderName b) []) then Some ''Enter a valid header name.''
              else if wb_events b = [] then Some ''Subscribe the webhook to at least one event.''
              else None)))"

definition webhook_fields :: "http_env \<Rightarrow> webhook_scope \<Rightarrow> form \<Rightarrow> string + webhook_base" where
  "webhook_fields E scope f = (case base_problem E (form_base scope f) of Some err \<Rightarrow> Inl err | None \<Rightarrow> Inr (form_base scope f))"

definition apply_base :: "webhook_base \<Rightarrow> webhook \<Rightarrow> webhook" where
  "apply_base b h = h\<lparr>wh_name := wb_name b, wh_url := wb_url b, wh_method := wb_method b, wh_headers := wb_headers b, wh_authType := wb_authType b,
     wh_authHeaderName := wb_authHeaderName b, wh_format := wb_format b, wh_payloadTemplate := wb_payloadTemplate b, wh_events := wb_events b\<rparr>"

definition update_secret :: "cipher \<Rightarrow> string option \<Rightarrow> string \<Rightarrow> string option" where
  \<comment> \<open>a blank field keeps the first argument, a hyphen clears\<close>
  "update_secret C kept raw = (if raw = [] then kept else if raw = ''-'' then None else Some (encryptSecret C raw))"

definition new_hook :: "http_env \<Rightarrow> string \<Rightarrow> millis \<Rightarrow> string \<Rightarrow> webhook_scope \<Rightarrow> webhook_base \<Rightarrow> string \<Rightarrow> string \<Rightarrow> webhook" where
  "new_hook E newId now userId scope b authRaw signRaw =
     \<lparr>wh_id = newId, wh_repositoryId = (case scope of RepositoryScope i \<Rightarrow> Some i | _ \<Rightarrow> None),
      wh_organizationId = (case scope of OrganizationScope i \<Rightarrow> Some i | _ \<Rightarrow> None),
      wh_name = wb_name b, wh_url = wb_url b, wh_method = wb_method b, wh_headers = wb_headers b, wh_authType = wb_authType b,
      wh_authHeaderName = wb_authHeaderName b,
      wh_authSecret = (if wb_authType b \<noteq> ''none'' \<and> authRaw \<noteq> [] then Some (encryptSecret (he_cipher E) authRaw) else None),
      wh_signingSecret = (if signRaw \<noteq> [] then Some (encryptSecret (he_cipher E) signRaw) else None),
      wh_format = wb_format b, wh_payloadTemplate = wb_payloadTemplate b, wh_events = wb_events b, wh_enabled = True, wh_createdBy = Some userId,
      wh_createdAt = now, wh_lastStatus = None, wh_lastDeliveredAt = None, wh_lastError = None\<rparr>"

definition saveWebhook :: "http_env \<Rightarrow> string \<Rightarrow> millis \<Rightarrow> actor \<Rightarrow> form \<Rightarrow> db \<Rightarrow> string option \<times> db" where
  "saveWebhook E newId now a f d =
     (let i = form_get f ''id'' []; authRaw = form_get f ''authSecret'' []; signRaw = form_get f ''signingSecret'' [] in
      case requireScope d a f of
        Inl err \<Rightarrow> (Some err, d)
      | Inr (scope, _, _) \<Rightarrow>
        (case webhook_fields E scope f of
           Inl err \<Rightarrow> (Some err, d)
         | Inr b \<Rightarrow>
           if i \<noteq> []
           then (case findScopedWebhook d scope i of
                   None \<Rightarrow> (Some ''Webhook not found.'', d)
                 | Some existing \<Rightarrow> (None, d\<lparr>db_webhooks := map (\<lambda>h. if wh_id h = i then (apply_base b h)\<lparr>
                       wh_authSecret := update_secret (he_cipher E) (if wb_authType b = ''none'' then None else wh_authSecret existing) authRaw,
                       wh_signingSecret := update_secret (he_cipher E) (wh_signingSecret existing) signRaw\<rparr> else h) (db_webhooks d)\<rparr>))
           else if maxWebhooks scope \<le> countWebhooks d scope
           then (Some ((case scope of RepositoryScope _ \<Rightarrow> ''A repository'' | _ \<Rightarrow> ''An organization'') @ '' can have at most '' @
                  show_nat (maxWebhooks scope) @ '' webhooks.''), d)
           else (None, d\<lparr>db_webhooks := db_webhooks d @ [new_hook E newId now (act_userId a) scope b authRaw signRaw]\<rparr>)))"

definition deleteWebhook :: "actor \<Rightarrow> form \<Rightarrow> db \<Rightarrow> db" where
  \<comment> \<open>the deliveries go with the hook\<close>
  "deleteWebhook a f d = (case requireScope d a f of
       Inl _ \<Rightarrow> d
     | Inr (scope, _, _) \<Rightarrow> (case findScopedWebhook d scope (form_get f ''id'' []) of
         None \<Rightarrow> d
       | Some hook \<Rightarrow> d\<lparr>db_webhooks := filter (\<lambda>h. wh_id h \<noteq> wh_id hook) (db_webhooks d),
             db_webhookDeliveries := filter (\<lambda>x. wd_webhookId x \<noteq> wh_id hook) (db_webhookDeliveries d)\<rparr>))"

definition toggleWebhook :: "actor \<Rightarrow> form \<Rightarrow> db \<Rightarrow> db" where
  "toggleWebhook a f d = (case requireScope d a f of
       Inl _ \<Rightarrow> d
     | Inr (scope, _, _) \<Rightarrow> (case findScopedWebhook d scope (form_get f ''id'' []) of
         None \<Rightarrow> d
       | Some hook \<Rightarrow> d\<lparr>db_webhooks := map (\<lambda>h. if wh_id h = wh_id hook then h\<lparr>wh_enabled := (form_get f ''enabled'' [] = ''true'')\<rparr> else h) (db_webhooks d)\<rparr>))"


section \<open>Who is reached\<close>

definition kept_log :: "webhook_delivery list \<Rightarrow> webhook_delivery list" where
  "kept_log log = filter (\<lambda>x. wd_id x \<in> set (map wd_id (newest_deliveries log))) log"

definition reaches :: "string \<Rightarrow> string \<Rightarrow> string \<Rightarrow> webhook \<Rightarrow> bool" where
  "reaches repositoryId organizationId event h \<longleftrightarrow> wh_enabled h \<and> event \<in> set (wh_events h) \<and>
     (wh_repositoryId h = Some repositoryId \<or> wh_repositoryId h = None \<and> wh_organizationId h = Some organizationId)"

lemma hook_log_prune: "hook_log (prune_log i d) j = (if j = i then kept_log (hook_log d i) else hook_log d j)"
  by (auto simp: hook_log_def prune_log_def kept_log_def Let_def intro: filter_cong)

lemma hook_log_deliver:
  "hook_log (snd (deliverWebhook E t h payload d)) j =
     (if wh_id h \<in> wh_id ` set (db_webhooks d) \<and> j = wh_id h then kept_log (hook_log d j @ [delivery_row E t h payload]) else hook_log d j)"
  by (auto simp: deliverWebhook_def Let_def hook_log_prune) (auto simp: hook_log_def mark_hook_def delivery_row_def Let_def)

lemma deliver_keeps_ids: "map wh_id (db_webhooks (snd (deliverWebhook E t h payload d))) = map wh_id (db_webhooks d)"
  by (auto simp: deliverWebhook_def Let_def prune_log_def mark_hook_def)

lemma deliver_keeps_id_set: "wh_id ` set (db_webhooks (snd (deliverWebhook E t h payload d))) = wh_id ` set (db_webhooks d)"
  by (metis deliver_keeps_ids list.set_map)

lemma deliver_each_log:
  assumes "distinct (map wh_id hs)" and "wh_id ` set hs \<subseteq> wh_id ` set (db_webhooks d)"
  shows "hook_log (deliver_each E T payload hs d) j =
     (case find (\<lambda>h. wh_id h = j) hs of None \<Rightarrow> hook_log d j | Some h \<Rightarrow> kept_log (hook_log d j @ [delivery_row E (T j) h payload]))"
  using assms
proof (induction hs arbitrary: d)
  case Nil
  then show ?case by (simp add: deliver_each_def)
next
  case (Cons h hs)
  let ?d = "snd (deliverWebhook E (T (wh_id h)) h payload d)"
  have IH: "hook_log (deliver_each E T payload hs ?d) j =
      (case find (\<lambda>h. wh_id h = j) hs of None \<Rightarrow> hook_log ?d j | Some h \<Rightarrow> kept_log (hook_log ?d j @ [delivery_row E (T j) h payload]))"
    using Cons.prems by (intro Cons.IH) (auto simp: deliver_keeps_id_set)
  have gone: "find (\<lambda>h'. wh_id h' = wh_id h) hs = None" using Cons.prems(1) by (simp add: find_None_iff) (metis imageI)
  have step: "deliver_each E T payload (h # hs) d = deliver_each E T payload hs ?d" by (simp add: deliver_each_def)
  show ?case
  proof (cases "j = wh_id h")
    case True
    then show ?thesis using IH gone Cons.prems(2) by (simp add: step hook_log_deliver)
  next
    case False
    then have "hook_log ?d j = hook_log d j" by (simp add: hook_log_deliver)
    then show ?thesis using IH False by (cases "find (\<lambda>h. wh_id h = j) hs") (simp_all add: step)
  qed
qed

lemma payload_event: "payload_text (JObj (merge_fields data (envelope_of S event repository))) ''event'' = event"
  by (simp add: payload_text_def json_prop_def merge_fields_def envelope_of_def)

lemma distinct_hooksForRepository:
  assumes "distinct (map wh_id (db_webhooks d))"
  shows "distinct (map wh_id (filter P (hooksForRepository d r g)))"
proof -
  have inj: "inj_on wh_id (set (db_webhooks d))" and dist: "distinct (db_webhooks d)" using assms by (auto simp: distinct_map)
  have "distinct (hooksForRepository d r g)" using dist by (auto simp: hooksForRepository_def organization_hooks_def)
  moreover have "set (hooksForRepository d r g) \<subseteq> set (db_webhooks d)" by (auto simp: hooksForRepository_def organization_hooks_def)
  ultimately show ?thesis using inj by (auto simp: distinct_map intro: inj_on_subset)
qed

lemma find_id_iff:
  assumes "distinct (map wh_id (db_webhooks d))" and "h \<in> set (db_webhooks d)" and "set hs \<subseteq> set (db_webhooks d)"
  shows "find (\<lambda>h'. wh_id h' = wh_id h) hs = (if h \<in> set hs then Some h else None)"
proof -
  have "wh_id h' = wh_id h \<longleftrightarrow> h' = h" if "h' \<in> set hs" for h'
    using assms that by (auto simp: distinct_map dest: inj_onD)
  then have "find (\<lambda>h'. wh_id h' = wh_id h) hs = find (\<lambda>h'. h' = h) hs" by (intro find_cong) auto
  also have "\<dots> = (if h \<in> set hs then Some h else None)" by (induction hs) auto
  finally show ?thesis .
qed

text \<open>
  C27. A repository event is delivered to exactly the hooks that should get it: an enabled hook of the repository, or an enabled hook of
  its whole organization, that subscribes to the event gets one delivery at the end of its log (which is then cut to the newest rows); the
  log of every other hook is untouched, whatever happens to the other deliveries.
\<close>

theorem event_reaches_hooks:
  assumes ids: "distinct (map wh_id (db_webhooks d))"
    and repo: "repositoryInfo appUrl d repositoryId = Some (repository, organizationId)"
    and event: "event \<noteq> ''test''"
    and h: "h \<in> set (db_webhooks d)"
  shows "hook_log (emitRepositoryEvent E S appUrl T repositoryId event data d) (wh_id h) =
     (if reaches repositoryId organizationId event h
      then kept_log (hook_log d (wh_id h) @ [delivery_row E (T (wh_id h)) h (JObj (merge_fields data (envelope_of S event repository)))])
      else hook_log d (wh_id h))"
proof -
  let ?p = "JObj (merge_fields data (envelope_of S event repository))"
  let ?hs = "filter (\<lambda>h. subscribed h event) (hooksForRepository d repositoryId organizationId)"
  have sub: "set ?hs \<subseteq> set (db_webhooks d)" by (auto simp: hooksForRepository_def organization_hooks_def)
  have mem: "h \<in> set ?hs \<longleftrightarrow> reaches repositoryId organizationId event h"
    using h event by (auto simp: hooksForRepository_def organization_hooks_def reaches_def subscribed_def)
  have "emitRepositoryEvent E S appUrl T repositoryId event data d = deliver_each E T ?p ?hs d"
    by (simp add: emitRepositoryEvent_def repo deliverAll_def payload_event)
  then show ?thesis
    using deliver_each_log [OF distinct_hooksForRepository [OF ids] image_mono [OF sub], of E T ?p "wh_id h"]
    unfolding find_id_iff [OF ids h sub] mem by (simp split: if_splits)
qed

section \<open>Retries\<close>

definition retryable :: "string + int \<times> string \<Rightarrow> bool" where
  "retryable answer = (case answer of Inl _ \<Rightarrow> True | Inr (status, _) \<Rightarrow> 500 \<le> status)"

definition status_of :: "string + int \<times> string \<Rightarrow> int option" where
  "status_of answer = (case answer of Inl _ \<Rightarrow> None | Inr (status, _) \<Rightarrow> Some status)"

lemma attempt_loop_last:
  assumes "delays \<noteq> []"
  shows "\<exists>k < length delays. oc_attempts (attempt_loop net delays r) = oc_attempts r + Suc k
     \<and> (\<forall>j < k. retryable (net (oc_attempts r + j)))
     \<and> (Suc k < length delays \<longrightarrow> \<not> retryable (net (oc_attempts r + k)))
     \<and> oc_statusCode (attempt_loop net delays r) = status_of (net (oc_attempts r + k))"
  using assms
proof (induction delays arbitrary: r)
  case (Cons delay delays)
  let ?a = "net (oc_attempts r)"
  show ?case
  proof (cases "\<not> retryable ?a \<or> delays = []")
    case True
    then have "oc_attempts (attempt_loop net (delay # delays) r) = oc_attempts r + Suc 0"
      "oc_statusCode (attempt_loop net (delay # delays) r) = status_of ?a"
      by (auto simp: retryable_def status_of_def Let_def split: sum.splits)
    then show ?thesis using True by (intro exI [of _ 0]) auto
  next
    case False
    then obtain r' where r': "attempt_loop net (delay # delays) r = attempt_loop net delays r'" "oc_attempts r' = Suc (oc_attempts r)"
      by (auto simp: retryable_def Let_def split: sum.splits)
    from False Cons.IH [of r'] obtain k where k: "k < length delays" "oc_attempts (attempt_loop net delays r') = oc_attempts r' + Suc k"
      "\<forall>j < k. retryable (net (oc_attempts r' + j))" "Suc k < length delays \<longrightarrow> \<not> retryable (net (oc_attempts r' + k))"
      "oc_statusCode (attempt_loop net delays r') = status_of (net (oc_attempts r' + k))" by blast
    have "retryable (net (oc_attempts r + j))" if "j < Suc k" for j
      using that k(3) False r'(2) by (cases j) auto
    then show ?thesis using k r' by (intro exI [of _ "Suc k"]) auto
  qed
qed simp

text \<open>
  A delivery whose body can be built is tried once, twice or three times: an attempt that the network or a 5xx answer failed is
  repeated while attempts are left, any other answer ends it, and the log has the number of attempts and the status of
  the last one; it counts as delivered just when that status is a 2xx, and has an error text otherwise.
\<close>

theorem delivery_retries:
  assumes "delivery_body E h payload = Inr body"
  shows "\<exists>k < 3. (let net = he_fetch E (delivery_request E h payload body); row = delivery_row E t h payload in
     wd_attempts row = int k + 1 \<and> (\<forall>j < k. retryable (net j)) \<and> (k < 2 \<longrightarrow> \<not> retryable (net k)) \<and>
     wd_statusCode row = status_of (net k) \<and>
     (wd_ok row \<longleftrightarrow> (case net k of Inl _ \<Rightarrow> False | Inr (status, _) \<Rightarrow> 200 \<le> status \<and> status < 300)) \<and>
     (wd_ok row \<longleftrightarrow> wd_error row = None))"
proof -
  let ?net = "he_fetch E (delivery_request E h payload body)"
  let ?r0 = "\<lparr>oc_statusCode = None, oc_error = None, oc_snippet = None, oc_attempts = 0\<rparr>"
  have out: "delivery_outcome E h payload = attempt_loop ?net RETRY_DELAYS ?r0" by (simp add: delivery_outcome_def assms)
  have "RETRY_DELAYS \<noteq> []" "length RETRY_DELAYS = 3" by (simp_all add: RETRY_DELAYS_def)
  then obtain k where k: "k < 3" "oc_attempts (delivery_outcome E h payload) = Suc k" "\<forall>j < k. retryable (?net j)"
    "Suc k < 3 \<longrightarrow> \<not> retryable (?net k)" "oc_statusCode (delivery_outcome E h payload) = status_of (?net k)"
    using attempt_loop_last [of RETRY_DELAYS ?net ?r0] unfolding out by auto
  have ok: "outcome_ok (delivery_outcome E h payload) \<longleftrightarrow> (case ?net k of Inl _ \<Rightarrow> False | Inr (status, _) \<Rightarrow> 200 \<le> status \<and> status < 300)"
    by (auto simp: outcome_ok_def k(5) status_of_def split: sum.splits)
  show ?thesis
    using k ok by (intro exI [of _ k]) (simp add: Let_def delivery_row_def outcome_failure_def)
qed

text \<open>
  A template that no longer parses is not sent at all: the log has a failed delivery with no attempt.
\<close>

lemma bad_template_not_sent:
  assumes "delivery_body E h payload = Inl msg"
  shows "wd_attempts (delivery_row E t h payload) = 0 \<and> \<not> wd_ok (delivery_row E t h payload) \<and> wd_error (delivery_row E t h payload) = Some msg"
  by (simp add: delivery_row_def delivery_outcome_def assms Let_def outcome_ok_def outcome_failure_def)


section \<open>Limits and well-formed hooks\<close>

definition scope_of :: "webhook \<Rightarrow> webhook_scope option" where
  "scope_of h = (case (wh_repositoryId h, wh_organizationId h) of
       (Some i, None) \<Rightarrow> Some (RepositoryScope i) | (None, Some i) \<Rightarrow> Some (OrganizationScope i) | _ \<Rightarrow> None)"

definition valid_hook :: "webhook \<Rightarrow> bool" where
  "valid_hook h \<longleftrightarrow> (case scope_of h of None \<Rightarrow> False | Some scope \<Rightarrow> set (wh_events h) \<subseteq> set (eventsForScope scope)) \<and>
     wh_events h \<noteq> [] \<and> distinct (wh_events h) \<and> wh_name h \<noteq> [] \<and> length (wh_name h) \<le> 64 \<and> isWebhookFormat (wh_format h) \<and>
     wh_method h \<in> {''GET'', ''POST'', ''PUT'', ''PATCH''} \<and> (\<not> formatAllowsMethod (wh_format h) \<longrightarrow> wh_method h = ''POST'') \<and>
     (wh_payloadTemplate h \<noteq> None \<longleftrightarrow> wh_format h = ''custom'') \<and> wh_authType h \<in> {''none'', ''bearer'', ''basic'', ''header''}"

definition webhooks_inv :: "db \<Rightarrow> bool" where
  "webhooks_inv d \<longleftrightarrow> distinct (map wh_id (db_webhooks d)) \<and> distinct (map wd_id (db_webhookDeliveries d)) \<and>
     (\<forall>h \<in> set (db_webhooks d). valid_hook h) \<and> (\<forall>scope. countWebhooks d scope \<le> maxWebhooks scope) \<and>
     (\<forall>i. length (hook_log d i) \<le> WEBHOOK_LOG_MAX)"

inductive webhook_step :: "http_env \<Rightarrow> db \<Rightarrow> db \<Rightarrow> bool" for E where
  save: "newId \<notin> wh_id ` set (db_webhooks d) \<Longrightarrow> webhook_step E d (snd (saveWebhook E newId now a f d))"
| remove: "webhook_step E d (deleteWebhook a f d)"
| toggle: "webhook_step E d (toggleWebhook a f d)"
| deliver: "ds_id t \<notin> wd_id ` set (db_webhookDeliveries d) \<Longrightarrow> webhook_step E d (snd (deliverWebhook E t h payload d))"

lemma base_problem_None:
  assumes "base_problem E b = None"
  shows "wb_name b \<noteq> []" "length (wb_name b) \<le> 64" "isWebhookFormat (wb_format b)" "wb_method b \<in> {''GET'', ''POST'', ''PUT'', ''PATCH''}"
    "wb_authType b \<in> {''none'', ''bearer'', ''basic'', ''header''}" "wb_events b \<noteq> []"
    "wb_format b = ''custom'' \<longrightarrow> validatePayloadTemplate (he_parse E) (nullish (wb_payloadTemplate b) []) = None"
  using assms unfolding base_problem_def by (simp_all split: if_split_asm option.split_asm)

definition valid_base :: "webhook_scope \<Rightarrow> webhook_base \<Rightarrow> bool" where
  "valid_base scope b \<longleftrightarrow> set (wb_events b) \<subseteq> set (eventsForScope scope) \<and> wb_events b \<noteq> [] \<and> distinct (wb_events b) \<and>
     wb_name b \<noteq> [] \<and> length (wb_name b) \<le> 64 \<and> isWebhookFormat (wb_format b) \<and>
     wb_method b \<in> {''GET'', ''POST'', ''PUT'', ''PATCH''} \<and> (\<not> formatAllowsMethod (wb_format b) \<longrightarrow> wb_method b = ''POST'') \<and>
     (wb_payloadTemplate b \<noteq> None \<longleftrightarrow> wb_format b = ''custom'') \<and> wb_authType b \<in> {''none'', ''bearer'', ''basic'', ''header''}"

lemma form_base_shape:
  "set (wb_events (form_base scope f)) \<subseteq> set (eventsForScope scope)" "distinct (wb_events (form_base scope f))"
  "\<not> formatAllowsMethod (wb_format (form_base scope f)) \<longrightarrow> wb_method (form_base scope f) = ''POST''"
  "wb_payloadTemplate (form_base scope f) \<noteq> None \<longleftrightarrow> wb_format (form_base scope f) = ''custom''"
  by (auto simp: form_base_def Let_def)

lemma webhook_fields_valid: "webhook_fields E scope f = Inr b \<Longrightarrow> valid_base scope b"
proof -
  assume "webhook_fields E scope f = Inr b"
  then have "base_problem E (form_base scope f) = None" and b: "b = form_base scope f"
    unfolding webhook_fields_def by (cases "base_problem E (form_base scope f)", simp_all)+
  then show ?thesis
    unfolding valid_base_def b by (intro conjI base_problem_None form_base_shape)
qed

lemma valid_new_hook: "webhook_fields E scope f = Inr b \<Longrightarrow> valid_hook (new_hook E newId now u scope b x y)"
  by (drule webhook_fields_valid) (cases scope; simp add: valid_base_def valid_hook_def new_hook_def scope_of_def)

lemma in_scope_scope_of: "valid_hook h \<Longrightarrow> in_scope scope h \<longleftrightarrow> scope_of h = Some scope"
  by (cases scope) (auto simp: valid_hook_def in_scope_def scope_of_def split: option.splits)

lemma scope_of_update [simp]:
  "scope_of (apply_base b h) = scope_of h" "scope_of (h\<lparr>wh_authSecret := x\<rparr>) = scope_of h" "scope_of (h\<lparr>wh_signingSecret := x\<rparr>) = scope_of h"
  "in_scope scope (apply_base b h) = in_scope scope h" "in_scope scope (h\<lparr>wh_authSecret := x\<rparr>) = in_scope scope h"
  "in_scope scope (h\<lparr>wh_signingSecret := x\<rparr>) = in_scope scope h" "in_scope scope (h\<lparr>wh_enabled := e\<rparr>) = in_scope scope h"
  "wh_id (apply_base b h) = wh_id h"
  by (simp_all add: scope_of_def apply_base_def in_scope_def cong: webhook_scope.case_cong)

lemma scope_of_status [simp]:
  "scope_of (h\<lparr>wh_enabled := e\<rparr>) = scope_of h" "scope_of (h\<lparr>wh_lastStatus := x\<rparr>) = scope_of h"
  "scope_of (h\<lparr>wh_lastDeliveredAt := t\<rparr>) = scope_of h" "scope_of (h\<lparr>wh_lastError := y\<rparr>) = scope_of h"
  "in_scope scope (h\<lparr>wh_lastStatus := x\<rparr>) = in_scope scope h" "in_scope scope (h\<lparr>wh_lastDeliveredAt := t\<rparr>) = in_scope scope h"
  "in_scope scope (h\<lparr>wh_lastError := y\<rparr>) = in_scope scope h"
  by (simp_all add: scope_of_def in_scope_def cong: option.case_cong webhook_scope.case_cong)

lemma valid_hook_status [simp]:
  "valid_hook (h\<lparr>wh_enabled := e\<rparr>) = valid_hook h" "valid_hook (h\<lparr>wh_lastStatus := x\<rparr>) = valid_hook h"
  "valid_hook (h\<lparr>wh_lastDeliveredAt := t\<rparr>) = valid_hook h" "valid_hook (h\<lparr>wh_lastError := y\<rparr>) = valid_hook h"
  by (simp_all add: valid_hook_def cong: option.case_cong)

lemma valid_apply_base:
  "webhook_fields E scope f = Inr b \<Longrightarrow> scope_of h = Some scope \<Longrightarrow> valid_hook ((apply_base b h)\<lparr>wh_authSecret := x, wh_signingSecret := y\<rparr>)"
  by (drule webhook_fields_valid) (simp add: valid_base_def valid_hook_def apply_base_def scope_of_def)


lemma requireScope_managed:
  assumes "requireScope d a f = Inr (scope, g, repo)"
  shows "has_role d a (org_id g) MANAGER_ROLES"
proof -
  have "org_by_id d i = Some g' \<Longrightarrow> org_id g' = i" for i g' by (auto simp: org_by_id_def dest: find_SomeD)
  then show ?thesis
    using assms unfolding requireScope_def Let_def by (auto split: if_split_asm option.split_asm)
qed

text \<open>What each operation does to the hooks: nothing, a change of hooks of the scope, a new hook while there is room, or the loss of some.\<close>

lemma saveWebhook_cases [consumes 0, case_names refused updated created]:
  obtains "snd (saveWebhook E newId now a f d) = d"
  | scope g repo b existing x y where "requireScope d a f = Inr (scope, g, repo)" "webhook_fields E scope f = Inr b"
      "findScopedWebhook d scope (wh_id existing) = Some existing"
      "snd (saveWebhook E newId now a f d) = d\<lparr>db_webhooks := map (\<lambda>h. if wh_id h = wh_id existing
         then (apply_base b h)\<lparr>wh_authSecret := x, wh_signingSecret := y\<rparr> else h) (db_webhooks d)\<rparr>"
  | scope g repo b where "requireScope d a f = Inr (scope, g, repo)" "webhook_fields E scope f = Inr b" "countWebhooks d scope < maxWebhooks scope"
      "snd (saveWebhook E newId now a f d) = d\<lparr>db_webhooks := db_webhooks d @
         [new_hook E newId now (act_userId a) scope b (form_get f ''authSecret'' []) (form_get f ''signingSecret'' [])]\<rparr>"
proof (cases "requireScope d a f")
  case (Inl err)
  then show ?thesis using that(1) by (simp add: saveWebhook_def)
next
  case (Inr ctx)
  obtain scope g repo where ctx: "requireScope d a f = Inr (scope, g, repo)" using Inr by (cases ctx) auto
  show ?thesis
  proof (cases "webhook_fields E scope f")
    case (Inl err)
    then show ?thesis using that(1) ctx by (simp add: saveWebhook_def)
  next
    case (Inr b)
    let ?i = "form_get f ''id'' []"
    show ?thesis
    proof (cases "?i = []")
      case True
      then show ?thesis
        using that(1) that(3) [OF ctx Inr] ctx Inr by (cases "maxWebhooks scope \<le> countWebhooks d scope") (simp_all add: saveWebhook_def)
    next
      case False
      show ?thesis
      proof (cases "findScopedWebhook d scope ?i")
        case None
        then show ?thesis using that(1) ctx Inr False by (simp add: saveWebhook_def)
      next
        case (Some existing)
        then have "wh_id existing = ?i" by (auto simp: findScopedWebhook_def dest: find_SomeD)
        then have "snd (saveWebhook E newId now a f d) = d\<lparr>db_webhooks := map (\<lambda>h. if wh_id h = wh_id existing then (apply_base b h)\<lparr>
            wh_authSecret := update_secret (he_cipher E) (if wb_authType b = ''none'' then None else wh_authSecret existing) (form_get f ''authSecret'' []),
            wh_signingSecret := update_secret (he_cipher E) (wh_signingSecret existing) (form_get f ''signingSecret'' [])\<rparr> else h) (db_webhooks d)\<rparr>"
          and "findScopedWebhook d scope (wh_id existing) = Some existing"
          using Some ctx Inr False by (simp_all add: saveWebhook_def)
        then show ?thesis using that(2) [OF ctx Inr] by blast
      qed
    qed
  qed
qed

lemma countWebhooks_map: "(\<And>h. in_scope scope (g h) = in_scope scope h) \<Longrightarrow> countWebhooks (d\<lparr>db_webhooks := map g (db_webhooks d)\<rparr>) scope = countWebhooks d scope"
  by (simp add: countWebhooks_def filter_map o_def)

lemma countWebhooks_append: "countWebhooks (d\<lparr>db_webhooks := db_webhooks d @ [h]\<rparr>) scope = countWebhooks d scope + (if in_scope scope h then 1 else 0)"
  by (simp add: countWebhooks_def)

lemma hook_log_webhooks [simp]: "hook_log (d\<lparr>db_webhooks := hs\<rparr>) i = hook_log d i"
  by (simp add: hook_log_def)

lemma new_hook_scope: "in_scope scope' (new_hook E newId now u scope b x y) \<longleftrightarrow> scope' = scope"
  by (cases scope; cases scope') (auto simp: in_scope_def new_hook_def)

lemma save_keeps_inv:
  assumes "webhooks_inv d" and "newId \<notin> wh_id ` set (db_webhooks d)"
  shows "webhooks_inv (snd (saveWebhook E newId now a f d))"
proof (cases rule: saveWebhook_cases [where E = E and newId = newId and now = now and a = a and f = f and d = d])
  case refused
  then show ?thesis using assms(1) by simp
next
  case (updated scope g repo b existing x y)
  define u where "u = (\<lambda>h. if wh_id h = wh_id existing then (apply_base b h)\<lparr>wh_authSecret := x, wh_signingSecret := y\<rparr> else h)"
  have ids: "wh_id (u h) = wh_id h" for h by (simp add: u_def)
  have scoped: "in_scope s (u h) = in_scope s h" for s h by (simp add: u_def)
  have ex: "existing \<in> set (db_webhooks d)" "in_scope scope existing"
    using updated(3) by (auto simp: findScopedWebhook_def dest: find_SomeD)
  have "h = existing" if "h \<in> set (db_webhooks d)" "wh_id h = wh_id existing" for h
    using that ex assms(1) by (auto simp: webhooks_inv_def distinct_map dest: inj_onD)
  moreover have valid: "valid_hook h" if "h \<in> set (db_webhooks d)" for h using that assms(1) by (simp add: webhooks_inv_def)
  moreover have "scope_of existing = Some scope" using ex valid by (simp add: in_scope_scope_of [symmetric])
  ultimately have "valid_hook (u h)" if "h \<in> set (db_webhooks d)" for h
    using that valid_apply_base [OF updated(2)] unfolding u_def by metis
  moreover have "snd (saveWebhook E newId now a f d) = d\<lparr>db_webhooks := map u (db_webhooks d)\<rparr>" using updated(4) by (simp add: u_def)
  ultimately show ?thesis
    using assms(1) by (simp add: webhooks_inv_def o_def ids countWebhooks_map [OF scoped])
next
  case (created scope g repo b)
  then show ?thesis
    using assms by (simp add: webhooks_inv_def countWebhooks_append new_hook_scope valid_new_hook [OF created(2)])
      (auto simp: new_hook_def Suc_le_eq)
qed


lemma length_filter_twice: "length (filter (\<lambda>x. Q x \<and> P x) xs) \<le> length (filter P xs)"
  by (induction xs) auto

lemma remove_keeps_inv: "webhooks_inv d \<Longrightarrow> webhooks_inv (deleteWebhook a f d)"
proof -
  assume inv: "webhooks_inv d"
  have sub: "webhooks_inv (d\<lparr>db_webhooks := filter P (db_webhooks d), db_webhookDeliveries := filter Q (db_webhookDeliveries d)\<rparr>)" for P Q
    using inv by (auto simp: webhooks_inv_def countWebhooks_def hook_log_def distinct_map_filter
        intro: order_trans [OF length_filter_twice])
  then show ?thesis by (auto simp: deleteWebhook_def inv split: sum.split option.split)
qed

lemma toggle_keeps_inv: "webhooks_inv d \<Longrightarrow> webhooks_inv (toggleWebhook a f d)"
proof -
  assume inv: "webhooks_inv d"
  have "webhooks_inv (d\<lparr>db_webhooks := map (\<lambda>h. if wh_id h = i then h\<lparr>wh_enabled := e\<rparr> else h) (db_webhooks d)\<rparr>)" for i e
  proof -
    define u :: "webhook \<Rightarrow> webhook" where "u = (\<lambda>h. if wh_id h = i then h\<lparr>wh_enabled := e\<rparr> else h)"
    have "wh_id (u h) = wh_id h" "in_scope s (u h) = in_scope s h" "valid_hook (u h) = valid_hook h" for s h
      by (simp_all add: u_def)
    then show ?thesis
      using inv unfolding u_def [symmetric] by (simp add: webhooks_inv_def o_def countWebhooks_map)
  qed
  then show ?thesis by (auto simp: toggleWebhook_def inv split: sum.split option.split)
qed

lemma length_kept_log:
  assumes "distinct (map wd_id log)"
  shows "length (kept_log log) \<le> WEBHOOK_LOG_MAX"
proof -
  have "length (kept_log log) = card (wd_id ` set (kept_log log))"
    using assms by (metis distinct_card distinct_map_filter kept_log_def length_map list.set_map)
  also have "\<dots> \<le> card (set (map wd_id (newest_deliveries log)))"
    by (intro card_mono) (auto simp: kept_log_def)
  also have "\<dots> \<le> WEBHOOK_LOG_MAX"
    by (rule order_trans [OF card_length]) (simp add: newest_deliveries_def)
  finally show ?thesis .
qed

lemma deliver_keeps_inv:
  assumes inv: "webhooks_inv d" and fresh: "ds_id t \<notin> wd_id ` set (db_webhookDeliveries d)"
  shows "webhooks_inv (snd (deliverWebhook E t h payload d))"
proof -
  let ?d = "snd (deliverWebhook E t h payload d)" and ?row = "delivery_row E t h payload"
  define u :: "webhook \<Rightarrow> webhook" where "u = (\<lambda>h'. if wh_id h' = wh_id h then h'\<lparr>wh_lastStatus := oc_statusCode (delivery_outcome E h payload),
     wh_lastDeliveredAt := Some (ds_now t), wh_lastError := outcome_failure (delivery_outcome E h payload)\<rparr> else h')"
  have u: "wh_id (u h') = wh_id h'" "in_scope s (u h') = in_scope s h'" "valid_hook (u h') = valid_hook h'" for s h'
    by (simp_all add: u_def)
  have hooks: "db_webhooks ?d = db_webhooks d \<or> db_webhooks ?d = map u (db_webhooks d)"
    by (simp add: deliverWebhook_def Let_def prune_log_def mark_hook_def u_def)
  have dist: "distinct (map wd_id (db_webhookDeliveries d @ [?row]))"
    using inv fresh by (auto simp: webhooks_inv_def delivery_row_def Let_def)
  have "db_webhookDeliveries ?d = db_webhookDeliveries d \<or> (\<exists>P. db_webhookDeliveries ?d = filter P (db_webhookDeliveries d @ [?row]))"
    by (auto simp: deliverWebhook_def Let_def prune_log_def mark_hook_def)
  moreover have "distinct (map wd_id (filter P (db_webhookDeliveries d @ [?row])))" for P by (rule distinct_map_filter [OF dist])
  ultimately have "distinct (map wd_id (db_webhookDeliveries ?d))" using inv unfolding webhooks_inv_def by metis
  moreover have "length (hook_log ?d i) \<le> WEBHOOK_LOG_MAX" for i
  proof -
    have "hook_log d i @ [?row] = filter (\<lambda>x. wd_webhookId x = i) (db_webhookDeliveries d @ [?row])" if "i = wh_id h"
      using that by (simp add: hook_log_def delivery_row_def Let_def)
    then have "distinct (map wd_id (hook_log d i @ [?row]))" if "i = wh_id h" using dist that by (metis distinct_map_filter)
    then show ?thesis using inv by (auto simp: hook_log_deliver webhooks_inv_def intro: length_kept_log)
  qed
  moreover have "countWebhooks ?d s = countWebhooks d s" for s using hooks by (auto simp: countWebhooks_def filter_map o_def u)
  moreover have "\<forall>h' \<in> set (db_webhooks ?d). valid_hook h'" using hooks inv by (auto simp: webhooks_inv_def u)
  ultimately show ?thesis using inv by (simp add: webhooks_inv_def deliver_keeps_ids)
qed

lemma webhook_step_inv: "webhook_step E d d' \<Longrightarrow> webhooks_inv d \<Longrightarrow> webhooks_inv d'"
  by (induction rule: webhook_step.induct) (simp_all add: save_keeps_inv remove_keeps_inv toggle_keeps_inv deliver_keeps_inv)

interpretation webhook_runs: step_invariant "webhook_step E" webhooks_inv for E
  by unfold_locales (rule webhook_step_inv)

text \<open>
  C16. Whatever sequence of saves, deletions, switches and deliveries runs, a repository never has more than five
  hooks and an organization never more than ten, no hook logs more than fifty deliveries, and every hook stored is well formed: it
  has one owner, at least one event its owner can have, a known format and method, and a template just when its body is custom.
\<close>

theorem webhook_limits:
  assumes "(webhook_step E)\<^sup>*\<^sup>* d d'" and "webhooks_inv d"
  shows "(\<forall>i. countWebhooks d' (RepositoryScope i) \<le> 5 \<and> countWebhooks d' (OrganizationScope i) \<le> 10 \<and> length (hook_log d' i) \<le> 50)
    \<and> list_all valid_hook (db_webhooks d')"
proof -
  have "webhooks_inv d'" using webhook_runs.along_run [OF assms] .
  then have "countWebhooks d' scope \<le> maxWebhooks scope" "length (hook_log d' i) \<le> WEBHOOK_LOG_MAX" "list_all valid_hook (db_webhooks d')" for scope i
    by (simp_all add: webhooks_inv_def list_all_iff)
  from this(1) [of "RepositoryScope i" for i] this(1) [of "OrganizationScope i" for i] this(2) this(3) show ?thesis
    by (simp add: maxWebhooks_def MAX_WEBHOOKS_PER_REPO_def MAX_WEBHOOKS_PER_ORG_def WEBHOOK_LOG_MAX_def)
qed


section \<open>Who may change hooks\<close>

lemma outside_scope_kept:
  assumes ids: "distinct (map wh_id (db_webhooks d))" and hook: "findScopedWebhook d scope i = Some hook"
    and scoped: "\<And>h. in_scope scope (u h) = in_scope scope h"
  shows "filter (\<lambda>h. \<not> in_scope scope h) (map (\<lambda>h. if wh_id h = wh_id hook then u h else h) (db_webhooks d)) = filter (\<lambda>h. \<not> in_scope scope h) (db_webhooks d)"
    and "filter (\<lambda>h. \<not> in_scope scope h) (filter (\<lambda>h. wh_id h \<noteq> wh_id hook) (db_webhooks d)) = filter (\<lambda>h. \<not> in_scope scope h) (db_webhooks d)"
proof -
  have mem: "hook \<in> set (db_webhooks d)" "in_scope scope hook" using hook by (auto simp: findScopedWebhook_def dest: find_SomeD)
  have only: "in_scope scope h" if "h \<in> set (db_webhooks d)" "wh_id h = wh_id hook" for h
    using that ids mem by (metis distinct_map inj_onD)
  then show "filter (\<lambda>h. \<not> in_scope scope h) (map (\<lambda>h. if wh_id h = wh_id hook then u h else h) (db_webhooks d)) = filter (\<lambda>h. \<not> in_scope scope h) (db_webhooks d)"
    by (intro filter_map_id) (auto simp: scoped split: if_splits)
  show "filter (\<lambda>h. \<not> in_scope scope h) (filter (\<lambda>h. wh_id h \<noteq> wh_id hook) (db_webhooks d)) = filter (\<lambda>h. \<not> in_scope scope h) (db_webhooks d)"
    using only by (auto intro: filter_cong)
qed

text \<open>
  Saving, deleting or switching a hook does nothing unless the caller is an owner or admin of the organization the form is about (or an
  administrator of the instance), and then no hook outside the repository or organization of the form changes, even when the form carries its id.
\<close>

theorem hooks_guarded:
  assumes "distinct (map wh_id (db_webhooks d))"
    and "d' \<in> {snd (saveWebhook E newId now a f d), deleteWebhook a f d, toggleWebhook a f d}"
  shows "case requireScope d a f of
       Inl _ \<Rightarrow> d' = d
     | Inr (scope, g, repo) \<Rightarrow> has_role d a (org_id g) MANAGER_ROLES \<and>
         filter (\<lambda>h. \<not> in_scope scope h) (db_webhooks d') = filter (\<lambda>h. \<not> in_scope scope h) (db_webhooks d)"
proof (cases "requireScope d a f")
  case (Inl err)
  then show ?thesis using assms(2) by (auto simp: saveWebhook_def deleteWebhook_def toggleWebhook_def)
next
  case (Inr ctx)
  obtain scope g repo where ctx: "requireScope d a f = Inr (scope, g, repo)" using Inr by (cases ctx) auto
  note kept = outside_scope_kept [OF assms(1)]
  have "filter (\<lambda>h. \<not> in_scope scope h) (db_webhooks (deleteWebhook a f d)) = filter (\<lambda>h. \<not> in_scope scope h) (db_webhooks d)"
    by (cases "findScopedWebhook d scope (form_get f ''id'' [])") (simp_all add: deleteWebhook_def ctx kept(2) [where u = id] del: filter_filter)
  moreover have "filter (\<lambda>h. \<not> in_scope scope h) (db_webhooks (toggleWebhook a f d)) = filter (\<lambda>h. \<not> in_scope scope h) (db_webhooks d)"
    by (auto simp: toggleWebhook_def ctx split: option.split intro!: kept(1))
  moreover have "filter (\<lambda>h. \<not> in_scope scope h) (db_webhooks (snd (saveWebhook E newId now a f d))) = filter (\<lambda>h. \<not> in_scope scope h) (db_webhooks d)"
  proof (cases rule: saveWebhook_cases [where E = E and newId = newId and now = now and a = a and f = f and d = d])
    case (updated scope' g' repo' b existing x y)
    then show ?thesis using ctx by (simp add: kept(1) [OF updated(3)])
  next
    case (created scope' g' repo' b)
    then show ?thesis using ctx by (simp add: new_hook_scope)
  qed simp
  ultimately show ?thesis using assms(2) requireScope_managed [OF ctx] by (auto simp: ctx)
qed

section \<open>Rendering templates\<close>

primrec strings_of :: "json \<Rightarrow> string list" where
  "strings_of JNull = []"
| "strings_of (JBool _) = []"
| "strings_of (JNum _) = []"
| "strings_of (JStr s) = [s]"
| "strings_of (JArr xs) = concat (map strings_of xs)"
| "strings_of (JObj kvs) = concat (map snd (map (map_prod id strings_of) kvs))"

lemma replace_none: "placeholders_of s = [] \<Longrightarrow> replace_placeholders f s = s"
  by (induction s rule: placeholders_of.induct) (auto split: option.splits)

lemma replace_known:
  "list_all (\<lambda>k. f k = g k) (placeholders_of s) \<Longrightarrow> replace_placeholders f s = replace_placeholders g s"
  by (induction s rule: placeholders_of.induct) (auto split: option.splits)

lemma PLACEHOLDER_Nil [simp]: "PLACEHOLDER [] = None"
  by (simp add: PLACEHOLDER_def starts_with_def)

lemma render_plain_text: "placeholders_of s = [] \<Longrightarrow> render_text S e s = JStr s"
  by (cases s) (auto simp: render_text_def replace_none split: option.splits)

text \<open>
  A template is sent in its own shape: rendering depends on the event only through the placeholders of its strings, so a template without
  placeholders is sent as it is, whatever the event.
\<close>

theorem plain_template_unchanged:
  assumes "list_all (\<lambda>s. placeholders_of s = []) (strings_of template)"
  shows "renderValue S e template = template"
  using assms
proof (induction template)
  case (JArr xs)
  then show ?case by (auto simp: list_all_iff intro: map_idI)
next
  case (JObj kvs)
  have "renderValue S e v = v" if "(k, v) \<in> set kvs" for k v
    using that JObj by (force simp: list_all_iff)
  then show ?case by (auto intro!: map_idI)
qed (simp_all add: render_plain_text)


section \<open>Concrete runs\<close>

definition hook_example_env :: http_env where
  \<comment> \<open>a receiver that fails once, then answers\<close>
  "hook_example_env = \<lparr>he_stringify = (\<lambda>j. ''{}''), he_parse = (\<lambda>t. Inr (JObj [])), he_chat = (\<lambda>f j. j), he_hmac = (\<lambda>k b. k @ b), he_base64 = id,
     he_cipher = \<lparr>cp_seal = (\<lambda>p. (''i'', ''t'', p)), cp_open = (\<lambda>i t p. Some p)\<rparr>, he_protocol = (\<lambda>u. Some ''https:''),
     he_fetch = (\<lambda>r n. if n = 0 then Inl ''connection refused'' else Inr (200, ''ok''))\<rparr>"

definition hook_example_org :: organization where
  "hook_example_org = \<lparr>org_id = ''o'', org_name = ''Acme'', org_slug = ''acme'', org_logo = None, org_createdAt = 0, org_metadata = None\<rparr>"

definition hook_example_repo :: repository where
  "hook_example_repo = \<lparr>repo_id = ''r'', repo_organizationId = ''o'', repo_name = ''team/app'', repo_description = [], repo_visibility = Private,
     repo_pullCount = 0, repo_blockPullsAt = None, repo_blockUnrated = None, repo_readme = None, repo_logo = None, repo_requireSignature = None,
     repo_createdAt = 0, repo_updatedAt = 0\<rparr>"

definition hook_example :: webhook where
  "hook_example = \<lparr>wh_id = ''h'', wh_repositoryId = Some ''r'', wh_organizationId = None, wh_name = ''deploy'', wh_url = ''https://ci.example'',
     wh_method = ''POST'', wh_headers = [], wh_authType = ''none'', wh_authHeaderName = None, wh_authSecret = None, wh_signingSecret = None,
     wh_format = ''json'', wh_payloadTemplate = None, wh_events = [''push'', ''delete''], wh_enabled = True, wh_createdBy = None, wh_createdAt = 0,
     wh_lastStatus = None, wh_lastDeliveredAt = None, wh_lastError = None\<rparr>"

definition hook_example_db :: db where
  "hook_example_db = empty_db\<lparr>db_organizations := [hook_example_org], db_repositories := [hook_example_repo], db_webhooks := [hook_example]\<rparr>"

definition hook_example_actor :: actor where
  "hook_example_actor = \<lparr>act_userId = ''u'', act_isAdmin = True\<rparr>"

definition hook_example_form :: form where
  "hook_example_form = [(''organizationId'', ''o''), (''id'', ''h''), (''enabled'', ''false'')]"

theorem event_reaches_hooks_witness:
  "wd_attempts (last (hook_log (emitRepositoryEvent hook_example_env \<lparr>es_deliveryId = ''x'', es_timestamp = ''t'', es_registry = ''reg''\<rparr> ''app''
     (\<lambda>i. \<lparr>ds_id = i, ds_started = 0, ds_now = 5\<rparr>) ''r'' ''delete'' [] hook_example_db) ''h'')) = 2"
proof -
  let ?S = "\<lparr>es_deliveryId = ''x'', es_timestamp = ''t'', es_registry = ''reg''\<rparr>" and ?T = "\<lambda>i. \<lparr>ds_id = i, ds_started = 0, ds_now = 5\<rparr>"
  have 1: "distinct (map wh_id (db_webhooks hook_example_db))" by code_simp
  have 2: "repositoryInfo ''app'' hook_example_db ''r'' = Some (repository_block ''app'' hook_example_org hook_example_repo, ''o'')" by code_simp
  have 3: "hook_example \<in> set (db_webhooks hook_example_db)" by (simp add: hook_example_db_def)
  have 4: "''delete'' \<noteq> ''test''" by simp
  have 5: "reaches ''r'' ''o'' ''delete'' hook_example" by code_simp
  have i: "wh_id hook_example = ''h''" by (simp add: hook_example_def)
  have 6: "wd_attempts (last (kept_log (hook_log hook_example_db ''h'' @ [delivery_row hook_example_env (?T ''h'') hook_example
      (JObj (merge_fields [] (envelope_of ?S ''delete'' (repository_block ''app'' hook_example_org hook_example_repo))))]))) = 2" by code_simp
  show ?thesis
    using 6 event_reaches_hooks [OF 1 2 4 3, where E = hook_example_env and S = ?S and T = ?T and data = "[]"] 5 by (simp only: i if_True)
qed

theorem delivery_retries_witness:
  "\<exists>k < 3. (let net = he_fetch hook_example_env (delivery_request hook_example_env hook_example JNull ''{}'');
      row = delivery_row hook_example_env \<lparr>ds_id = ''x'', ds_started = 0, ds_now = 5\<rparr> hook_example JNull in
     wd_attempts row = int k + 1 \<and> (\<forall>j < k. retryable (net j)) \<and> (k < 2 \<longrightarrow> \<not> retryable (net k)) \<and>
     wd_statusCode row = status_of (net k) \<and>
     (wd_ok row \<longleftrightarrow> (case net k of Inl _ \<Rightarrow> False | Inr (status, _) \<Rightarrow> 200 \<le> status \<and> status < 300)) \<and>
     (wd_ok row \<longleftrightarrow> wd_error row = None))"
proof -
  have "delivery_body hook_example_env hook_example JNull = Inr ''{}''" by code_simp
  then show ?thesis by (rule delivery_retries)
qed

theorem webhook_limits_witness:
  "countWebhooks (toggleWebhook hook_example_actor hook_example_form hook_example_db) (RepositoryScope ''r'') \<le> 5"
proof -
  have "valid_hook hook_example" by code_simp
  then have "webhooks_inv hook_example_db"
    by (auto simp: webhooks_inv_def hook_example_db_def countWebhooks_def hook_log_def empty_db_def maxWebhooks_def MAX_WEBHOOKS_PER_REPO_def
        MAX_WEBHOOKS_PER_ORG_def split: webhook_scope.split)
  moreover have "(webhook_step hook_example_env)\<^sup>*\<^sup>* hook_example_db (toggleWebhook hook_example_actor hook_example_form hook_example_db)"
    by (intro r_into_rtranclp webhook_step.toggle)
  ultimately show ?thesis using webhook_limits by blast
qed

theorem hooks_guarded_witness:
  "db_webhooks (toggleWebhook hook_example_actor hook_example_form hook_example_db) = [hook_example]"
proof -
  let ?d' = "toggleWebhook hook_example_actor hook_example_form hook_example_db"
  have 1: "distinct (map wh_id (db_webhooks hook_example_db))" by code_simp
  have 2: "requireScope hook_example_db hook_example_actor hook_example_form = Inr (OrganizationScope ''o'', hook_example_org, None)" by code_simp
  have 3: "filter (\<lambda>h. \<not> in_scope (OrganizationScope ''o'') h) (db_webhooks hook_example_db) = [hook_example]" by code_simp
  have 4: "length (db_webhooks ?d') = 1" by code_simp
  have "filter (\<lambda>h. \<not> in_scope (OrganizationScope ''o'') h) (db_webhooks ?d') = [hook_example]"
    using hooks_guarded [OF 1, where d' = ?d' and a = hook_example_actor and f = hook_example_form] by (simp add: 2 3)
  with 4 show ?thesis by (cases "db_webhooks ?d'") (auto split: if_splits)
qed

theorem plain_template_unchanged_witness:
  "renderValue (\<lambda>j. []) JNull (JObj [(''text'', JStr ''deploy {now}'')]) = JObj [(''text'', JStr ''deploy {now}'')]"
proof -
  have "list_all (\<lambda>s. placeholders_of s = []) (strings_of (JObj [(''text'', JStr ''deploy {now}'')]))" by code_simp
  then show ?thesis by (rule plain_template_unchanged)
qed

section \<open>Where the code departs from what it documents\<close>

text \<open>
  The placeholder of the organization is documented as its slug. The events of a repository carry no organization of their own, and the
  repository's is an object with slug and name: a template gets that object where it stands alone, and its JSON text inside other text.
\<close>

lemma organization_placeholder_is_object:
  "renderValue S (JObj (merge_fields [] (envelope_of E ''push'' (repository_block u g r)))) (JStr ''{{organization}}'') =
     JObj [(''slug'', JStr (org_slug g)), (''name'', JStr (org_name g))]"
proof -
  let ?e = "JObj (merge_fields [] (envelope_of E ''push'' (repository_block u g r)))"
  have "PLACEHOLDER ''{{organization}}'' = Some (''organization'', [])" by code_simp
  moreover have "json_prop (Some ?e) ''organization'' = None" "json_prop (Some ?e) ''repository'' = Some (repository_block u g r)"
    by (simp_all add: json_prop_def merge_fields_def envelope_of_def)
  moreover have "json_prop (Some (repository_block u g r)) ''organization'' = Some (JObj [(''slug'', JStr (org_slug g)), (''name'', JStr (org_name g))])"
    by (simp add: json_prop_def repository_block_def)
  moreover have "lookup e ''organization'' = coalesce (coalesce (json_prop (json_prop (Some e) ''organization'') ''slug'')
      (json_prop (json_prop (Some e) ''repository'') ''organization'')) (Some (JStr []))" for e by (simp add: lookup_def Let_def)
  ultimately show ?thesis by (simp add: render_text_def coalesce_def json_prop_def [of None])
qed

text \<open>
  The pages of a repository whose name has a slash escape it (\<open>repoHref\<close>); the link in the events does not, and leads to no page.
\<close>

lemma nested_event_link_unescaped:
  "json_prop (Some (repository_block ''https://app'' hook_example_org hook_example_repo)) ''url'' = Some (JStr ''https://app/acme/team/app'')
   \<and> repoHref (org_slug hook_example_org) (repo_name hook_example_repo) = ''/acme/team%2Fapp''"
proof -
  have "percent 47 = ''%2F''" by (simp add: percent_def hex_digit_def char_of_def bit_0)
  then have "encodeURIComponent ''team/app'' = ''team%2Fapp''"
    by (simp add: encodeURIComponent_def uri_unreserved_def is_lower_alnum_def is_lower_alpha_def is_digit_def lower_char_def)
  then show ?thesis
    by (simp add: repoHref_def encodeRepoSegment_def json_prop_def repository_block_def hook_example_org_def hook_example_repo_def)
qed

end
