(* ===== verification/Notify.thy ===== *)
theory Notify
  imports Webhooks
begin

text \<open>
  Notifications (\<open>web/src/lib/notify-shared.ts\<close>, \<open>notify.ts\<close>) and the reminders of expiring credentials (\<open>token-expiry.ts\<close>): who gets a mail about what, what is forwarded
  to webhooks, and how often. The texts of the mails are left out: a notification is the list of people it is sent to and the database after its webhooks.
  The mirror table is read through \<open>ne_mirrorSource\<close>; the stamps of events and deliveries are functions of their number.
  The theorems: mail goes to exactly the people responsible who have not switched it off; a quota warning is not repeated within a day; a
  credential is reminded of once.
\<close>

section \<open>Events and preferences\<close>

definition NOTIFICATION_EVENTS :: "(string \<times> bool) list" where
  \<comment> \<open>the events, and whether mail is on by default\<close>
  "NOTIFICATION_EVENTS = [(''scan.blocked'', True), (''signature.blocked'', True), (''scan.completed'', False), (''mirror.failed'', True),
     (''webhook.failed'', True), (''quota.warning'', True), (''quota.exceeded'', True), (''quota.pruned'', True), (''job.failed'', True),
     (''token.expiring'', True)]"

definition isNotificationEvent :: "string \<Rightarrow> bool" where
  "isNotificationEvent v \<longleftrightarrow> v \<in> set (map fst NOTIFICATION_EVENTS)"

definition defaultEmailFor :: "string \<Rightarrow> bool" where
  "defaultEmailFor event = nullish (map_of NOTIFICATION_EVENTS event) True"

record recipient =
  rcp_id :: string
  rcp_email :: string
  rcp_name :: string

definition reachable :: "user \<Rightarrow> bool" where
  \<comment> \<open>\<open>!r.banned && r.email\<close>\<close>
  "reachable u \<longleftrightarrow> u_banned u \<noteq> Some True \<and> u_email u \<noteq> []"

definition recipient_of :: "user \<Rightarrow> recipient" where
  "recipient_of u = \<lparr>rcp_id = u_id u, rcp_email = u_email u, rcp_name = u_name u\<rparr>"

definition orgManagers :: "db \<Rightarrow> string \<Rightarrow> recipient list" where
  "orgManagers d organizationId =
     map recipient_of (filter reachable (concat (map (\<lambda>m. filter (\<lambda>u. u_id u = mem_userId m) (db_users d))
       (filter (\<lambda>m. mem_organizationId m = organizationId \<and> mem_role m \<in> {''owner'', ''admin''}) (db_members d)))))"

definition instanceAdmins :: "db \<Rightarrow> recipient list" where
  "instanceAdmins d = map recipient_of (filter reachable (filter (\<lambda>u. u_role u = Some ''admin'') (db_users d)))"

definition applyPreferences :: "db \<Rightarrow> string \<Rightarrow> recipient list \<Rightarrow> recipient list" where
  \<comment> \<open>in \<open>new Map(...)\<close> the last row of a user wins\<close>
  "applyPreferences d event recipients =
     (let prefs = filter (\<lambda>p. np_event p = event \<and> np_userId p \<in> set (map rcp_id recipients)) (db_notificationPrefs d);
          byUser = map_of (rev (map (\<lambda>p. (np_userId p, np_email p)) prefs))
      in filter (\<lambda>r. nullish (byUser (rcp_id r)) (defaultEmailFor event)) recipients)"

section \<open>Notifying\<close>

datatype quota_target = OrganizationTarget string | UserTarget string

datatype notify_input =
    ScanBlocked string "(string \<times> string) list"
  | SignatureBlocked string "(string \<times> string) list"
  | ScanCompleted string string json "string option"
    \<comment> \<open>repository, digest, summary, why pulls are blocked\<close>
  | MirrorFailed string string string string
    \<comment> \<open>mirror, repository, run, error\<close>
  | WebhookFailed string
  | QuotaWarning string string int int int
    \<comment> \<open>organization, kind, used, limit, threshold\<close>
  | QuotaExceeded quota_target int int string bool
    \<comment> \<open>target, used, limit, the time of pruning, reminder\<close>
  | QuotaPruned quota_target int int int int int bool
    \<comment> \<open>target, used, limit, freed, tags, manifests, unmet\<close>
  | JobFailed
  | PatExpiring "string option"
  | SaExpiring "string option"

record notify_env =
  ne_http :: http_env
  ne_appUrl :: string
  ne_registryHost :: string
  ne_asc :: "string \<Rightarrow> string \<Rightarrow> int"
  ne_stamp :: "nat \<Rightarrow> event_stamp"
  ne_delivery :: "nat \<Rightarrow> string \<Rightarrow> delivery_stamp"
  ne_mirrorSource :: "string \<Rightarrow> string option"

definition repoContext :: "db \<Rightarrow> string \<Rightarrow> (repository \<times> organization) option" where
  "repoContext d repositoryId = (case repo_by_id d repositoryId of
       None \<Rightarrow> None
     | Some repo \<Rightarrow> map_option (\<lambda>g. (repo, g)) (org_by_id d (repo_organizationId repo)))"

definition repo_url :: "notify_env \<Rightarrow> repository \<Rightarrow> organization \<Rightarrow> string" where
  "repo_url N repo g = ne_appUrl N @ ''/'' @ org_slug g @ ''/'' @ repo_name repo"

definition webhook_tagsForDigest :: "notify_env \<Rightarrow> db \<Rightarrow> string \<Rightarrow> string \<Rightarrow> string list" where
  "webhook_tagsForDigest N d repositoryId digest =
     map tag_name (js_sort (\<lambda>a b. ne_asc N (tag_name a) (tag_name b)) (filter (\<lambda>t. tag_repositoryId t = repositoryId \<and> tag_manifestDigest t = digest) (db_tags d)))"

definition optional_text :: "string option \<Rightarrow> json" where
  "optional_text v = (case v of None \<Rightarrow> JNull | Some s \<Rightarrow> JStr s)"

definition first_of :: "'a list \<Rightarrow> 'a option" where
  "first_of xs = (case xs of [] \<Rightarrow> None | x # _ \<Rightarrow> Some x)"

definition image_block :: "notify_env \<Rightarrow> repository \<Rightarrow> organization \<Rightarrow> string list \<Rightarrow> string \<Rightarrow> json" where
  "image_block N repo g tags digest = (let r = nullish (first_of tags) digest in
     JObj [(''digest'', JStr digest), (''reference'', JStr (imageReference (ne_registryHost N) (Some (org_slug g)) (repo_name repo) (Some r))),
           (''url'', JStr (repo_url N repo g @ ''/tags/'' @ encodeURIComponent r))])"

definition blocked_data :: "notify_env \<Rightarrow> db \<Rightarrow> repository \<Rightarrow> organization \<Rightarrow> string \<times> string \<Rightarrow> (string \<times> json) list" where
  "blocked_data N d repo g item = (case item of (digest, reason) \<Rightarrow>
     let tags = webhook_tagsForDigest N d (repo_id repo) digest in
     [(''tag'', optional_text (first_of tags)), (''tags'', JArr (map JStr tags)), (''image'', image_block N repo g tags digest), (''reason'', JStr reason)])"

definition emit_repo :: "notify_env \<Rightarrow> nat \<Rightarrow> string \<Rightarrow> string \<Rightarrow> (string \<times> json) list \<Rightarrow> db \<Rightarrow> db" where
  "emit_repo N k repositoryId event data d =
     emitRepositoryEvent (ne_http N) (ne_stamp N k) (ne_appUrl N) (ne_delivery N k) repositoryId event data d"

definition emit_org :: "notify_env \<Rightarrow> nat \<Rightarrow> string \<Rightarrow> string \<Rightarrow> (string \<times> json) list \<Rightarrow> db \<Rightarrow> db" where
  "emit_org N k organizationId event data d = emitOrganizationEvent (ne_http N) (ne_stamp N k) (ne_delivery N k) organizationId event data d"

definition notify_blocked :: "notify_env \<Rightarrow> string \<Rightarrow> string \<Rightarrow> (string \<times> string) list \<Rightarrow> db \<Rightarrow> recipient list \<times> db" where
  \<comment> \<open>the branches of \<open>scan.blocked\<close> and \<open>signature.blocked\<close>: the tags are read before the first webhook goes out\<close>
  "notify_blocked N event repositoryId blocked d = (case repoContext d repositoryId of
       None \<Rightarrow> ([], d)
     | Some (repo, g) \<Rightarrow>
       if blocked = [] then ([], d)
       else (applyPreferences d event (orgManagers d (org_id g)),
             fold (\<lambda>(k, item) d'. emit_repo N k (repo_id repo) event (blocked_data N d repo g item) d') (enumerate 0 blocked) d))"

definition hook_organization :: "db \<Rightarrow> webhook \<Rightarrow> string option" where
  \<comment> \<open>\<open>orgId\<close> of the branch \<open>webhook.failed\<close>; \<open>None\<close> where it returns\<close>
  "hook_organization d h =
     (if truthy (wh_repositoryId h) then map_option (\<lambda>(repo, g). org_id g) (repoContext d (the (wh_repositoryId h)))
      else if truthy (wh_organizationId h) then map_option org_id (org_by_id d (the (wh_organizationId h)))
      else None)"

definition quota_audience :: "db \<Rightarrow> quota_target \<Rightarrow> (recipient list \<times> string option) option" where
  \<comment> \<open>the recipients, and the organization whose webhooks hear of it\<close>
  "quota_audience d target = (case target of
       OrganizationTarget i \<Rightarrow> map_option (\<lambda>g. (orgManagers d (org_id g), Some (org_id g))) (org_by_id d i)
     | UserTarget i \<Rightarrow> (case find (\<lambda>u. u_id u = i) (db_users d) of
         None \<Rightarrow> None
       | Some u \<Rightarrow> if reachable u then Some ([recipient_of u], None) else None))"

definition notify_quota :: "notify_env \<Rightarrow> string \<Rightarrow> quota_target \<Rightarrow> (string \<times> json) list \<Rightarrow> db \<Rightarrow> recipient list \<times> db" where
  "notify_quota N event target quota d = (case quota_audience d target of
       None \<Rightarrow> ([], d)
     | Some (recipients, orgId) \<Rightarrow>
       (applyPreferences d event recipients, (case orgId of None \<Rightarrow> d | Some i \<Rightarrow> emit_org N 0 i event [(''quota'', JObj quota)] d)))"

definition notify :: "notify_env \<Rightarrow> notify_input \<Rightarrow> db \<Rightarrow> recipient list \<times> db" where
  "notify N input d = (case input of
       ScanBlocked repositoryId blocked \<Rightarrow> notify_blocked N ''scan.blocked'' repositoryId blocked d
     | SignatureBlocked repositoryId blocked \<Rightarrow> notify_blocked N ''signature.blocked'' repositoryId blocked d
     | ScanCompleted repositoryId digest summary blockedReason \<Rightarrow> (case repoContext d repositoryId of
         None \<Rightarrow> ([], d)
       | Some (repo, g) \<Rightarrow> (let tags = webhook_tagsForDigest N d (repo_id repo) digest in
           (applyPreferences d ''scan.completed'' (orgManagers d (org_id g)),
            emit_repo N 0 (repo_id repo) ''scan.completed'' [(''tag'', optional_text (first_of tags)), (''tags'', JArr (map JStr tags)),
              (''image'', image_block N repo g tags digest),
              (''scan'', JObj [(''status'', JStr ''scanned''), (''summary'', summary), (''blocked'', JBool (truthy blockedReason)),
                 (''reason'', optional_text blockedReason)])] d)))
     | MirrorFailed mirrorId repositoryId runId err \<Rightarrow> (case repoContext d repositoryId of
         None \<Rightarrow> ([], d)
       | Some (repo, g) \<Rightarrow>
           (applyPreferences d ''mirror.failed'' (orgManagers d (org_id g)),
            emit_repo N 0 (repo_id repo) ''mirror.failed''
              [(''mirror'', JObj [(''id'', JStr mirrorId), (''source'', JStr (nullish (ne_mirrorSource N mirrorId) ''unknown source''))]),
               (''run'', JObj [(''id'', JStr runId), (''status'', JStr ''failed''), (''error'', JStr err)])] d))
     | WebhookFailed hookId \<Rightarrow> (case find (\<lambda>h. wh_id h = hookId) (db_webhooks d) of
         None \<Rightarrow> ([], d)
       | Some h \<Rightarrow> (case hook_organization d h of
           None \<Rightarrow> ([], d)
         | Some orgId \<Rightarrow> (applyPreferences d ''webhook.failed'' (orgManagers d orgId), d)))
     | QuotaWarning organizationId kind used limit threshold \<Rightarrow> (case org_by_id d organizationId of
         None \<Rightarrow> ([], d)
       | Some g \<Rightarrow>
           (applyPreferences d ''quota.warning'' (orgManagers d (org_id g)),
            emit_org N 0 (org_id g) ''quota.warning'' [(''quota'', JObj [(''kind'', JStr kind), (''used'', JNum used), (''limit'', JNum limit),
               (''percent'', JNum (round_div (used * 100) limit)), (''threshold'', JNum threshold)])] d))
     | QuotaExceeded target used limit pruneAt reminder \<Rightarrow>
         notify_quota N ''quota.exceeded'' target [(''kind'', JStr ''storage''), (''used'', JNum used), (''limit'', JNum limit), (''pruneAt'', JStr pruneAt),
           (''reminder'', JBool reminder)] d
     | QuotaPruned target used limit freed tags manifests unmet \<Rightarrow>
         notify_quota N ''quota.pruned'' target [(''kind'', JStr ''storage''), (''used'', JNum used), (''limit'', JNum limit), (''freed'', JNum freed),
           (''tags'', JNum tags), (''manifests'', JNum manifests), (''unmet'', JBool unmet)] d
     | JobFailed \<Rightarrow> (applyPreferences d ''job.failed'' (instanceAdmins d), d)
     | PatExpiring userId \<Rightarrow>
         if \<not> truthy userId then ([], d)
         else (case find (\<lambda>u. u_id u = the userId) (db_users d) of
             None \<Rightarrow> ([], d)
           | Some u \<Rightarrow> (if reachable u then applyPreferences d ''token.expiring'' [recipient_of u] else [], d))
     | SaExpiring organizationId \<Rightarrow>
         if \<not> truthy organizationId then ([], d)
         else (case org_by_id d (the organizationId) of
             None \<Rightarrow> ([], d)
           | Some g \<Rightarrow> (applyPreferences d ''token.expiring'' (orgManagers d (org_id g)), d)))"

section \<open>Quota warnings\<close>

definition THRESHOLDS :: "int list" where "THRESHOLDS = [95, 80]"

definition DAY_MILLIS :: millis where "DAY_MILLIS = 24 * 3600000"

definition quota_checks :: "db \<Rightarrow> string \<Rightarrow> (string \<times> int \<times> int option) list" where
  "quota_checks d organizationId =
     (let usage = getOrgUsage d organizationId; limits = getOrgLimits d organizationId
      in [(''storage'', us_storageBytes usage, lim_maxStorageBytes limits),
          (''public repositories'', int (us_publicRepos usage), lim_maxPublicRepos limits),
          (''private repositories'', int (us_privateRepos usage), lim_maxPrivateRepos limits)])"

definition crossed :: "int \<Rightarrow> int \<Rightarrow> int option" where
  \<comment> \<open>\<open>THRESHOLDS.find(t => used / limit * 100 >= t)\<close>\<close>
  "crossed used limit = find (\<lambda>t. t * limit \<le> used * 100) THRESHOLDS"

definition hyphenate :: "string \<Rightarrow> string" where
  \<comment> \<open>\<open>replace(/\s+/g, "-")\<close> on the names of the kinds, which have single blanks\<close>
  "hyphenate s = map (\<lambda>c. if js_ws c then CHR ''-'' else c) s"

definition warning_key :: "string \<Rightarrow> string \<Rightarrow> int \<Rightarrow> string" where
  "warning_key organizationId kind threshold = ''quota.warning:'' @ organizationId @ '':'' @ hyphenate kind @ '':'' @ show_int threshold"

definition sent_at :: "db \<Rightarrow> string \<Rightarrow> millis option" where
  "sent_at d key = map_option ns_sentAt (find (\<lambda>r. ns_key r = key) (db_notificationState d))"

definition claim_warning :: "millis \<Rightarrow> string \<Rightarrow> db \<Rightarrow> bool \<times> db" where
  \<comment> \<open>the upsert: \<open>True\<close> when it returns a row\<close>
  "claim_warning now key d = (case sent_at d key of
       None \<Rightarrow> (True, d\<lparr>db_notificationState := db_notificationState d @ [\<lparr>ns_key = key, ns_sentAt = now\<rparr>]\<rparr>)
     | Some t \<Rightarrow> if t < now - DAY_MILLIS
         then (True, d\<lparr>db_notificationState := map (\<lambda>r. if ns_key r = key then r\<lparr>ns_sentAt := now\<rparr> else r) (db_notificationState d)\<rparr>)
         else (False, d))"

definition quota_check :: "notify_env \<Rightarrow> millis \<Rightarrow> string \<Rightarrow> string \<times> int \<times> int option \<Rightarrow> (string \<times> int) list \<times> db \<Rightarrow> (string \<times> int) list \<times> db" where
  \<comment> \<open>the body of the loop; the warnings sent so far are kind and threshold\<close>
  "quota_check N now organizationId c acc = (case c of (kind, used, limit) \<Rightarrow>
     (case limit of
        None \<Rightarrow> acc
      | Some l \<Rightarrow>
        if l \<le> 0 then acc
        else (case crossed used l of
            None \<Rightarrow> acc
          | Some threshold \<Rightarrow>
            (case claim_warning now (warning_key organizationId kind threshold) (snd acc) of
               (False, d) \<Rightarrow> (fst acc, d)
             | (True, d) \<Rightarrow> (fst acc @ [(kind, threshold)], snd (notify N (QuotaWarning organizationId kind used l threshold) d))))))"

definition checkQuotaWarnings :: "notify_env \<Rightarrow> millis \<Rightarrow> string \<Rightarrow> db \<Rightarrow> (string \<times> int) list \<times> db" where
  "checkQuotaWarnings N now organizationId d = fold (quota_check N now organizationId) (quota_checks d organizationId) ([], d)"

definition checkQuotaWarningsForRepository :: "notify_env \<Rightarrow> millis \<Rightarrow> string \<Rightarrow> db \<Rightarrow> (string \<times> int) list \<times> db" where
  "checkQuotaWarningsForRepository N now repositoryId d = (case repo_by_id d repositoryId of
       None \<Rightarrow> ([], d) | Some repo \<Rightarrow> checkQuotaWarnings N now (repo_organizationId repo) d)"

section \<open>Reminders of expiring credentials\<close>

definition claim_once :: "millis \<Rightarrow> string \<Rightarrow> db \<Rightarrow> bool \<times> db" where
  "claim_once now key d = (if sent_at d key = None
     then (True, d\<lparr>db_notificationState := db_notificationState d @ [\<lparr>ns_key = key, ns_sentAt = now\<rparr>]\<rparr>) else (False, d))"

definition pat_key :: "string \<Rightarrow> string" where "pat_key i = ''token.expiring:pat:'' @ i"

definition sa_key :: "string \<Rightarrow> string" where "sa_key i = ''token.expiring:sa:'' @ i"

definition remind :: "millis \<Rightarrow> string \<Rightarrow> string list \<times> db \<Rightarrow> string list \<times> db" where
  \<comment> \<open>claim and notify: the mails of a reminder leave the database as it is\<close>
  "remind now key acc = (case claim_once now key (snd acc) of (True, d) \<Rightarrow> (fst acc @ [key], d) | (False, d) \<Rightarrow> (fst acc, d))"

definition forget_reminders :: "int \<Rightarrow> millis \<Rightarrow> db \<Rightarrow> db" where
  "forget_reminders withinDays now d =
     d\<lparr>db_notificationState := filter (\<lambda>r. \<not> list_ex (\<lambda>s. ns_key r = sa_key (sa_id s) \<and>
        (case sa_expiresAt s of None \<Rightarrow> True | Some t \<Rightarrow> now + withinDays * 86400000 < t)) (db_serviceAccounts d)) (db_notificationState d)\<rparr>"

definition runTokenExpiryReminders :: "int \<Rightarrow> millis \<Rightarrow> db \<Rightarrow> string list \<times> db" where
  \<comment> \<open>the keys of the reminders sent, and the database\<close>
  "runTokenExpiryReminders withinDays now d =
     (let (pats, sas) = expiringCredentials d withinDays now;
          (sent, d') = fold (remind now) (map (pat_key \<circ> pat_id) pats @ map (sa_key \<circ> sa_id) sas) ([], d)
      in (sent, forget_reminders withinDays now d'))"


section \<open>Who gets mail\<close>

definition event_of :: "notify_input \<Rightarrow> string" where
  "event_of input = (case input of ScanBlocked _ _ \<Rightarrow> ''scan.blocked'' | SignatureBlocked _ _ \<Rightarrow> ''signature.blocked'' | ScanCompleted _ _ _ _ \<Rightarrow> ''scan.completed''
     | MirrorFailed _ _ _ _ \<Rightarrow> ''mirror.failed'' | WebhookFailed _ \<Rightarrow> ''webhook.failed'' | QuotaWarning _ _ _ _ _ \<Rightarrow> ''quota.warning''
     | QuotaExceeded _ _ _ _ _ \<Rightarrow> ''quota.exceeded'' | QuotaPruned _ _ _ _ _ _ _ \<Rightarrow> ''quota.pruned'' | JobFailed \<Rightarrow> ''job.failed''
     | PatExpiring _ \<Rightarrow> ''token.expiring'' | SaExpiring _ \<Rightarrow> ''token.expiring'')"

definition wants_mail :: "db \<Rightarrow> string \<Rightarrow> user \<Rightarrow> bool" where
  "wants_mail d event u = (case find (\<lambda>p. np_userId p = u_id u \<and> np_event p = event) (db_notificationPrefs d) of
       None \<Rightarrow> defaultEmailFor event | Some p \<Rightarrow> np_email p)"

definition manages_org :: "db \<Rightarrow> string \<Rightarrow> user \<Rightarrow> bool" where
  "manages_org d organizationId u \<longleftrightarrow>
     list_ex (\<lambda>m. mem_organizationId m = organizationId \<and> mem_userId m = u_id u \<and> mem_role m \<in> {''owner'', ''admin''}) (db_members d)"

definition manages_repo :: "db \<Rightarrow> string \<Rightarrow> user \<Rightarrow> bool" where
  "manages_repo d repositoryId u = (case repoContext d repositoryId of None \<Rightarrow> False | Some (repo, g) \<Rightarrow> manages_org d (org_id g) u)"

definition manages_existing :: "db \<Rightarrow> string \<Rightarrow> user \<Rightarrow> bool" where
  "manages_existing d organizationId u \<longleftrightarrow> org_by_id d organizationId \<noteq> None \<and> manages_org d organizationId u"

definition concerns :: "db \<Rightarrow> quota_target \<Rightarrow> user \<Rightarrow> bool" where
  "concerns d target u = (case target of OrganizationTarget i \<Rightarrow> manages_existing d i u | UserTarget i \<Rightarrow> u_id u = i)"

definition responsible :: "db \<Rightarrow> notify_input \<Rightarrow> user \<Rightarrow> bool" where
  \<comment> \<open>the people an event concerns: managers of the organization, administrators of the instance, or the account itself\<close>
  "responsible d input u = (case input of
       ScanBlocked i blocked \<Rightarrow> blocked \<noteq> [] \<and> manages_repo d i u
     | SignatureBlocked i blocked \<Rightarrow> blocked \<noteq> [] \<and> manages_repo d i u
     | ScanCompleted i _ _ _ \<Rightarrow> manages_repo d i u
     | MirrorFailed _ i _ _ \<Rightarrow> manages_repo d i u
     | WebhookFailed h \<Rightarrow> (case Option.bind (find (\<lambda>x. wh_id x = h) (db_webhooks d)) (hook_organization d) of None \<Rightarrow> False | Some i \<Rightarrow> manages_org d i u)
     | QuotaWarning i _ _ _ _ \<Rightarrow> manages_existing d i u
     | QuotaExceeded target _ _ _ _ \<Rightarrow> concerns d target u
     | QuotaPruned target _ _ _ _ _ _ \<Rightarrow> concerns d target u
     | JobFailed \<Rightarrow> u_role u = Some ''admin''
     | PatExpiring i \<Rightarrow> truthy i \<and> Some (u_id u) = i
     | SaExpiring i \<Rightarrow> truthy i \<and> manages_existing d (the i) u)"

definition prefs_key :: "db \<Rightarrow> bool" where
  \<comment> \<open>the primary key of the preferences, and of the users\<close>
  "prefs_key d \<longleftrightarrow> distinct (map (\<lambda>p. (np_userId p, np_event p)) (db_notificationPrefs d)) \<and> distinct (map u_id (db_users d))"

definition mailed :: "db \<Rightarrow> string \<Rightarrow> (user \<Rightarrow> bool) \<Rightarrow> recipient set" where
  "mailed d event who = recipient_of ` {u \<in> set (db_users d). reachable u \<and> wants_mail d event u \<and> who u}"

lemma map_of_rev_unique:
  assumes "distinct (map f xs)" and "\<And>x. x \<in> set xs \<Longrightarrow> f x = (k x, e)"
  shows "map_of (rev (map (\<lambda>x. (k x, v x)) xs)) i = map_option v (find (\<lambda>x. k x = i) xs)"
proof -
  have "inj_on f (set xs)" and "distinct xs" using assms(1) by (auto simp: distinct_map)
  then have "distinct (map k xs)" using assms(2) by (auto simp: distinct_map inj_on_def)
  then have "map_of (rev (map (\<lambda>x. (k x, v x)) xs)) = map_of (map (\<lambda>x. (k x, v x)) xs)"
    by (subst map_of_inject_set) (simp_all add: o_def rev_map [symmetric])
  moreover have "map_of (map (\<lambda>x. (k x, v x)) xs) i = map_option v (find (\<lambda>x. k x = i) xs)" by (induction xs) auto
  ultimately show ?thesis by simp
qed

lemma find_filter_member:
  "P i \<Longrightarrow> find (\<lambda>p. np_userId p = i) (filter (\<lambda>p. np_event p = event \<and> P (np_userId p)) ps) = find (\<lambda>p. np_userId p = i \<and> np_event p = event) ps"
  by (induction ps) auto

lemma set_applyPreferences:
  assumes "prefs_key d" and "set recipients = recipient_of ` {u \<in> set (db_users d). reachable u \<and> who u}"
  shows "set (applyPreferences d event recipients) = mailed d event who"
proof -
  let ?P = "\<lambda>i. i \<in> set (map rcp_id recipients)"
  let ?prefs = "filter (\<lambda>p. np_event p = event \<and> ?P (np_userId p)) (db_notificationPrefs d)"
  have "map_of (rev (map (\<lambda>p. (np_userId p, np_email p)) ?prefs)) i = map_option np_email (find (\<lambda>p. np_userId p = i) ?prefs)" for i
    using assms(1) unfolding prefs_key_def
    by (intro map_of_rev_unique [where f = "\<lambda>p. (np_userId p, np_event p)" and e = event]) (auto intro: distinct_map_filter)
  moreover have "find (\<lambda>p. np_userId p = i) ?prefs = find (\<lambda>p. np_userId p = i \<and> np_event p = event) (db_notificationPrefs d)" if "?P i" for i
    using that by (rule find_filter_member)
  ultimately have "nullish (map_of (rev (map (\<lambda>p. (np_userId p, np_email p)) ?prefs)) (u_id u)) (defaultEmailFor event) = wants_mail d event u"
    if "recipient_of u \<in> set recipients" for u
    using that by (force simp: wants_mail_def recipient_of_def image_iff split: option.split)
  then show ?thesis
    using assms(2) by (auto simp: applyPreferences_def mailed_def Let_def recipient_of_def)
qed

lemma set_orgManagers: "set (orgManagers d i) = recipient_of ` {u \<in> set (db_users d). reachable u \<and> manages_org d i u}"
proof -
  have "set (concat (map (\<lambda>m. filter (\<lambda>u. u_id u = mem_userId m) us) (filter (\<lambda>m. mem_organizationId m = i \<and> mem_role m \<in> {''owner'', ''admin''}) (db_members d)))) =
      {u \<in> set us. manages_org d i u}" for us
    by (auto simp: manages_org_def list_ex_iff)
  then show ?thesis unfolding orgManagers_def set_map set_filter by blast
qed

lemma set_instanceAdmins: "set (instanceAdmins d) = recipient_of ` {u \<in> set (db_users d). reachable u \<and> u_role u = Some ''admin''}"
  by (auto simp: instanceAdmins_def)

lemma set_account:
  assumes "prefs_key d" and "find (\<lambda>u. u_id u = i) (db_users d) = Some u"
  shows "set [v \<leftarrow> [u]. reachable v] = {v \<in> set (db_users d). reachable v \<and> u_id v = i}"
proof -
  have "u \<in> set (db_users d)" "u_id u = i" using assms(2) by (auto dest: find_SomeD)
  moreover have "v = u" if "v \<in> set (db_users d)" "u_id v = i" for v
    using that calculation assms(1) by (auto simp: prefs_key_def distinct_map dest: inj_onD)
  ultimately have "{v \<in> set (db_users d). reachable v \<and> u_id v = i} = {v. v = u \<and> reachable v}" by blast
  then show ?thesis by auto
qed

lemma org_by_id_id: "org_by_id d i = Some g \<Longrightarrow> org_id g = i"
  by (auto simp: org_by_id_def dest: find_SomeD)

lemma mailed_empty: "(\<And>u. u \<in> set (db_users d) \<Longrightarrow> reachable u \<Longrightarrow> \<not> who u) \<Longrightarrow> mailed d event who = {}"
  by (auto simp: mailed_def)

lemma mailed_cong: "(\<And>u. u \<in> set (db_users d) \<Longrightarrow> who u = who' u) \<Longrightarrow> mailed d event who = mailed d event who'"
  by (auto simp: mailed_def)

lemma mail_managers: "prefs_key d \<Longrightarrow> set (applyPreferences d event (orgManagers d i)) = mailed d event (manages_org d i)"
  by (rule set_applyPreferences) (auto simp: set_orgManagers)

lemma mail_account:
  assumes "prefs_key d" and "find (\<lambda>u. u_id u = i) (db_users d) = Some u" and "reachable u"
  shows "set (applyPreferences d event [recipient_of u]) = mailed d event (\<lambda>v. u_id v = i)"
  using set_account [OF assms(1,2)] assms by (intro set_applyPreferences) auto

lemma no_account: "find (\<lambda>u. u_id u = i) (db_users d) = None \<Longrightarrow> mailed d event (\<lambda>v. u_id v = i) = {}"
  by (rule mailed_empty) (auto dest: find_NoneD)

lemma unreachable_account:
  assumes "prefs_key d" and "find (\<lambda>u. u_id u = i) (db_users d) = Some u" and "\<not> reachable u"
  shows "mailed d event (\<lambda>v. u_id v = i) = {}"
  using set_account [OF assms(1,2)] assms(3) by (intro mailed_empty) auto

lemma mail_blocked:
  "prefs_key d \<Longrightarrow> set (fst (notify_blocked N event i blocked d)) = mailed d event (\<lambda>u. blocked \<noteq> [] \<and> manages_repo d i u)"
  by (cases "repoContext d i") (auto simp: notify_blocked_def manages_repo_def mail_managers mailed_def split: if_splits)

lemma mail_quota:
  assumes "prefs_key d"
  shows "set (fst (notify_quota N event target quota d)) = mailed d event (concerns d target)"
proof (cases target)
  case (OrganizationTarget i)
  then show ?thesis
    using assms by (cases "org_by_id d i") (auto simp: notify_quota_def quota_audience_def concerns_def [abs_def] manages_existing_def mail_managers org_by_id_id mailed_def)
next
  case (UserTarget i)
  then show ?thesis
    using mail_account [OF assms, of i] no_account [of i d event] unreachable_account [OF assms, of i]
    by (cases "find (\<lambda>u. u_id u = i) (db_users d)") (auto simp: notify_quota_def quota_audience_def concerns_def [abs_def])
qed

text \<open>
  C15. Mail about an event goes to exactly the people it concerns: the owners and admins of the organization (of the repository, hook or service account), the
  administrators for a failed job, or the account itself, and of these to those who have an address, are not banned and have not switched this event off (or
  switched it on, where it is off by default).
\<close>

theorem mail_audience:
  assumes "prefs_key d"
  shows "set (fst (notify N input d)) = mailed d (event_of input) (responsible d input)"
proof (cases input)
  case (ScanBlocked i blocked)
  then show ?thesis using mail_blocked [OF assms] by (simp add: notify_def event_of_def responsible_def [abs_def])
next
  case (SignatureBlocked i blocked)
  then show ?thesis using mail_blocked [OF assms] by (simp add: notify_def event_of_def responsible_def [abs_def])
next
  case (ScanCompleted i digest summary reason)
  then show ?thesis
    by (cases "repoContext d i") (auto simp: notify_def event_of_def responsible_def [abs_def] manages_repo_def Let_def mail_managers [OF assms] mailed_def)
next
  case (MirrorFailed m i r e)
  then show ?thesis
    by (cases "repoContext d i") (auto simp: notify_def event_of_def responsible_def [abs_def] manages_repo_def mail_managers [OF assms] mailed_def)
next
  case (WebhookFailed h)
  then show ?thesis
    by (auto simp: notify_def event_of_def responsible_def [abs_def] mail_managers [OF assms] mailed_def split: option.splits)
next
  case (QuotaWarning i kind used limit threshold)
  then show ?thesis
    by (cases "org_by_id d i") (auto simp: notify_def event_of_def responsible_def [abs_def] manages_existing_def mail_managers [OF assms] org_by_id_id mailed_def)
next
  case (QuotaExceeded target used limit pruneAt reminder)
  then show ?thesis using mail_quota [OF assms] by (simp add: notify_def event_of_def responsible_def [abs_def])
next
  case (QuotaPruned target used limit freed tags manifests unmet)
  then show ?thesis using mail_quota [OF assms] by (simp add: notify_def event_of_def responsible_def [abs_def])
next
  case JobFailed
  then show ?thesis
    using set_applyPreferences [OF assms set_instanceAdmins] by (simp add: notify_def event_of_def responsible_def [abs_def])
next
  case (PatExpiring i)
  show ?thesis
  proof (cases "truthy i")
    case True
    then obtain x where i: "i = Some x" "truthy (Some x)" by (cases i) auto
    have who: "responsible d input = (\<lambda>u. u_id u = x)" using i by (simp add: PatExpiring responsible_def [abs_def])
    show ?thesis
    proof (cases "find (\<lambda>u. u_id u = x) (db_users d)")
      case None
      then show ?thesis unfolding who using i by (simp add: PatExpiring notify_def no_account)
    next
      case (Some u)
      then show ?thesis unfolding who using i
        by (cases "reachable u") (simp_all add: PatExpiring notify_def event_of_def mail_account [OF assms Some] unreachable_account [OF assms Some])
    qed
  qed (simp add: PatExpiring notify_def responsible_def [abs_def] mailed_empty)
next
  case (SaExpiring i)
  then show ?thesis
    by (cases "org_by_id d (the i)")
      (auto simp: notify_def event_of_def responsible_def [abs_def] manages_existing_def mail_managers [OF assms] org_by_id_id mailed_def)
qed


section \<open>Warnings once a day\<close>

lemma deliver_keeps_state: "db_notificationState (snd (deliverWebhook E t h payload d)) = db_notificationState d"
  by (simp add: deliverWebhook_def Let_def prune_log_def mark_hook_def)

lemma deliverAll_keeps_state: "db_notificationState (deliverAll E T hooks payload d) = db_notificationState d"
proof -
  have "db_notificationState (deliver_each E T payload hs d) = db_notificationState d" for hs
    by (induction hs arbitrary: d) (simp_all add: deliver_each_def deliver_keeps_state)
  then show ?thesis by (simp add: deliverAll_def)
qed

lemma emit_org_keeps_state: "db_notificationState (emit_org N k i event data d) = db_notificationState d"
  by (simp add: emit_org_def emitOrganizationEvent_def dispatchOrganizationWebhooks_def deliverAll_keeps_state split: option.split)

lemma sent_at_state: "db_notificationState d' = db_notificationState d \<Longrightarrow> sent_at d' key = sent_at d key"
  by (simp add: sent_at_def)

lemma sent_at_warning: "sent_at (snd (notify N (QuotaWarning i kind used l threshold) d)) key = sent_at d key"
  by (auto simp: notify_def emit_org_keeps_state intro!: sent_at_state split: option.split)

lemma sent_at_append: "sent_at (d\<lparr>db_notificationState := db_notificationState d @ [\<lparr>ns_key = key, ns_sentAt = now\<rparr>]\<rparr>) k =
    (if sent_at d k = None \<and> k = key then Some now else sent_at d k)"
  by (auto simp: sent_at_def find_append split: option.split)

lemma sent_at_touch: "sent_at (d\<lparr>db_notificationState := map (\<lambda>r. if ns_key r = key then r\<lparr>ns_sentAt := now\<rparr> else r) (db_notificationState d)\<rparr>) k =
    (if k = key \<and> sent_at d k \<noteq> None then Some now else sent_at d k)"
proof -
  have "map_option ns_sentAt (find (\<lambda>r. ns_key r = k) (map (\<lambda>r. if ns_key r = key then r\<lparr>ns_sentAt := now\<rparr> else r) rs)) =
      (if k = key \<and> map_option ns_sentAt (find (\<lambda>r. ns_key r = k) rs) \<noteq> None then Some now else map_option ns_sentAt (find (\<lambda>r. ns_key r = k) rs))"
    for rs :: "notification_state list" by (induction rs) auto
  then show ?thesis by (auto simp: sent_at_def)
qed

definition may_warn :: "millis \<Rightarrow> millis option \<Rightarrow> bool" where
  "may_warn now s = (case s of None \<Rightarrow> True | Some t \<Rightarrow> t < now - DAY_MILLIS)"

lemma claim_warning_spec:
  "fst (claim_warning now key d) = may_warn now (sent_at d key)"
  "sent_at (snd (claim_warning now key d)) k = (if k = key \<and> may_warn now (sent_at d key) then Some now else sent_at d k)"
  by (auto simp: claim_warning_def may_warn_def sent_at_append sent_at_touch split: option.split)

definition due_warning :: "millis \<Rightarrow> string \<Rightarrow> db \<Rightarrow> string \<times> int \<times> int option \<Rightarrow> (string \<times> int) option" where
  \<comment> \<open>what a check has to say in a given state of the table\<close>
  "due_warning now organizationId d c = (case c of (kind, used, limit) \<Rightarrow>
     Option.bind limit (\<lambda>l. if l \<le> 0 then None else
       Option.bind (crossed used l) (\<lambda>threshold.
         if may_warn now (sent_at d (warning_key organizationId kind threshold)) then Some (kind, threshold) else None)))"

lemma quota_check_spec:
  "fst (quota_check N now i c acc) = fst acc @ (case due_warning now i (snd acc) c of None \<Rightarrow> [] | Some w \<Rightarrow> [w])"
  "sent_at (snd (quota_check N now i c acc)) k =
     (case due_warning now i (snd acc) c of None \<Rightarrow> sent_at (snd acc) k | Some (kind, t) \<Rightarrow> if k = warning_key i kind t then Some now else sent_at (snd acc) k)"
proof -
  obtain kind used limit where c: "c = (kind, used, limit)" by (cases c)
  have "fst (quota_check N now i c acc) = fst acc @ (case due_warning now i (snd acc) c of None \<Rightarrow> [] | Some w \<Rightarrow> [w]) \<and>
    sent_at (snd (quota_check N now i c acc)) k =
     (case due_warning now i (snd acc) c of None \<Rightarrow> sent_at (snd acc) k | Some (kind, t) \<Rightarrow> if k = warning_key i kind t then Some now else sent_at (snd acc) k)"
  proof (cases "Option.bind limit (\<lambda>l. if l \<le> 0 then None else map_option (Pair l) (crossed used l))")
    case None
    then show ?thesis by (auto simp: quota_check_def due_warning_def c bind_eq_None_conv split: option.split if_splits)
  next
    case (Some p)
    then obtain l t where l: "limit = Some l" "\<not> l \<le> 0" "crossed used l = Some t" by (auto simp: bind_eq_Some_conv split: if_splits)
    obtain b d' where claim: "claim_warning now (warning_key i kind t) (snd acc) = (b, d')" by fastforce
    then have "b = may_warn now (sent_at (snd acc) (warning_key i kind t))"
      and "sent_at d' k = (if k = warning_key i kind t \<and> b then Some now else sent_at (snd acc) k)"
      using claim_warning_spec [of now "warning_key i kind t" "snd acc"] by (simp_all add: claim)
    then show ?thesis by (cases b) (simp_all add: quota_check_def due_warning_def c l claim sent_at_warning)
  qed
  then show "fst (quota_check N now i c acc) = fst acc @ (case due_warning now i (snd acc) c of None \<Rightarrow> [] | Some w \<Rightarrow> [w])"
    and "sent_at (snd (quota_check N now i c acc)) k =
     (case due_warning now i (snd acc) c of None \<Rightarrow> sent_at (snd acc) k | Some (kind, t) \<Rightarrow> if k = warning_key i kind t then Some now else sent_at (snd acc) k)"
    by blast+
qed

lemma kind_names:
  "hyphenate ''storage'' = ''storage''" "hyphenate ''public repositories'' = ''public-repositories''" "hyphenate ''private repositories'' = ''private-repositories''"
  by code_simp+

lemma warning_keys_differ:
  "kind \<noteq> kind' \<Longrightarrow> kind \<in> set (map fst (quota_checks d i)) \<Longrightarrow> kind' \<in> set (map fst (quota_checks d i)) \<Longrightarrow> warning_key i kind t \<noteq> warning_key i kind' t'"
  by (auto simp: quota_checks_def Let_def warning_key_def kind_names)

lemma due_warning_unaffected:
  assumes "\<And>t. sent_at d' (warning_key i (fst c) t) = sent_at d (warning_key i (fst c) t)"
  shows "due_warning now i d' c = due_warning now i d c"
  using assms by (cases c) (auto simp: due_warning_def split: Option.bind_split)

lemma due_warning_kind: "due_warning now i d c = Some (kind, t) \<Longrightarrow> kind = fst c"
  by (cases c) (auto simp: due_warning_def split: Option.bind_splits if_splits)

lemma check_fold:
  assumes "distinct (map fst cs)" and "set (map fst cs) \<subseteq> set (map fst (quota_checks d0 i))"
  shows "fst (fold (quota_check N now i) cs acc) = fst acc @ List.map_filter (due_warning now i (snd acc)) cs"
  using assms
proof (induction cs arbitrary: acc)
  case Nil
  then show ?case by (simp add: List.map_filter_simps)
next
  case (Cons c cs)
  have same: "due_warning now i (snd (quota_check N now i c acc)) c' = due_warning now i (snd acc) c'" if "c' \<in> set cs" for c'
  proof (rule due_warning_unaffected)
    fix t
    have "fst c' \<noteq> fst c" using that Cons.prems(1) by (metis distinct.simps(2) image_eqI list.set_map list.simps(9))
    then have "warning_key i (fst c') t \<noteq> warning_key i (fst c) t'" for t' using that Cons.prems(2) by (intro warning_keys_differ [of _ _ d0]) auto
    then show "sent_at (snd (quota_check N now i c acc)) (warning_key i (fst c') t) = sent_at (snd acc) (warning_key i (fst c') t)"
      using due_warning_kind [of now i "snd acc" c] by (auto simp: quota_check_spec(2) split: option.split)
  qed
  have "List.map_filter (due_warning now i (snd (quota_check N now i c acc))) cs = List.map_filter (due_warning now i (snd acc)) cs"
    using same by (auto simp: List.map_filter_def intro!: map_cong filter_cong)
  then show ?case
    using Cons by (simp add: quota_check_spec(1) List.map_filter_simps split: option.split)
qed

lemma quota_checks_kinds: "distinct (map fst (quota_checks d i))"
  by (simp add: quota_checks_def Let_def)

text \<open>
  The warnings a check sends are exactly those that are due: one for each limit of which 80 per cent are used (95 where that is reached too), unless the same
  warning went out within the last 24 hours.
\<close>

theorem quota_warnings_exact:
  "fst (checkQuotaWarnings N now i d) = List.map_filter (due_warning now i d) (quota_checks d i)"
  using check_fold [OF quota_checks_kinds subset_refl, of N now i d "([], d)"] by (simp add: checkQuotaWarnings_def)

definition warned_since :: "millis \<Rightarrow> string \<Rightarrow> db \<Rightarrow> bool" where
  "warned_since t key d \<longleftrightarrow> (case sent_at d key of None \<Rightarrow> False | Some s \<Rightarrow> t \<le> s)"

lemma check_warned_since:
  "t \<le> now \<Longrightarrow> warned_since t key (snd acc) \<Longrightarrow> warned_since t key (snd (fold (quota_check N now i) cs acc))"
proof (induction cs arbitrary: acc)
  case (Cons c cs)
  have "warned_since t key (snd (quota_check N now i c acc))"
    using Cons.prems by (auto simp: warned_since_def quota_check_spec(2) split: option.splits)
  then show ?case using Cons.IH Cons.prems(1) by simp
qed simp

lemma check_records:
  "(kind, th) \<in> set (fst (fold (quota_check N now i) cs acc)) \<Longrightarrow> (kind, th) \<in> set (fst acc) \<or> warned_since now (warning_key i kind th) (snd (fold (quota_check N now i) cs acc))"
proof (induction cs arbitrary: acc)
  case (Cons c cs)
  from Cons.IH [of "quota_check N now i c acc"] Cons.prems
  consider "(kind, th) \<in> set (fst (quota_check N now i c acc))" | "warned_since now (warning_key i kind th) (snd (fold (quota_check N now i) (c # cs) acc))"
    by auto
  then show ?case
  proof cases
    case 1
    then consider "(kind, th) \<in> set (fst acc)" | "due_warning now i (snd acc) c = Some (kind, th)"
      by (auto simp: quota_check_spec(1) split: option.splits)
    then show ?thesis
    proof cases
      case 2
      then have "warned_since now (warning_key i kind th) (snd (quota_check N now i c acc))" by (simp add: warned_since_def quota_check_spec(2))
      then show ?thesis using check_warned_since [of now now] by simp
    qed simp
  qed simp
qed simp

lemma forget_keeps:
  assumes "\<not> starts_with key ''token.expiring:sa:''"
  shows "sent_at (forget_reminders w now d) key = sent_at d key"
proof -
  have "find (\<lambda>r. ns_key r = key) (filter Q rs) = find (\<lambda>r. ns_key r = key) rs" if "\<And>r. ns_key r = key \<Longrightarrow> Q r" for Q and rs :: "notification_state list"
    using that by (induction rs) auto
  moreover have "key \<noteq> sa_key i" for i using assms by (auto simp: sa_key_def starts_with_def)
  ultimately show ?thesis by (simp add: forget_reminders_def sent_at_def list_ex_iff)
qed

lemma claim_once_spec:
  "fst (claim_once now key d) \<longleftrightarrow> sent_at d key = None"
  "sent_at (snd (claim_once now key d)) k = (if k = key \<and> sent_at d key = None then Some now else sent_at d k)"
  by (auto simp: claim_once_def sent_at_append)

lemma remind_spec:
  "fst (remind now key acc) = fst acc @ (if sent_at (snd acc) key = None then [key] else [])"
  "sent_at (snd (remind now key acc)) k = (if k = key \<and> sent_at (snd acc) key = None then Some now else sent_at (snd acc) k)"
  using claim_once_spec [of now key "snd acc"] by (auto simp: remind_def split: prod.split bool.split)

lemma remind_keeps: "sent_at (snd acc) k = Some s \<Longrightarrow> sent_at (snd (fold (remind now) keys acc)) k = Some s"
proof (induction keys arbitrary: acc)
  case (Cons key keys)
  have "sent_at (snd (remind now key acc)) k = Some s" using Cons.prems by (auto simp: remind_spec(2))
  then show ?case using Cons.IH by simp
qed simp

definition reminder_keys :: "int \<Rightarrow> millis \<Rightarrow> db \<Rightarrow> string list" where
  \<comment> \<open>the reminders a run considers\<close>
  "reminder_keys w now d = (case expiringCredentials d w now of (pats, sas) \<Rightarrow> map (pat_key \<circ> pat_id) pats @ map (sa_key \<circ> sa_id) sas)"

lemma run_reminders_state:
  "fst (runTokenExpiryReminders w now d) = fst (fold (remind now) (reminder_keys w now d) ([], d))"
  "snd (runTokenExpiryReminders w now d) = forget_reminders w now (snd (fold (remind now) (reminder_keys w now d) ([], d)))"
  by (simp_all add: runTokenExpiryReminders_def reminder_keys_def Let_def split: prod.split)

inductive notify_step :: "notify_env \<Rightarrow> millis \<Rightarrow> db \<Rightarrow> db \<Rightarrow> bool" for N t where
  check: "t \<le> now \<Longrightarrow> notify_step N t d (snd (checkQuotaWarnings N now i d))"
| remind: "notify_step N t d (snd (runTokenExpiryReminders w now d))"
| other: "db_notificationState d' = db_notificationState d \<Longrightarrow> notify_step N t d d'"

lemma warned_since_step:
  assumes "notify_step N t d d'" and "\<not> starts_with key ''token.expiring:sa:''" and "warned_since t key d"
  shows "warned_since t key d'"
  using assms
proof (induction rule: notify_step.induct)
  case (check now d i)
  then show ?case by (simp add: checkQuotaWarnings_def check_warned_since)
next
  case (remind d w now)
  then show ?case by (auto simp: warned_since_def run_reminders_state forget_keeps remind_keeps split: option.splits)
next
  case (other d' d)
  then show ?case by (simp add: warned_since_def sent_at_state [OF other(1)])
qed

interpretation warning_runs: step_invariant "notify_step N t" "\<lambda>d. \<not> starts_with key ''token.expiring:sa:'' \<longrightarrow> warned_since t key d" for N t key
  by unfold_locales (blast intro: warned_since_step)

text \<open>
  C37. A quota warning that went out is not repeated for 24 hours: whatever checks, reminders and other operations run after it, the next check within
  that time says nothing about the same limit and threshold.
\<close>

theorem warning_not_repeated:
  assumes "(kind, th) \<in> set (fst (checkQuotaWarnings N t i d))" and "(notify_step N t)\<^sup>*\<^sup>* (snd (checkQuotaWarnings N t i d)) d'"
    and "t' \<le> t + DAY_MILLIS"
  shows "(kind, th) \<notin> set (fst (checkQuotaWarnings N' t' i d'))"
proof -
  let ?k = "warning_key i kind th"
  have other: "\<not> starts_with ?k ''token.expiring:sa:''" by (simp add: warning_key_def starts_with_def)
  have "warned_since t ?k (snd (checkQuotaWarnings N t i d))" using check_records [of kind th N t i "quota_checks d i" "([], d)"] assms(1) by (simp add: checkQuotaWarnings_def)
  then have "warned_since t ?k d'" using warning_runs.along_run [OF assms(2), of ?k] other by blast
  then have "\<not> may_warn t' (sent_at d' ?k)" using assms(3) by (auto simp: warned_since_def may_warn_def split: option.splits)
  then show ?thesis
    by (auto simp: quota_warnings_exact List.map_filter_def due_warning_def split: Option.bind_splits if_splits)
qed

lemma reminders_recorded:
  "key \<in> set (fst (fold (remind now) keys acc)) \<Longrightarrow> key \<in> set (fst acc) \<or> sent_at (snd (fold (remind now) keys acc)) key = Some now"
proof (induction keys arbitrary: acc)
  case (Cons k keys)
  from Cons.IH [of "remind now k acc"] Cons.prems
  consider "key \<in> set (fst (remind now k acc))" | "sent_at (snd (fold (remind now) (k # keys) acc)) key = Some now" by auto
  then show ?case
  proof cases
    case 1
    then consider "key \<in> set (fst acc)" | "key = k" "sent_at (snd acc) key = None" by (auto simp: remind_spec(1) split: if_splits)
    then show ?thesis
    proof cases
      case 2
      then have "sent_at (snd (remind now k acc)) key = Some now" by (simp add: remind_spec(2))
      then show ?thesis by (simp add: remind_keeps)
    qed simp
  qed simp
qed simp

lemma reminders_fresh:
  "sent_at (snd acc) key = Some s \<Longrightarrow> key \<notin> set (fst acc) \<Longrightarrow> key \<notin> set (fst (fold (remind now) keys acc))"
proof (induction keys arbitrary: acc)
  case (Cons k keys)
  have "sent_at (snd (remind now k acc)) key = Some s" using Cons.prems(1) by (auto simp: remind_spec(2))
  moreover have "key \<notin> set (fst (remind now k acc))" using Cons.prems by (auto simp: remind_spec(1))
  ultimately show ?case using Cons.IH by simp
qed simp

text \<open>
  The owner of a personal access token is reminded of its end once: whatever checks, reminders and other operations run after a reminder went out, no later
  run of the job sends it again.
\<close>

theorem token_reminded_once:
  assumes "pat_key p \<in> set (fst (runTokenExpiryReminders w t d))" and "(notify_step N t)\<^sup>*\<^sup>* (snd (runTokenExpiryReminders w t d)) d'"
  shows "pat_key p \<notin> set (fst (runTokenExpiryReminders w' t' d'))"
proof -
  have other: "\<not> starts_with (pat_key p) ''token.expiring:sa:''" by (simp add: pat_key_def starts_with_def)
  have "sent_at (snd (fold (remind t) (reminder_keys w t d) ([], d))) (pat_key p) = Some t"
    using reminders_recorded [of "pat_key p" t "reminder_keys w t d" "([], d)"] assms(1) by (simp add: run_reminders_state)
  then have "warned_since t (pat_key p) (snd (runTokenExpiryReminders w t d))"
    by (simp add: run_reminders_state warned_since_def forget_keeps [OF other])
  then have "warned_since t (pat_key p) d'" using warning_runs.along_run [OF assms(2), of "pat_key p"] other by blast
  then obtain s where "sent_at d' (pat_key p) = Some s" by (auto simp: warned_since_def split: option.splits)
  then show ?thesis using reminders_fresh [of "([], d')"] by (simp add: run_reminders_state)
qed

section \<open>Examples\<close>

definition notify_example_env :: notify_env where
  "notify_example_env = \<lparr>ne_http = hook_example_env, ne_appUrl = ''app'', ne_registryHost = ''reg'', ne_asc = (\<lambda>a b. 0),
     ne_stamp = (\<lambda>k. \<lparr>es_deliveryId = ''x'', es_timestamp = ''t'', es_registry = ''reg''\<rparr>), ne_delivery = (\<lambda>k i. \<lparr>ds_id = i, ds_started = 0, ds_now = 5\<rparr>),
     ne_mirrorSource = (\<lambda>i. None)\<rparr>"

definition notify_example_user :: user where
  "notify_example_user = \<lparr>u_id = ''u'', u_name = ''Ada'', u_email = ''ada@example.org'', u_emailVerified = True, u_image = None, u_createdAt = 0, u_updatedAt = 0,
     u_twoFactorEnabled = None, u_role = None, u_banned = None, u_banReason = None, u_banExpires = None\<rparr>"

definition notify_example_db :: db where
  "notify_example_db = hook_example_db\<lparr>db_users := [notify_example_user],
     db_members := [\<lparr>mem_id = ''m'', mem_organizationId = ''o'', mem_userId = ''u'', mem_role = ''owner'', mem_createdAt = 0\<rparr>],
     db_accessTokens := [\<lparr>pat_id = ''p'', pat_userId = ''u'', pat_name = ''cli'', pat_tokenHash = ''x'', pat_tokenPrefix = ''x'', pat_scope = ScopeRead, pat_createdAt = 0,
       pat_expiresAt = Some 90000, pat_lastUsedAt = None, pat_lastUsedIp = None, pat_description = [], pat_organizationId = None, pat_repositoryIds = None\<rparr>],
     db_orgLimits := [\<lparr>ol_organizationId = ''o'', ol_maxPublicRepos = None, ol_maxPrivateRepos = Some 1, ol_maxStorageBytes = None, ol_maxMembers = None,
       ol_label = [], ol_note = [], ol_updatedAt = 0, ol_updatedBy = None\<rparr>]\<rparr>"

theorem mail_audience_witness:
  "set (fst (notify notify_example_env (QuotaWarning ''o'' ''storage'' 9 10 80) notify_example_db)) = {recipient_of notify_example_user}"
proof -
  have 1: "prefs_key notify_example_db" by code_simp
  have "db_users notify_example_db = [notify_example_user]" by (simp add: notify_example_db_def)
  moreover have "reachable notify_example_user" by code_simp
  moreover have "wants_mail notify_example_db ''quota.warning'' notify_example_user" by code_simp
  moreover have "responsible notify_example_db (QuotaWarning ''o'' ''storage'' 9 10 80) notify_example_user" by code_simp
  ultimately show ?thesis
    unfolding mail_audience [OF 1] by (auto simp: mailed_def event_of_def)
qed

theorem warning_not_repeated_witness:
  "(''private repositories'', 95) \<notin> set (fst (checkQuotaWarnings notify_example_env 5000 ''o'' (snd (checkQuotaWarnings notify_example_env 1000 ''o'' notify_example_db))))"
proof -
  have 1: "(''private repositories'', 95) \<in> set (fst (checkQuotaWarnings notify_example_env 1000 ''o'' notify_example_db))"
    unfolding quota_warnings_exact by code_simp
  show ?thesis by (rule warning_not_repeated [OF 1 rtranclp.rtrancl_refl]) (simp add: DAY_MILLIS_def)
qed

theorem token_reminded_once_witness:
  "pat_key ''p'' \<notin> set (fst (runTokenExpiryReminders 7 200 (snd (runTokenExpiryReminders 7 100 notify_example_db))))"
proof -
  have 1: "pat_key ''p'' \<in> set (fst (runTokenExpiryReminders 7 100 notify_example_db))" by code_simp
  show ?thesis by (rule token_reminded_once [OF 1 rtranclp.rtrancl_refl])
qed

end
