(* ===== verification/Api_Access.thy ===== *)
theory Api_Access
  imports Webhooks Rate_Limit
begin

text \<open>
  The REST API's callers and what they may see and do (\<open>web/src/lib/api/auth.ts\<close>, \<open>api/access.ts\<close>, \<open>viewer.ts\<close>, the errors of \<open>api/respond.ts\<close>). The SQL
  filters are predicates on rows; base64, the secret hash and the verification of CI tokens are fields of \<open>api_env\<close>, the session of the authentication library
  is an argument. The theorems: a request with an \<open>Authorization\<close> header never falls back to the session; a repository the API shows is public or
  open to the caller; on repositories the API and the token service give the same rights.
\<close>

section \<open>Callers\<close>

datatype api_failure = ApiFailure string string | AdminFailure string admin_error | QuotaFailure string quota_problem
  \<comment> \<open>an \<open>ApiError\<close>: its code and its message, or the error whose message it carries\<close>

definition code_of :: "api_failure \<Rightarrow> string" where
  "code_of f = (case f of ApiFailure code _ \<Rightarrow> code | AdminFailure code _ \<Rightarrow> code | QuotaFailure code _ \<Rightarrow> code)"

definition unauthorized :: "string \<Rightarrow> api_failure" where "unauthorized = ApiFailure ''unauthorized''"

definition forbidden :: "string \<Rightarrow> api_failure" where "forbidden = ApiFailure ''forbidden''"

definition notFound :: "string \<Rightarrow> api_failure" where "notFound = ApiFailure ''not_found''"

definition conflict :: "string \<Rightarrow> api_failure" where "conflict = ApiFailure ''conflict''"

definition badRequest :: "string \<Rightarrow> api_failure" where "badRequest = ApiFailure ''bad_request''"

definition unprocessable :: "string \<Rightarrow> api_failure" where "unprocessable = ApiFailure ''unprocessable''"

definition STATUS :: "api_failure \<Rightarrow> int" where
  "STATUS f = nullish (map_of [(''bad_request'', 400), (''unauthorized'', 401), (''forbidden'', 403), (''not_found'', 404),
     (''conflict'', 409), (''unprocessable'', 422), (''api_disabled'', 403), (''rate_limited'', 429), (''internal'', 500)] (code_of f)) 500"

datatype viewer = ViewAnonymous | ViewUser string bool

record api_identity =
  \<comment> \<open>\<open>ApiCaller\<close>: its kind is that of the caller\<close>
  ai_via :: string
  ai_viewer :: viewer
  ai_caller :: caller

record api_session =
  ss_userId :: string
  ss_role :: "string option"

definition viewerFromSession :: "api_session option \<Rightarrow> viewer" where
  "viewerFromSession s = (case s of None \<Rightarrow> ViewAnonymous | Some u \<Rightarrow> ViewUser (ss_userId u) (ss_role u = Some ''admin''))"

record api_env =
  ae_base64 :: "string \<Rightarrow> string"
    \<comment> \<open>\<open>Buffer.from(value, "base64").toString("utf8")\<close>, which never throws\<close>
  ae_hash :: "string \<Rightarrow> string"
  ae_hmac :: "string \<Rightarrow> string \<Rightarrow> string \<Rightarrow> int \<Rightarrow> string + ci_claims"
  ae_issuer :: string
  ae_parse :: "string \<Rightarrow> string + json"
    \<comment> \<open>\<open>JSON.parse\<close>\<close>

definition credentialFromHeader :: "api_env \<Rightarrow> string \<Rightarrow> string option" where
  "credentialFromHeader E header =
     (let parts = split_runs js_ws (js_trim header); scheme = hd parts; v = join_with '' '' (tl parts) in
      if scheme = [] \<or> v = [] then None
      else if js_lower scheme = ''bearer'' then Some (js_trim v)
      else if js_lower scheme = ''basic''
      then (let decoded = ae_base64 E v in
            case index_of CHR '':'' decoded of
              None \<Rightarrow> Some decoded
            | Some colon \<Rightarrow> (let password = drop (colon + 1) decoded in Some (if password \<noteq> [] then password else take colon decoded)))
      else None)"

definition by_token :: "api_env \<Rightarrow> millis \<Rightarrow> string option \<Rightarrow> string \<Rightarrow> db \<Rightarrow> (api_failure + api_identity) \<times> db" where
  "by_token E now ip secret d = (case identifyAccessToken (ae_hash E) now secret ip d of
       (Inl err, d') \<Rightarrow> (Inl (unauthorized (''Access token refused: '' @ err @ ''.'')), d')
     | (Inr (c, tok, u), d') \<Rightarrow> (Inr \<lparr>ai_via = ''token'', ai_viewer = ViewUser (u_id u) (u_role u = Some ''admin''), ai_caller = c\<rparr>, d'))"

definition by_service_account :: "api_env \<Rightarrow> millis \<Rightarrow> string option \<Rightarrow> string \<Rightarrow> db \<Rightarrow> (api_failure + api_identity) \<times> db" where
  "by_service_account E now ip secret d = (case identifyServiceAccount (ae_hash E) now secret ip d of
       (Inl err, d') \<Rightarrow> (Inl (unauthorized (''Service account refused: '' @ err @ ''.'')), d')
     | (Inr c, d') \<Rightarrow> (Inr \<lparr>ai_via = ''service-account'', ai_viewer = ViewAnonymous, ai_caller = c\<rparr>, d'))"

definition by_ci_token :: "api_env \<Rightarrow> millis \<Rightarrow> string \<Rightarrow> db \<Rightarrow> api_failure + api_identity" where
  "by_ci_token E now secret d = (case identifyCiToken (ae_hmac E) (ae_issuer E) now secret d of
       Inl err \<Rightarrow> Inl (unauthorized (''CI token refused: '' @ err @ ''.''))
     | Inr (c, _) \<Rightarrow> Inr \<lparr>ai_via = ''ci'', ai_viewer = ViewAnonymous, ai_caller = c\<rparr>)"

definition authenticate :: "api_env \<Rightarrow> millis \<Rightarrow> string option \<Rightarrow> api_session option \<Rightarrow> string option \<Rightarrow> db \<Rightarrow> (api_failure + api_identity) \<times> db" where
  "authenticate E now header session ip d =
     (if truthy header
      then (case credentialFromHeader E (the header) of
              None \<Rightarrow> (Inl (unauthorized ''Send the credential as `Authorization: Bearer <token>`.''), d)
            | Some secret \<Rightarrow>
              if secret = [] then (Inl (unauthorized ''Send the credential as `Authorization: Bearer <token>`.''), d)
              else if starts_with secret PAT_PREFIX then by_token E now ip secret d
              else if starts_with secret SA_PREFIX then by_service_account E now ip secret d
              else if starts_with secret CI_PREFIX then (by_ci_token E now secret d, d)
              else (Inl (unauthorized ''Unknown credential: personal access tokens, service-account secrets and CI tokens are accepted.''), d))
      else (case session of
          Some u \<Rightarrow> (Inr \<lparr>ai_via = ''session'', ai_viewer = viewerFromSession session, ai_caller = CallerUser (ss_userId u) (ss_role u = Some ''admin'') None None\<rparr>, d)
        | None \<Rightarrow> (Inr \<lparr>ai_via = ''none'', ai_viewer = ViewAnonymous, ai_caller = Anonymous\<rparr>, d)))"

section \<open>What a caller may see\<close>

definition visibleRepositoriesFilter :: "db \<Rightarrow> viewer \<Rightarrow> repository \<Rightarrow> bool" where
  "visibleRepositoriesFilter d v r = (case v of
       ViewAnonymous \<Rightarrow> repo_visibility r = Public
     | ViewUser userId isAdmin \<Rightarrow> isAdmin \<or> repo_visibility r = Public \<or> is_member d (repo_organizationId r) userId)"

definition memberOfOrganizationFilter :: "db \<Rightarrow> viewer \<Rightarrow> organization \<Rightarrow> bool" where
  "memberOfOrganizationFilter d v g = (case v of ViewAnonymous \<Rightarrow> False | ViewUser userId isAdmin \<Rightarrow> isAdmin \<or> is_member d (org_id g) userId)"

definition within_list :: "string \<Rightarrow> string list option \<Rightarrow> repository \<Rightarrow> bool" where
  \<comment> \<open>an empty list is no list here\<close>
  "within_list organizationId ids r \<longleftrightarrow> repo_organizationId r = organizationId \<and>
     (case ids of None \<Rightarrow> True | Some l \<Rightarrow> l = [] \<or> repo_id r \<in> set l)"

definition repoFilter :: "db \<Rightarrow> api_identity \<Rightarrow> repository \<Rightarrow> bool" where
  "repoFilter d c r = (case ai_caller c of
       Anonymous \<Rightarrow> repo_visibility r = Public
     | CallerSa _ organizationId _ ids \<Rightarrow> repo_visibility r = Public \<or> within_list organizationId ids r
     | CallerUser _ _ _ restriction \<Rightarrow> visibleRepositoriesFilter d (ai_viewer c) r \<and>
         (case restriction of None \<Rightarrow> True | Some rs \<Rightarrow> within_list (tr_organizationId rs) (tr_repositoryIds rs) r))"

definition orgFilter :: "db \<Rightarrow> api_identity \<Rightarrow> organization \<Rightarrow> bool" where
  "orgFilter d c g =
     (let hasVisibleRepo = list_ex (\<lambda>r. repo_organizationId r = org_id g \<and> repoFilter d c r) (db_repositories d) in
      case ai_caller c of
        Anonymous \<Rightarrow> hasVisibleRepo
      | CallerSa _ organizationId _ _ \<Rightarrow> org_id g = organizationId \<or> hasVisibleRepo
      | CallerUser _ _ _ restriction \<Rightarrow> (case restriction of
            Some rs \<Rightarrow> org_id g = tr_organizationId rs
          | None \<Rightarrow> memberOfOrganizationFilter d (ai_viewer c) g \<or> hasVisibleRepo))"

definition api_orgRole :: "db \<Rightarrow> api_identity \<Rightarrow> string \<Rightarrow> string option" where
  "api_orgRole d c organizationId = (case ai_caller c of
       CallerUser userId isAdmin _ _ \<Rightarrow>
         if isAdmin then Some ''owner''
         else map_option mem_role (find (\<lambda>m. mem_organizationId m = organizationId \<and> mem_userId m = userId) (db_members d))
     | _ \<Rightarrow> None)"

record org_access =
  oa_org :: organization
  oa_role :: "string option"
  oa_proxy :: bool

definition loadOrg :: "db \<Rightarrow> api_identity \<Rightarrow> string \<Rightarrow> api_failure + org_access" where
  "loadOrg d c slug = (case find (\<lambda>g. org_slug g = slug \<and> orgFilter d c g) (db_organizations d) of
       None \<Rightarrow> Inl (notFound ''No such organization.'')
     | Some g0 \<Rightarrow> (case org_by_id d (org_id g0) of
         None \<Rightarrow> Inl (notFound ''No such organization.'')
       | Some g \<Rightarrow> Inr \<lparr>oa_org = g, oa_role = api_orgRole d c (org_id g0), oa_proxy = isProxyOrg d (org_id g0)\<rparr>))"

record repo_access = org_access +
  ra_repo :: repository
  ra_manage :: bool
  ra_delete :: bool
  ra_write :: bool

definition role_in :: "string option \<Rightarrow> string list \<Rightarrow> bool" where
  "role_in role roles \<longleftrightarrow> truthy role \<and> the role \<in> set roles"

definition user_rights :: "db \<Rightarrow> caller \<Rightarrow> string option \<Rightarrow> organization \<Rightarrow> repository \<Rightarrow> bool \<times> bool \<times> bool" where
  \<comment> \<open>manage, delete and write before proxy caches are looked at\<close>
  "user_rights d c role g repo = (case c of
       CallerUser userId isAdmin patScope restriction \<Rightarrow>
         (let inScope = patScope \<noteq> Some ScopeRead \<and> restrictionAllows restriction (org_id g) (Some (repo_id repo));
              granted = (if truthy role \<and> \<not> isAdmin then grantedPermission d userId (repo_id repo) else None);
              manage = inScope \<and> truthy role \<and> (role_in role MANAGER_ROLES \<or> granted = Some PAdmin)
          in (manage, manage, inScope \<and> truthy role \<and> (role_in role WRITER_ROLES \<or> granted = Some PPush \<or> granted = Some PAdmin)))
     | CallerSa _ organizationId permission ids \<Rightarrow>
         (let own = organizationId = org_id g \<and> (case ids of None \<Rightarrow> True | Some l \<Rightarrow> repo_id repo \<in> set l)
          in (False, own \<and> permission = PAdmin, own \<and> permission \<noteq> PPull))
     | Anonymous \<Rightarrow> (False, False, False))"

definition loadRepo :: "db \<Rightarrow> api_identity \<Rightarrow> string \<Rightarrow> string \<Rightarrow> api_failure + repo_access" where
  \<comment> \<open>the joined rows, in the order of the repositories\<close>
  "loadRepo d c orgSlug repoName =
     (case find (\<lambda>r. list_ex (\<lambda>g. org_id g = repo_organizationId r \<and> org_slug g = orgSlug) (db_organizations d) \<and> repo_name r = repoName \<and> repoFilter d c r)
             (db_repositories d) of
        None \<Rightarrow> Inl (notFound ''No such repository.'')
      | Some r0 \<Rightarrow> (case repo_by_id d (repo_id r0) of
          None \<Rightarrow> Inl (notFound ''No such repository.'')
        | Some repo \<Rightarrow> (case org_by_id d (repo_organizationId repo) of
            None \<Rightarrow> Inl (notFound ''No such repository.'')
          | Some g \<Rightarrow>
            (let role = api_orgRole d c (org_id g); proxy = isProxyOrg d (repo_organizationId repo);
                 (manage, del, write) = user_rights d (ai_caller c) role g repo
             in Inr \<lparr>oa_org = g, oa_role = role, oa_proxy = proxy, ra_repo = repo, ra_manage = manage, ra_delete = del, ra_write = (write \<and> \<not> proxy)\<rparr>))))"

section \<open>Requirements\<close>

definition is_sa :: "api_identity \<Rightarrow> bool" where
  "is_sa c = (case ai_caller c of CallerSa _ _ _ _ \<Rightarrow> True | _ \<Rightarrow> False)"

definition isReadOnlyToken :: "api_identity \<Rightarrow> bool" where
  "isReadOnlyToken c = (case ai_caller c of CallerUser _ _ patScope _ \<Rightarrow> patScope = Some ScopeRead | _ \<Rightarrow> False)"

definition restriction_of :: "api_identity \<Rightarrow> token_restriction option" where
  "restriction_of c = (case ai_caller c of CallerUser _ _ _ rs \<Rightarrow> rs | _ \<Rightarrow> None)"

definition denial :: "api_identity \<Rightarrow> string \<Rightarrow> api_failure" where
  "denial c what =
     (if ai_caller c = Anonymous then forbidden (''Sign in or send a token to '' @ what @ ''.'')
      else if isReadOnlyToken c then forbidden (''This access token is read-only; '' @ what @ '' needs a read & write token.'')
      else if restriction_of c \<noteq> None then forbidden (''This access token is limited to another organization or repository; it cannot '' @ what @ ''.'')
      else forbidden (''You don'' @ [CHR 0x27] @ ''t have permission to '' @ what @ ''.''))"

definition requireManage :: "api_identity \<Rightarrow> repo_access \<Rightarrow> string \<Rightarrow> api_failure option" where
  "requireManage c a what =
     (if is_sa c then Some (forbidden (''Service accounts cannot '' @ what @ ''; only organization owners and admins can.''))
      else if \<not> ra_manage a then Some (denial c what) else None)"

definition requireDelete :: "api_identity \<Rightarrow> repo_access \<Rightarrow> string \<Rightarrow> api_failure option" where
  "requireDelete c a what =
     (if ra_delete a then None
      else if is_sa c then Some (forbidden (''This service account cannot '' @ what @ ''; it needs the admin permission in this organization.''))
      else Some (denial c what))"

definition requireWrite :: "api_identity \<Rightarrow> repo_access \<Rightarrow> string \<Rightarrow> api_failure option" where
  "requireWrite c a what =
     (if oa_proxy a then Some (forbidden (org_name (oa_org a) @ '' is a proxy cache; only its upstream fills it.''))
      else if ra_write a then None
      else if is_sa c then Some (forbidden (''This service account cannot '' @ what @ ''; it needs the push or admin permission in this organization.''))
      else Some (denial c what))"

definition requireOrgManager :: "api_identity \<Rightarrow> org_access \<Rightarrow> string \<Rightarrow> api_failure option" where
  "requireOrgManager c a what =
     (if is_sa c then Some (forbidden (''Service accounts cannot '' @ what @ ''.''))
      else if (case restriction_of c of None \<Rightarrow> False | Some rs \<Rightarrow> tr_organizationId rs \<noteq> org_id (oa_org a)) then Some (denial c what)
      else if \<not> role_in (oa_role a) MANAGER_ROLES then Some (denial c what)
      else None)"

definition requireOrgMember :: "api_identity \<Rightarrow> org_access \<Rightarrow> string \<Rightarrow> api_failure option" where
  "requireOrgMember c a what =
     (if is_sa c then Some (forbidden (''Service accounts cannot '' @ what @ ''.'')) else if \<not> truthy (oa_role a) then Some (denial c what) else None)"

definition requireOrgWriter :: "api_identity \<Rightarrow> org_access \<Rightarrow> string \<Rightarrow> api_failure option" where
  "requireOrgWriter c a what =
     (if is_sa c then Some (forbidden (''Service accounts cannot '' @ what @ ''; push to a new name instead.''))
      else if isReadOnlyToken c then Some (denial c what)
      else (case restriction_of c of
          Some rs \<Rightarrow>
            if tr_organizationId rs \<noteq> org_id (oa_org a) \<or> tr_repositoryIds rs \<noteq> None
            then Some (forbidden (''This access token is limited to '' @ (if tr_repositoryIds rs \<noteq> None then ''a few repositories'' else ''another organization'') @
                   ''; it cannot '' @ what @ ''.''))
            else if \<not> role_in (oa_role a) WRITER_ROLES then Some (denial c what) else None
        | None \<Rightarrow> if \<not> role_in (oa_role a) WRITER_ROLES then Some (denial c what) else None))"

definition requireInstanceAdmin :: "api_identity \<Rightarrow> string \<Rightarrow> bool \<Rightarrow> api_failure option" where
  "requireInstanceAdmin c what reading = (case ai_caller c of
       CallerUser _ isAdmin patScope _ \<Rightarrow>
         if \<not> reading \<and> patScope = Some ScopeRead then Some (denial c what)
         else if \<not> isAdmin then Some (forbidden (''Only instance administrators can '' @ what @ ''.'')) else None
     | _ \<Rightarrow> Some (forbidden (''Only instance administrators can '' @ what @ ''.'')))"

section \<open>Who is calling\<close>

definition identity_ok :: "api_identity \<Rightarrow> bool" where
  \<comment> \<open>the viewer of a user is that user, other callers look on as strangers\<close>
  "identity_ok c \<longleftrightarrow> (case ai_caller c of CallerUser u adm _ _ \<Rightarrow> ai_viewer c = ViewUser u adm | _ \<Rightarrow> ai_viewer c = ViewAnonymous)"

lemma by_token_user:
  "fst (by_token E now ip secret d) = Inr c \<Longrightarrow> identity_ok c \<and> (\<exists>u adm scope rs. ai_caller c = CallerUser u adm (Some scope) rs)"
  by (auto simp: by_token_def identifyAccessToken_def identity_ok_def split: option.splits if_splits)

lemma by_service_account_sa:
  "fst (by_service_account E now ip secret d) = Inr c \<Longrightarrow> identity_ok c \<and> (\<exists>i g p ids. ai_caller c = CallerSa i g p ids)"
  by (auto simp: by_service_account_def identifyServiceAccount_def identity_ok_def split: option.splits if_splits)

lemma by_ci_token_sa: "by_ci_token E now secret d = Inr c \<Longrightarrow> identity_ok c \<and> (\<exists>i g p ids. ai_caller c = CallerSa i g p ids)"
  by (auto simp: by_ci_token_def identifyCiToken_def ci_caller_def identity_ok_def split: sum.splits if_splits list.splits)

lemma authenticate_identity: "fst (authenticate E now header session ip d) = Inr c \<Longrightarrow> identity_ok c"
  by (auto simp: authenticate_def viewerFromSession_def identity_ok_def dest: by_token_user by_service_account_sa by_ci_token_sa split: if_splits option.splits)

text \<open>
  A request that carries a credential is never treated as anybody else: with an \<open>Authorization\<close> header, the outcome does not depend on the browser session, and
  whoever is authenticated is the holder of an access token or a service account; a header that cannot be read or a credential that is unknown, expired or
  revoked is an error, never an anonymous request.
\<close>

theorem credential_never_ignored:
  assumes "truthy header"
  shows "authenticate E now header session ip d = authenticate E now header session' ip d \<and>
    (\<forall>c. fst (authenticate E now header session ip d) = Inr c \<longrightarrow>
       (\<exists>u adm scope rs. ai_caller c = CallerUser u adm (Some scope) rs) \<or> (\<exists>i g p ids. ai_caller c = CallerSa i g p ids))"
  using assms by (auto simp: authenticate_def dest: by_token_user by_service_account_sa by_ci_token_sa split: if_splits option.splits)

section \<open>What the API shows\<close>

definition keys_unique :: "db \<Rightarrow> bool" where
  \<comment> \<open>the keys and unique indexes of organizations and repositories\<close>
  "keys_unique d \<longleftrightarrow> distinct (map org_id (db_organizations d)) \<and> distinct (map org_slug (db_organizations d)) \<and>
     distinct (map repo_id (db_repositories d)) \<and> distinct (map (\<lambda>r. (repo_organizationId r, repo_name r)) (db_repositories d))"

lemma find_key: "distinct (map f xs) \<Longrightarrow> x \<in> set xs \<Longrightarrow> find (\<lambda>y. f y = f x) xs = Some x"
  by (induction xs) auto

lemma loadRepo_row:
  assumes "keys_unique d" and "loadRepo d c slug name = Inr a"
  shows "ra_repo a \<in> set (db_repositories d)" and "oa_org a \<in> set (db_organizations d)" and "org_id (oa_org a) = repo_organizationId (ra_repo a)"
    and "org_slug (oa_org a) = slug" and "repo_name (ra_repo a) = name" and "repoFilter d c (ra_repo a)"
    and "oa_role a = api_orgRole d c (org_id (oa_org a))" and "oa_proxy a = isProxyOrg d (org_id (oa_org a))"
    and "(ra_manage a, ra_delete a, ra_write a) =
      (case user_rights d (ai_caller c) (api_orgRole d c (org_id (oa_org a))) (oa_org a) (ra_repo a) of
         (manage, del, write) \<Rightarrow> (manage, del, write \<and> \<not> isProxyOrg d (org_id (oa_org a))))"
proof -
  let ?hit = "\<lambda>r. list_ex (\<lambda>g. org_id g = repo_organizationId r \<and> org_slug g = slug) (db_organizations d) \<and> repo_name r = name \<and> repoFilter d c r"
  obtain r0 where r0: "find ?hit (db_repositories d) = Some r0" using assms(2) by (auto simp: loadRepo_def split: option.splits)
  then have mem: "r0 \<in> set (db_repositories d)" and hit: "?hit r0" by (auto dest: find_SomeD)
  have same: "repo_by_id d (repo_id r0) = Some r0" unfolding repo_by_id_def using assms(1) mem by (intro find_key) (auto simp: keys_unique_def)
  obtain g where g: "g \<in> set (db_organizations d)" "org_id g = repo_organizationId r0" "org_slug g = slug" using hit by (auto simp: list_ex_iff)
  have org: "org_by_id d (repo_organizationId r0) = Some g"
    unfolding org_by_id_def g(2) [symmetric] using assms(1) g(1) by (intro find_key) (auto simp: keys_unique_def)
  have a: "oa_org a = g" "ra_repo a = r0" "oa_role a = api_orgRole d c (org_id g)" "oa_proxy a = isProxyOrg d (org_id g)"
    "(ra_manage a, ra_delete a, ra_write a) = (case user_rights d (ai_caller c) (api_orgRole d c (org_id g)) g r0 of
       (manage, del, write) \<Rightarrow> (manage, del, write \<and> \<not> isProxyOrg d (org_id g)))"
    using assms(2) r0 same org g(2) by (auto simp: loadRepo_def Let_def split: prod.splits)
  show "ra_repo a \<in> set (db_repositories d)" "oa_org a \<in> set (db_organizations d)" "org_id (oa_org a) = repo_organizationId (ra_repo a)"
    "org_slug (oa_org a) = slug" "repo_name (ra_repo a) = name" "repoFilter d c (ra_repo a)"
    "oa_role a = api_orgRole d c (org_id (oa_org a))" "oa_proxy a = isProxyOrg d (org_id (oa_org a))"
    using mem g hit a(3,4) by (simp_all add: a(1,2))
  show "(ra_manage a, ra_delete a, ra_write a) =
      (case user_rights d (ai_caller c) (api_orgRole d c (org_id (oa_org a))) (oa_org a) (ra_repo a) of
         (manage, del, write) \<Rightarrow> (manage, del, write \<and> \<not> isProxyOrg d (org_id (oa_org a))))"
    unfolding a(1,2) by (rule a(5))
qed

lemma loadRepo_found:
  assumes "keys_unique d" and "r \<in> set (db_repositories d)" and "g \<in> set (db_organizations d)" and "org_id g = repo_organizationId r" and "repoFilter d c r"
  shows "\<exists>a. loadRepo d c (org_slug g) (repo_name r) = Inr a \<and> ra_repo a = r \<and> oa_org a = g"
proof -
  let ?hit = "\<lambda>r'. list_ex (\<lambda>g'. org_id g' = repo_organizationId r' \<and> org_slug g' = org_slug g) (db_organizations d) \<and> repo_name r' = repo_name r \<and> repoFilter d c r'"
  have "?hit r" using assms by (auto simp: list_ex_iff)
  then obtain r0 where r0: "find ?hit (db_repositories d) = Some r0" using assms(2) by (cases "find ?hit (db_repositories d)") (auto dest: find_NoneD)
  then have mem: "r0 \<in> set (db_repositories d)" and hit: "?hit r0" by (auto dest: find_SomeD)
  obtain g0 where g0: "g0 \<in> set (db_organizations d)" "org_id g0 = repo_organizationId r0" "org_slug g0 = org_slug g" using hit by (auto simp: list_ex_iff)
  have "inj_on org_slug (set (db_organizations d))" using assms(1) by (simp add: keys_unique_def distinct_map)
  then have "g0 = g" using g0(1,3) assms(3) by (simp add: inj_on_eq_iff)
  then have org: "repo_organizationId r0 = repo_organizationId r" using g0(2) assms(4) by simp
  have inj: "inj_on (\<lambda>r. (repo_organizationId r, repo_name r)) (set (db_repositories d))"
    using assms(1) by (simp add: keys_unique_def distinct_map)
  have "r0 = r" by (rule inj_onD [OF inj _ mem assms(2)]) (use org hit in simp)
  moreover have "repo_by_id d (repo_id r) = Some r" unfolding repo_by_id_def using assms(1,2) by (intro find_key) (auto simp: keys_unique_def)
  moreover have "org_by_id d (repo_organizationId r) = Some g"
    unfolding org_by_id_def assms(4) [symmetric] using assms(1,3) by (intro find_key) (auto simp: keys_unique_def)
  ultimately show ?thesis using r0 by (auto simp: loadRepo_def Let_def split: prod.splits)
qed

definition may_see :: "db \<Rightarrow> caller \<Rightarrow> repository \<Rightarrow> bool" where
  \<comment> \<open>a private repository: to instance administrators, members and the organization's own service accounts, within the limits of a token\<close>
  "may_see d c r = (case c of
       Anonymous \<Rightarrow> repo_visibility r = Public
     | CallerUser u adm _ rs \<Rightarrow> (repo_visibility r = Public \<or> adm \<or> is_member d (repo_organizationId r) u) \<and>
         (case rs of None \<Rightarrow> True | Some t \<Rightarrow> tr_organizationId t = repo_organizationId r)
     | CallerSa _ g _ _ \<Rightarrow> repo_visibility r = Public \<or> g = repo_organizationId r)"

text \<open>
  C29. A repository the API shows is one the caller may see: whoever the request authenticates as, an answer about a repository means that it is public, or the
  caller is an administrator, a member of its organization or one of its service accounts; and a token limited to an organization shows nothing of any other.
\<close>

theorem api_hides_private:
  assumes "keys_unique d" and "fst (authenticate E now header session ip d0) = Inr c" and "loadRepo d c slug name = Inr a"
  shows "ra_repo a \<in> set (db_repositories d) \<and> may_see d (ai_caller c) (ra_repo a)"
proof -
  have "identity_ok c" using assms(2) by (rule authenticate_identity)
  moreover have "repoFilter d c (ra_repo a)" using loadRepo_row(6) [OF assms(1,3)] .
  ultimately have "may_see d (ai_caller c) (ra_repo a)"
    by (cases "ai_caller c") (auto simp: identity_ok_def repoFilter_def may_see_def visibleRepositoriesFilter_def within_list_def split: option.splits)
  then show ?thesis using loadRepo_row(1) [OF assms(1,3)] by simp
qed

section \<open>The API and the token service\<close>

lemma role_and_grant_actions:
  assumes "find (\<lambda>m. mem_organizationId m = org_id g \<and> mem_userId m = u) (db_members d) = Some m"
  shows "RPush \<in> set (user_actions d u False g (Some r) vis) \<longleftrightarrow>
      mem_role m \<in> set WRITER_ROLES \<or> grantedPermission d u (repo_id r) \<in> {Some PPush, Some PAdmin}"
    and "RDelete \<in> set (user_actions d u False g (Some r) vis) \<longleftrightarrow>
      mem_role m \<in> set MANAGER_ROLES \<or> grantedPermission d u (repo_id r) = Some PAdmin"
proof -
  let ?base = "nullish (ROLE_REGISTRY_ACTIONS (mem_role m)) [RPull]"
  have base: "RPush \<in> set ?base \<longleftrightarrow> mem_role m \<in> set WRITER_ROLES" "RDelete \<in> set ?base \<longleftrightarrow> mem_role m \<in> set MANAGER_ROLES" "?base \<noteq> []"
    by (auto simp: ROLE_REGISTRY_ACTIONS_def WRITER_ROLES_def MANAGER_ROLES_def)
  have acts: "user_actions d u False g (Some r) vis = (case grantedPermission d u (repo_id r) of
       Some PAdmin \<Rightarrow> [RPull, RPush, RDelete]
     | Some PPush \<Rightarrow> if RPush \<notin> set ?base then uniq (?base @ [RPull, RPush]) else ?base
     | _ \<Rightarrow> ?base)"
    using assms base(3) by (auto simp: user_actions_def Let_def uniq_def split: option.split repo_permission.split)
  show "RPush \<in> set (user_actions d u False g (Some r) vis) \<longleftrightarrow>
      mem_role m \<in> set WRITER_ROLES \<or> grantedPermission d u (repo_id r) \<in> {Some PPush, Some PAdmin}"
    unfolding acts base(1) [symmetric] by (auto simp: uniq_def split: option.split repo_permission.split)
  show "RDelete \<in> set (user_actions d u False g (Some r) vis) \<longleftrightarrow>
      mem_role m \<in> set MANAGER_ROLES \<or> grantedPermission d u (repo_id r) = Some PAdmin"
    unfolding acts base(2) [symmetric] by (auto simp: uniq_def split: option.split repo_permission.split)
qed

lemma user_agree:
  assumes "\<And>m. m \<in> set (db_members d) \<Longrightarrow> mem_role m \<noteq> []" and "repo_id r \<noteq> []"
    and "role = (if adm then Some ''owner'' else map_option mem_role (find (\<lambda>m. mem_organizationId m = org_id g \<and> mem_userId m = u) (db_members d)))"
    and "user_rights d (CallerUser u adm scope rs) role g r = (manage, del, write)"
  shows "RPush \<in> set (caller_actions d (CallerUser u adm scope rs) g (Some r) vis) \<longleftrightarrow> write"
    and "RDelete \<in> set (caller_actions d (CallerUser u adm scope rs) g (Some r) vis) \<longleftrightarrow> del"
proof -
  let ?in = "scope \<noteq> Some ScopeRead \<and> restrictionAllows rs (org_id g) (Some (repo_id r))"
  have act: "x \<in> set (caller_actions d (CallerUser u adm scope rs) g (Some r) vis) \<longleftrightarrow> ?in \<and> x \<in> set (user_actions d u adm g (Some r) vis)"
    if "x \<noteq> RPull" for x
    using that by (cases rs) (auto simp: caller_actions_def Let_def restrictionAllows_def)
  have push: "RPush \<in> set (caller_actions d (CallerUser u adm scope rs) g (Some r) vis) \<longleftrightarrow> ?in \<and> RPush \<in> set (user_actions d u adm g (Some r) vis)"
    and delete: "RDelete \<in> set (caller_actions d (CallerUser u adm scope rs) g (Some r) vis) \<longleftrightarrow> ?in \<and> RDelete \<in> set (user_actions d u adm g (Some r) vis)"
    by (rule act, simp)+
  consider (adm) "adm" | (out) "\<not> adm" "role = None" | (joined) m where "\<not> adm" "role = Some (mem_role m)" "mem_role m \<noteq> []"
      "find (\<lambda>m. mem_organizationId m = org_id g \<and> mem_userId m = u) (db_members d) = Some m"
    using assms(1,3) by (auto split: if_splits dest: find_SomeD)
  then have "(RPush \<in> set (caller_actions d (CallerUser u adm scope rs) g (Some r) vis) \<longleftrightarrow> write) \<and>
      (RDelete \<in> set (caller_actions d (CallerUser u adm scope rs) g (Some r) vis) \<longleftrightarrow> del)"
  proof cases
    case adm
    then show ?thesis unfolding push delete using assms(3,4) by (auto simp: user_actions_def user_rights_def Let_def truthy_def role_in_def MANAGER_ROLES_def WRITER_ROLES_def)
  next
    case out
    then have "find (\<lambda>m. mem_organizationId m = org_id g \<and> mem_userId m = u) (db_members d) = None" using assms(3) by simp
    then show ?thesis unfolding push delete using assms(4) out by (auto simp: user_actions_def user_rights_def Let_def truthy_def)
  next
    case (joined m)
    then show ?thesis unfolding push delete using assms(4) by (auto simp: role_and_grant_actions [OF joined(4)] user_rights_def Let_def truthy_def role_in_def)
  qed
  then show "RPush \<in> set (caller_actions d (CallerUser u adm scope rs) g (Some r) vis) \<longleftrightarrow> write"
    and "RDelete \<in> set (caller_actions d (CallerUser u adm scope rs) g (Some r) vis) \<longleftrightarrow> del" by blast+
qed

lemma sa_agree:
  assumes "user_rights d (CallerSa i org p ids) role g r = (manage, del, write)"
  shows "RPush \<in> set (caller_actions d (CallerSa i org p ids) g (Some r) vis) \<longleftrightarrow> write"
    and "RDelete \<in> set (caller_actions d (CallerSa i org p ids) g (Some r) vis) \<longleftrightarrow> del"
  using assms by (cases p; auto simp: user_rights_def caller_actions_def Let_def split: option.splits if_splits)+

text \<open>
  C24. The API and the token service give the same rights on a repository: for a repository of an ordinary organization that the API shows, a caller may
  write through the API exactly when a registry token for the same credential would allow pushing, and delete images exactly when it would allow deleting,
  with roles, grants, teams, the scope and the restriction of a token and the permission of a service account all taken into account.
\<close>

theorem api_matches_token_service:
  assumes "keys_unique d" and "\<And>m. m \<in> set (db_members d) \<Longrightarrow> mem_role m \<noteq> []"
    and "loadRepo d c slug name = Inr a" and "\<not> oa_proxy a" and "CHR ''/'' \<notin> set name" and "repo_id (ra_repo a) \<noteq> []"
  shows "allowedRepositoryActions url_host d (ai_caller c) slug name [RPush, RDelete] =
    (if ra_write a then [RPush] else []) @ (if ra_delete a then [RDelete] else [])"
proof -
  note row = loadRepo_row [OF assms(1,3)]
  let ?g = "oa_org a" and ?r = "ra_repo a"
  have plain: "find_proxy d (org_id ?g) = None" using assms(4) row(8) by (simp add: isProxyOrg_def)
  have "find_org d slug = Some ?g"
    unfolding find_org_def row(4) [symmetric] using assms(1) row(2) by (intro find_key) (auto simp: keys_unique_def)
  moreover have "find (\<lambda>r. (repo_organizationId r, repo_name r) = (repo_organizationId ?r, repo_name ?r)) (db_repositories d) = Some ?r"
    using assms(1) row(1) by (intro find_key) (auto simp: keys_unique_def)
  then have "find_repo d (org_id ?g) name = Some ?r" by (simp add: find_repo_def row(3,5))
  ultimately have allowed: "allowedRepositoryActions url_host d (ai_caller c) slug name [RPush, RDelete] =
      filter (\<lambda>x. x \<in> set (caller_actions d (ai_caller c) ?g (Some ?r) (Some (repo_visibility ?r)))) [RPush, RDelete]"
    using plain assms(5) by (simp add: allowedRepositoryActions_def Let_def repo_visibility_for_def)
  have rights: "user_rights d (ai_caller c) (api_orgRole d c (org_id ?g)) ?g ?r = (ra_manage a, ra_delete a, ra_write a)"
    using row(9) assms(4) row(8) by (auto split: prod.splits)
  have "(RPush \<in> set (caller_actions d (ai_caller c) ?g (Some ?r) (Some (repo_visibility ?r))) \<longleftrightarrow> ra_write a) \<and>
      (RDelete \<in> set (caller_actions d (ai_caller c) ?g (Some ?r) (Some (repo_visibility ?r))) \<longleftrightarrow> ra_delete a)"
  proof (cases "ai_caller c")
    case Anonymous
    then show ?thesis using rights by (auto simp: user_rights_def caller_actions_def)
  next
    case (CallerUser u adm scope rs)
    have role: "api_orgRole d c (org_id ?g) =
        (if adm then Some ''owner'' else map_option mem_role (find (\<lambda>m. mem_organizationId m = org_id ?g \<and> mem_userId m = u) (db_members d)))"
      by (simp add: api_orgRole_def CallerUser)
    show ?thesis using user_agree [OF assms(2) assms(6) role rights [unfolded CallerUser]] by (simp add: CallerUser)
  next
    case (CallerSa i org p ids)
    show ?thesis using sa_agree [OF rights [unfolded CallerSa]] by (simp add: CallerSa)
  qed
  then show ?thesis unfolding allowed by simp
qed

lemma user_pull:
  assumes "RPull \<in> set (caller_actions d (CallerUser u adm scope rs) g (Some r) vis)"
  shows "RPull \<in> set (user_actions d u adm g (Some r) vis) \<and> restrictionAllows rs (org_id g) (Some (repo_id r))"
proof -
  have "rs \<noteq> None" if "\<not> restrictionAllows rs (org_id g) (Some (repo_id r))" using that by (cases rs) (simp_all add: restrictionAllows_def)
  then show ?thesis using assms
    by (cases "restrictionAllows rs (org_id g) (Some (repo_id r))"; cases "scope = Some ScopeRead") (simp_all add: caller_actions_def Let_def)
qed

text \<open>
  What the token service lets a caller pull, the API shows.
\<close>

theorem pullable_visible:
  assumes "keys_unique d" and "identity_ok c" and "find_org d slug = Some g" and "find_proxy d (org_id g) = None" and "find_repo d (org_id g) name = Some r"
    and "RPull \<in> set (allowedRepositoryActions url_host d (ai_caller c) slug name [RPull])"
  shows "\<exists>a. loadRepo d c slug name = Inr a \<and> ra_repo a = r"
proof -
  have g: "g \<in> set (db_organizations d)" "org_slug g = slug" using assms(3) by (auto simp: find_org_def dest: find_SomeD)
  have r: "r \<in> set (db_repositories d)" "repo_organizationId r = org_id g" "repo_name r = name" using assms(5) by (auto simp: find_repo_def dest: find_SomeD)
  have act: "RPull \<in> set (caller_actions d (ai_caller c) g (Some r) (Some (repo_visibility r)))"
    using assms(3-6) by (auto simp: allowedRepositoryActions_def Let_def repo_visibility_for_def split: if_splits)
  have "repoFilter d c r"
  proof (cases "ai_caller c")
    case Anonymous
    then show ?thesis using act by (auto simp: repoFilter_def caller_actions_def split: if_splits)
  next
    case (CallerUser u adm scope rs)
    have "RPull \<in> set (user_actions d u adm g (Some r) (Some (repo_visibility r)))" and ok: "restrictionAllows rs (org_id g) (Some (repo_id r))"
      using user_pull [OF act [unfolded CallerUser]] by simp_all
    moreover have "user_actions d u adm g (Some r) (Some (repo_visibility r)) = []"
      if "repo_visibility r \<noteq> Public" "\<not> adm" "find (\<lambda>m. mem_organizationId m = org_id g \<and> mem_userId m = u) (db_members d) = None"
      using that by (simp add: user_actions_def Let_def)
    ultimately have "repo_visibility r = Public \<or> adm \<or> find (\<lambda>m. mem_organizationId m = org_id g \<and> mem_userId m = u) (db_members d) \<noteq> None" by fastforce
    then have "repo_visibility r = Public \<or> adm \<or> is_member d (org_id g) u" by (auto simp: is_member_def list_ex_iff dest: find_SomeD)
    moreover have "case rs of None \<Rightarrow> True | Some t \<Rightarrow> within_list (tr_organizationId t) (tr_repositoryIds t) r"
      using ok by (auto simp: restrictionAllows_def within_list_def r(2) split: option.splits if_splits)
    ultimately show ?thesis using assms(2) by (auto simp: repoFilter_def CallerUser identity_ok_def visibleRepositoriesFilter_def r(2))
  next
    case (CallerSa i org p ids)
    then show ?thesis using act by (auto simp: repoFilter_def caller_actions_def within_list_def r(2) split: if_splits option.splits)
  qed
  then show ?thesis using loadRepo_found [OF assms(1) r(1) g(1)] r g by auto
qed

section \<open>Examples\<close>

definition api_example_env :: api_env where
  "api_example_env = \<lparr>ae_base64 = id, ae_hash = id, ae_hmac = (\<lambda>t i a n. Inl ''no''), ae_issuer = ''reg'', ae_parse = (\<lambda>t. Inr (JObj []))\<rparr>"

definition api_example_db :: db where
  "api_example_db = hook_example_db\<lparr>
     db_organizations := [hook_example_org],
     db_repositories := [hook_example_repo\<lparr>repo_name := ''app''\<rparr>],
     db_users := [\<lparr>u_id = ''u'', u_name = ''Ada'', u_email = ''ada@example.org'', u_emailVerified = True, u_image = None, u_createdAt = 0, u_updatedAt = 0,
       u_twoFactorEnabled = None, u_role = None, u_banned = None, u_banReason = None, u_banExpires = None\<rparr>],
     db_members := [\<lparr>mem_id = ''m'', mem_organizationId = ''o'', mem_userId = ''u'', mem_role = ''owner'', mem_createdAt = 0\<rparr>],
     db_accessTokens := [\<lparr>pat_id = ''p'', pat_userId = ''u'', pat_name = ''cli'', pat_tokenHash = ''chc_pat_1'', pat_tokenPrefix = ''chc'', pat_scope = ScopeRead, pat_createdAt = 0,
       pat_expiresAt = None, pat_lastUsedAt = None, pat_lastUsedIp = None, pat_description = [], pat_organizationId = None, pat_repositoryIds = None\<rparr>]\<rparr>"

definition api_example_reader :: api_identity where
  "api_example_reader = \<lparr>ai_via = ''token'', ai_viewer = ViewUser ''u'' False, ai_caller = CallerUser ''u'' False (Some ScopeRead) None\<rparr>"

definition api_example_owner :: api_identity where
  "api_example_owner = \<lparr>ai_via = ''session'', ai_viewer = ViewUser ''u'' False, ai_caller = CallerUser ''u'' False None None\<rparr>"

lemma api_example_token: "fst (authenticate api_example_env 9 (Some ''Bearer chc_pat_1'') session None api_example_db) = Inr api_example_reader"
  by (cases session) code_simp+

lemma api_example_keys: "keys_unique api_example_db"
  by code_simp

theorem credential_never_ignored_witness:
  "fst (authenticate api_example_env 9 (Some ''Bearer chc_pat_1'') (Some \<lparr>ss_userId = ''x'', ss_role = Some ''admin''\<rparr>) None api_example_db) = Inr api_example_reader"
proof -
  have "truthy (Some ''Bearer chc_pat_1'')" by (simp add: truthy_def)
  from credential_never_ignored [OF this, of api_example_env 9 "Some \<lparr>ss_userId = ''x'', ss_role = Some ''admin''\<rparr>" None api_example_db None] show ?thesis
    by (simp add: api_example_token)
qed

definition api_example_access :: repo_access where
  "api_example_access = \<lparr>oa_org = hook_example_org, oa_role = Some ''owner'', oa_proxy = False, ra_repo = hook_example_repo\<lparr>repo_name := ''app''\<rparr>,
     ra_manage = False, ra_delete = False, ra_write = False\<rparr>"

lemma api_example_load: "loadRepo api_example_db api_example_reader ''acme'' ''app'' = Inr api_example_access"
  by code_simp

theorem api_hides_private_witness: "may_see api_example_db (CallerUser ''u'' False (Some ScopeRead) None) (hook_example_repo\<lparr>repo_name := ''app''\<rparr>)"
  using api_hides_private [OF api_example_keys api_example_token [of None] api_example_load] by (simp add: api_example_access_def api_example_reader_def)

theorem api_matches_token_service_witness:
  "allowedRepositoryActions (\<lambda>h. None) api_example_db (ai_caller api_example_reader) ''acme'' ''app'' [RPush, RDelete] = []"
proof -
  have roles: "mem_role m \<noteq> []" if "m \<in> set (db_members api_example_db)" for m using that by (auto simp: api_example_db_def)
  show ?thesis
    using api_matches_token_service [OF api_example_keys roles api_example_load, of "\<lambda>h. None"] by (simp add: api_example_access_def hook_example_repo_def)
qed

theorem pullable_visible_witness: "\<exists>a. loadRepo api_example_db api_example_owner ''acme'' ''app'' = Inr a \<and> ra_repo a = hook_example_repo\<lparr>repo_name := ''app''\<rparr>"
proof -
  have 1: "identity_ok api_example_owner" by code_simp
  have 2: "find_org api_example_db ''acme'' = Some hook_example_org" by code_simp
  have 3: "find_proxy api_example_db (org_id hook_example_org) = None" by code_simp
  have 4: "find_repo api_example_db (org_id hook_example_org) ''app'' = Some (hook_example_repo\<lparr>repo_name := ''app''\<rparr>)" by code_simp
  have 5: "RPull \<in> set (allowedRepositoryActions (\<lambda>h. None) api_example_db (ai_caller api_example_owner) ''acme'' ''app'' [RPull])" by code_simp
  show ?thesis by (rule pullable_visible [OF api_example_keys 1 2 3 4 5])
qed

end
