(* ===== verification/Api_Endpoints.thy ===== *)
theory Api_Endpoints
  imports Api_Access Notify
begin

text \<open>
  The endpoints of the REST API that change organizations, members, teams and repositories (\<open>web/src/app/api/v1/orgs/[org]/\<close> and \<open>repos/[org]/[repo]/\<close>, the bodies of
  \<open>api/respond.ts\<close>, the wrapper \<open>api/handler.ts\<close>). An endpoint gives the error it throws, if any, and the state after it; the documents it answers with, audit entries and
  the re-verification of signatures after a membership change are left out. Path parameters are the decoded ones, the user's own default visibility is an argument,
  and the registry is the parameter of the tag administration. The theorems: a
  read-only token changes nothing in a repository; every organization keeps an owner; a request that ends in an error has changed nothing. Three lemmas show where the
  organization endpoints do less than the pages: they never look at the scope of a token, and removing a member leaves the seats in teams.
\<close>

section \<open>Requests\<close>

definition requireUser :: "api_identity \<Rightarrow> api_failure option" where
  "requireUser c = (case ai_caller c of
       Anonymous \<Rightarrow> Some (unauthorized ''Authentication required.'')
     | CallerSa _ _ _ _ \<Rightarrow> Some (forbidden ''Service accounts cannot use this endpoint; use a personal access token.'')
     | CallerUser _ _ _ _ \<Rightarrow> None)"

definition readJson :: "api_env \<Rightarrow> string \<Rightarrow> api_failure + json" where
  "readJson E text =
     (if js_trim text = [] then Inr (JObj [])
      else (case ae_parse E text of
          Inl _ \<Rightarrow> Inl (badRequest ''The request body is not valid JSON.'')
        | Inr (JObj kvs) \<Rightarrow> Inr (JObj kvs)
        | Inr _ \<Rightarrow> Inl (badRequest ''The request body must be a JSON object.'')))"

definition quoted :: "string \<Rightarrow> string" where
  "quoted key = [CHR 0x22] @ key @ [CHR 0x22]"

definition stringField :: "json \<Rightarrow> string \<Rightarrow> nat \<Rightarrow> api_failure + string option" where
  "stringField body key maxLength = (case json_prop (Some body) key of
       None \<Rightarrow> Inr None
     | Some JNull \<Rightarrow> Inr None
     | Some (JStr v) \<Rightarrow>
         if maxLength < length v then Inl (unprocessable (quoted key @ '' is longer than '' @ show_nat maxLength @ '' characters.'')) else Inr (Some (js_trim v))
     | Some _ \<Rightarrow> Inl (unprocessable (quoted key @ '' must be a string.'')))"

definition enumField :: "json \<Rightarrow> string \<Rightarrow> string list \<Rightarrow> api_failure + string option" where
  "enumField body key values = (case json_prop (Some body) key of
       None \<Rightarrow> Inr None
     | Some JNull \<Rightarrow> Inr None
     | Some (JStr v) \<Rightarrow> if v \<in> set values then Inr (Some v) else Inl (unprocessable (quoted key @ '' must be one of '' @ join_with '', '' values @ ''.''))
     | Some _ \<Rightarrow> Inl (unprocessable (quoted key @ '' must be one of '' @ join_with '', '' values @ ''.'')))"

definition requireDigest :: "string \<Rightarrow> api_failure + string" where
  "requireDigest v =
     (let digest = js_lower (js_trim v) in
      if starts_with digest ''sha256:'' \<and> length digest = 71 \<and> list_all (\<lambda>c. c \<in> set ''0123456789abcdef'') (drop 7 digest) then Inr digest
      else Inl (badRequest ''The digest must look like sha256:<64 hex characters>.''))"

section \<open>The wrapper\<close>

definition limit_caller :: "api_identity \<Rightarrow> api_caller" where
  "limit_caller c = (case ai_caller c of CallerUser u adm _ _ \<Rightarrow> ApiUser u adm | CallerSa i _ _ _ \<Rightarrow> ApiSa i | Anonymous \<Rightarrow> ApiAnonymous)"

definition route :: "api_env \<Rightarrow> ratelimit_settings \<Rightarrow> bool \<Rightarrow> millis \<Rightarrow> string option \<Rightarrow> api_session option \<Rightarrow> string option \<Rightarrow>
    (api_identity \<Rightarrow> db \<Rightarrow> api_failure option \<times> db) \<Rightarrow> millis \<times> db \<Rightarrow> api_failure option \<times> millis \<times> db" where
  \<comment> \<open>the state is the time of the last pruning of counters and the database; headers, entity tags and statistics are left out\<close>
  "route E S apiEnabled now header session ip fn st =
     (if \<not> apiEnabled then (Some (ApiFailure ''api_disabled'' ''The REST API is switched off on this registry.''), st)
      else (case authenticate E now header session ip (snd st) of
          (Inl f, d) \<Rightarrow> (Some f, fst st, d)
        | (Inr c, d) \<Rightarrow>
          (case checkApiRateLimit S (limit_caller c) ip now (fst st, d) of
             (Inl retryAfter, st') \<Rightarrow> (Some (ApiFailure ''rate_limited'' (''Too many requests. Try again in '' @ show_int retryAfter @ '' s.'')), st')
           | (Inr _, st') \<Rightarrow> (let (f, d') = fn c (snd st') in (f, fst st', d')))))"

section \<open>Organizations and their members\<close>

definition instance_admin :: "api_identity \<Rightarrow> bool" where
  "instance_admin c = (case ai_caller c of CallerUser _ adm _ _ \<Rightarrow> adm | _ \<Rightarrow> False)"

definition requireOwnerFor :: "api_identity \<Rightarrow> org_access \<Rightarrow> string \<Rightarrow> api_failure option" where
  "requireOwnerFor c a what =
     (if oa_role a \<noteq> Some ''owner'' \<and> \<not> instance_admin c then Some (forbidden (''Only organization owners can '' @ what @ ''.'')) else None)"

definition requireOwner :: "api_identity \<Rightarrow> org_access \<Rightarrow> string \<Rightarrow> api_failure option" where
  "requireOwner c a what = (case requireOrgManager c a what of Some f \<Rightarrow> Some f | None \<Rightarrow> requireOwnerFor c a what)"

definition orgs_PATCH :: "api_env \<Rightarrow> string \<Rightarrow> string \<Rightarrow> api_identity \<Rightarrow> db \<Rightarrow> api_failure option \<times> db" where
  "orgs_PATCH E org text c d = (case loadOrg d c org of
       Inl f \<Rightarrow> (Some f, d)
     | Inr a \<Rightarrow> (case requireOwner c a ''rename the organization'' of
         Some f \<Rightarrow> (Some f, d)
       | None \<Rightarrow> (case readJson E text of
           Inl f \<Rightarrow> (Some f, d)
         | Inr body \<Rightarrow> (case stringField body ''name'' 100 of
             Inl f \<Rightarrow> (Some f, d)
           | Inr name \<Rightarrow>
             if \<not> truthy name then (Some (unprocessable (quoted ''name'' @ '' is required.'')), d)
             else (None, d\<lparr>db_organizations := map (\<lambda>g. if org_id g = org_id (oa_org a) then g\<lparr>org_name := the name\<rparr> else g) (db_organizations d)\<rparr>)))))"

definition drop_organization :: "string \<Rightarrow> db \<Rightarrow> db" where
  \<comment> \<open>the row and what references it with \<open>ON DELETE CASCADE\<close>, the repositories with what hangs on them\<close>
  "drop_organization g d0 =
     (let d = fold drop_repository (map repo_id (filter (\<lambda>r. repo_organizationId r = g) (db_repositories d0))) d0
      in d\<lparr>db_organizations := filter (\<lambda>x. org_id x \<noteq> g) (db_organizations d),
        db_members := filter (\<lambda>x. mem_organizationId x \<noteq> g) (db_members d),
        db_invitations := filter (\<lambda>x. inv_organizationId x \<noteq> g) (db_invitations d),
        db_teamMembers := filter (\<lambda>x. \<not> list_ex (\<lambda>t. team_id t = tm_teamId x \<and> team_organizationId t = g) (db_teams d)) (db_teamMembers d),
        db_teams := filter (\<lambda>x. team_organizationId x \<noteq> g) (db_teams d),
        db_serviceAccounts := filter (\<lambda>x. sa_organizationId x \<noteq> g) (db_serviceAccounts d),
        db_accessTokens := filter (\<lambda>x. pat_organizationId x \<noteq> Some g) (db_accessTokens d),
        db_orgLimits := filter (\<lambda>x. ol_organizationId x \<noteq> g) (db_orgLimits d),
        db_orgSettings := filter (\<lambda>x. os_organizationId x \<noteq> g) (db_orgSettings d),
        db_proxies := filter (\<lambda>x. op_organizationId x \<noteq> g) (db_proxies d),
        db_tagRules := filter (\<lambda>x. rule_organizationId x \<noteq> g) (db_tagRules d),
        db_retentionPolicies := filter (\<lambda>x. rp_organizationId x \<noteq> g) (db_retentionPolicies d),
        db_orgRedirects := filter (\<lambda>x. or_organizationId x \<noteq> g) (db_orgRedirects d),
        db_exceptions := filter (\<lambda>x. ve_organizationId x \<noteq> g) (db_exceptions d),
        db_ciIdentities := filter (\<lambda>x. ci_organizationId x \<noteq> g) (db_ciIdentities d),
        db_webhookDeliveries := filter (\<lambda>x. \<not> list_ex (\<lambda>h. wh_id h = wd_webhookId x \<and> wh_organizationId h = Some g) (db_webhooks d)) (db_webhookDeliveries d),
        db_webhooks := filter (\<lambda>h. wh_organizationId h \<noteq> Some g) (db_webhooks d)\<rparr>)"

definition orgs_DELETE :: "string \<Rightarrow> api_identity \<Rightarrow> db \<Rightarrow> api_failure option \<times> db" where
  "orgs_DELETE org c d = (case loadOrg d c org of
       Inl f \<Rightarrow> (Some f, d)
     | Inr a \<Rightarrow> (case requireOwner c a ''delete the organization'' of
         Some f \<Rightarrow> (Some f, d)
       | None \<Rightarrow>
         if org_slug (oa_org a) = LIBRARY_SLUG then (Some (forbidden ''The library organization cannot be deleted.''), d)
         else (None, drop_organization (org_id (oa_org a)) d)))"

definition ownerCount :: "db \<Rightarrow> string \<Rightarrow> nat" where
  "ownerCount d organizationId = length (filter (\<lambda>m. mem_organizationId m = organizationId \<and> mem_role m = ''owner'') (db_members d))"

definition member_target :: "db \<Rightarrow> org_access \<Rightarrow> string \<Rightarrow> api_failure + org_member" where
  "member_target d a userId =
     (case find (\<lambda>m. mem_organizationId m = org_id (oa_org a) \<and> mem_userId m = userId \<and> list_ex (\<lambda>u. u_id u = mem_userId m) (db_users d)) (db_members d) of
        None \<Rightarrow> Inl (notFound ''No such member.'') | Some m \<Rightarrow> Inr m)"

definition API_ROLES :: "string list" where
  \<comment> \<open>\<open>ORG_ROLE_NAMES\<close>\<close>
  "API_ROLES = [''owner'', ''admin'', ''member'', ''viewer'']"

definition last_owner :: string where
  "last_owner = ''The organization needs at least one owner; make someone else an owner first.''"

definition set_role :: "db \<Rightarrow> api_identity \<Rightarrow> org_access \<Rightarrow> org_member \<Rightarrow> string \<Rightarrow> api_failure option \<times> db" where
  \<comment> \<open>the rest of \<open>PATCH\<close> once the role is known\<close>
  "set_role d c a m role =
     (if (role = ''owner'' \<or> mem_role m = ''owner'') \<and> requireOwnerFor c a ''change who owns the organization'' \<noteq> None
      then (requireOwnerFor c a ''change who owns the organization'', d)
      else if mem_role m = ''owner'' \<and> role \<noteq> ''owner'' \<and> ownerCount d (org_id (oa_org a)) \<le> 1 then (Some (conflict last_owner), d)
      else if mem_role m \<noteq> role then (None, d\<lparr>db_members := map (\<lambda>x. if mem_id x = mem_id m then x\<lparr>mem_role := role\<rparr> else x) (db_members d)\<rparr>)
      else (None, d))"

definition members_PATCH :: "api_env \<Rightarrow> string \<Rightarrow> string \<Rightarrow> string \<Rightarrow> api_identity \<Rightarrow> db \<Rightarrow> api_failure option \<times> db" where
  "members_PATCH E org userId text c d = (case loadOrg d c org of
       Inl f \<Rightarrow> (Some f, d)
     | Inr a \<Rightarrow> (case requireOrgManager c a ''change member roles'' of
         Some f \<Rightarrow> (Some f, d)
       | None \<Rightarrow> (case member_target d a userId of
           Inl f \<Rightarrow> (Some f, d)
         | Inr m \<Rightarrow> (case readJson E text of
             Inl f \<Rightarrow> (Some f, d)
           | Inr body \<Rightarrow> (case enumField body ''role'' API_ROLES of
               Inl f \<Rightarrow> (Some f, d)
             | Inr None \<Rightarrow> (Some (conflict (quoted ''role'' @ '' is required: one of '' @ join_with '', '' API_ROLES @ ''.'')), d)
             | Inr (Some role) \<Rightarrow> set_role d c a m role)))))"

definition members_DELETE :: "string \<Rightarrow> string \<Rightarrow> api_identity \<Rightarrow> db \<Rightarrow> api_failure option \<times> db" where
  "members_DELETE org userId c d = (case loadOrg d c org of
       Inl f \<Rightarrow> (Some f, d)
     | Inr a \<Rightarrow> (case requireOrgManager c a ''remove members'' of
         Some f \<Rightarrow> (Some f, d)
       | None \<Rightarrow> (case member_target d a userId of
           Inl f \<Rightarrow> (Some f, d)
         | Inr m \<Rightarrow>
           if mem_role m = ''owner'' \<and> requireOwnerFor c a ''remove an owner'' \<noteq> None then (requireOwnerFor c a ''remove an owner'', d)
           else if mem_role m = ''owner'' \<and> ownerCount d (org_id (oa_org a)) \<le> 1 then (Some (conflict last_owner), d)
           else (None, d\<lparr>db_members := filter (\<lambda>x. mem_id x \<noteq> mem_id m) (db_members d)\<rparr>))))"

section \<open>Teams\<close>

definition caller_user :: "api_identity \<Rightarrow> string option" where
  "caller_user c = (case ai_caller c of CallerUser u _ _ _ \<Rightarrow> Some u | _ \<Rightarrow> None)"

definition three_fields :: "json \<Rightarrow> api_failure + string option \<times> string option \<times> string option" where
  \<comment> \<open>the fields of a team, in the order they are read\<close>
  "three_fields body = (case stringField body ''name'' 64 of
       Inl f \<Rightarrow> Inl f
     | Inr name \<Rightarrow> (case stringField body ''slug'' 64 of
         Inl f \<Rightarrow> Inl f
       | Inr slug \<Rightarrow> (case stringField body ''description'' 200 of Inl f \<Rightarrow> Inl f | Inr description \<Rightarrow> Inr (name, slug, description))))"

definition with_error :: "(string \<Rightarrow> api_failure) \<Rightarrow> (string + 'a) \<times> db \<Rightarrow> api_failure option \<times> db" where
  \<comment> \<open>\<open>if (res.error !== undefined) throw ...\<close>\<close>
  "with_error f r = ((case fst r of Inl e \<Rightarrow> Some (f e) | Inr _ \<Rightarrow> None), snd r)"

definition teams_POST :: "api_env \<Rightarrow> string \<Rightarrow> millis \<Rightarrow> string \<Rightarrow> string \<Rightarrow> api_identity \<Rightarrow> db \<Rightarrow> api_failure option \<times> db" where
  "teams_POST E newId now org text c d = (case loadOrg d c org of
       Inl f \<Rightarrow> (Some f, d)
     | Inr a \<Rightarrow> (case requireOrgManager c a ''create teams'' of
         Some f \<Rightarrow> (Some f, d)
       | None \<Rightarrow> (case readJson E text of
           Inl f \<Rightarrow> (Some f, d)
         | Inr body \<Rightarrow> (case stringField body ''name'' 64 of
             Inl f \<Rightarrow> (Some f, d)
           | Inr name \<Rightarrow>
             if \<not> truthy name then (Some (unprocessable (quoted ''name'' @ '' is required.'')), d)
             else (case three_fields body of
                 Inl f \<Rightarrow> (Some f, d)
               | Inr (n, slug, description) \<Rightarrow>
                   with_error unprocessable (createTeam newId now (org_id (oa_org a)) (the name) slug description (caller_user c) d))))))"

definition on_team :: "string \<Rightarrow> string \<Rightarrow> string \<Rightarrow> api_identity \<Rightarrow> (org_access \<Rightarrow> team \<Rightarrow> api_failure option \<times> db) \<Rightarrow> db \<Rightarrow> api_failure option \<times> db" where
  \<comment> \<open>the beginning the team endpoints share: organization, manager, \<open>teamDetail\<close>\<close>
  "on_team org team what c k d = (case loadOrg d c org of
       Inl f \<Rightarrow> (Some f, d)
     | Inr a \<Rightarrow> (case requireOrgManager c a what of
         Some f \<Rightarrow> (Some f, d)
       | None \<Rightarrow> (case findTeam d (org_id (oa_org a)) team of
           None \<Rightarrow> (Some (notFound ''No such team.''), d)
         | Some t \<Rightarrow> k a t)))"

definition team_PATCH :: "api_env \<Rightarrow> string \<Rightarrow> string \<Rightarrow> string \<Rightarrow> api_identity \<Rightarrow> db \<Rightarrow> api_failure option \<times> db" where
  "team_PATCH E org team text c d = on_team org team ''change teams'' c (\<lambda>a t. case readJson E text of
       Inl f \<Rightarrow> (Some f, d)
     | Inr body \<Rightarrow> (case three_fields body of
         Inl f \<Rightarrow> (Some f, d)
       | Inr (name, slug, description) \<Rightarrow> with_error unprocessable (updateTeam (org_id (oa_org a)) (team_id t) name slug description d))) d"

definition team_DELETE :: "string \<Rightarrow> string \<Rightarrow> api_identity \<Rightarrow> db \<Rightarrow> api_failure option \<times> db" where
  "team_DELETE org team c d = on_team org team ''delete teams'' c (\<lambda>a t. with_error notFound (deleteTeam (org_id (oa_org a)) (team_id t) d)) d"

definition team_members_PUT :: "millis \<Rightarrow> string \<Rightarrow> string \<Rightarrow> string \<Rightarrow> api_identity \<Rightarrow> db \<Rightarrow> api_failure option \<times> db" where
  "team_members_PUT now org team userId c d =
     on_team org team ''change teams'' c (\<lambda>a t. with_error unprocessable (addTeamMember now (org_id (oa_org a)) (team_id t) userId (caller_user c) d)) d"

definition team_members_DELETE :: "string \<Rightarrow> string \<Rightarrow> string \<Rightarrow> api_identity \<Rightarrow> db \<Rightarrow> api_failure option \<times> db" where
  "team_members_DELETE org team userId c d =
     on_team org team ''change teams'' c (\<lambda>a t. with_error notFound (removeTeamMember (org_id (oa_org a)) (team_id t) userId d)) d"

section \<open>Invitations and service accounts\<close>

definition INVITATION_TTL_MS :: millis where "INVITATION_TTL_MS = 48 * 3600 * 1000"

definition EMAIL_RE :: "string \<Rightarrow> bool" where
  \<comment> \<open>\<open>^[^\s@]+@[^\s@]+\.[^\s@]+$\<close>: one at sign, and a dot inside what follows\<close>
  "EMAIL_RE s = (case split_on (CHR ''@'') s of
       [name, host] \<Rightarrow> name \<noteq> [] \<and> list_all (\<lambda>c. \<not> js_ws c) s \<and> CHR ''.'' \<in> set (butlast (tl host))
     | _ \<Rightarrow> False)"

definition new_invitation :: "string \<Rightarrow> millis \<Rightarrow> string \<Rightarrow> string \<Rightarrow> string \<Rightarrow> string \<Rightarrow> invitation" where
  "new_invitation i now organizationId email role inviter = \<lparr>inv_id = i, inv_organizationId = organizationId, inv_email = email, inv_role = Some role,
     inv_status = ''pending'', inv_expiresAt = now + INVITATION_TTL_MS, inv_createdAt = now, inv_inviterId = inviter\<rparr>"

definition invitations_POST :: "api_env \<Rightarrow> string \<Rightarrow> millis \<Rightarrow> string \<Rightarrow> string \<Rightarrow> api_identity \<Rightarrow> db \<Rightarrow> api_failure option \<times> db" where
  "invitations_POST E newId now org text c d = (case loadOrg d c org of
       Inl f \<Rightarrow> (Some f, d)
     | Inr a \<Rightarrow> (case requireOrgManager c a ''invite members'' of
         Some f \<Rightarrow> (Some f, d)
       | None \<Rightarrow> (case requireUser c of
           Some f \<Rightarrow> (Some f, d)
         | None \<Rightarrow> (case readJson E text of
             Inl f \<Rightarrow> (Some f, d)
           | Inr body \<Rightarrow> (case stringField body ''email'' 254 of
               Inl f \<Rightarrow> (Some f, d)
             | Inr given \<Rightarrow>
               (let email = js_lower (nullish given []); g = org_id (oa_org a) in
                if \<not> EMAIL_RE email then (Some (unprocessable (quoted ''email'' @ '' must be an email address.'')), d)
                else (case enumField body ''role'' API_ROLES of
                    Inl f \<Rightarrow> (Some f, d)
                  | Inr chosen \<Rightarrow>
                    (let role = nullish chosen ''member'' in
                     if role = ''owner'' \<and> oa_role a \<noteq> Some ''owner'' \<and> \<not> instance_admin c then (Some (forbidden ''Only organization owners can invite owners.''), d)
                     else (case checkMemberQuota d now g True (Some (org_name (oa_org a))) of
                         Some q \<Rightarrow> (Some (QuotaFailure ''forbidden'' q), d)
                       | None \<Rightarrow>
                         if (case find (\<lambda>u. u_email u = email) (db_users d) of None \<Rightarrow> False | Some u \<Rightarrow> is_member d g (u_id u))
                         then (Some (conflict (email @ '' is already a member.'')), d)
                         else (case find (\<lambda>i. inv_organizationId i = g \<and> inv_email i = email \<and> inv_status i = ''pending'') (db_invitations d) of
                             Some i \<Rightarrow>
                               if now < inv_expiresAt i then (Some (conflict (email @ '' already has a pending invitation ('' @ inv_id i @ '').'')), d)
                               else (None, d\<lparr>db_invitations := db_invitations d @ [new_invitation newId now g email role (nullish (caller_user c) [])]\<rparr>)
                           | None \<Rightarrow> (None, d\<lparr>db_invitations := db_invitations d @ [new_invitation newId now g email role (nullish (caller_user c) [])]\<rparr>)))))))))))"

definition invitations_DELETE :: "string \<Rightarrow> string \<Rightarrow> api_identity \<Rightarrow> db \<Rightarrow> api_failure option \<times> db" where
  "invitations_DELETE org i c d = (case loadOrg d c org of
       Inl f \<Rightarrow> (Some f, d)
     | Inr a \<Rightarrow> (case requireOrgManager c a ''cancel invitations'' of
         Some f \<Rightarrow> (Some f, d)
       | None \<Rightarrow> (case find (\<lambda>x. inv_id x = i \<and> inv_organizationId x = org_id (oa_org a)) (db_invitations d) of
           None \<Rightarrow> (Some (notFound ''No such pending invitation.''), d)
         | Some row \<Rightarrow>
           if inv_status row \<noteq> ''pending'' then (Some (notFound ''No such pending invitation.''), d)
           else (None, d\<lparr>db_invitations := map (\<lambda>x. if inv_id x = inv_id row then x\<lparr>inv_status := ''canceled''\<rparr> else x) (db_invitations d)\<rparr>))))"

definition expiryFromBody :: "(string \<Rightarrow> js_date) \<Rightarrow> token_expiry_policy \<Rightarrow> millis \<Rightarrow> json \<Rightarrow> api_failure + millis option" where
  \<comment> \<open>an invalid date cannot be stored: the insertion fails\<close>
  "expiryFromBody parse_date policy now body =
     (let given = (case coalesce (json_prop (Some body) ''expiresInDays'') None of
            Some (JNum n) \<Rightarrow> if n \<le> 0 then Inl (unprocessable (quoted ''expiresInDays'' @ '' must be a positive whole number.'')) else Inr (show_int n, [])
          | Some _ \<Rightarrow> Inl (unprocessable (quoted ''expiresInDays'' @ '' must be a positive whole number.''))
          | None \<Rightarrow> (case coalesce (json_prop (Some body) ''expiresAt'') None of
              None \<Rightarrow> Inr (''never'', [])
            | Some (JStr s) \<Rightarrow> Inr (''custom'', s)
            | Some _ \<Rightarrow> Inl (unprocessable (quoted ''expiresAt'' @ '' must be an ISO date.''))))
      in case given of
           Inl f \<Rightarrow> Inl f
         | Inr (choice, custom) \<Rightarrow> (case resolveExpiry parse_date choice custom policy now of
             Inl e \<Rightarrow> Inl (unprocessable e)
           | Inr None \<Rightarrow> Inr None
           | Inr (Some None) \<Rightarrow> Inl (ApiFailure ''internal'' ''Something went wrong on the server.'')
           | Inr (Some (Some t)) \<Rightarrow> Inr (Some t)))"

datatype repo_list = NoList | BadList | Names "string list"

definition listed_repositories :: "json \<Rightarrow> repo_list" where
  \<comment> \<open>\<open>body.repositories\<close>, without repetitions\<close>
  "listed_repositories body = (case coalesce (json_prop (Some body) ''repositories'') None of
       None \<Rightarrow> NoList
     | Some (JArr xs) \<Rightarrow> if list_all (\<lambda>x. case x of JStr _ \<Rightarrow> True | _ \<Rightarrow> False) xs
         then Names (uniq (map (\<lambda>x. case x of JStr s \<Rightarrow> s | _ \<Rightarrow> []) xs)) else BadList
     | Some _ \<Rightarrow> BadList)"

definition resolve_repositories :: "db \<Rightarrow> string \<Rightarrow> json \<Rightarrow> api_failure + string list option" where
  "resolve_repositories d organizationId body = (case listed_repositories body of
       NoList \<Rightarrow> Inr None
     | BadList \<Rightarrow> Inl (unprocessable (quoted ''repositories'' @ '' must be an array of repository names.''))
     | Names names \<Rightarrow>
       if names = [] then Inr None
       else (let rows = filter (\<lambda>r. repo_organizationId r = organizationId \<and> repo_name r \<in> set names) (db_repositories d);
                 missing = filter (\<lambda>n. n \<notin> set (map repo_name rows)) names
             in if missing \<noteq> [] then Inl (unprocessable (''Unknown repositories: '' @ join_with '', '' missing @ ''.'')) else Inr (Some (map repo_id rows))))"

definition permission_named :: "string \<Rightarrow> repo_permission" where
  "permission_named s = (if s = ''admin'' then PAdmin else if s = ''push'' then PPush else PPull)"

record secret_material =
  \<comment> \<open>what \<open>generateSecret\<close> gives to the row: the hash and the prefix shown in lists\<close>
  sec_hash :: string
  sec_display :: string

definition service_accounts_POST :: "api_env \<Rightarrow> (string \<Rightarrow> js_date) \<Rightarrow> token_expiry_policy \<Rightarrow> secret_material \<Rightarrow> string \<Rightarrow> millis \<Rightarrow> string \<Rightarrow> string \<Rightarrow>
    api_identity \<Rightarrow> db \<Rightarrow> api_failure option \<times> db" where
  "service_accounts_POST E parse_date policy secret newId now org text c d = (case loadOrg d c org of
       Inl f \<Rightarrow> (Some f, d)
     | Inr a \<Rightarrow> (case requireOrgManager c a ''create service accounts'' of
         Some f \<Rightarrow> (Some f, d)
       | None \<Rightarrow> (case requireUser c of
           Some f \<Rightarrow> (Some f, d)
         | None \<Rightarrow> (case readJson E text of
             Inl f \<Rightarrow> (Some f, d)
           | Inr body \<Rightarrow> (case stringField body ''name'' 64 of
               Inl f \<Rightarrow> (Some f, d)
             | Inr given \<Rightarrow>
               (let name = nullish given []; g = org_id (oa_org a) in
                if \<not> NAME_RE name
                then (Some (unprocessable ''Service account names use lowercase letters, digits and single ._- separators (up to 64 characters).''), d)
                else (case stringField body ''description'' 500 of
                    Inl f \<Rightarrow> (Some f, d)
                  | Inr description \<Rightarrow> (case enumField body ''permission'' [''pull'', ''push'', ''admin''] of
                      Inl f \<Rightarrow> (Some f, d)
                    | Inr permission \<Rightarrow> (case expiryFromBody parse_date policy now body of
                        Inl f \<Rightarrow> (Some f, d)
                      | Inr expiry \<Rightarrow> (case resolve_repositories d g body of
                          Inl f \<Rightarrow> (Some f, d)
                        | Inr repositoryIds \<Rightarrow>
                          if list_ex (\<lambda>s. sa_organizationId s = g \<and> sa_name s = name) (db_serviceAccounts d)
                          then (Some (conflict (''A service account named '' @ name @ '' already exists.'')), d)
                          else (None, d\<lparr>db_serviceAccounts := db_serviceAccounts d @
                            [\<lparr>sa_id = newId, sa_organizationId = g, sa_name = name, sa_description = nullish description [], sa_tokenHash = sec_hash secret,
                              sa_tokenPrefix = sec_display secret, sa_permission = permission_named (nullish permission ''pull''), sa_repositoryIds = repositoryIds,
                              sa_createdBy = caller_user c, sa_createdAt = now, sa_expiresAt = expiry, sa_lastUsedAt = None, sa_lastUsedIp = None\<rparr>]\<rparr>)))))))))))"

definition on_service_account :: "string \<Rightarrow> string \<Rightarrow> string \<Rightarrow> api_identity \<Rightarrow> (service_account \<Rightarrow> api_failure option \<times> db) \<Rightarrow> db \<Rightarrow> api_failure option \<times> db" where
  \<comment> \<open>the beginning that deletion and rotation share\<close>
  "on_service_account org i what c k d = (case loadOrg d c org of
       Inl f \<Rightarrow> (Some f, d)
     | Inr a \<Rightarrow> (case requireOrgManager c a what of
         Some f \<Rightarrow> (Some f, d)
       | None \<Rightarrow> (case find (\<lambda>s. sa_id s = i \<and> sa_organizationId s = org_id (oa_org a)) (db_serviceAccounts d) of
           None \<Rightarrow> (Some (notFound ''No such service account.''), d)
         | Some s \<Rightarrow> k s)))"

definition service_account_DELETE :: "string \<Rightarrow> string \<Rightarrow> api_identity \<Rightarrow> db \<Rightarrow> api_failure option \<times> db" where
  "service_account_DELETE org i c d =
     on_service_account org i ''delete service accounts'' c (\<lambda>s. (None, d\<lparr>db_serviceAccounts := filter (\<lambda>x. sa_id x \<noteq> sa_id s) (db_serviceAccounts d)\<rparr>)) d"

definition rotate_POST :: "(string \<Rightarrow> js_date) \<Rightarrow> token_expiry_policy \<Rightarrow> secret_material \<Rightarrow> millis \<Rightarrow> string \<Rightarrow> string \<Rightarrow> api_identity \<Rightarrow> db \<Rightarrow> api_failure option \<times> db" where
  "rotate_POST parse_date policy secret now org i c d =
     on_service_account org i ''rotate service accounts'' c (\<lambda>s.
       case replacementExpiry parse_date (sa_createdAt s) (sa_expiresAt s) policy now of
         Inl e \<Rightarrow> (Some (unprocessable e), d)
       | Inr (Some None) \<Rightarrow> (Some (ApiFailure ''internal'' ''Something went wrong on the server.''), d)
       | Inr expiry \<Rightarrow> (None, d\<lparr>db_serviceAccounts := map (\<lambda>x. if sa_id x = sa_id s
           then x\<lparr>sa_tokenHash := sec_hash secret, sa_tokenPrefix := sec_display secret, sa_expiresAt := Option.bind expiry id, sa_lastUsedAt := None, sa_lastUsedIp := None\<rparr>
           else x) (db_serviceAccounts d)\<rparr>)) d"

section \<open>Repositories\<close>

definition visibility_named :: "string \<Rightarrow> visibility" where
  "visibility_named s = (if s = ''public'' then Public else Private)"

definition defaultVisibility :: "db \<Rightarrow> string \<Rightarrow> visibility option \<Rightarrow> visibility" where
  \<comment> \<open>the last argument is the user's own setting\<close>
  "defaultVisibility d organizationId mine =
     (case Option.bind (find (\<lambda>s. os_organizationId s = organizationId) (db_orgSettings d)) os_defaultVisibility of
        Some v \<Rightarrow> v | None \<Rightarrow> nullish mine Private)"

definition repos_POST :: "api_env \<Rightarrow> notify_env \<Rightarrow> visibility option \<Rightarrow> string \<Rightarrow> millis \<Rightarrow> string \<Rightarrow> string \<Rightarrow> api_identity \<Rightarrow> db \<Rightarrow> api_failure option \<times> db" where
  \<comment> \<open>the quota check runs after the answer, on the state the request left\<close>
  "repos_POST E N mine newId now org text c d = (case loadOrg d c org of
       Inl f \<Rightarrow> (Some f, d)
     | Inr a \<Rightarrow> (case requireOrgWriter c a ''create repositories here'' of
         Some f \<Rightarrow> (Some f, d)
       | None \<Rightarrow>
         if caller_user c = None then (Some (unprocessable ''Only users can create repositories.''), d)
         else (case readJson E text of
             Inl f \<Rightarrow> (Some f, d)
           | Inr body \<Rightarrow> (case stringField body ''name'' 255 of
               Inl f \<Rightarrow> (Some f, d)
             | Inr given \<Rightarrow> (case stringField body ''description'' 1000 of
                 Inl f \<Rightarrow> (Some f, d)
               | Inr description \<Rightarrow> (case enumField body ''visibility'' [''public'', ''private''] of
                   Inl f \<Rightarrow> (Some f, d)
                 | Inr chosen \<Rightarrow>
                   (let name = nullish given []; g = org_id (oa_org a);
                        v = (case chosen of Some s \<Rightarrow> visibility_named s | None \<Rightarrow> defaultVisibility d g mine)
                    in case repoNameProblem name (oa_proxy a) of
                         Some problem \<Rightarrow> (Some (unprocessable problem), d)
                       | None \<Rightarrow>
                         if find_repo d g name \<noteq> None then (Some (conflict (''A repository named '' @ name @ '' already exists.'')), d)
                         else (case checkRepoQuota d g v (org_name (oa_org a)) 0 of
                             Some q \<Rightarrow> (Some (QuotaFailure ''unprocessable'' q), d)
                           | None \<Rightarrow>
                             (let row = \<lparr>repo_id = newId, repo_organizationId = g, repo_name = name, repo_description = nullish description [], repo_visibility = v,
                                   repo_pullCount = 0, repo_blockPullsAt = None, repo_blockUnrated = None, repo_readme = None, repo_logo = None,
                                   repo_requireSignature = None, repo_createdAt = now, repo_updatedAt = now\<rparr>
                              in (None, snd (checkQuotaWarnings N now g
                                    (clearRepositoryRedirects g (org_slug (oa_org a)) name (d\<lparr>db_repositories := db_repositories d @ [row]\<rparr>)))))))))))))"

definition repos_PATCH :: "api_env \<Rightarrow> notify_env \<Rightarrow> millis \<Rightarrow> string \<Rightarrow> string \<Rightarrow> string \<Rightarrow> api_identity \<Rightarrow> db \<Rightarrow> api_failure option \<times> db" where
  "repos_PATCH E N now org repo text c d = (case loadRepo d c org repo of
       Inl f \<Rightarrow> (Some f, d)
     | Inr a \<Rightarrow> (case requireManage c a ''change this repository'' of
         Some f \<Rightarrow> (Some f, d)
       | None \<Rightarrow> (case readJson E text of
           Inl f \<Rightarrow> (Some f, d)
         | Inr body \<Rightarrow> (case stringField body ''description'' 1000 of
             Inl f \<Rightarrow> (Some f, d)
           | Inr description \<Rightarrow> (case enumField body ''visibility'' [''public'', ''private''] of
               Inl f \<Rightarrow> (Some f, d)
             | Inr chosen \<Rightarrow>
               if description = None \<and> chosen = None then (Some (unprocessable (''Send '' @ quoted ''description'' @ '' and/or '' @ quoted ''visibility'' @ ''.'')), d)
               else (let r = ra_repo a; g = org_id (oa_org a); v = (case chosen of Some s \<Rightarrow> visibility_named s | None \<Rightarrow> repo_visibility r);
                         changed = (v \<noteq> repo_visibility r);
                         d' = d\<lparr>db_repositories := map (\<lambda>x. if repo_id x = repo_id r
                           then x\<lparr>repo_description := nullish description (repo_description r), repo_visibility := v, repo_updatedAt := now\<rparr> else x) (db_repositories d)\<rparr>
                     in case (if changed then checkRepoQuota d g v (org_name (oa_org a)) 0 else None) of
                          Some q \<Rightarrow> (Some (QuotaFailure ''unprocessable'' q), d)
                        | None \<Rightarrow> (None, if changed then snd (checkQuotaWarnings N now g d') else d')))))))"

definition repos_DELETE :: "string \<Rightarrow> string \<Rightarrow> api_identity \<Rightarrow> db \<Rightarrow> api_failure option \<times> db" where
  "repos_DELETE org repo c d = (case loadRepo d c org repo of
       Inl f \<Rightarrow> (Some f, d)
     | Inr a \<Rightarrow> (case requireManage c a ''delete this repository'' of
         Some f \<Rightarrow> (Some f, d)
       | None \<Rightarrow> (None, drop_repository (repo_id (ra_repo a)) d)))"

definition subject_named :: "string \<Rightarrow> api_failure + subject_type" where
  \<comment> \<open>\<open>subject(params)\<close>\<close>
  "subject_named s = (if s = ''user'' then Inr SubjUser else if s = ''team'' then Inr SubjTeam
     else Inl (notFound ''The subject is /access/user/{userId} or /access/team/{teamId}.''))"

definition access_PUT :: "api_env \<Rightarrow> string \<Rightarrow> millis \<Rightarrow> string \<Rightarrow> string \<Rightarrow> string \<Rightarrow> string \<Rightarrow> string \<Rightarrow> api_identity \<Rightarrow> db \<Rightarrow> api_failure option \<times> db" where
  "access_PUT E newId now org repo st sid text c d = (case loadRepo d c org repo of
       Inl f \<Rightarrow> (Some f, d)
     | Inr a \<Rightarrow> (case requireManage c a ''change access'' of
         Some f \<Rightarrow> (Some f, d)
       | None \<Rightarrow> (case readJson E text of
           Inl f \<Rightarrow> (Some f, d)
         | Inr body \<Rightarrow> (case enumField body ''permission'' [''pull'', ''push'', ''admin''] of
             Inl f \<Rightarrow> (Some f, d)
           | Inr None \<Rightarrow> (Some (unprocessable (quoted ''permission'' @ '' must be pull, push or admin.'')), d)
           | Inr (Some permission) \<Rightarrow> (case subject_named st of
               Inl f \<Rightarrow> (Some f, d)
             | Inr subject \<Rightarrow> with_error unprocessable
                 (setRepoGrant newId now (repo_id (ra_repo a)) (org_id (oa_org a)) subject sid (permission_named permission) (caller_user c) d))))))"

definition access_DELETE :: "string \<Rightarrow> string \<Rightarrow> string \<Rightarrow> string \<Rightarrow> api_identity \<Rightarrow> db \<Rightarrow> api_failure option \<times> db" where
  "access_DELETE org repo st sid c d = (case loadRepo d c org repo of
       Inl f \<Rightarrow> (Some f, d)
     | Inr a \<Rightarrow> (case requireManage c a ''change access'' of
         Some f \<Rightarrow> (Some f, d)
       | None \<Rightarrow> (case subject_named st of
           Inl f \<Rightarrow> (Some f, d)
         | Inr subject \<Rightarrow> with_error notFound (removeRepoGrant (repo_id (ra_repo a)) None (Some subject) (Some sid) d))))"

section \<open>Tags and images\<close>

record registry_env =
  re_lc :: "string \<Rightarrow> string \<Rightarrow> int"
  re_asc :: "string \<Rightarrow> string \<Rightarrow> int"
  re_registry :: registry
  re_created :: "db \<Rightarrow> string \<Rightarrow> string \<Rightarrow> millis option"
  re_fetch :: "db \<Rightarrow> string \<Rightarrow> string \<Rightarrow> (string \<times> string) option"

definition names_missing :: "admin_error \<Rightarrow> bool" where
  \<comment> \<open>\<open>/does not exist/i\<close> on the message\<close>
  "names_missing e = (case e of EImageMissing \<Rightarrow> True | ETagMissing _ \<Rightarrow> True | EInvalidTag m \<Rightarrow> includes_str (js_lower m) ''does not exist''
     | EProtected m \<Rightarrow> includes_str (js_lower m) ''does not exist'' | ERefused m \<Rightarrow> includes_str (js_lower m) ''does not exist''
     | ERefusedStatus _ m \<Rightarrow> includes_str (js_lower m) ''does not exist'' | ELatestStays _ m \<Rightarrow> includes_str (js_lower m) ''does not exist'' | _ \<Rightarrow> False)"

definition names_refusal :: "admin_error \<Rightarrow> bool" where
  \<comment> \<open>\<open>/immutable|refused/i\<close> on the message of a failed \<open>retag\<close>\<close>
  "names_refusal e = (case e of EImmutable _ _ _ \<Rightarrow> True | ERefused _ \<Rightarrow> True | ERefusedStatus _ _ \<Rightarrow> True
     | EInvalidTag m \<Rightarrow> includes_str (js_lower m) ''immutable'' \<or> includes_str (js_lower m) ''refused'' | _ \<Rightarrow> False)"

definition tags_PUT :: "api_env \<Rightarrow> registry_env \<Rightarrow> string \<Rightarrow> string \<Rightarrow> string \<Rightarrow> string \<Rightarrow> api_identity \<Rightarrow> world \<Rightarrow> api_failure option \<times> world" where
  "tags_PUT E R org repo tag text c w = (case loadRepo (fst w) c org repo of
       Inl f \<Rightarrow> (Some f, w)
     | Inr a \<Rightarrow> (case requireWrite c a ''retag images here'' of
         Some f \<Rightarrow> (Some f, w)
       | None \<Rightarrow> (case readJson E text of
           Inl f \<Rightarrow> (Some f, w)
         | Inr body \<Rightarrow> (case stringField body ''digest'' 200 of
             Inl f \<Rightarrow> (Some f, w)
           | Inr given \<Rightarrow>
             if \<not> truthy given then (Some (unprocessable (quoted ''digest'' @ '' is required: the sha256 digest of an image in this repository.'')), w)
             else (case requireDigest (the given) of
                 Inl f \<Rightarrow> (Some f, w)
               | Inr digest \<Rightarrow> (case retag (re_lc R) (re_registry R) (repo_id (ra_repo a)) tag digest (callerSubject (ai_caller c)) w of
                   (Inl e, w') \<Rightarrow> (Some (AdminFailure (if names_missing e then ''not_found'' else if names_refusal e then ''conflict'' else ''unprocessable'') e), w')
                 | (Inr _, w') \<Rightarrow> (None, w')))))))"

definition tags_DELETE :: "registry_env \<Rightarrow> string \<Rightarrow> string \<Rightarrow> string \<Rightarrow> bool \<Rightarrow> api_identity \<Rightarrow> world \<Rightarrow> api_failure option \<times> world" where
  "tags_DELETE R org repo tag keepLatest c w = (case loadRepo (fst w) c org repo of
       Inl f \<Rightarrow> (Some f, w)
     | Inr a \<Rightarrow> (case requireDelete c a ''delete tags here'' of
         Some f \<Rightarrow> (Some f, w)
       | None \<Rightarrow> (case deleteTag (re_lc R) (re_registry R) (re_created R) (re_fetch R) (repo_id (ra_repo a)) tag (callerSubject (ai_caller c)) (\<not> keepLatest) w of
           (Inl e, w') \<Rightarrow> (Some (AdminFailure (if names_missing e then ''not_found'' else ''conflict'') e), w')
         | (Inr _, w') \<Rightarrow> (None, w'))))"

definition manifests_DELETE :: "registry_env \<Rightarrow> string \<Rightarrow> string \<Rightarrow> string \<Rightarrow> api_identity \<Rightarrow> world \<Rightarrow> api_failure option \<times> world" where
  "manifests_DELETE R org repo digest c w = (case loadRepo (fst w) c org repo of
       Inl f \<Rightarrow> (Some f, w)
     | Inr a \<Rightarrow> (case requireDelete c a ''delete images here'' of
         Some f \<Rightarrow> (Some f, w)
       | None \<Rightarrow> (case requireDigest digest of
           Inl f \<Rightarrow> (Some f, w)
         | Inr dg \<Rightarrow> (case deleteManifestByDigest (re_lc R) (re_asc R) (re_registry R) (repo_id (ra_repo a)) dg (callerSubject (ai_caller c)) w of
             (Inl e, w') \<Rightarrow> (Some (AdminFailure (if names_missing e then ''not_found'' else ''conflict'') e), w')
           | (Inr _, w') \<Rightarrow> (None, w')))))"

section \<open>All endpoints together\<close>

datatype org_request =
    ApiRenameOrg string string | ApiDeleteOrg string | ApiSetRole string string string | ApiRemoveMember string string
  | ApiCreateTeam string string string | ApiUpdateTeam string string string | ApiDeleteTeam string string | ApiJoinTeam string string string | ApiPartTeam string string string
  | ApiInvite string string string | ApiCancelInvitation string string
  | ApiCreateAccount secret_material string string string | ApiDeleteAccount string string | ApiRotateAccount secret_material string string

fun org_endpoint :: "api_env \<Rightarrow> (string \<Rightarrow> js_date) \<Rightarrow> token_expiry_policy \<Rightarrow> millis \<Rightarrow> org_request \<Rightarrow> api_identity \<Rightarrow> db \<Rightarrow> api_failure option \<times> db" where
  \<comment> \<open>the routing of method and path to a handler\<close>
  "org_endpoint E pd pol now (ApiRenameOrg org text) c d = orgs_PATCH E org text c d"
| "org_endpoint E pd pol now (ApiDeleteOrg org) c d = orgs_DELETE org c d"
| "org_endpoint E pd pol now (ApiSetRole org user text) c d = members_PATCH E org user text c d"
| "org_endpoint E pd pol now (ApiRemoveMember org user) c d = members_DELETE org user c d"
| "org_endpoint E pd pol now (ApiCreateTeam newId org text) c d = teams_POST E newId now org text c d"
| "org_endpoint E pd pol now (ApiUpdateTeam org team text) c d = team_PATCH E org team text c d"
| "org_endpoint E pd pol now (ApiDeleteTeam org team) c d = team_DELETE org team c d"
| "org_endpoint E pd pol now (ApiJoinTeam org team user) c d = team_members_PUT now org team user c d"
| "org_endpoint E pd pol now (ApiPartTeam org team user) c d = team_members_DELETE org team user c d"
| "org_endpoint E pd pol now (ApiInvite newId org text) c d = invitations_POST E newId now org text c d"
| "org_endpoint E pd pol now (ApiCancelInvitation org i) c d = invitations_DELETE org i c d"
| "org_endpoint E pd pol now (ApiCreateAccount secret newId org text) c d = service_accounts_POST E pd pol secret newId now org text c d"
| "org_endpoint E pd pol now (ApiDeleteAccount org i) c d = service_account_DELETE org i c d"
| "org_endpoint E pd pol now (ApiRotateAccount secret org i) c d = rotate_POST pd pol secret now org i c d"

datatype repo_request =
    ApiCreateRepo string string string | ApiUpdateRepo string string string | ApiDeleteRepo string string
  | ApiGrant string string string string string string | ApiRevoke string string string string
  | ApiPutTag string string string string | ApiDeleteTag string string string bool | ApiDeleteImage string string string

definition on_db :: "(db \<Rightarrow> api_failure option \<times> db) \<Rightarrow> world \<Rightarrow> api_failure option \<times> world" where
  "on_db f w = (fst (f (fst w)), snd (f (fst w)), snd w)"

fun repo_endpoint :: "api_env \<Rightarrow> notify_env \<Rightarrow> registry_env \<Rightarrow> visibility option \<Rightarrow> millis \<Rightarrow> repo_request \<Rightarrow> api_identity \<Rightarrow> world \<Rightarrow> api_failure option \<times> world" where
  "repo_endpoint E N R mine now (ApiCreateRepo newId org text) c w = on_db (repos_POST E N mine newId now org text c) w"
| "repo_endpoint E N R mine now (ApiUpdateRepo org repo text) c w = on_db (repos_PATCH E N now org repo text c) w"
| "repo_endpoint E N R mine now (ApiDeleteRepo org repo) c w = on_db (repos_DELETE org repo c) w"
| "repo_endpoint E N R mine now (ApiGrant newId org repo st sid text) c w = on_db (access_PUT E newId now org repo st sid text c) w"
| "repo_endpoint E N R mine now (ApiRevoke org repo st sid) c w = on_db (access_DELETE org repo st sid c) w"
| "repo_endpoint E N R mine now (ApiPutTag org repo tag text) c w = tags_PUT E R org repo tag text c w"
| "repo_endpoint E N R mine now (ApiDeleteTag org repo tag keepLatest) c w = tags_DELETE R org repo tag keepLatest c w"
| "repo_endpoint E N R mine now (ApiDeleteImage org repo digest) c w = manifests_DELETE R org repo digest c w"

section \<open>Read-only tokens and repositories\<close>

lemma read_only_rights: "isReadOnlyToken c \<Longrightarrow> loadRepo d c org repo = Inr a \<Longrightarrow> \<not> ra_manage a \<and> \<not> ra_delete a \<and> \<not> ra_write a"
  by (cases "ai_caller c") (auto simp: isReadOnlyToken_def loadRepo_def user_rights_def Let_def split: option.splits prod.splits)

lemma read_only_refused:
  assumes "isReadOnlyToken c" and "loadRepo d c org repo = Inr a"
  shows "\<exists>f. requireManage c a what = Some f" and "\<exists>f. requireDelete c a what = Some f" and "\<exists>f. requireWrite c a what = Some f"
  using read_only_rights [OF assms] by (simp_all add: requireManage_def requireDelete_def requireWrite_def)

lemma stopped:
  assumes "isReadOnlyToken c" and "\<And>a. loadRepo d c org repo = Inr a \<Longrightarrow> \<exists>f. require a = Some f"
  shows "\<exists>f. (case loadRepo d c org repo of Inl f \<Rightarrow> (Some f, s) | Inr a \<Rightarrow> (case require a of Some f \<Rightarrow> (Some f, s) | None \<Rightarrow> k a)) = (Some f, s)"
proof (cases "loadRepo d c org repo")
  case (Inr a)
  then obtain f where "require a = Some f" using assms(2) by blast
  then show ?thesis using Inr by simp
qed simp

lemma on_db_stopped: "\<exists>f. h (fst w) = (Some f, fst w) \<Longrightarrow> \<exists>f. on_db h w = (Some f, w)"
  by (auto simp: on_db_def)

lemma read_only_writer: "isReadOnlyToken c \<Longrightarrow> \<exists>f. requireOrgWriter c a what = Some f"
  by (auto simp: requireOrgWriter_def)

text \<open>
  A read-only access token changes nothing in a repository: whatever the rights of its owner, every request that creates, changes or deletes a repository, its
  grants, its tags or its images is refused, leaves the database as it is and sends nothing to the registry.
\<close>

theorem read_only_token_reads:
  assumes "isReadOnlyToken c"
  shows "\<exists>f. repo_endpoint E N R mine now req c w = (Some f, w)"
proof (cases req)
  case (ApiCreateRepo newId org t)
  show ?thesis
  proof (cases "loadOrg (fst w) c org")
    case (Inr a)
    obtain f where "requireOrgWriter c a ''create repositories here'' = Some f" using read_only_writer [OF assms] by blast
    then show ?thesis using Inr by (simp add: ApiCreateRepo on_db_def repos_POST_def)
  qed (simp add: ApiCreateRepo on_db_def repos_POST_def)
next
  case (ApiUpdateRepo org repo t)
  show ?thesis unfolding ApiUpdateRepo repo_endpoint.simps
    by (rule on_db_stopped, unfold repos_PATCH_def, rule stopped [OF assms]) (rule read_only_refused(1) [OF assms])
next
  case (ApiDeleteRepo org repo)
  show ?thesis unfolding ApiDeleteRepo repo_endpoint.simps
    by (rule on_db_stopped, unfold repos_DELETE_def, rule stopped [OF assms]) (rule read_only_refused(1) [OF assms])
next
  case (ApiGrant newId org repo st sid t)
  show ?thesis unfolding ApiGrant repo_endpoint.simps
    by (rule on_db_stopped, unfold access_PUT_def, rule stopped [OF assms]) (rule read_only_refused(1) [OF assms])
next
  case (ApiRevoke org repo st sid)
  show ?thesis unfolding ApiRevoke repo_endpoint.simps
    by (rule on_db_stopped, unfold access_DELETE_def, rule stopped [OF assms]) (rule read_only_refused(1) [OF assms])
next
  case (ApiPutTag org repo tag t)
  show ?thesis unfolding ApiPutTag repo_endpoint.simps tags_PUT_def
    by (rule stopped [OF assms]) (rule read_only_refused(3) [OF assms])
next
  case (ApiDeleteTag org repo tag keepLatest)
  show ?thesis unfolding ApiDeleteTag repo_endpoint.simps tags_DELETE_def
    by (rule stopped [OF assms]) (rule read_only_refused(2) [OF assms])
next
  case (ApiDeleteImage org repo digest)
  show ?thesis unfolding ApiDeleteImage repo_endpoint.simps manifests_DELETE_def
    by (rule stopped [OF assms]) (rule read_only_refused(2) [OF assms])
qed

section \<open>Owners\<close>

definition owned :: "db \<Rightarrow> bool" where
  \<comment> \<open>member ids are a key, and every organization has an owner\<close>
  "owned d \<longleftrightarrow> distinct (map mem_id (db_members d)) \<and>
     (\<forall>g \<in> set (db_organizations d). \<exists>m \<in> set (db_members d). mem_organizationId m = org_id g \<and> mem_role m = ''owner'')"

lemma ownedD: "owned d \<Longrightarrow> g \<in> set (db_organizations d) \<Longrightarrow> \<exists>m \<in> set (db_members d). mem_organizationId m = org_id g \<and> mem_role m = ''owner''"
  and owned_ids: "owned d \<Longrightarrow> distinct (map mem_id (db_members d))"
  by (simp_all only: owned_def)

lemma owned_same: "owned d \<Longrightarrow> db_members d' = db_members d \<Longrightarrow> org_id ` set (db_organizations d') = org_id ` set (db_organizations d) \<Longrightarrow> owned d'"
proof -
  assume inv: "owned d" and members: "db_members d' = db_members d" and orgs: "org_id ` set (db_organizations d') = org_id ` set (db_organizations d)"
  have "\<exists>m \<in> set (db_members d). mem_organizationId m = org_id g \<and> mem_role m = ''owner''" if g: "g \<in> set (db_organizations d')" for g
  proof -
    have "org_id g \<in> org_id ` set (db_organizations d)" using orgs imageI [OF g, of org_id] by blast
    then obtain g' where "g' \<in> set (db_organizations d)" "org_id g = org_id g'" by blast
    then show ?thesis using ownedD [OF inv] by simp
  qed
  then show ?thesis using owned_ids [OF inv] unfolding owned_def members by blast
qed

lemma other_owner:
  assumes "distinct (map mem_id (db_members d))" and "m \<in> set (db_members d)" and "1 < ownerCount d g"
  shows "\<exists>m' \<in> set (db_members d). mem_id m' \<noteq> mem_id m \<and> mem_organizationId m' = g \<and> mem_role m' = ''owner''"
proof (rule ccontr)
  let ?os = "filter (\<lambda>x. mem_organizationId x = g \<and> mem_role x = ''owner'') (db_members d)"
  assume "\<not> ?thesis"
  then have "mem_id ` set ?os \<subseteq> {mem_id m}" by auto
  moreover have "distinct (map mem_id ?os)" using assms(1) by (rule distinct_map_filter)
  ultimately have "length ?os \<le> 1" using card_mono [of "{mem_id m}" "mem_id ` set ?os"] distinct_card [of "map mem_id ?os"] by simp
  then show False using assms(3) by (simp add: ownerCount_def)
qed

lemma owned_change:
  assumes "owned d" and "m \<in> set (db_members d)" and "mem_role m = ''owner'' \<longrightarrow> 1 < ownerCount d (mem_organizationId m)"
    and "distinct (map mem_id ms)" and "\<And>x. x \<in> set (db_members d) \<Longrightarrow> mem_id x \<noteq> mem_id m \<Longrightarrow> x \<in> set ms"
  shows "owned (d\<lparr>db_members := ms\<rparr>)"
proof -
  have "\<exists>x \<in> set ms. mem_organizationId x = org_id g \<and> mem_role x = ''owner''" if g: "g \<in> set (db_organizations d)" for g
  proof -
    obtain x where x: "x \<in> set (db_members d)" "mem_organizationId x = org_id g" "mem_role x = ''owner''" using ownedD [OF assms(1) g] by (elim bexE conjE)
    show ?thesis
    proof (cases "mem_id x = mem_id m")
      case True
      moreover have "inj_on mem_id (set (db_members d))" using owned_ids [OF assms(1)] by (simp add: distinct_map)
      ultimately have "x = m" using assms(2) x(1) by (blast dest: inj_onD)
      then have "1 < ownerCount d (org_id g)" using assms(3) x by simp
      from other_owner [OF owned_ids [OF assms(1)] assms(2) this] show ?thesis using assms(5) by blast
    qed (use x assms(5) in auto)
  qed
  then show ?thesis using assms(4) by (simp add: owned_def)
qed

lemma drop_repository_members: "db_members (drop_repository i d) = db_members d" "db_organizations (drop_repository i d) = db_organizations d"
  by (simp_all add: drop_repository_def)

lemma drop_repositories_members:
  "db_members (fold drop_repository is d) = db_members d" "db_organizations (fold drop_repository is d) = db_organizations d"
  by (induction "is" arbitrary: d) (simp_all add: drop_repository_members)

lemma owned_drop: "owned d \<Longrightarrow> owned (drop_organization g d)"
proof -
  assume inv: "owned d"
  let ?ms = "filter (\<lambda>x. mem_organizationId x \<noteq> g) (db_members d)"
  have rows: "db_members (drop_organization g d) = ?ms" "db_organizations (drop_organization g d) = filter (\<lambda>x. org_id x \<noteq> g) (db_organizations d)"
    by (simp_all add: drop_organization_def Let_def drop_repositories_members)
  have "\<exists>m \<in> set ?ms. mem_organizationId m = org_id x \<and> mem_role m = ''owner''" if x: "x \<in> set (db_organizations d)" "org_id x \<noteq> g" for x
  proof -
    obtain m where "m \<in> set (db_members d)" "mem_organizationId m = org_id x" "mem_role m = ''owner''" using ownedD [OF inv x(1)] by (elim bexE conjE)
    then show ?thesis using x(2) by auto
  qed
  moreover have "distinct (map mem_id ?ms)" using owned_ids [OF inv] by (rule distinct_map_filter)
  ultimately show ?thesis unfolding owned_def rows by simp
qed

lemma member_target_row: "member_target d a u = Inr m \<Longrightarrow> m \<in> set (db_members d) \<and> mem_organizationId m = org_id (oa_org a)"
  by (auto simp: member_target_def dest: find_SomeD split: option.splits)

lemma owned_set_role:
  assumes "owned d" and "member_target d a u = Inr m"
  shows "owned (snd (set_role d c a m role))"
proof (cases "snd (set_role d c a m role) = d")
  case False
  let ?ms = "map (\<lambda>x. if mem_id x = mem_id m then x\<lparr>mem_role := role\<rparr> else x) (db_members d)"
  have row: "m \<in> set (db_members d)" "mem_organizationId m = org_id (oa_org a)" using member_target_row [OF assms(2)] by simp_all
  have d': "snd (set_role d c a m role) = d\<lparr>db_members := ?ms\<rparr>" and some: "mem_role m = ''owner'' \<longrightarrow> role = ''owner'' \<or> 1 < ownerCount d (org_id (oa_org a))"
    using False by (auto simp: set_role_def split: if_splits)
  have "map mem_id ?ms = map mem_id (db_members d)" by simp
  then have "distinct (map mem_id ?ms)" using assms(1) unfolding owned_def by (simp only:)
  moreover have "x \<in> set ?ms" if "x \<in> set (db_members d)" "mem_id x \<noteq> mem_id m" for x using that by force
  moreover have "mem_role m = ''owner'' \<longrightarrow> 1 < ownerCount d (mem_organizationId m)" using some row False by (auto simp: set_role_def split: if_splits)
  ultimately show ?thesis unfolding d' using assms(1) row(1) by (intro owned_change)
qed (use assms in simp)

lemma owned_members_DELETE: "owned d \<Longrightarrow> owned (snd (members_DELETE org u c d))"
proof (cases "snd (members_DELETE org u c d) = d")
  case False
  assume inv: "owned d"
  obtain a m where m: "member_target d a u = Inr m" "mem_role m = ''owner'' \<longrightarrow> 1 < ownerCount d (org_id (oa_org a))"
    and d': "snd (members_DELETE org u c d) = d\<lparr>db_members := filter (\<lambda>x. mem_id x \<noteq> mem_id m) (db_members d)\<rparr>"
    using False by (auto simp: members_DELETE_def split: sum.splits option.splits if_splits)
  have "distinct (map mem_id (filter (\<lambda>x. mem_id x \<noteq> mem_id m) (db_members d)))" using owned_ids [OF inv] by (rule distinct_map_filter)
  then show ?thesis unfolding d' using inv member_target_row [OF m(1)] m(2) by (intro owned_change) auto
qed simp

lemma owned_members_PATCH: "owned d \<Longrightarrow> owned (snd (members_PATCH E org u body c d))"
  by (auto simp: members_PATCH_def intro: owned_set_role split: sum.split option.split)

definition keeps_members :: "db \<Rightarrow> db \<Rightarrow> bool" where
  "keeps_members d d' \<longleftrightarrow> db_members d' = db_members d \<and> map org_id (db_organizations d') = map org_id (db_organizations d)"

lemma keeps_refl: "keeps_members d d"
  by (simp add: keeps_members_def)

lemma keeps_owned: "owned d \<Longrightarrow> keeps_members d d' \<Longrightarrow> owned d'"
  unfolding keeps_members_def by (elim conjE, rule owned_same, assumption, assumption) (metis list.set_map)

lemma keeps_orgs_PATCH: "keeps_members d (snd (orgs_PATCH E org body c d))"
proof -
  have "map org_id (map (\<lambda>g. if org_id g = i then g\<lparr>org_name := n\<rparr> else g) gs) = map org_id gs" for i n gs by simp
  then show ?thesis by (simp add: orgs_PATCH_def keeps_members_def split: sum.split option.split)
qed

lemma keeps_on_team:
  "(\<And>a t. keeps_members d (snd (k a t))) \<Longrightarrow> keeps_members d (snd (on_team org team what c k d))"
  by (simp add: on_team_def keeps_refl split: sum.split option.split)

lemma keeps_team_ops:
  "keeps_members d (snd (createTeam newId now org name slug description actor d))"
  "keeps_members d (snd (updateTeam org teamId name' slug description d))"
  "keeps_members d (snd (deleteTeam org teamId d))"
  "keeps_members d (snd (addTeamMember now org teamId userId actor d))"
  "keeps_members d (snd (removeTeamMember org teamId userId d))"
  by (simp_all add: keeps_members_def createTeam_def updateTeam_def deleteTeam_def addTeamMember_def removeTeamMember_def Let_def
      split: sum.split option.split prod.split)

lemma keeps_teams:
  "keeps_members d (snd (teams_POST E newId now org body c d))" "keeps_members d (snd (team_PATCH E org team body c d))"
  "keeps_members d (snd (team_DELETE org team c d))" "keeps_members d (snd (team_members_PUT now org team user c d))"
  "keeps_members d (snd (team_members_DELETE org team user c d))"
  by (auto simp: teams_POST_def team_PATCH_def team_DELETE_def team_members_PUT_def team_members_DELETE_def with_error_def keeps_refl
      intro!: keeps_on_team keeps_team_ops split: sum.split option.split prod.split)

lemma keeps_invitations: "keeps_members d (snd (invitations_POST E newId now org body c d))" "keeps_members d (snd (invitations_DELETE org i c d))"
  by (simp_all add: invitations_POST_def invitations_DELETE_def Let_def keeps_members_def split: sum.split option.split)

lemma keeps_accounts:
  "keeps_members d (snd (service_accounts_POST E pd pol secret newId now org body c d))" "keeps_members d (snd (service_account_DELETE org i c d))"
  "keeps_members d (snd (rotate_POST pd pol secret now org i c d))"
  by (simp_all add: service_accounts_POST_def service_account_DELETE_def rotate_POST_def on_service_account_def Let_def keeps_members_def split: sum.split option.split)

lemma owned_endpoint: "owned d \<Longrightarrow> owned (snd (org_endpoint E pd pol now req c d))"
  by (cases req) (auto intro: owned_members_DELETE owned_members_PATCH keeps_owned [OF _ keeps_orgs_PATCH] keeps_owned [OF _ keeps_teams(1)] keeps_owned [OF _ keeps_teams(2)]
    keeps_owned [OF _ keeps_teams(3)] keeps_owned [OF _ keeps_teams(4)] keeps_owned [OF _ keeps_teams(5)] keeps_owned [OF _ keeps_invitations(1)]
    keeps_owned [OF _ keeps_invitations(2)] keeps_owned [OF _ keeps_accounts(1)] keeps_owned [OF _ keeps_accounts(2)] keeps_owned [OF _ keeps_accounts(3)]
    simp: orgs_DELETE_def owned_drop split: sum.split option.split)

inductive api_step :: "api_env \<Rightarrow> (string \<Rightarrow> js_date) \<Rightarrow> token_expiry_policy \<Rightarrow> db \<Rightarrow> db \<Rightarrow> bool" for E pd pol where
  request: "api_step E pd pol d (snd (org_endpoint E pd pol now req c d))"

inductive_cases api_stepE: "api_step E pd pol d d'"

interpretation api_runs: step_invariant "api_step E pd pol" owned for E pd pol
  by unfold_locales (auto elim!: api_stepE intro: owned_endpoint)

text \<open>
  C26. The API never leaves an organization without an owner: whatever sequence of requests on organizations, members, teams, invitations and service
  accounts anybody sends, every organization that still exists has a member with the role of owner.
\<close>

theorem api_keeps_owner:
  assumes "owned d" and "(api_step E pd pol)\<^sup>*\<^sup>* d d'" and "g \<in> set (db_organizations d')"
  shows "\<exists>m \<in> set (db_members d'). mem_organizationId m = org_id g \<and> mem_role m = ''owner''"
  using api_runs.along_run [OF assms(2,1)] assms(3) by (rule ownedD)

section \<open>Refused requests\<close>

definition error_keeps :: "db \<Rightarrow> (string + 'a) \<times> db \<Rightarrow> bool" where
  "error_keeps d r \<longleftrightarrow> (case fst r of Inl _ \<Rightarrow> snd r = d | Inr _ \<Rightarrow> True)"

lemma error_keeps_simps [simp]: "error_keeps d (Inl e, d)" "error_keeps d (Inr x, d')"
  by (simp_all add: error_keeps_def)

lemma refused_team_ops:
  "error_keeps d (createTeam newId now g name slug description actor d)" "error_keeps d (updateTeam g t name' slug description d)"
  "error_keeps d (deleteTeam g t d)" "error_keeps d (addTeamMember now g t u actor d)" "error_keeps d (removeTeamMember g t u d)"
  by (simp_all add: createTeam_def updateTeam_def deleteTeam_def addTeamMember_def removeTeamMember_def Let_def split: sum.split option.split prod.split)

definition all_or_nothing :: "db \<Rightarrow> api_failure option \<times> db \<Rightarrow> bool" where
  "all_or_nothing d r \<longleftrightarrow> fst r = None \<or> snd r = d"

lemma all_or_nothing_simps [simp]: "all_or_nothing d (Some f, d)" "all_or_nothing d (None, d')"
  by (simp_all add: all_or_nothing_def)

lemma all_or_nothing_with_error: "error_keeps d r \<Longrightarrow> all_or_nothing d (with_error f r)"
  by (simp add: all_or_nothing_def with_error_def error_keeps_def split: sum.splits)

lemma all_or_nothing_on_team: "(\<And>a t. all_or_nothing d (k a t)) \<Longrightarrow> all_or_nothing d (on_team org team what c k d)"
  by (simp add: on_team_def split: sum.split option.split)

lemma all_or_nothing_on_account: "(\<And>s. all_or_nothing d (k s)) \<Longrightarrow> all_or_nothing d (on_service_account org i what c k d)"
  by (simp add: on_service_account_def split: sum.split option.split)

lemma all_or_nothing_set_role: "all_or_nothing d (set_role d c a m role)"
  by (simp add: set_role_def all_or_nothing_def)

lemma all_or_nothing_orgs: "all_or_nothing d (orgs_PATCH E org body c d)" "all_or_nothing d (orgs_DELETE org c d)"
  "all_or_nothing d (members_PATCH E org u body c d)" "all_or_nothing d (members_DELETE org u c d)"
  by (simp_all add: orgs_PATCH_def orgs_DELETE_def members_PATCH_def members_DELETE_def all_or_nothing_set_role all_or_nothing_def [of d "(requireOwnerFor _ _ _, d)"]
      split: sum.split option.split)

lemma all_or_nothing_teams: "all_or_nothing d (teams_POST E newId now org body c d)" "all_or_nothing d (team_PATCH E org team body c d)"
  "all_or_nothing d (team_DELETE org team c d)" "all_or_nothing d (team_members_PUT now org team u c d)" "all_or_nothing d (team_members_DELETE org team u c d)"
  by (auto simp: teams_POST_def team_PATCH_def team_DELETE_def team_members_PUT_def team_members_DELETE_def
      intro!: all_or_nothing_on_team all_or_nothing_with_error refused_team_ops split: sum.split option.split prod.split)

lemma all_or_nothing_invitations: "all_or_nothing d (invitations_POST E newId now org body c d)" "all_or_nothing d (invitations_DELETE org i c d)"
  by (simp_all add: invitations_POST_def invitations_DELETE_def Let_def split: sum.split option.split)

lemma all_or_nothing_accounts: "all_or_nothing d (service_accounts_POST E pd pol secret newId now org body c d)"
  "all_or_nothing d (service_account_DELETE org i c d)" "all_or_nothing d (rotate_POST pd pol secret now org i c d)"
  by (auto simp: service_accounts_POST_def service_account_DELETE_def rotate_POST_def Let_def intro!: all_or_nothing_on_account split: sum.split option.split)

lemmas all_or_nothing_all = all_or_nothing_orgs all_or_nothing_teams all_or_nothing_invitations all_or_nothing_accounts

text \<open>
  C35. A request that is answered with an error has changed nothing: for every endpoint on organizations, members, teams, invitations and service accounts, whatever the
  body and the caller, an error of any kind leaves the database exactly as it was.
\<close>

theorem refused_changes_nothing:
  assumes "fst (org_endpoint E pd pol now req c d) = Some f"
  shows "snd (org_endpoint E pd pol now req c d) = d"
proof -
  have "all_or_nothing d (org_endpoint E pd pol now req c d)" by (cases req) (simp_all only: org_endpoint.simps all_or_nothing_all)
  with assms show ?thesis by (simp add: all_or_nothing_def)
qed

section \<open>Examples\<close>

definition api_example_policy :: token_expiry_policy where
  "api_example_policy = \<lparr>maxTokenLifetimeDays = 0, requireTokenExpiry = False\<rparr>"

definition api_example_registry :: registry_env where
  "api_example_registry = \<lparr>re_lc = (\<lambda>a b. 0), re_asc = (\<lambda>a b. 0), re_registry = (\<lambda>q d. (\<lparr>res_status = 202, res_message = []\<rparr>, d)), re_created = (\<lambda>d p g. None),
     re_fetch = (\<lambda>d p g. None)\<rparr>"

theorem read_only_token_reads_witness:
  "snd (repo_endpoint api_example_env notify_example_env api_example_registry None 9 (ApiDeleteRepo ''acme'' ''app'') api_example_reader (api_example_db, [])) = (api_example_db, [])"
proof -
  have "isReadOnlyToken api_example_reader" by code_simp
  then show ?thesis
    using read_only_token_reads [of api_example_reader api_example_env notify_example_env api_example_registry None 9 "ApiDeleteRepo ''acme'' ''app''" "(api_example_db, [])"]
    by auto
qed

theorem api_keeps_owner_witness:
  "\<exists>m \<in> set (db_members (snd (members_DELETE ''acme'' ''u'' api_example_owner api_example_db))). mem_organizationId m = org_id hook_example_org \<and> mem_role m = ''owner''"
proof -
  have inv: "owned api_example_db" by code_simp
  have "api_step api_example_env (\<lambda>s. None) api_example_policy api_example_db (snd (members_DELETE ''acme'' ''u'' api_example_owner api_example_db))"
    using api_step.request [where req = "ApiRemoveMember ''acme'' ''u''" and c = api_example_owner and d = api_example_db] by simp
  then have run: "(api_step api_example_env (\<lambda>s. None) api_example_policy)\<^sup>*\<^sup>* api_example_db (snd (members_DELETE ''acme'' ''u'' api_example_owner api_example_db))" by blast
  have "hook_example_org \<in> set (db_organizations (snd (members_DELETE ''acme'' ''u'' api_example_owner api_example_db)))" by code_simp
  with api_keeps_owner [OF inv run] show ?thesis by blast
qed

theorem refused_changes_nothing_witness:
  "snd (org_endpoint api_example_env (\<lambda>s. None) api_example_policy 9 (ApiRemoveMember ''acme'' ''u'') api_example_owner api_example_db) = api_example_db"
proof -
  have "fst (org_endpoint api_example_env (\<lambda>s. None) api_example_policy 9 (ApiRemoveMember ''acme'' ''u'') api_example_owner api_example_db) = Some (conflict last_owner)" by code_simp
  then show ?thesis by (rule refused_changes_nothing)
qed

text \<open>
  What \<open>requireOrgManager\<close> leaves open. A read-only access token of an owner deletes the organization with everything in it, and creates a service account with the
  permission to administrate, whose secret the answer contains.
\<close>

definition api_admin_env :: api_env where
  "api_admin_env = api_example_env\<lparr>ae_parse := (\<lambda>t. Inr (JObj [(''name'', JStr ''bot''), (''permission'', JStr ''admin'')]))\<rparr>"

lemma read_only_token_deletes_organization:
  "isReadOnlyToken api_example_reader \<and> fst (orgs_DELETE ''acme'' api_example_reader api_example_db) = None \<and>
   db_organizations (snd (orgs_DELETE ''acme'' api_example_reader api_example_db)) = [] \<and> db_repositories (snd (orgs_DELETE ''acme'' api_example_reader api_example_db)) = []"
  by code_simp

lemma read_only_token_creates_admin:
  "map sa_permission (db_serviceAccounts (snd (service_accounts_POST api_admin_env (\<lambda>s. None) api_example_policy \<lparr>sec_hash = ''h'', sec_display = ''d''\<rparr> ''s'' 9 ''acme'' ''{}''
     api_example_reader api_example_db))) = [PAdmin]"
  by code_simp

definition api_team_db :: db where
  \<comment> \<open>a second member, in a team\<close>
  "api_team_db = api_example_db\<lparr>db_members := db_members api_example_db @ [\<lparr>mem_id = ''n'', mem_organizationId = ''o'', mem_userId = ''v'', mem_role = ''member'', mem_createdAt = 0\<rparr>],
     db_users := db_users api_example_db @ [(hd (db_users api_example_db))\<lparr>u_id := ''v''\<rparr>],
     db_teams := [\<lparr>team_id = ''t'', team_organizationId = ''o'', team_slug = ''dev'', team_name = ''dev'', team_description = [], team_createdBy = None, team_createdAt = 0\<rparr>],
     db_teamMembers := [\<lparr>tm_teamId = ''t'', tm_userId = ''v'', tm_addedBy = None, tm_createdAt = 0\<rparr>]\<rparr>"

lemma api_removal_keeps_team_seat:
  \<comment> \<open>unlike a removal on the pages, the endpoint leaves the team seats and the grants of the member\<close>
  "access_inv api_team_db \<and> fst (members_DELETE ''acme'' ''v'' api_example_owner api_team_db) = None \<and> \<not> access_inv (snd (members_DELETE ''acme'' ''v'' api_example_owner api_team_db))"
  unfolding access_inv_def by code_simp

end
